(* ===== verification/LogMQ_Prelude.thy ===== *)
theory LogMQ_Prelude
  imports Main "HOL-Library.Word"
begin

text \<open>
  Shared vocabulary of the LogMQ development.

  \<^item> Bytes. \<^verbatim>\<open>std::byte\<close> and \<^verbatim>\<open>char\<close> are both one octet in the
    source and are freely reinterpreted into each other
    (\<^verbatim>\<open>reinterpret_cast<const std::byte*>(value.data())\<close>). HOL's
    type \<^typ>\<open>char\<close> is exactly one octet, so it models both: a
    \<^verbatim>\<open>std::string\<close> and a \<^verbatim>\<open>std::vector<std::byte>\<close> are lists
    of it and the cast is the identity. Reading a byte as a number is
    \<open>from_byte\<close>, narrowing a number to a byte is \<open>to_byte\<close>.
  \<^item> Machine integers. Unsigned integers are words of their width. Signed 32 and
    64 bit values (partition ids, generations, offsets) are \<^typ>\<open>int\<close>; every cast
    between them and an unsigned type is written out with \<open>word_of_int\<close> and
    \<open>sint\<close>. Container sizes (\<^verbatim>\<open>std::size_t\<close> lengths of vectors that
    are in memory) are \<^typ>\<open>nat\<close>.
  \<^item> Bits of words, the lemma library for the two byte orders, and generic lemmas
    on lists that several components share.
\<close>

unbundle bit_operations_syntax

named_theorems result_simps \<open>how computations on results compose\<close>
named_theorems reader_simps \<open>reading back what was appended to a buffer\<close>
named_theorems append_simps \<open>what the append functions add to a buffer\<close>

type_synonym byte = char
type_synonym u8 = "8 word"
type_synonym u16 = "16 word"
type_synonym u32 = "32 word"
type_synonym u64 = "64 word"

section \<open>Limits of the machine types\<close>

text \<open>\<^verbatim>\<open>std::numeric_limits<T>::max()\<close> for the types the source asks it of.\<close>

abbreviation u32_max :: nat where "u32_max \<equiv> 4294967295"
abbreviation u64_max :: nat where "u64_max \<equiv> 18446744073709551615"
abbreviation i32_max :: int where "i32_max \<equiv> 2147483647"
abbreviation i64_max :: int where "i64_max \<equiv> 9223372036854775807"

definition is_i32 :: "int \<Rightarrow> bool" where
  "is_i32 i \<longleftrightarrow> - 2147483648 \<le> i \<and> i \<le> i32_max"

definition is_i64 :: "int \<Rightarrow> bool" where
  "is_i64 i \<longleftrightarrow> - 9223372036854775808 \<le> i \<and> i \<le> i64_max"

lemma is_i32_nonneg: "is_i32 i \<Longrightarrow> 0 \<le> i \<Longrightarrow> i < 2 ^ 31"
  by (simp add: is_i32_def)

lemma is_i64_nonneg: "is_i64 i \<Longrightarrow> 0 \<le> i \<Longrightarrow> i < 2 ^ 63"
  by (simp add: is_i64_def)

text \<open>The cast of a signed value to the unsigned type of its width and back.\<close>

lemma sint_word_of_int_i64 [simp]: "is_i64 i \<Longrightarrow> sint (word_of_int i :: u64) = i"
  by (simp add: is_i64_def signed_of_int signed_take_bit_int_eq_self)

lemma sint_word_of_int_i32 [simp]: "is_i32 i \<Longrightarrow> sint (word_of_int i :: u32) = i"
  by (simp add: is_i32_def signed_of_int signed_take_bit_int_eq_self)

lemma uint_word_of_int_i64 [simp]: "0 \<le> i \<Longrightarrow> is_i64 i \<Longrightarrow> uint (word_of_int i :: u64) = i"
  by (simp add: is_i64_def unsigned_of_int take_bit_int_eq_self)

lemma uint_word_of_int_i32 [simp]: "0 \<le> i \<Longrightarrow> is_i32 i \<Longrightarrow> uint (word_of_int i :: u32) = i"
  by (simp add: is_i32_def unsigned_of_int take_bit_int_eq_self)

lemma unat_of_nat_u32 [simp]: "n \<le> u32_max \<Longrightarrow> unat (word_of_nat n :: u32) = n"
  by (simp add: unsigned_of_nat take_bit_nat_eq_self)

lemma unat_of_nat_u64 [simp]: "n \<le> u64_max \<Longrightarrow> unat (word_of_nat n :: u64) = n"
  by (simp add: unsigned_of_nat take_bit_nat_eq_self)

section \<open>Bytes and words\<close>

definition to_byte :: "'a::len word \<Rightarrow> byte" where
  "to_byte w = char_of (unat (w AND 0xFF))"

definition from_byte :: "byte \<Rightarrow> 'a::len word" where
  "from_byte b = word_of_nat (of_char b)"

lemma and_255: "w AND 0xFF = take_bit 8 (w :: 'a::len word)"
proof -
  have "mask 8 = (0xFF :: 'a word)" by (simp add: mask_eq_exp_minus_1)
  then show ?thesis by (metis take_bit_eq_mask)
qed

lemma unat_and_255: "unat (w AND 0xFF) < 256"
proof -
  have "unat (take_bit 8 w) = take_bit 8 (unat w)" by (simp add: unsigned_take_bit_eq)
  then show ?thesis by (simp add: and_255 take_bit_nat_less_exp [of 8, simplified])
qed

lemma from_to_byte: "from_byte (to_byte w) = take_bit 8 w"
proof -
  have "of_char (char_of (unat (w AND 0xFF))) = unat (w AND 0xFF)"
    using unat_and_255 [of w] by simp
  then show ?thesis by (simp add: from_byte_def to_byte_def and_255)
qed

lemma of_char_less_256: "of_char c < (256::nat)"
  using nat_of_char_less_256 by simp

lemma unat_from_byte: "8 \<le> LENGTH('a::len) \<Longrightarrow> unat (from_byte b :: 'a word) = of_char b"
proof -
  assume "8 \<le> LENGTH('a)"
  then have "(2::nat) ^ 8 \<le> 2 ^ LENGTH('a)" by (rule power_increasing) simp
  then have "of_char b < (2::nat) ^ LENGTH('a)"
    using less_le_trans [OF of_char_less_256 [of b]] by simp
  then show ?thesis by (simp add: from_byte_def unsigned_of_nat take_bit_nat_eq_self)
qed

lemma take_bit_8_from_byte:
  "8 \<le> LENGTH('a::len) \<Longrightarrow> take_bit 8 (from_byte b :: 'a word) = from_byte b"
proof -
  assume n: "8 \<le> LENGTH('a)"
  have "unat (take_bit 8 (from_byte b :: 'a word)) = unat (from_byte b :: 'a word)"
    using of_char_less_256 [of b]
    by (simp add: unsigned_take_bit_eq unat_from_byte [OF n] take_bit_nat_eq_self)
  then show ?thesis by (rule unsigned_word_eqI)
qed

lemma to_from_byte [simp]: "8 \<le> LENGTH('a::len) \<Longrightarrow> to_byte (from_byte b :: 'a word) = b"
  by (simp add: to_byte_def and_255 take_bit_8_from_byte unat_from_byte)

lemma to_byte_take_bit: "to_byte (take_bit 8 w) = to_byte w"
  by (simp add: to_byte_def and_255)

lemma from_byte_inj:
  "8 \<le> LENGTH('a::len) \<Longrightarrow> (from_byte a :: 'a word) = from_byte b \<Longrightarrow> a = b"
  by (metis to_from_byte)

lemma bit_from_to_byte:
  "bit (from_byte (to_byte w) :: 'a::len word) k \<longleftrightarrow> k < 8 \<and> bit (w :: 'a word) k"
  by (simp add: from_to_byte bit_take_bit_iff)

lemma bit_from_byte: "8 \<le> LENGTH('a::len) \<Longrightarrow> bit (from_byte b :: 'a word) k \<Longrightarrow> k < 8"
  by (metis bit_take_bit_iff take_bit_8_from_byte)

section \<open>Generic list lemmas\<close>

lemma nth_append_drop: "length pre = n \<Longrightarrow> (pre @ xs) ! (n + i) = xs ! i"
  by (simp add: nth_append)

lemma take_drop_append3: "take (length b) (drop (length a) (a @ b @ c)) = b"
  by simp

lemma take_length_take: "take (length (take k ys)) ys = take k ys"
  by (cases "k \<le> length ys") (simp_all add: min_absorb1)

lemma concat_map_snoc [simp]: "concat (map f (xs @ [x])) = concat (map f xs) @ f x"
  by simp

lemma map_upt_eqI: "(\<And>i. i < n \<Longrightarrow> f i = g i) \<Longrightarrow> map f [0..<n] = map g [0..<n]"
  by simp

end
