(* ===== verification/BaseStatus.thy ===== *)
theory BaseStatus
  imports LogMQ_Prelude
begin

text \<open>
  Models \<^verbatim>\<open>include/logmq/base/status.h\<close>, \<^verbatim>\<open>src/base/status.cpp\<close> and
  \<^verbatim>\<open>include/logmq/base/result.h\<close>: error codes, the status value that every fallible
  operation of the broker returns, and the \<^verbatim>\<open>Result\<close> sum.
  \<^verbatim>\<open>Result<T>\<close> is a variant of a value and a status, here \<open>Inr\<close> and \<open>Inl\<close>.
  The pattern \<^verbatim>\<open>if (!x.ok()) return x.status();\<close> is \<open>rbind\<close>, and
  \<^verbatim>\<open>if (!status.ok()) return status;\<close> is \<open>rcheck\<close>.
\<close>

section \<open>Error codes and statuses\<close>

datatype ErrorCode =
    kOk
  | kInvalidArgument
  | kNotFound
  | kIoError
  | kCorruption
  | kTimeout
  | kNotLeader
  | kInternal

record Status =
  st_code :: ErrorCode
  st_message :: string

definition Status_Ok :: Status where
  "Status_Ok = \<lparr>st_code = kOk, st_message = []\<rparr>"

definition InvalidArgument :: "string \<Rightarrow> Status" where
  "InvalidArgument m = \<lparr>st_code = kInvalidArgument, st_message = m\<rparr>"

definition NotFound :: "string \<Rightarrow> Status" where
  "NotFound m = \<lparr>st_code = kNotFound, st_message = m\<rparr>"

definition IoError :: "string \<Rightarrow> Status" where
  "IoError m = \<lparr>st_code = kIoError, st_message = m\<rparr>"

definition Corruption :: "string \<Rightarrow> Status" where
  "Corruption m = \<lparr>st_code = kCorruption, st_message = m\<rparr>"

definition Timeout :: "string \<Rightarrow> Status" where
  "Timeout m = \<lparr>st_code = kTimeout, st_message = m\<rparr>"

definition NotLeader :: "string \<Rightarrow> Status" where
  "NotLeader m = \<lparr>st_code = kNotLeader, st_message = m\<rparr>"

definition Internal :: "string \<Rightarrow> Status" where
  "Internal m = \<lparr>st_code = kInternal, st_message = m\<rparr>"

definition Status_ok :: "Status \<Rightarrow> bool" where
  "Status_ok s \<longleftrightarrow> st_code s = kOk"

definition ErrorCodeName :: "ErrorCode \<Rightarrow> string" where
  "ErrorCodeName c = (case c of
       kOk \<Rightarrow> ''OK''
     | kInvalidArgument \<Rightarrow> ''InvalidArgument''
     | kNotFound \<Rightarrow> ''NotFound''
     | kIoError \<Rightarrow> ''IoError''
     | kCorruption \<Rightarrow> ''Corruption''
     | kTimeout \<Rightarrow> ''Timeout''
     | kNotLeader \<Rightarrow> ''NotLeader''
     | kInternal \<Rightarrow> ''Internal'')"

definition Status_ToString :: "Status \<Rightarrow> string" where
  "Status_ToString s =
     (if Status_ok s then ''OK''
      else if st_message s \<noteq> [] then ErrorCodeName (st_code s) @ '': '' @ st_message s
      else ErrorCodeName (st_code s))"

lemmas status_defs = Status_Ok_def InvalidArgument_def NotFound_def IoError_def
  Corruption_def Timeout_def NotLeader_def Internal_def

lemma Status_ok_Ok [simp]: "Status_ok Status_Ok"
  by (simp add: Status_ok_def Status_Ok_def)

lemma Status_ok_errors [simp]:
  "\<not> Status_ok (InvalidArgument m)" "\<not> Status_ok (NotFound m)" "\<not> Status_ok (IoError m)"
  "\<not> Status_ok (Corruption m)" "\<not> Status_ok (Timeout m)" "\<not> Status_ok (NotLeader m)"
  "\<not> Status_ok (Internal m)"
  by (simp_all add: Status_ok_def status_defs)

lemma st_code_simps [simp]:
  "st_code Status_Ok = kOk"
  "st_code (InvalidArgument m) = kInvalidArgument" "st_code (NotFound m) = kNotFound"
  "st_code (IoError m) = kIoError" "st_code (Corruption m) = kCorruption"
  "st_code (Timeout m) = kTimeout" "st_code (NotLeader m) = kNotLeader"
  "st_code (Internal m) = kInternal"
  by (simp_all add: status_defs)

lemma st_message_simps [simp]:
  "st_message (InvalidArgument m) = m" "st_message (NotFound m) = m"
  "st_message (IoError m) = m" "st_message (Corruption m) = m"
  "st_message (Timeout m) = m" "st_message (NotLeader m) = m" "st_message (Internal m) = m"
  by (simp_all add: status_defs)

section \<open>Results\<close>

type_synonym 'a Result = "Status + 'a"

definition rbind :: "'a Result \<Rightarrow> ('a \<Rightarrow> 'b Result) \<Rightarrow> 'b Result" where
  "rbind m f = (case m of Inl s \<Rightarrow> Inl s | Inr v \<Rightarrow> f v)"

definition rcheck :: "Status \<Rightarrow> 'b Result \<Rightarrow> 'b Result" where
  "rcheck s k = (if Status_ok s then k else Inl s)"

definition Result_ok :: "'a Result \<Rightarrow> bool" where
  "Result_ok r = (case r of Inl _ \<Rightarrow> False | Inr _ \<Rightarrow> True)"

definition Result_status :: "'a Result \<Rightarrow> Status" where
  "Result_status r = (case r of Inl s \<Rightarrow> s | Inr _ \<Rightarrow> Status_Ok)"

lemma rbind_simps [simp, result_simps]:
  "rbind (Inl s) f = Inl s" "rbind (Inr v) f = f v"
  by (simp_all add: rbind_def)

lemma rcheck_simps [simp, result_simps]:
  "rcheck Status_Ok k = k" "\<not> Status_ok s \<Longrightarrow> rcheck s k = Inl s" "Status_ok s \<Longrightarrow> rcheck s k = k"
  by (simp_all add: rcheck_def)

lemma Result_ok_simps [simp]: "\<not> Result_ok (Inl s)" "Result_ok (Inr v)"
  by (simp_all add: Result_ok_def)

lemma Result_status_simps [simp]: "Result_status (Inl s) = s" "Result_status (Inr v) = Status_Ok"
  by (simp_all add: Result_status_def)

lemma rbind_InrE:
  assumes "rbind m f = Inr y"
  obtains x where "m = Inr x" "f x = Inr y"
  using assms by (cases m) auto

lemma rcheck_InrE:
  assumes "rcheck s k = Inr y"
  obtains "Status_ok s" "k = Inr y"
  using assms by (cases "Status_ok s") auto

lemma rbind_Inr_iff: "rbind m f = Inr y \<longleftrightarrow> (\<exists>x. m = Inr x \<and> f x = Inr y)"
  by (cases m) auto

lemma rbind_cong [fundef_cong]:
  "m = m' \<Longrightarrow> (\<And>x. m' = Inr x \<Longrightarrow> f x = f' x) \<Longrightarrow> rbind m f = rbind m' f'"
  by (cases m') auto

section \<open>Results of operations with state\<close>

text \<open>
  An operation that reads and changes a state of type \<open>'s\<close> is a function from the state
  to a result and the new state; the state after a failure is kept, since the source's
  effects up to the failing call have happened. An operation whose C++ signature returns
  a bare \<^verbatim>\<open>Status\<close> returns a result of type \<^typ>\<open>unit\<close> here: \<open>Inr ()\<close> is
  \<^verbatim>\<open>Status::Ok()\<close>.
\<close>

definition sbind ::
  "('s \<Rightarrow> 'a Result \<times> 's) \<Rightarrow> ('a \<Rightarrow> 's \<Rightarrow> 'b Result \<times> 's) \<Rightarrow> 's \<Rightarrow> 'b Result \<times> 's" where
  "sbind m f s = (case m s of (Inl e, s') \<Rightarrow> (Inl e, s') | (Inr v, s') \<Rightarrow> f v s')"

definition sreturn :: "'a \<Rightarrow> 's \<Rightarrow> 'a Result \<times> 's" where
  "sreturn v s = (Inr v, s)"

definition sfail :: "Status \<Rightarrow> 's \<Rightarrow> 'a Result \<times> 's" where
  "sfail e s = (Inl e, s)"

lemma sbind_simps [simp, result_simps]:
  "m s = (Inl e, s') \<Longrightarrow> sbind m f s = (Inl e, s')"
  "m s = (Inr v, s') \<Longrightarrow> sbind m f s = f v s'"
  by (simp_all add: sbind_def)

lemma sreturn_eq [simp, result_simps]: "sreturn v s = (Inr v, s)"
  by (simp add: sreturn_def)

lemma sfail_eq [simp, result_simps]: "sfail e s = (Inl e, s)"
  by (simp add: sfail_def)

lemma sbind_InrE:
  assumes "sbind m f s = (Inr y, t)"
  obtains x s' where "m s = (Inr x, s')" "f x s' = (Inr y, t)"
  using assms by (auto simp: sbind_def split: prod.splits sum.splits)

lemma sbind_casesE:
  assumes "sbind m f s = (r, t)"
  obtains (err) e where "m s = (Inl e, t)" "r = Inl e"
    | (val) x s' where "m s = (Inr x, s')" "f x s' = (r, t)"
  using assms by (auto simp: sbind_def split: prod.splits sum.splits)

end
