(* ===== verification/Crc32.thy ===== *)
theory Crc32
  imports Endian
begin

text \<open>
  Models \<^verbatim>\<open>src/storage/crc32.cpp\<close>, the bitwise CRC-32 over a byte span, and states
  what the storage format needs of it as the interface \<open>byte_hash\<close>: a hash that folds a
  step over the bytes in which no step merges two states or two bytes. Every such hash
  detects the corruption of any single byte.
\<close>

section \<open>The interface of a byte-serial hash\<close>

locale byte_hash =
  fixes hstep :: "'s \<Rightarrow> byte \<Rightarrow> 's"
  assumes hstep_state: "hstep s b = hstep s' b \<Longrightarrow> s = s'"
    and hstep_byte: "hstep s b = hstep s b' \<Longrightarrow> b = b'"
begin

lemma foldl_state_inj: "foldl hstep s xs = foldl hstep s' xs \<Longrightarrow> s = s'"
  by (induction xs arbitrary: s s') (auto dest: hstep_state)

lemma one_byte_detected:
  assumes "foldl hstep s (xs @ a # ys) = foldl hstep s (xs @ b # ys)"
  shows "a = b"
proof -
  from assms have "hstep (foldl hstep s xs) a = hstep (foldl hstep s xs) b"
    by (auto dest: foldl_state_inj)
  then show ?thesis by (rule hstep_byte)
qed

lemma list_update_detected:
  assumes "i < length xs" and "foldl hstep s (xs[i := b]) = foldl hstep s xs"
  shows "b = xs ! i"
proof -
  have "xs = take i xs @ xs ! i # drop (Suc i) xs"
    using assms(1) by (rule id_take_nth_drop)
  moreover have "xs[i := b] = take i xs @ b # drop (Suc i) xs"
    using assms(1) by (rule upd_conv_take_nth_drop)
  ultimately show ?thesis using assms(2) one_byte_detected by metis
qed

end

section \<open>The code\<close>

definition crc_bit :: "u32 \<Rightarrow> u32" where
  "crc_bit crc =
     (let mask = 0 - (crc AND 1)
      in drop_bit 1 crc XOR (0xEDB88320 AND mask))"

definition crc_byte :: "u32 \<Rightarrow> byte \<Rightarrow> u32" where
  "crc_byte crc b = (crc_bit ^^ 8) (crc XOR from_byte b)"

definition Crc32 :: "byte list \<Rightarrow> u32" where
  "Crc32 data = foldl crc_byte 0xFFFFFFFF data XOR 0xFFFFFFFF"

lemma xor_cancel [simp]:
  "a XOR c = b XOR c \<longleftrightarrow> a = b" "c XOR a = c XOR b \<longleftrightarrow> a = (b :: 'a::len word)"
  by (metis xor.assoc xor.commute xor_self_eq xor.right_neutral)+

section \<open>The mask trick is a conditional\<close>

lemma crc_bit_cond:
  "crc_bit crc = (if odd crc then drop_bit 1 crc XOR 0xEDB88320 else drop_bit 1 crc)"
proof (cases "odd crc")
  case True
  then have "crc AND 1 = 1" by (simp add: and_one_eq mod_2_eq_odd)
  with True show ?thesis by (simp add: crc_bit_def)
next
  case False
  then have "crc AND 1 = 0" by (simp add: and_one_eq mod_2_eq_odd)
  with False show ?thesis by (simp add: crc_bit_def)
qed

text \<open>The top bit of a step's result is the bit that was shifted out.\<close>

lemma crc_bit_top: "bit (crc_bit crc) 31 \<longleftrightarrow> odd crc"
proof -
  have "\<not> bit (drop_bit 1 crc) 31"
    by (simp add: bit_drop_bit_eq) (use bit_imp_le_length [of crc 32] in auto)
  moreover have "bit (0xEDB88320 :: u32) 31" by simp
  ultimately show ?thesis by (simp add: crc_bit_cond bit_xor_iff)
qed

lemma crc_bit_inj: "crc_bit a = crc_bit b \<Longrightarrow> a = b"
proof -
  assume eq: "crc_bit a = crc_bit b"
  then have par: "odd a = odd b" by (metis crc_bit_top)
  with eq have half: "drop_bit 1 a = drop_bit 1 b"
    by (auto simp: crc_bit_cond split: if_splits)
  show ?thesis
  proof (rule bit_word_eqI)
    fix k assume "k < LENGTH(32)"
    show "bit a k = bit b k"
    proof (cases k)
      case 0
      with par show ?thesis by (simp add: bit_0)
    next
      case (Suc j)
      with half show ?thesis by (metis bit_drop_bit_eq comp_apply plus_1_eq_Suc)
    qed
  qed
qed

lemma crc_bits_inj: "(crc_bit ^^ n) a = (crc_bit ^^ n) b \<Longrightarrow> a = b"
  by (induction n arbitrary: a b) (auto dest: crc_bit_inj)

interpretation crc: byte_hash crc_byte
proof
  fix s s' :: u32 and b :: byte
  assume "crc_byte s b = crc_byte s' b"
  then have "s XOR from_byte b = s' XOR from_byte b"
    unfolding crc_byte_def by (rule crc_bits_inj)
  then show "s = s'" by simp
next
  fix s :: u32 and b b' :: byte
  assume "crc_byte s b = crc_byte s b'"
  then have "s XOR from_byte b = s XOR from_byte b'"
    unfolding crc_byte_def by (rule crc_bits_inj)
  then have "(from_byte b :: u32) = from_byte b'" by simp
  then show "b = b'" by (rule from_byte_inj [rotated]) simp
qed

lemma Crc32_eq_iff: "Crc32 xs = Crc32 ys \<longleftrightarrow> foldl crc_byte 0xFFFFFFFF xs = foldl crc_byte 0xFFFFFFFF ys"
  by (simp add: Crc32_def)

lemma Crc32_list_update: "i < length xs \<Longrightarrow> Crc32 (xs[i := b]) = Crc32 xs \<longleftrightarrow> b = xs ! i"
  using crc.list_update_detected [of i xs _ b] by (auto simp: Crc32_eq_iff)

end
