(* ===== verification/LogRecord.thy ===== *)
theory LogRecord
  imports Crc32
begin

text \<open>
  Models \<^verbatim>\<open>include/logmq/storage/record.h\<close> and \<^verbatim>\<open>src/storage/record.cpp\<close>:
  one key-value record of the commit log and its on-disk encoding
  \<^verbatim>\<open>timestamp | key_size | value_size | crc | key | value\<close>. The record carries a
  checksum over everything but itself. The lemmas: decoding inverts encoding whatever
  bytes follow, a decoded record encodes to the very bytes it was read from, and a
  flipped byte outside the two size fields is always reported.
\<close>

record Record =
  rec_timestamp :: u64
  rec_key :: string
  rec_value :: string
  rec_crc32 :: u32

record DecodedRecord =
  dec_record :: Record
  dec_bytes_consumed :: nat

definition kTimestampOffset :: nat where "kTimestampOffset = 0"
definition KKeyOffset :: nat where "KKeyOffset = kTimestampOffset + 8"
definition KValueOffset :: nat where "KValueOffset = KKeyOffset + 4"
definition KCrcoffset :: nat where "KCrcoffset = KValueOffset + 4"
definition kRecordHeaderBytes :: nat where "kRecordHeaderBytes = 8 + 4 + 4 + 4"

lemmas record_offsets = kTimestampOffset_def KKeyOffset_def KValueOffset_def KCrcoffset_def
  kRecordHeaderBytes_def

definition ValidateStringSize :: "string \<Rightarrow> string \<Rightarrow> Status" where
  "ValidateStringSize name s =
     (if length s > u32_max then InvalidArgument (name @ '' is too large'') else Status_Ok)"

definition EncodedRecordSize :: "Record \<Rightarrow> nat" where
  "EncodedRecordSize r = kRecordHeaderBytes + length (rec_key r) + length (rec_value r)"

definition ComputeRecordCrc :: "Record \<Rightarrow> u32" where
  "ComputeRecordCrc r =
     (let bytes = AppendLittleEndian (rec_timestamp r) [];
          bytes = AppendLittleEndian (word_of_nat (length (rec_key r)) :: u32) bytes;
          bytes = AppendLittleEndian (word_of_nat (length (rec_value r)) :: u32) bytes;
          bytes = bytes @ rec_key r;
          bytes = bytes @ rec_value r
      in Crc32 bytes)"

definition AppendEncodedRecord :: "Record \<Rightarrow> byte list \<Rightarrow> byte list Result" where
  "AppendEncodedRecord r output =
     rcheck (ValidateStringSize ''record key'' (rec_key r)) (
     rcheck (ValidateStringSize ''record value'' (rec_value r)) (
     let crc = ComputeRecordCrc r;
         output = AppendLittleEndian (rec_timestamp r) output;
         output = AppendLittleEndian (word_of_nat (length (rec_key r)) :: u32) output;
         output = AppendLittleEndian (word_of_nat (length (rec_value r)) :: u32) output;
         output = AppendLittleEndian crc output;
         output = output @ rec_key r;
         output = output @ rec_value r
     in Inr output))"

definition DecodeRecord :: "byte list \<Rightarrow> DecodedRecord Result" where
  "DecodeRecord data =
     (if length data < kRecordHeaderBytes
      then Inl (Corruption ''record header is truncated'')
      else
        rbind (ReadLittleEndian data kTimestampOffset :: u64 Result) (\<lambda>timestamp.
        rbind (ReadLittleEndian data KKeyOffset :: u32 Result) (\<lambda>key_size.
        rbind (ReadLittleEndian data KValueOffset :: u32 Result) (\<lambda>value_size.
        rbind (ReadLittleEndian data KCrcoffset :: u32 Result) (\<lambda>crc.
        let payload_size = unat key_size + unat value_size
        in if payload_size > length data - kRecordHeaderBytes
           then Inl (Corruption ''record payload is truncated'')
           else
             let key = take (unat key_size) (drop kRecordHeaderBytes data);
                 val = take (unat value_size) (drop (kRecordHeaderBytes + unat key_size) data);
                 record = \<lparr>rec_timestamp = timestamp, rec_key = key, rec_value = val, rec_crc32 = crc\<rparr>
             in if ComputeRecordCrc record \<noteq> rec_crc32 record
                then Inl (Corruption ''record crc mismatch'')
                else Inr \<lparr>dec_record = record,
                          dec_bytes_consumed = kRecordHeaderBytes + payload_size\<rparr>)))))"

section \<open>The layout of an encoded record\<close>

text \<open>The bytes covered by the record checksum, and the encoded record.\<close>

definition record_crc_bytes :: "Record \<Rightarrow> byte list" where
  "record_crc_bytes r = le_bytes (rec_timestamp r) @
     le_bytes (word_of_nat (length (rec_key r)) :: u32) @
     le_bytes (word_of_nat (length (rec_value r)) :: u32) @ rec_key r @ rec_value r"

definition record_bytes :: "Record \<Rightarrow> byte list" where
  "record_bytes r = le_bytes (rec_timestamp r) @
     le_bytes (word_of_nat (length (rec_key r)) :: u32) @
     le_bytes (word_of_nat (length (rec_value r)) :: u32) @
     le_bytes (ComputeRecordCrc r) @ rec_key r @ rec_value r"

definition record_fits :: "Record \<Rightarrow> bool" where
  "record_fits r \<longleftrightarrow> length (rec_key r) \<le> u32_max \<and> length (rec_value r) \<le> u32_max"

lemma ComputeRecordCrc_eq: "ComputeRecordCrc r = Crc32 (record_crc_bytes r)"
  by (simp add: ComputeRecordCrc_def record_crc_bytes_def AppendLittleEndian_def)

lemma AppendEncodedRecord_eq:
  "AppendEncodedRecord r out =
     (if length (rec_key r) > u32_max then Inl (InvalidArgument ''record key is too large'')
      else if length (rec_value r) > u32_max then Inl (InvalidArgument ''record value is too large'')
      else Inr (out @ record_bytes r))"
  by (simp add: AppendEncodedRecord_def ValidateStringSize_def record_bytes_def
      AppendLittleEndian_def)

lemma AppendEncodedRecord_Inr_iff:
  "AppendEncodedRecord r out = Inr out' \<longleftrightarrow> record_fits r \<and> out' = out @ record_bytes r"
  by (auto simp: AppendEncodedRecord_eq record_fits_def)

lemma length_record_bytes [simp]: "length (record_bytes r) = EncodedRecordSize r"
  by (simp add: record_bytes_def EncodedRecordSize_def kRecordHeaderBytes_def)

lemma ComputeRecordCrc_crc_update [simp]:
  "ComputeRecordCrc (r\<lparr>rec_crc32 := c\<rparr>) = ComputeRecordCrc r"
  by (simp add: ComputeRecordCrc_eq record_crc_bytes_def)

lemma record_bytes_crc_update [simp]: "record_bytes (r\<lparr>rec_crc32 := c\<rparr>) = record_bytes r"
  by (simp add: record_bytes_def)

lemma record_fits_crc_update [simp]: "record_fits (r\<lparr>rec_crc32 := c\<rparr>) = record_fits r"
  by (simp add: record_fits_def)

section \<open>Decoding inverts encoding\<close>

lemma ReadLittleEndian_record_bytes:
  "ReadLittleEndian (record_bytes r @ rest) kTimestampOffset = Inr (rec_timestamp r)"
  "ReadLittleEndian (record_bytes r @ rest) KKeyOffset = Inr (word_of_nat (length (rec_key r)) :: u32)"
  "ReadLittleEndian (record_bytes r @ rest) KValueOffset =
     Inr (word_of_nat (length (rec_value r)) :: u32)"
  "ReadLittleEndian (record_bytes r @ rest) KCrcoffset = Inr (ComputeRecordCrc r)"
proof -
  let ?t = "le_bytes (rec_timestamp r)"
  let ?k = "le_bytes (word_of_nat (length (rec_key r)) :: u32)"
  let ?v = "le_bytes (word_of_nat (length (rec_value r)) :: u32)"
  let ?c = "le_bytes (ComputeRecordCrc r)"
  let ?p = "rec_key r @ rec_value r @ rest"
  have b: "record_bytes r @ rest = ?t @ ?k @ ?v @ ?c @ ?p" by (simp add: record_bytes_def)
  show "ReadLittleEndian (record_bytes r @ rest) kTimestampOffset = Inr (rec_timestamp r)"
    unfolding b using ReadLittleEndian_append [of "[]" 0 "rec_timestamp r" "?k @ ?v @ ?c @ ?p"]
    by (simp add: record_offsets)
  show "ReadLittleEndian (record_bytes r @ rest) KKeyOffset =
      Inr (word_of_nat (length (rec_key r)) :: u32)"
    unfolding b by (rule ReadLittleEndian_append) (simp_all add: record_offsets)
  show "ReadLittleEndian (record_bytes r @ rest) KValueOffset =
      Inr (word_of_nat (length (rec_value r)) :: u32)"
    unfolding b using ReadLittleEndian_append [of "?t @ ?k" KValueOffset "word_of_nat (length (rec_value r)) :: u32" "?c @ ?p"]
    by (simp add: record_offsets)
  show "ReadLittleEndian (record_bytes r @ rest) KCrcoffset = Inr (ComputeRecordCrc r)"
    unfolding b using ReadLittleEndian_append [of "?t @ ?k @ ?v" KCrcoffset "ComputeRecordCrc r" "?p"]
    by (simp add: record_offsets)
qed

lemma drop_record_bytes:
  "drop kRecordHeaderBytes (record_bytes r @ rest) = rec_key r @ rec_value r @ rest"
  by (simp add: record_bytes_def kRecordHeaderBytes_def)

lemma DecodeRecord_record_bytes:
  assumes "record_fits r"
  shows "DecodeRecord (record_bytes r @ rest) =
    Inr \<lparr>dec_record = r\<lparr>rec_crc32 := ComputeRecordCrc r\<rparr>, dec_bytes_consumed = EncodedRecordSize r\<rparr>"
proof -
  have k: "unat (word_of_nat (length (rec_key r)) :: u32) = length (rec_key r)"
    and v: "unat (word_of_nat (length (rec_value r)) :: u32) = length (rec_value r)"
    using assms by (simp_all add: record_fits_def)
  have "drop (kRecordHeaderBytes + length (rec_key r)) (record_bytes r @ rest) = rec_value r @ rest"
    by (metis add.commute append_eq_conv_conj drop_drop drop_record_bytes)
  moreover have "\<lparr>rec_timestamp = rec_timestamp r, rec_key = rec_key r, rec_value = rec_value r,
      rec_crc32 = ComputeRecordCrc r\<rparr> = r\<lparr>rec_crc32 := ComputeRecordCrc r\<rparr>"
    by simp
  ultimately show ?thesis
    by (simp add: DecodeRecord_def ReadLittleEndian_record_bytes k v drop_record_bytes Let_def
        EncodedRecordSize_def del: drop_append) (simp add: ComputeRecordCrc_eq record_crc_bytes_def)
qed

section \<open>Encoding inverts decoding\<close>

lemma DecodeRecord_InrE:
  assumes "DecodeRecord data = Inr d"
  obtains n m where
    "dec_bytes_consumed d = kRecordHeaderBytes + n + m" "dec_bytes_consumed d \<le> length data"
    "length (rec_key (dec_record d)) = n" "length (rec_value (dec_record d)) = m"
    "record_fits (dec_record d)" "rec_crc32 (dec_record d) = ComputeRecordCrc (dec_record d)"
    "rec_timestamp (dec_record d) = le_value data 0"
    "word_of_nat n = (le_value data 8 :: u32)" "word_of_nat m = (le_value data 12 :: u32)"
    "rec_crc32 (dec_record d) = le_value data 16"
    "rec_key (dec_record d) = take n (drop kRecordHeaderBytes data)"
    "rec_value (dec_record d) = take m (drop (kRecordHeaderBytes + n) data)"
proof -
  have len: "\<not> length data < 20"
    using assms by (auto simp: DecodeRecord_def kRecordHeaderBytes_def)
  let ?n = "unat (le_value data 8 :: u32)" and ?m = "unat (le_value data 12 :: u32)"
  have bound: "?n \<le> u32_max" "?m \<le> u32_max"
    using unsigned_less [of "le_value data 8 :: u32", where ?'a = nat]
      unsigned_less [of "le_value data 12 :: u32", where ?'a = nat] by simp_all
  define r where "r = \<lparr>rec_timestamp = le_value data 0, rec_key = take ?n (drop 20 data),
    rec_value = take ?m (drop (20 + ?n) data), rec_crc32 = le_value data 16\<rparr>"
  from assms len have g: "?n + ?m \<le> length data - 20" and crc: "ComputeRecordCrc r = rec_crc32 r"
    and d: "d = \<lparr>dec_record = r, dec_bytes_consumed = 20 + (?n + ?m)\<rparr>"
    by (auto simp: DecodeRecord_def record_offsets ReadLittleEndian_def Let_def r_def
        split: if_splits)
  from g have l: "length (rec_key r) = ?n" "length (rec_value r) = ?m" by (simp_all add: r_def)
  show ?thesis
    using len g crc l bound
    by (intro that [of ?n ?m]) (simp_all add: d kRecordHeaderBytes_def record_fits_def r_def)
qed

lemma record_bytes_DecodeRecord:
  assumes "DecodeRecord data = Inr d"
  shows "record_bytes (dec_record d) = take (dec_bytes_consumed d) data"
proof -
  obtain n m where
    c: "dec_bytes_consumed d = kRecordHeaderBytes + n + m" "dec_bytes_consumed d \<le> length data"
    and l: "length (rec_key (dec_record d)) = n" "length (rec_value (dec_record d)) = m"
    and crc: "rec_crc32 (dec_record d) = ComputeRecordCrc (dec_record d)"
    and h: "rec_timestamp (dec_record d) = le_value data 0"
    "word_of_nat n = (le_value data 8 :: u32)" "word_of_nat m = (le_value data 12 :: u32)"
    "rec_crc32 (dec_record d) = le_value data 16"
    and p: "rec_key (dec_record d) = take n (drop kRecordHeaderBytes data)"
    "rec_value (dec_record d) = take m (drop (kRecordHeaderBytes + n) data)"
    using assms by (rule DecodeRecord_InrE)
  have len: "20 \<le> length data" using c by (simp add: kRecordHeaderBytes_def)
  have b: "le_bytes (rec_timestamp (dec_record d)) = take 8 data"
    "le_bytes (word_of_nat n :: u32) = take 4 (drop 8 data)"
    "le_bytes (word_of_nat m :: u32) = take 4 (drop 12 data)"
    "le_bytes (ComputeRecordCrc (dec_record d)) = take 4 (drop 16 data)"
    using len h crc by (simp_all add: le_bytes_le_value)
  have "record_bytes (dec_record d) = take 8 data @ take 4 (drop 8 data) @ take 4 (drop 12 data) @
      take 4 (drop 16 data) @ take n (drop 20 data) @ take m (drop (20 + n) data)"
    unfolding record_bytes_def l b
    unfolding p kRecordHeaderBytes_def by simp
  also have "\<dots> = take (8 + (4 + (4 + (4 + (n + m))))) data"
    by (simp only: take_add drop_drop) (simp add: add.commute)
  finally show ?thesis using c(1) by (simp add: kRecordHeaderBytes_def add.assoc)
qed

section \<open>Corruption is detected\<close>

lemma record_crc_bytes_split: "record_crc_bytes r = take 16 (record_bytes r) @ drop 20 (record_bytes r)"
  by (simp add: record_crc_bytes_def record_bytes_def)

lemma record_crc_bytes_DecodeRecord:
  assumes "DecodeRecord data = Inr d"
  shows "record_crc_bytes (dec_record d) =
    take 16 data @ take (dec_bytes_consumed d - 20) (drop 20 data)"
proof -
  have "20 \<le> dec_bytes_consumed d"
    using assms by (rule DecodeRecord_InrE) (simp add: kRecordHeaderBytes_def)
  then have "take 16 (take (dec_bytes_consumed d) data) = take 16 data" by (simp add: min_absorb1)
  then show ?thesis
    unfolding record_crc_bytes_split record_bytes_DecodeRecord [OF assms] by (simp only: drop_take)
qed

lemma le_value_update [simp]:
  assumes "i < off \<or> off + LENGTH('a::len) div 8 \<le> i"
  shows "(le_value (data[i := b]) off :: 'a word) = le_value data off"
  using assms by (auto simp: le_value_def intro!: fold_cong)

lemma DecodeRecord_flip:
  assumes d: "DecodeRecord data = Inr d"
    and i: "i < 8 \<or> (16 \<le> i \<and> i < dec_bytes_consumed d)"
    and b: "b \<noteq> data ! i"
  shows "DecodeRecord (data[i := b]) = Inl (Corruption ''record crc mismatch'')"
proof (rule ccontr)
  let ?data = "data[i := b]"
  obtain n m where
    c: "dec_bytes_consumed d = kRecordHeaderBytes + n + m" "dec_bytes_consumed d \<le> length data"
    and l: "length (rec_key (dec_record d)) = n" "length (rec_value (dec_record d)) = m"
    and f: "record_fits (dec_record d)"
    and w: "word_of_nat n = (le_value data 8 :: u32)" "word_of_nat m = (le_value data 12 :: u32)"
    using d by (rule DecodeRecord_InrE)
  have len: "20 \<le> length data" "i < length data"
    using c i by (auto simp: kRecordHeaderBytes_def)
  have sizes: "(le_value ?data 8 :: u32) = word_of_nat n" "(le_value ?data 12 :: u32) = word_of_nat m"
    using i w by auto
  have nm: "unat (word_of_nat n :: u32) = n" "unat (word_of_nat m :: u32) = m"
    using f l by (simp_all add: record_fits_def)
  assume "DecodeRecord ?data \<noteq> Inl (Corruption ''record crc mismatch'')"
  with len c obtain d' where d': "DecodeRecord ?data = Inr d'"
    by (auto simp: DecodeRecord_def record_offsets ReadLittleEndian_def Let_def sizes nm
        split: if_splits)
  have c': "dec_bytes_consumed d' = dec_bytes_consumed d"
    using d' c(1) len
    by (auto simp: DecodeRecord_def record_offsets ReadLittleEndian_def Let_def sizes nm
        split: if_splits)
  let ?msg = "take 16 data @ take (n + m) (drop 20 data)"
  have msg: "record_crc_bytes (dec_record d) = ?msg"
    using record_crc_bytes_DecodeRecord [OF d] c(1) by (simp add: kRecordHeaderBytes_def add.assoc)
  have msg': "record_crc_bytes (dec_record d') = take 16 ?data @ take (n + m) (drop 20 ?data)"
    using record_crc_bytes_DecodeRecord [OF d'] c(1) c' by (simp add: kRecordHeaderBytes_def add.assoc)
  have crc: "Crc32 (record_crc_bytes (dec_record d)) = le_value data 16"
    using d by (rule DecodeRecord_InrE) (simp add: ComputeRecordCrc_eq)
  have crc': "Crc32 (record_crc_bytes (dec_record d')) = le_value ?data 16"
    using d' by (rule DecodeRecord_InrE) (simp add: ComputeRecordCrc_eq)
  show False
  proof (cases "16 \<le> i \<and> i < 20")
    case True
    with msg msg' crc crc' have "(le_value ?data 16 :: u32) = le_value data 16"
      by (simp add: take_update_cancel drop_update_cancel)
    then have "take 4 (drop 16 ?data) = take 4 (drop 16 data)"
      using le_bytes_le_value [of 16 ?data, where ?'a = 32]
        le_bytes_le_value [of 16 data, where ?'a = 32] len by simp
    then have "take 4 (drop 16 ?data) ! (i - 16) = take 4 (drop 16 data) ! (i - 16)" by simp
    moreover have "i - 16 < 4" "16 + (i - 16) = i" using True by linarith+
    ultimately show False using len b by simp
  next
    case False
    define j where "j = (if i < 8 then i else i - 4)"
    have upd: "take 16 ?data @ take (n + m) (drop 20 ?data) = ?msg[j := b]"
    proof (cases "i < 8")
      case True
      then show ?thesis
        by (simp add: j_def list_update_append take_update_swap len)
    next
      case False
      with \<open>\<not> (16 \<le> i \<and> i < 20)\<close> i have "20 \<le> i" by simp
      then have "\<not> i < 8" "\<not> i - 4 < 16" "i - 4 - 16 = i - 20" "16 \<le> i" by linarith+
      with \<open>20 \<le> i\<close> len show ?thesis
        by (simp add: j_def list_update_append list_update_beyond take_update_swap drop_update_swap)
    qed
    from i False len c(1) have j: "j < length ?msg" "?msg ! j = data ! i"
      by (auto simp: j_def nth_append kRecordHeaderBytes_def)
    from msg msg' crc crc' i False upd have "Crc32 (?msg[j := b]) = Crc32 ?msg" by auto
    with j b show False by (simp add: Crc32_list_update)
  qed
qed

end
