(* ===== verification/RecordBatch.thy ===== *)
theory RecordBatch
  imports LogRecord
begin

text \<open>
  Models \<^verbatim>\<open>include/logmq/storage/record_batch.h\<close> and
  \<^verbatim>\<open>src/storage/record_batch.cpp\<close>: the batch that is the unit of append and of
  recovery, \<^verbatim>\<open>magic | base_offset | record_count | batch_bytes | batch_crc | records\<close>.
  The lemmas: a batch made by \<^verbatim>\<open>MakeRecordBatch\<close> encodes, its encoding announces its own
  length in the header, and decodes to the batch whatever bytes follow it in the file.
\<close>

record RecordBatch =
  rb_base_offset :: int
  rb_record_count :: u64
  rb_batch_bytes :: u64
  rb_batch_crc32 :: u32
  rb_records :: "Record list"

definition kRecordBatchMagic :: u32 where "kRecordBatchMagic = 0x4C4D5142"

definition kRecordBatchHeaderBytes :: nat where
  "kRecordBatchHeaderBytes = 4 + 8 + 8 + 8 + 4"

section \<open>The code\<close>

definition rb_ReadLittleEndian :: "byte list \<Rightarrow> nat \<Rightarrow> 'a::len word Result" where
  "rb_ReadLittleEndian data offset =
     (if length data < offset + LENGTH('a) div 8
      then Inl (Corruption ''record batch header is truncated'')
      else Inr (le_value data offset))"

text \<open>The two loops of \<^verbatim>\<open>EncodeRecordsPayload\<close>: the size sum with its overflow check,
  and the appends.\<close>

fun sum_payload_bytes :: "Record list \<Rightarrow> nat \<Rightarrow> nat Result" where
  "sum_payload_bytes [] payload_bytes = Inr payload_bytes"
| "sum_payload_bytes (r # rs) payload_bytes =
     (let record_bytes = EncodedRecordSize r
      in if record_bytes > u64_max - payload_bytes
         then Inl (InvalidArgument ''record batch is too large'')
         else sum_payload_bytes rs (payload_bytes + record_bytes))"

fun append_records :: "Record list \<Rightarrow> byte list \<Rightarrow> byte list Result" where
  "append_records [] payload = Inr payload"
| "append_records (r # rs) payload = rbind (AppendEncodedRecord r payload) (append_records rs)"

definition EncodeRecordsPayload :: "Record list \<Rightarrow> byte list Result" where
  "EncodeRecordsPayload records =
     rbind (sum_payload_bytes records 0) (\<lambda>_. append_records records [])"

definition MakeRecordBatch :: "int \<Rightarrow> Record list \<Rightarrow> RecordBatch Result" where
  "MakeRecordBatch base_offset records =
     (if base_offset < 0
      then Inl (InvalidArgument ''record batch base_offset must not be negative'')
      else if records = []
      then Inl (InvalidArgument ''record batch must contain at least one record'')
      else if length records > u64_max
      then Inl (InvalidArgument ''record batch contains too many records'')
      else
        let records = map (\<lambda>r. r\<lparr>rec_crc32 := ComputeRecordCrc r\<rparr>) records
        in rbind (EncodeRecordsPayload records) (\<lambda>payload.
           Inr \<lparr>rb_base_offset = base_offset,
                rb_record_count = word_of_nat (length records),
                rb_batch_bytes = word_of_nat (kRecordBatchHeaderBytes + length payload),
                rb_batch_crc32 = Crc32 payload,
                rb_records = records\<rparr>))"

definition EncodeRecordBatch :: "RecordBatch \<Rightarrow> byte list Result" where
  "EncodeRecordBatch batch =
     (if rb_base_offset batch < 0
      then Inl (InvalidArgument ''record batch base_offset must not be negative'')
      else if rb_records batch = []
      then Inl (InvalidArgument ''record batch must contain at least one record'')
      else if length (rb_records batch) > u64_max
      then Inl (InvalidArgument ''record batch contains too many records'')
      else
        rbind (EncodeRecordsPayload (rb_records batch)) (\<lambda>payload.
        let batch_bytes = word_of_nat (kRecordBatchHeaderBytes + length payload) :: u64;
            batch_crc = Crc32 payload;
            output = AppendLittleEndian kRecordBatchMagic [];
            output = AppendLittleEndian (word_of_int (rb_base_offset batch) :: u64) output;
            output = AppendLittleEndian (word_of_nat (length (rb_records batch)) :: u64) output;
            output = AppendLittleEndian batch_bytes output;
            output = AppendLittleEndian batch_crc output;
            output = output @ payload
        in Inr output))"

definition PeekRecordBatchBytes :: "byte list \<Rightarrow> u64 Result" where
  "PeekRecordBatchBytes data =
     (if length data < kRecordBatchHeaderBytes
      then Inl (Corruption ''record batch header is truncated'')
      else
        rbind (rb_ReadLittleEndian data 0 :: u32 Result) (\<lambda>magic.
        if magic \<noteq> kRecordBatchMagic
        then Inl (Corruption ''record batch magic mismatch'')
        else
          rbind (rb_ReadLittleEndian data (4 + 8 + 8) :: u64 Result) (\<lambda>batch_bytes.
          if unat batch_bytes < kRecordBatchHeaderBytes
          then Inl (Corruption ''record batch size is smaller than header'')
          else Inr batch_bytes)))"

text \<open>The decoding loop: \<open>n\<close> more records, from \<open>consumed\<close> on. It returns the bytes
  consumed and the records.\<close>

fun decode_records :: "nat \<Rightarrow> byte list \<Rightarrow> nat \<Rightarrow> (nat \<times> Record list) Result" where
  "decode_records 0 payload consumed = Inr (consumed, [])"
| "decode_records (Suc n) payload consumed =
     rbind (DecodeRecord (drop consumed payload)) (\<lambda>decoded.
     rbind (decode_records n payload (consumed + dec_bytes_consumed decoded)) (\<lambda>(c, rs).
     Inr (c, dec_record decoded # rs)))"

definition DecodeRecordBatch :: "byte list \<Rightarrow> RecordBatch Result" where
  "DecodeRecordBatch data =
     rbind (PeekRecordBatchBytes data) (\<lambda>batch_bytes.
     if unat batch_bytes > length data
     then Inl (Corruption ''record batch payload is truncated'')
     else
       rbind (rb_ReadLittleEndian data 4 :: u64 Result) (\<lambda>base_offset.
       rbind (rb_ReadLittleEndian data (4 + 8) :: u64 Result) (\<lambda>record_count.
       rbind (rb_ReadLittleEndian data (4 + 8 + 8 + 8) :: u32 Result) (\<lambda>batch_crc.
       let payload = take (unat batch_bytes - kRecordBatchHeaderBytes)
                       (drop kRecordBatchHeaderBytes data)
       in if Crc32 payload \<noteq> batch_crc
          then Inl (Corruption ''record batch crc mismatch'')
          else if record_count = 0
          then Inl (Corruption ''record batch record_count is zero'')
          else if unat record_count > length payload div kRecordHeaderBytes
          then Inl (Corruption ''record batch record_count exceeds payload capacity'')
          else
            rbind (decode_records (unat record_count) payload 0) (\<lambda>(consumed, records).
            if consumed \<noteq> length payload
            then Inl (Corruption ''record batch has trailing bytes'')
            else Inr \<lparr>rb_base_offset = sint base_offset,
                      rb_record_count = record_count,
                      rb_batch_bytes = batch_bytes,
                      rb_batch_crc32 = batch_crc,
                      rb_records = records\<rparr>)))))"

section \<open>The layout of an encoded batch\<close>

definition payload_bytes :: "Record list \<Rightarrow> byte list" where
  "payload_bytes rs = concat (map record_bytes rs)"

definition batch_bytes :: "int \<Rightarrow> Record list \<Rightarrow> byte list" where
  "batch_bytes base rs =
     le_bytes kRecordBatchMagic @ le_bytes (word_of_int base :: u64) @
     le_bytes (word_of_nat (length rs) :: u64) @
     le_bytes (word_of_nat (kRecordBatchHeaderBytes + length (payload_bytes rs)) :: u64) @
     le_bytes (Crc32 (payload_bytes rs)) @ payload_bytes rs"

definition stamp_crc :: "Record \<Rightarrow> Record" where
  "stamp_crc r = r\<lparr>rec_crc32 := ComputeRecordCrc r\<rparr>"

definition mk_batch :: "int \<Rightarrow> Record list \<Rightarrow> RecordBatch" where
  "mk_batch base rs =
     \<lparr>rb_base_offset = base, rb_record_count = word_of_nat (length rs),
      rb_batch_bytes = word_of_nat (kRecordBatchHeaderBytes + length (payload_bytes rs)),
      rb_batch_crc32 = Crc32 (payload_bytes rs), rb_records = map stamp_crc rs\<rparr>"

text \<open>Record lists the format can hold: at least one record, every key and value below
  4 GiB, and a total that a 64 bit size holds.\<close>

definition batch_fits :: "Record list \<Rightarrow> bool" where
  "batch_fits rs \<longleftrightarrow> rs \<noteq> [] \<and> list_all record_fits rs \<and>
     kRecordBatchHeaderBytes + length (payload_bytes rs) \<le> u64_max"

lemma payload_bytes_simps [simp]:
  "payload_bytes [] = []" "payload_bytes (r # rs) = record_bytes r @ payload_bytes rs"
  "payload_bytes (map stamp_crc rs) = payload_bytes rs"
  by (simp_all add: payload_bytes_def stamp_crc_def comp_def)

lemma record_fits_stamp [simp]: "record_fits (stamp_crc r) = record_fits r"
  by (simp add: stamp_crc_def)

lemma batch_fits_stamp [simp]: "batch_fits (map stamp_crc rs) = batch_fits rs"
  by (simp add: batch_fits_def list_all_iff)

lemma EncodedRecordSize_ge: "kRecordHeaderBytes \<le> EncodedRecordSize r"
  by (simp add: EncodedRecordSize_def)

lemma length_payload_ge: "kRecordHeaderBytes * length rs \<le> length (payload_bytes rs)"
  by (induction rs) (use EncodedRecordSize_ge in \<open>auto intro: add_mono\<close>)

lemma length_le_payload: "length rs \<le> length (payload_bytes rs)"
  using length_payload_ge [of rs] by (simp add: kRecordHeaderBytes_def)

lemma length_batch_bytes [simp]:
  "length (batch_bytes base rs) = kRecordBatchHeaderBytes + length (payload_bytes rs)"
  by (simp add: batch_bytes_def kRecordBatchHeaderBytes_def)

section \<open>Making and encoding a batch\<close>

lemma sum_payload_bytes_eq:
  "acc \<le> u64_max \<Longrightarrow> sum_payload_bytes rs acc =
     (if acc + length (payload_bytes rs) \<le> u64_max then Inr (acc + length (payload_bytes rs))
      else Inl (InvalidArgument ''record batch is too large''))"
  by (induction rs arbitrary: acc) (auto simp: Let_def)

lemma append_records_fits:
  "list_all record_fits rs \<Longrightarrow> append_records rs out = Inr (out @ payload_bytes rs)"
  by (induction rs arbitrary: out) (simp_all add: AppendEncodedRecord_Inr_iff rbind_Inr_iff)

lemma EncodeRecordsPayload_fits: "batch_fits rs \<Longrightarrow> EncodeRecordsPayload rs = Inr (payload_bytes rs)"
  by (simp add: EncodeRecordsPayload_def batch_fits_def sum_payload_bytes_eq append_records_fits)

lemma MakeRecordBatch_fits:
  assumes "0 \<le> base" "batch_fits rs"
  shows "MakeRecordBatch base rs = Inr (mk_batch base rs)"
proof -
  have "length rs \<le> u64_max" "rs \<noteq> []"
    using assms(2) length_le_payload [of rs] by (auto simp: batch_fits_def)
  moreover have "(\<lambda>r. r\<lparr>rec_crc32 := ComputeRecordCrc r\<rparr>) = stamp_crc"
    by (simp add: stamp_crc_def fun_eq_iff)
  ultimately show ?thesis
    using assms EncodeRecordsPayload_fits [of "map stamp_crc rs"]
    by (simp add: MakeRecordBatch_def mk_batch_def)
qed

lemma EncodeRecordBatch_mk_batch:
  assumes "0 \<le> base" "batch_fits rs"
  shows "EncodeRecordBatch (mk_batch base rs) = Inr (batch_bytes base rs)"
proof -
  have "length rs \<le> u64_max" "rs \<noteq> []"
    using assms(2) length_le_payload [of rs] by (auto simp: batch_fits_def)
  then show ?thesis
    using assms EncodeRecordsPayload_fits [of "map stamp_crc rs"]
    by (simp add: EncodeRecordBatch_def mk_batch_def batch_bytes_def AppendLittleEndian_def Let_def)
qed

section \<open>Decoding a batch\<close>

lemma rb_ReadLittleEndian_append:
  assumes "8 dvd LENGTH('a::len)" and "length pre = off"
  shows "rb_ReadLittleEndian (pre @ le_bytes v @ post) off = Inr (v :: 'a word)"
  using assms by (simp add: rb_ReadLittleEndian_def)

lemma read_batch_bytes:
  "rb_ReadLittleEndian (batch_bytes base rs @ rest) 0 = Inr kRecordBatchMagic"
  "rb_ReadLittleEndian (batch_bytes base rs @ rest) 4 = Inr (word_of_int base :: u64)"
  "rb_ReadLittleEndian (batch_bytes base rs @ rest) 12 = Inr (word_of_nat (length rs) :: u64)"
  "rb_ReadLittleEndian (batch_bytes base rs @ rest) 20 =
     Inr (word_of_nat (kRecordBatchHeaderBytes + length (payload_bytes rs)) :: u64)"
  "rb_ReadLittleEndian (batch_bytes base rs @ rest) 28 = Inr (Crc32 (payload_bytes rs))"
proof -
  let ?m = "le_bytes kRecordBatchMagic"
  let ?b = "le_bytes (word_of_int base :: u64)"
  let ?n = "le_bytes (word_of_nat (length rs) :: u64)"
  let ?s = "le_bytes (word_of_nat (kRecordBatchHeaderBytes + length (payload_bytes rs)) :: u64)"
  let ?c = "le_bytes (Crc32 (payload_bytes rs))"
  let ?p = "payload_bytes rs @ rest"
  note r = rb_ReadLittleEndian_append
  have eq: "batch_bytes base rs @ rest = ?m @ ?b @ ?n @ ?s @ ?c @ ?p"
    by (simp add: batch_bytes_def)
  show "rb_ReadLittleEndian (batch_bytes base rs @ rest) 0 = Inr kRecordBatchMagic"
    unfolding eq using r [of "[]" 0 kRecordBatchMagic "?b @ ?n @ ?s @ ?c @ ?p"] by simp
  show "rb_ReadLittleEndian (batch_bytes base rs @ rest) 4 = Inr (word_of_int base :: u64)"
    unfolding eq using r [of ?m 4 "word_of_int base :: u64" "?n @ ?s @ ?c @ ?p"] by simp
  show "rb_ReadLittleEndian (batch_bytes base rs @ rest) 12 = Inr (word_of_nat (length rs) :: u64)"
    unfolding eq using r [of "?m @ ?b" 12 "word_of_nat (length rs) :: u64" "?s @ ?c @ ?p"] by simp
  show "rb_ReadLittleEndian (batch_bytes base rs @ rest) 20 =
      Inr (word_of_nat (kRecordBatchHeaderBytes + length (payload_bytes rs)) :: u64)"
    unfolding eq
    using r [of "?m @ ?b @ ?n" 20
        "word_of_nat (kRecordBatchHeaderBytes + length (payload_bytes rs)) :: u64" "?c @ ?p"]
    by simp
  show "rb_ReadLittleEndian (batch_bytes base rs @ rest) 28 = Inr (Crc32 (payload_bytes rs))"
    unfolding eq using r [of "?m @ ?b @ ?n @ ?s" 28 "Crc32 (payload_bytes rs)" ?p] by simp
qed

lemma unat_batch_length:
  "batch_fits rs \<Longrightarrow>
     unat (word_of_nat (kRecordBatchHeaderBytes + length (payload_bytes rs)) :: u64) =
     kRecordBatchHeaderBytes + length (payload_bytes rs)"
  by (rule unat_of_nat_u64) (simp add: batch_fits_def)

lemma PeekRecordBatchBytes_batch_bytes:
  assumes "batch_fits rs"
  shows "PeekRecordBatchBytes (batch_bytes base rs @ rest) =
    Inr (word_of_nat (kRecordBatchHeaderBytes + length (payload_bytes rs)))"
  unfolding PeekRecordBatchBytes_def
  by (simp add: read_batch_bytes unat_batch_length [OF assms] del: unat_of_nat_u64 of_nat_add)

lemma PeekRecordBatchBytes_take:
  assumes "kRecordBatchHeaderBytes \<le> n"
  shows "PeekRecordBatchBytes (take n data) = PeekRecordBatchBytes data"
proof -
  have [simp]: "rb_ReadLittleEndian (take n data) 0 = (rb_ReadLittleEndian data 0 :: u32 Result)"
    "rb_ReadLittleEndian (take n data) 20 = (rb_ReadLittleEndian data 20 :: u64 Result)"
    using assms
    by (auto simp: rb_ReadLittleEndian_def le_value_take kRecordBatchHeaderBytes_def min_def)
  show ?thesis using assms by (auto simp: PeekRecordBatchBytes_def min_def cong: if_cong)
qed

lemma decode_records_payload:
  assumes "list_all record_fits rs" and "length pre = consumed"
  shows "decode_records (length rs) (pre @ payload_bytes rs @ post) consumed =
    Inr (consumed + length (payload_bytes rs), map stamp_crc rs)"
  using assms
proof (induction rs arbitrary: pre consumed)
  case Nil
  then show ?case by simp
next
  case (Cons r rs)
  have "decode_records (length rs) ((pre @ record_bytes r) @ payload_bytes rs @ post)
      (consumed + EncodedRecordSize r) =
      Inr (consumed + EncodedRecordSize r + length (payload_bytes rs), map stamp_crc rs)"
    by (rule Cons.IH) (use Cons.prems in simp_all)
  moreover have "DecodeRecord (drop consumed (pre @ payload_bytes (r # rs) @ post)) =
      Inr \<lparr>dec_record = stamp_crc r, dec_bytes_consumed = EncodedRecordSize r\<rparr>"
    using Cons.prems by (simp add: DecodeRecord_record_bytes stamp_crc_def)
  ultimately show ?case by simp
qed

lemma DecodeRecordBatch_batch_bytes:
  assumes "0 \<le> base" "is_i64 base" "batch_fits rs"
  shows "DecodeRecordBatch (batch_bytes base rs @ rest) = Inr (mk_batch base rs)"
proof -
  have fits: "list_all record_fits rs" "rs \<noteq> []"
    and len: "kRecordBatchHeaderBytes + length (payload_bytes rs) \<le> u64_max"
    using assms(3) by (simp_all add: batch_fits_def)
  have n: "unat (word_of_nat (length rs) :: u64) = length rs"
    using len length_le_payload [of rs] by (intro unat_of_nat_u64) simp
  with fits(2) have nz: "(word_of_nat (length rs) :: u64) \<noteq> 0" by (metis length_0_conv unat_0)
  have cap: "\<not> length (payload_bytes rs) div kRecordHeaderBytes < length rs"
    using length_payload_ge [of rs] by (simp add: kRecordHeaderBytes_def div_less_iff_less_mult)
  have drop: "drop kRecordBatchHeaderBytes (batch_bytes base rs @ rest) = payload_bytes rs @ rest"
    by (simp add: batch_bytes_def kRecordBatchHeaderBytes_def)
  have dec: "decode_records (length rs) (payload_bytes rs) 0 =
      Inr (length (payload_bytes rs), map stamp_crc rs)"
    using decode_records_payload [OF fits(1), of "[]" 0 "[]"] by simp
  show ?thesis
    unfolding DecodeRecordBatch_def
    by (simp add: PeekRecordBatchBytes_batch_bytes [OF assms(3)] unat_batch_length [OF assms(3)]
        read_batch_bytes drop n nz cap dec assms(1,2) mk_batch_def
        Let_def del: unat_of_nat_u64 of_nat_add drop_append word_of_nat_eq_0_iff)
qed

end
