(* ===== verification/Decimal.thy ===== *)
theory Decimal
  imports BaseStatus
begin

text \<open>
  Decimal numbers in names and text files: \<^verbatim>\<open>std::to_string\<close>, the zero-padded stream
  output that names segment files, the digit loops of \<^verbatim>\<open>ParseBaseOffset\<close>
  (\<^verbatim>\<open>src/storage/commit_log.cpp\<close>) and \<^verbatim>\<open>ParseOffsetFilename\<close>
  (\<^verbatim>\<open>src/broker/offset_store.cpp\<close>), and the file name decomposition of
  \<^verbatim>\<open>std::filesystem::path\<close> they use.
\<close>

type_synonym path = "string list"

definition digit_char :: "nat \<Rightarrow> char" where
  "digit_char d = char_of (48 + d)"

fun nat_to_string :: "nat \<Rightarrow> string" where
  "nat_to_string n = (if n < 10 then [digit_char n]
                      else nat_to_string (n div 10) @ [digit_char (n mod 10)])"

declare nat_to_string.simps [simp del]

definition to_string :: "int \<Rightarrow> string" where
  "to_string i = (if i < 0 then CHR ''-'' # nat_to_string (nat (- i)) else nat_to_string (nat i))"

text \<open>\<^verbatim>\<open>std::setw(w) << std::setfill('0') << i\<close>, which pads on the left.\<close>

definition pad_zeros :: "nat \<Rightarrow> string \<Rightarrow> string" where
  "pad_zeros w s = replicate (w - length s) (CHR ''0'') @ s"

section \<open>File names\<close>

text \<open>\<^verbatim>\<open>path::extension\<close> and \<^verbatim>\<open>path::stem\<close> of a file name: the extension starts at
  the last dot, unless there is none or it is the first character.\<close>

definition dot_split :: "string \<Rightarrow> (string \<times> string) option" where
  "dot_split name =
     (let ext = takeWhile (\<lambda>c. c \<noteq> CHR ''.'') (rev name);
          stem = drop (Suc (length ext)) (rev name)
      in if length ext = length name \<or> stem = [] \<or> name = ''..'' then None
         else Some (rev stem, CHR ''.'' # rev ext))"

definition path_stem :: "string \<Rightarrow> string" where
  "path_stem name = (case dot_split name of None \<Rightarrow> name | Some (s, e) \<Rightarrow> s)"

definition path_extension :: "string \<Rightarrow> string" where
  "path_extension name = (case dot_split name of None \<Rightarrow> [] | Some (s, e) \<Rightarrow> e)"

lemma dot_split_append:
  assumes "CHR ''.'' \<notin> set ext" and "s \<noteq> []" and "length s + length ext \<noteq> 1"
  shows "dot_split (s @ CHR ''.'' # ext) = Some (s, CHR ''.'' # ext)"
proof -
  have tw: "takeWhile (\<lambda>c. c \<noteq> CHR ''.'') (rev ext @ CHR ''.'' # rev s) = rev ext"
    using assms(1) by (subst takeWhile_append2) auto
  have "s @ CHR ''.'' # ext \<noteq> ''..''"
    using assms(2,3) by (auto simp: append_eq_Cons_conv Cons_eq_append_conv)
  with assms(2) show ?thesis by (simp add: dot_split_def tw)
qed

section \<open>Parsing digits\<close>

text \<open>The digit loop shared by the two name parsers, with the largest value of the
  signed type as a parameter: it refuses a character that is not a digit and a value
  beyond that limit.\<close>

fun parse_digits :: "int \<Rightarrow> string \<Rightarrow> int \<Rightarrow> int option" where
  "parse_digits limit [] parsed = Some parsed"
| "parse_digits limit (ch # rest) parsed =
     (let c = of_char ch :: int
      in if c < 48 \<or> c > 57 then None
         else
           let digit = c - 48
           in if parsed > (limit - digit) div 10 then None
              else parse_digits limit rest (parsed * 10 + digit))"

lemma of_char_digit: "d < 10 \<Longrightarrow> of_char (digit_char d) = (48 + of_nat d :: int)"
proof -
  assume "d < 10"
  then have "of_char (char_of (48 + d)) = (48 + d :: nat)" by simp
  then show ?thesis unfolding digit_char_def by (metis of_nat_add of_nat_numeral of_nat_of_char)
qed

lemma parse_digits_append:
  "parse_digits limit (xs @ ys) p =
     (case parse_digits limit xs p of None \<Rightarrow> None | Some q \<Rightarrow> parse_digits limit ys q)"
  by (induction xs arbitrary: p) (auto simp: Let_def)

lemma parse_digits_zeros: "0 \<le> limit \<Longrightarrow> parse_digits limit (replicate k (CHR ''0'') @ s) 0 = parse_digits limit s 0"
  by (induction k) (simp_all add: pos_imp_zdiv_neg_iff)

lemma parse_digits_nat_to_string:
  "int n \<le> limit \<Longrightarrow> parse_digits limit (nat_to_string n) 0 = Some (int n)"
proof (induction n rule: nat_to_string.induct)
  case (1 n)
  have step: "parse_digits limit [digit_char (n mod 10)] (int (n div 10)) = Some (int n)"
  proof -
    have d: "of_char (digit_char (n mod 10)) = (48 + int (n mod 10))"
      by (rule of_char_digit) simp
    have "int (n div 10) * 10 + int (n mod 10) = int n"
      by (metis div_mult_mod_eq of_nat_add of_nat_mult of_nat_numeral)
    moreover from this "1.prems" have "int (n div 10) \<le> (limit - int (n mod 10)) div 10" by linarith
    ultimately show ?thesis
      by (simp add: d del: of_nat_mod of_nat_div zdiv_int zmod_int)
  qed
  show ?case
  proof (cases "n < 10")
    case True
    with step show ?thesis by (subst nat_to_string.simps) simp
  next
    case False
    moreover from "1.prems" have "int (n div 10) \<le> limit" by linarith
    ultimately have "parse_digits limit (nat_to_string (n div 10)) 0 = Some (int (n div 10))"
      using "1.IH" by simp
    with False step show ?thesis
      by (subst nat_to_string.simps) (simp add: parse_digits_append del: parse_digits.simps)
  qed
qed

lemma parse_digits_range:
  "parse_digits limit s p = Some q \<Longrightarrow> 0 \<le> p \<Longrightarrow> p \<le> limit \<Longrightarrow> 0 \<le> q \<and> q \<le> limit"
proof (induction s arbitrary: p)
  case Nil
  then show ?case by simp
next
  case (Cons ch s)
  define digit :: int where "digit = of_char ch - 48"
  from Cons.prems(1) have d: "0 \<le> digit" "digit \<le> 9" "p \<le> (limit - digit) div 10"
    and rest: "parse_digits limit s (p * 10 + digit) = Some q"
    by (auto simp: digit_def Let_def split: if_splits)
  from d(3) have "p * 10 + digit \<le> limit" by linarith
  with d Cons.prems(2) Cons.IH [OF rest] show ?case by simp
qed

section \<open>Characters of a printed number\<close>

lemma set_nat_to_string: "c \<in> set (nat_to_string n) \<Longrightarrow> \<exists>d<10. c = digit_char d"
proof (induction n rule: nat_to_string.induct)
  case (1 n)
  show ?case
  proof (cases "n < 10")
    case True
    with "1.prems" show ?thesis by (auto simp: nat_to_string.simps [of n])
  next
    case False
    with "1.prems" consider "c \<in> set (nat_to_string (n div 10))" | "c = digit_char (n mod 10)"
      by (auto simp: nat_to_string.simps [of n])
    then show ?thesis
    proof cases
      case 1
      with False show ?thesis by (rule "1.IH")
    next
      case 2
      then show ?thesis by (intro exI [of _ "n mod 10"]) simp
    qed
  qed
qed

lemma nat_to_string_nonempty [simp]: "nat_to_string n \<noteq> []"
  by (subst nat_to_string.simps) simp

end
