(* ===== verification/FileIO.thy ===== *)
theory FileIO
  imports Decimal "HOL-Library.AList"
begin

text \<open>
  Models \<^verbatim>\<open>include/logmq/storage/file.h\<close> and \<^verbatim>\<open>src/storage/file.cpp\<close>: a file
  descriptor with positioned reads and writes that retry after interrupts and short
  transfers.

  The operating system is the state \<open>Disk\<close>: the files and directories, and a script of
  the outcomes of the coming system calls. An outcome is complete success, a transfer of
  only some bytes, an interrupt (\<^verbatim>\<open>EINTR\<close>) or a failure with an error text; past the end
  of the script calls succeed. Theorems quantify over the script and so hold under every
  pattern of faults, and the retry loops end because every interrupt uses up an entry.
\<close>

section \<open>The disk and its system calls\<close>

datatype sysret = Full | Part nat | Intr | Fail string

datatype errno = EINTR | Errno string

definition strerror :: "errno \<Rightarrow> string" where
  "strerror e = (case e of EINTR \<Rightarrow> ''Interrupted system call'' | Errno s \<Rightarrow> s)"

record Disk =
  d_files :: "(path \<times> byte list) list"
  d_dirs :: "path list"
  d_next_fd :: nat
  d_script :: "sysret list"

definition next_ret :: "Disk \<Rightarrow> sysret \<times> Disk" where
  "next_ret d = (case d_script d of [] \<Rightarrow> (Full, d) | r # rs \<Rightarrow> (r, d\<lparr>d_script := rs\<rparr>))"

definition d_content :: "Disk \<Rightarrow> path \<Rightarrow> byte list" where
  "d_content d p = (case map_of (d_files d) p of None \<Rightarrow> [] | Some bs \<Rightarrow> bs)"

definition d_write :: "path \<Rightarrow> byte list \<Rightarrow> Disk \<Rightarrow> Disk" where
  "d_write p bs d = d\<lparr>d_files := AList.update p bs (d_files d)\<rparr>"

text \<open>The content of a file after a write at an offset, with the gap that a write past the
  end leaves, and after a change of its size.\<close>

definition overwrite :: "byte list \<Rightarrow> nat \<Rightarrow> byte list \<Rightarrow> byte list" where
  "overwrite old off new =
     take off old @ replicate (off - length old) (CHR 0x00) @ new @ drop (off + length new) old"

definition set_size :: "nat \<Rightarrow> byte list \<Rightarrow> byte list" where
  "set_size n bs = take n bs @ replicate (n - length bs) (CHR 0x00)"

definition sys_pread :: "path \<Rightarrow> nat \<Rightarrow> nat \<Rightarrow> Disk \<Rightarrow> (errno + byte list) \<times> Disk" where
  "sys_pread p n off d =
     (let (r, d') = next_ret d; avail = take n (drop off (d_content d p))
      in case r of
           Full \<Rightarrow> (Inr avail, d')
         | Part k \<Rightarrow> (Inr (take (Suc k) avail), d')
         | Intr \<Rightarrow> (Inl EINTR, d')
         | Fail e \<Rightarrow> (Inl (Errno e), d'))"

definition sys_pwrite :: "path \<Rightarrow> byte list \<Rightarrow> nat \<Rightarrow> Disk \<Rightarrow> (errno + nat) \<times> Disk" where
  "sys_pwrite p bs off d =
     (let (r, d') = next_ret d; old = d_content d p
      in case r of
           Full \<Rightarrow> (Inr (length bs), d_write p (overwrite old off bs) d')
         | Part k \<Rightarrow> (Inr k, d_write p (overwrite old off (take k bs)) d')
         | Intr \<Rightarrow> (Inl EINTR, d')
         | Fail e \<Rightarrow> (Inl (Errno e), d'))"

text \<open>A call that only succeeds or fails, with its effect on success.\<close>

definition sys_call :: "(Disk \<Rightarrow> Disk) \<Rightarrow> Disk \<Rightarrow> (errno + unit) \<times> Disk" where
  "sys_call eff d =
     (let (r, d') = next_ret d
      in case r of
           Full \<Rightarrow> (Inr (), eff d')
         | Part _ \<Rightarrow> (Inr (), eff d')
         | Intr \<Rightarrow> (Inl EINTR, d')
         | Fail e \<Rightarrow> (Inl (Errno e), d'))"

section \<open>File\<close>

record File =
  f_fd :: int
  f_path :: path

text \<open>The three flag combinations the source opens files with.\<close>

datatype open_flags = CreateRw | CreateRwTrunc | ReadOnly

fun path_text :: "path \<Rightarrow> string" where
  "path_text [] = []"
| "path_text [c] = c"
| "path_text (c # cs) = c @ ''/'' @ path_text cs"

definition IoErrorFromErrno :: "string \<Rightarrow> path \<Rightarrow> errno \<Rightarrow> Status" where
  "IoErrorFromErrno operation p e =
     IoError (operation @ (if p = [] then [] else '' '' @ path_text p) @ '': '' @ strerror e)"

text \<open>\<^verbatim>\<open>open(2)\<close>: it refuses a missing parent directory, a directory opened for writing,
  and a missing file that it may not create.\<close>

definition sys_open :: "path \<Rightarrow> open_flags \<Rightarrow> Disk \<Rightarrow> (errno + int) \<times> Disk" where
  "sys_open p flags d =
     (let (r, d1) = next_ret d;
          fd = int (d_next_fd d1);
          d2 = d1\<lparr>d_next_fd := Suc (d_next_fd d1)\<rparr>
      in case r of
           Intr \<Rightarrow> (Inl EINTR, d1)
         | Fail e \<Rightarrow> (Inl (Errno e), d1)
         | _ \<Rightarrow>
             if butlast p \<notin> set (d_dirs d1) then (Inl (Errno ''No such file or directory''), d1)
             else if p \<in> set (d_dirs d1) \<and> flags \<noteq> ReadOnly then (Inl (Errno ''Is a directory''), d1)
             else (case map_of (d_files d1) p of
                 None \<Rightarrow> if flags = ReadOnly then (Inl (Errno ''No such file or directory''), d1)
                         else (Inr fd, d_write p [] d2)
               | Some _ \<Rightarrow> if flags = CreateRwTrunc then (Inr fd, d_write p [] d2)
                           else (Inr fd, d2)))"

definition File_Open :: "path \<Rightarrow> open_flags \<Rightarrow> Disk \<Rightarrow> File Result \<times> Disk" where
  "File_Open p flags d =
     (case sys_open p flags d of
        (Inl e, d') \<Rightarrow> (Inl (IoErrorFromErrno ''open'' p e), d')
      | (Inr fd, d') \<Rightarrow> (Inr \<lparr>f_fd = fd, f_path = p\<rparr>, d'))"

definition File_is_open :: "File \<Rightarrow> bool" where
  "File_is_open f \<longleftrightarrow> f_fd f \<ge> 0"

lemma next_ret_script: "next_ret d = (r, d') \<Longrightarrow> length (d_script d') \<le> length (d_script d) \<and>
    (r \<noteq> Full \<longrightarrow> length (d_script d') < length (d_script d))"
  by (auto simp: next_ret_def split: list.splits)

lemma d_script_d_write [simp]: "d_script (d_write p bs d) = d_script d"
  by (simp add: d_write_def)

text \<open>The loop of \<^verbatim>\<open>PRead\<close>; it returns the bytes that the C++ writes into the caller's
  span, whose number is the returned total.\<close>

function pread_loop :: "path \<Rightarrow> nat \<Rightarrow> nat \<Rightarrow> byte list \<Rightarrow> Disk \<Rightarrow> byte list Result \<times> Disk" where
  "pread_loop p sz off data d =
     (if length data < sz
      then (case sys_pread p (sz - length data) (off + length data) d of
              (Inl e, d') \<Rightarrow>
                if e = EINTR then pread_loop p sz off data d'
                else (Inl (IoErrorFromErrno ''pread'' p e), d')
            | (Inr bs, d') \<Rightarrow>
                if bs = [] then (Inr data, d')
                else pread_loop p sz off (data @ bs) d')
      else (Inr data, d))"
  by pat_completeness auto
termination
proof (relation "measure (\<lambda>(p, sz, off, data, d). (sz - length data) + length (d_script d))",
    goal_cases)
  case 1
  show ?case by simp
next
  case (2 p sz off data d x d' e)
  then have "length (d_script d') < length (d_script d)"
    using next_ret_script [of d]
    by (auto simp: sys_pread_def Let_def split: prod.splits sysret.splits)
  then show ?case by simp
next
  case (3 p sz off data d x d' bs)
  then have "length (d_script d') \<le> length (d_script d)" "length bs \<le> sz - length data"
    using next_ret_script [of d]
    by (auto simp: sys_pread_def Let_def split: prod.splits sysret.splits)
  with 3 show ?case by (cases bs) auto
qed

definition File_PRead :: "File \<Rightarrow> nat \<Rightarrow> nat \<Rightarrow> Disk \<Rightarrow> byte list Result \<times> Disk" where
  "File_PRead f sz off d =
     (if \<not> File_is_open f then (Inl (InvalidArgument ''pread on closed file''), d)
      else pread_loop (f_path f) sz off [] d)"

text \<open>\<^verbatim>\<open>WriteAll\<close> with \<^verbatim>\<open>::pwrite\<close> as its writer, from \<open>written\<close> bytes on.\<close>

function WriteAll :: "path \<Rightarrow> byte list \<Rightarrow> nat \<Rightarrow> nat \<Rightarrow> Disk \<Rightarrow> unit Result \<times> Disk" where
  "WriteAll p data off written d =
     (if written < length data
      then (case sys_pwrite p (drop written data) (off + written) d of
              (Inl e, d') \<Rightarrow>
                if e = EINTR then WriteAll p data off written d'
                else (Inl (IoError (''pwrite failed: '' @ strerror e)), d')
            | (Inr n, d') \<Rightarrow>
                if n = 0 then (Inl (IoError ''pwrite made no progress''), d')
                else if n > length data - written
                then (Inl (Internal ''pwrite returned more bytes than requested''), d')
                else WriteAll p data off (written + n) d')
      else (Inr (), d))"
  by pat_completeness auto
termination
proof (relation "measure (\<lambda>(p, data, off, written, d).
    (length data - written) + length (d_script d))", goal_cases)
  case 1
  show ?case by simp
next
  case (2 p data off written d x d' e)
  then have "length (d_script d') < length (d_script d)"
    using next_ret_script [of d]
    by (auto simp: sys_pwrite_def Let_def split: prod.splits sysret.splits)
  then show ?case by simp
next
  case (3 p data off written d x d' n)
  then have "length (d_script d') \<le> length (d_script d)"
    using next_ret_script [of d]
    by (auto simp: sys_pwrite_def Let_def split: prod.splits sysret.splits)
  with 3 show ?case by auto
qed

declare pread_loop.simps [simp del] WriteAll.simps [simp del]

definition File_PWrite :: "File \<Rightarrow> byte list \<Rightarrow> nat \<Rightarrow> Disk \<Rightarrow> unit Result \<times> Disk" where
  "File_PWrite f data off d =
     (if \<not> File_is_open f then (Inl (InvalidArgument ''pwrite on closed file''), d)
      else WriteAll (f_path f) data off 0 d)"

text \<open>\<^verbatim>\<open>while (true)\<close> around a call that is repeated on \<^verbatim>\<open>EINTR\<close>, as in
  \<^verbatim>\<open>Fsync\<close> and \<^verbatim>\<open>Truncate\<close>.\<close>

function retry_eintr :: "string \<Rightarrow> path \<Rightarrow> (Disk \<Rightarrow> Disk) \<Rightarrow> Disk \<Rightarrow> unit Result \<times> Disk" where
  "retry_eintr operation p eff d =
     (case sys_call eff d of
        (Inr _, d') \<Rightarrow> (Inr (), d')
      | (Inl e, d') \<Rightarrow>
          if e \<noteq> EINTR then (Inl (IoErrorFromErrno operation p e), d')
          else retry_eintr operation p eff d')"
  by pat_completeness auto
termination
proof (relation "measure (\<lambda>(operation, p, eff, d). length (d_script d))", goal_cases)
  case 1
  show ?case by simp
next
  case (2 operation p eff d x d' e)
  then show ?case
    using next_ret_script [of d]
    by (auto simp: sys_call_def Let_def split: prod.splits sysret.splits)
qed

declare retry_eintr.simps [simp del]

definition File_Fsync :: "File \<Rightarrow> Disk \<Rightarrow> unit Result \<times> Disk" where
  "File_Fsync f d =
     (if \<not> File_is_open f then (Inl (InvalidArgument ''fsync on closed file''), d)
      else retry_eintr ''fsync'' (f_path f) (\<lambda>d. d) d)"

definition File_Truncate :: "File \<Rightarrow> nat \<Rightarrow> Disk \<Rightarrow> unit Result \<times> Disk" where
  "File_Truncate f sz d =
     (if \<not> File_is_open f then (Inl (InvalidArgument ''truncate on closed file''), d)
      else if int sz > i64_max then (Inl (InvalidArgument ''truncate size is too large''), d)
      else retry_eintr ''ftruncate'' (f_path f)
             (\<lambda>d. d_write (f_path f) (set_size sz (d_content d (f_path f))) d) d)"

definition File_Close :: "File \<times> Disk \<Rightarrow> unit Result \<times> (File \<times> Disk)" where
  "File_Close s =
     (let (f, d) = s
      in if \<not> File_is_open f then (Inr (), (f, d))
         else
           let f' = f\<lparr>f_fd := -1\<rparr>
           in case sys_call (\<lambda>d. d) d of
                (Inl e, d') \<Rightarrow> (Inl (IoErrorFromErrno ''close'' (f_path f) e), (f', d'))
              | (Inr _, d') \<Rightarrow> (Inr (), (f', d')))"

definition File_Size :: "File \<Rightarrow> Disk \<Rightarrow> nat Result \<times> Disk" where
  "File_Size f d =
     (if \<not> File_is_open f then (Inl (InvalidArgument ''fstat on closed file''), d)
      else case sys_call (\<lambda>d. d) d of
             (Inl e, d') \<Rightarrow> (Inl (IoErrorFromErrno ''fstat'' (f_path f) e), d')
           | (Inr _, d') \<Rightarrow> (Inr (length (d_content d' (f_path f))), d'))"

section \<open>Framing: what a call leaves alone\<close>

definition d_lookup :: "Disk \<Rightarrow> path \<Rightarrow> byte list option" where
  "d_lookup d = map_of (d_files d)"

definition same_disk :: "Disk \<Rightarrow> Disk \<Rightarrow> bool" where
  "same_disk d d' \<longleftrightarrow> d_lookup d' = d_lookup d \<and> d_dirs d' = d_dirs d"

definition same_except :: "path \<Rightarrow> Disk \<Rightarrow> Disk \<Rightarrow> bool" where
  "same_except p d d' \<longleftrightarrow> (\<forall>q. q \<noteq> p \<longrightarrow> d_lookup d' q = d_lookup d q) \<and> d_dirs d' = d_dirs d"

lemma d_content_lookup: "d_content d p = (case d_lookup d p of None \<Rightarrow> [] | Some bs \<Rightarrow> bs)"
  by (simp add: d_content_def d_lookup_def)

lemma d_lookup_d_write [simp]: "d_lookup (d_write p bs d) = (d_lookup d)(p \<mapsto> bs)"
  by (simp add: d_lookup_def d_write_def update_conv')

lemma d_content_d_write [simp]: "d_content (d_write p bs d) q = (if q = p then bs else d_content d q)"
  by (simp add: d_content_lookup)

lemma d_next_fd_d_write [simp]: "d_next_fd (d_write p bs d) = d_next_fd d"
  by (simp add: d_write_def)

lemma d_dirs_d_write [simp]: "d_dirs (d_write p bs d) = d_dirs d"
  by (simp add: d_write_def)

lemma disk_updates [simp]:
  "d_lookup (d\<lparr>d_script := s\<rparr>) = d_lookup d" "d_lookup (d\<lparr>d_next_fd := n\<rparr>) = d_lookup d"
  "d_content (d\<lparr>d_script := s\<rparr>) = d_content d" "d_content (d\<lparr>d_next_fd := n\<rparr>) = d_content d"
  by (simp_all add: d_lookup_def d_content_def fun_eq_iff)

lemma same_disk_refl [simp]: "same_disk d d"
  by (simp add: same_disk_def)

lemma same_disk_trans [trans]: "same_disk a b \<Longrightarrow> same_disk b c \<Longrightarrow> same_disk a c"
  by (simp add: same_disk_def)

lemma same_except_refl [simp]: "same_except p d d"
  by (simp add: same_except_def)

lemma same_except_trans [trans]: "same_except p a b \<Longrightarrow> same_except p b c \<Longrightarrow> same_except p a c"
  by (simp add: same_except_def)

lemma same_disk_except: "same_disk a b \<Longrightarrow> same_except p a b"
  by (simp add: same_disk_def same_except_def)

lemma same_disk_content: "same_disk d d' \<Longrightarrow> d_content d' = d_content d"
  by (simp add: same_disk_def d_content_lookup fun_eq_iff)

lemma same_except_content: "same_except p d d' \<Longrightarrow> q \<noteq> p \<Longrightarrow> d_content d' q = d_content d q"
  by (simp add: same_except_def d_content_lookup)

lemma same_except_d_write [simp]: "same_except p d (d_write p bs d')  \<longleftrightarrow> same_except p d d'"
  by (simp add: same_except_def)

lemma next_ret_same: "next_ret d = (r, d') \<Longrightarrow> same_disk d d' \<and> d_next_fd d' = d_next_fd d"
  by (auto simp: next_ret_def same_disk_def split: list.splits)

lemma next_ret_ok [simp]: "d_script d = [] \<Longrightarrow> next_ret d = (Full, d)"
  by (simp add: next_ret_def)

section \<open>Positioned reads\<close>

lemma sys_pread_cases:
  assumes "sys_pread p n off d = (r, d')"
  shows "same_disk d d' \<and> (\<forall>bs. r = Inr bs \<longrightarrow>
    (\<exists>k. bs = take k (take n (drop off (d_content d p))) \<and>
      (bs = [] \<longrightarrow> take n (drop off (d_content d p)) = [])))"
proof -
  obtain x d1 where n: "next_ret d = (x, d1)" by (cases "next_ret d")
  then have "same_disk d d1" using next_ret_same by blast
  with assms n show ?thesis
    by (cases x)
      (auto simp: sys_pread_def intro: exI [of _ n] exI [of _ "Suc k" for k])
qed

lemma pread_loop_spec:
  assumes "pread_loop p sz off data d = (r, d')"
    and "data = take (length data) (drop off (d_content d p))" and "length data \<le> sz"
  shows "same_disk d d' \<and> (\<forall>bs. r = Inr bs \<longrightarrow> bs = take sz (drop off (d_content d p))) \<and>
    (\<forall>e. r = Inl e \<longrightarrow> st_code e = kIoError)"
  using assms
proof (induction p sz off data d rule: pread_loop.induct)
  case (1 p sz off data d)
  show ?case
  proof (cases "length data < sz")
    case False
    with "1.prems" show ?thesis by (auto simp: pread_loop.simps [of p sz off data d])
  next
    case less: True
    obtain x d1 where c: "sys_pread p (sz - length data) (off + length data) d = (x, d1)"
      by (cases "sys_pread p (sz - length data) (off + length data) d")
    note sp = sys_pread_cases [OF c]
    then have same: "same_disk d d1" by blast
    show ?thesis
    proof (cases x)
      case (Inl e)
      with "1.prems" less c "1.IH"(1) [OF less c [symmetric] Inl] same show ?thesis
        by (auto simp: pread_loop.simps [of p sz off data d] IoErrorFromErrno_def
            same_disk_content intro: same_disk_trans split: if_splits)
    next
      case (Inr bs)
      let ?rest = "take (sz - length data) (drop (off + length data) (d_content d p))"
      from sp Inr obtain k where k: "bs = take k ?rest" "bs = [] \<longrightarrow> ?rest = []" by blast
      have whole: "take sz (drop off (d_content d p)) = data @ ?rest"
        using "1.prems"(2) less
        by (metis add.commute drop_drop le_add_diff_inverse less_imp_le take_add)
      show ?thesis
      proof (cases "bs = []")
        case True
        with "1.prems" less c Inr k whole same show ?thesis
          by (auto simp: pread_loop.simps [of p sz off data d])
      next
        case False
        have pre: "data @ bs = take (length (data @ bs)) (drop off (d_content d1 p))"
        proof -
          have "data @ bs = take (length data + length bs) (take sz (drop off (d_content d p)))"
            unfolding whole using take_length_take [of k ?rest] by (simp only: k(1) [symmetric]) simp
          moreover have "length data + length bs \<le> sz" using less k(1) by auto
          ultimately have "data @ bs = take (length data + length bs) (drop off (d_content d p))"
            by (simp add: min_absorb1)
          then show ?thesis unfolding same_disk_content [OF same] length_append .
        qed
        from "1.prems" less c Inr False have run: "pread_loop p sz off (data @ bs) d1 = (r, d')"
          by (simp add: pread_loop.simps [of p sz off data d])
        have "length (data @ bs) \<le> sz" using less k(1) by auto
        from "1.IH"(2) [OF less c [symmetric] Inr False run pre this] same show ?thesis
          by (auto simp: same_disk_content intro: same_disk_trans)
      qed
    qed
  qed
qed

lemma File_PRead_spec:
  assumes "File_PRead f sz off d = (r, d')"
  shows "same_disk d d'"
    and "r = Inr bs \<Longrightarrow> bs = take sz (drop off (d_content d (f_path f)))"
    and "File_is_open f \<Longrightarrow> r = Inl e \<Longrightarrow> st_code e = kIoError"
  using assms pread_loop_spec [of "f_path f" sz off "[]" d r d']
  by (auto simp: File_PRead_def split: if_splits)

lemma pread_loop_ok:
  "d_script d = [] \<Longrightarrow> data = take (length data) (drop off (d_content d p)) \<Longrightarrow> length data \<le> sz \<Longrightarrow>
     pread_loop p sz off data d = (Inr (take sz (drop off (d_content d p))), d)"
proof -
  assume a: "d_script d = []" "data = take (length data) (drop off (d_content d p))" "length data \<le> sz"
  have stop: "pread_loop p sz off xs d = (Inr xs, d)"
    if "xs = take sz (drop off (d_content d p))" for xs
    using a(1) that
    by (subst pread_loop.simps) (auto simp: sys_pread_def)
  have "take sz (drop off (d_content d p)) =
      data @ take (sz - length data) (drop (off + length data) (d_content d p))"
    using a(2,3) by (metis add.commute drop_drop le_add_diff_inverse take_add)
  then show ?thesis
    using a by (subst pread_loop.simps) (auto simp: sys_pread_def stop)
qed

lemma File_PRead_ok:
  "d_script d = [] \<Longrightarrow> File_is_open f \<Longrightarrow>
     File_PRead f sz off d = (Inr (take sz (drop off (d_content d (f_path f)))), d)"
  by (simp add: File_PRead_def pread_loop_ok)

section \<open>Positioned writes\<close>

lemma overwrite_nil [simp]: "off \<le> length old \<Longrightarrow> overwrite old off [] = old"
  by (simp add: overwrite_def)

lemma overwrite_append:
  "off \<le> length old \<Longrightarrow>
     overwrite (overwrite old off a) (off + length a) b = overwrite old off (a @ b)"
  by (simp add: overwrite_def min_def ac_simps)

lemma overwrite_end: "off = length old \<Longrightarrow> overwrite old off bs = old @ bs"
  by (simp add: overwrite_def)

lemma take_overwrite [simp]: "n \<le> off \<Longrightarrow> off \<le> length old \<Longrightarrow> take n (overwrite old off bs) = take n old"
  by (simp add: overwrite_def min_def)

lemma length_overwrite: "off \<le> length old \<Longrightarrow> length (overwrite old off bs) = max (length old) (off + length bs)"
  by (simp add: overwrite_def)

lemma overwrite_new: "off \<le> length old \<Longrightarrow>
    take (off + length bs) (overwrite old off bs) = take off old @ bs"
  by (simp add: overwrite_def min_def)

lemma sys_pwrite_cases:
  assumes "sys_pwrite p bs off d = (r, d')"
  shows "same_except p d d' \<and>
    (case r of Inl e \<Rightarrow> d_content d' p = d_content d p
     | Inr n \<Rightarrow> d_content d' p = overwrite (d_content d p) off (take n bs))"
proof -
  obtain x d1 where n: "next_ret d = (x, d1)" by (cases "next_ret d")
  then have same: "same_disk d d1" using next_ret_same by blast
  with assms n show ?thesis
    by (cases x) (auto simp: sys_pwrite_def same_disk_except same_disk_content)
qed

text \<open>Whatever the system calls do, \<^verbatim>\<open>WriteAll\<close> only ever extends the written prefix of the
  data, and success means that all of it is there.\<close>

lemma WriteAll_spec:
  assumes "WriteAll p data off w d = (r, d')" and "w \<le> length data"
    and "off \<le> length old" and "d_content d p = overwrite old off (take w data)"
  shows "same_except p d d' \<and>
    (\<exists>k\<le>length data. d_content d' p = overwrite old off (take k data) \<and>
       (r = Inr () \<longrightarrow> k = length data))"
  using assms
proof (induction p data off w d rule: WriteAll.induct)
  case (1 p data off w d)
  show ?case
  proof (cases "w < length data")
    case False
    with "1.prems" show ?thesis by (auto simp: WriteAll.simps [of p data off w d])
  next
    case less: True
    obtain x d1 where c: "sys_pwrite p (drop w data) (off + w) d = (x, d1)"
      by (cases "sys_pwrite p (drop w data) (off + w) d")
    note sp = sys_pwrite_cases [OF c]
    then have same: "same_except p d d1" by blast
    show ?thesis
    proof (cases x)
      case (Inl e)
      with sp have con: "d_content d1 p = d_content d p" by simp
      with "1.prems" less c Inl "1.IH"(1) [OF less c [symmetric] Inl] same show ?thesis
        by (cases "e = EINTR")
          (auto simp: WriteAll.simps [of p data off w d] intro: same_except_trans exI [of _ w])
    next
      case (Inr n)
      have "overwrite (overwrite old off (take w data)) (off + w) (take n (drop w data)) =
          overwrite old off (take (w + n) data)"
        using overwrite_append [OF "1.prems"(3), of "take w data" "take n (drop w data)"] less
        by (simp add: take_add min_def)
      with sp Inr "1.prems"(4) have con: "d_content d1 p = overwrite old off (take (w + n) data)"
        by simp
      show ?thesis
      proof (cases "n = 0 \<or> n > length data - w")
        case True
        have "take (w + n) data = take (min (w + n) (length data)) data" by (simp add: min_def)
        with True "1.prems"(1) less c Inr con same show ?thesis
          by (intro conjI exI [of _ "min (w + n) (length data)"])
            (auto simp: WriteAll.simps [of p data off w d])
      next
        case False
        with "1.prems"(1) less c Inr have run: "WriteAll p data off (w + n) d1 = (r, d')"
          by (simp add: WriteAll.simps [of p data off w d])
        from False have "n \<noteq> 0" "\<not> length data - w < n" by auto
        from "1.IH"(2) [OF less c [symmetric] Inr this run _ "1.prems"(3) con] False less same
        show ?thesis by (auto intro: same_except_trans)
      qed
    qed
  qed
qed

lemma WriteAll_ok:
  "d_script d = [] \<Longrightarrow> WriteAll p data off 0 d =
     (Inr (), if data = [] then d else d_write p (overwrite (d_content d p) off data) d)"
  by (cases "data = []"; subst WriteAll.simps)
    (simp_all add: WriteAll.simps [of p data off "length data"] sys_pwrite_def)

lemma File_PWrite_spec:
  assumes "File_PWrite f data off d = (r, d')" and "off \<le> length (d_content d (f_path f))"
  shows "same_except (f_path f) d d'"
    and "\<exists>k\<le>length data.
      d_content d' (f_path f) = overwrite (d_content d (f_path f)) off (take k data) \<and>
      (r = Inr () \<longrightarrow> k = length data)"
  using assms WriteAll_spec [of "f_path f" data off 0 d r d' "d_content d (f_path f)"]
  by (auto simp: File_PWrite_def split: if_splits)

lemma File_PWrite_ok:
  assumes "d_script d = []" "File_is_open f" "data \<noteq> []"
  shows "File_PWrite f data off d =
    (Inr (), d_write (f_path f) (overwrite (d_content d (f_path f)) off data) d)"
  using assms by (simp add: File_PWrite_def WriteAll_ok)

section \<open>The other calls\<close>

lemma sys_call_cases:
  assumes "sys_call eff d = (r, d')"
  shows "(\<exists>e. r = Inl e \<and> same_disk d d') \<or> (\<exists>d1. r = Inr () \<and> same_disk d d1 \<and> d' = eff d1)"
proof -
  obtain x d1 where n: "next_ret d = (x, d1)" by (cases "next_ret d")
  then have "same_disk d d1" using next_ret_same by blast
  with assms n show ?thesis by (cases x) (auto simp: sys_call_def)
qed

lemma sys_call_ok [simp]: "d_script d = [] \<Longrightarrow> sys_call eff d = (Inr (), eff d)"
  by (simp add: sys_call_def)

lemma retry_eintr_spec:
  assumes "retry_eintr operation p eff d = (r, d')"
  shows "(\<exists>e. r = Inl e \<and> st_code e = kIoError \<and> same_disk d d') \<or>
    (\<exists>d1. r = Inr () \<and> same_disk d d1 \<and> d' = eff d1)"
  using assms
proof (induction operation p eff d rule: retry_eintr.induct)
  case (1 operation p eff d)
  obtain x d1 where c: "sys_call eff d = (x, d1)" by (cases "sys_call eff d")
  show ?case
  proof (cases x)
    case (Inl e)
    with sys_call_cases [OF c] have same: "same_disk d d1" by auto
    with "1.prems" c Inl "1.IH" [OF c [symmetric] Inl] show ?thesis
      by (cases "e = EINTR")
        (auto simp: retry_eintr.simps [of operation p eff d] IoErrorFromErrno_def
          intro: same_disk_trans)
  next
    case (Inr u)
    with "1.prems" c sys_call_cases [OF c] show ?thesis
      by (auto simp: retry_eintr.simps [of operation p eff d])
  qed
qed

lemma retry_eintr_ok [simp]: "d_script d = [] \<Longrightarrow> retry_eintr operation p eff d = (Inr (), eff d)"
  by (subst retry_eintr.simps) simp

lemma File_Fsync_same: "File_Fsync f d = (r, d') \<Longrightarrow> same_disk d d'"
  using retry_eintr_spec [of "''fsync''" "f_path f" "\<lambda>d. d" d r d']
  by (auto simp: File_Fsync_def split: if_splits)

lemma File_Truncate_spec:
  assumes "File_Truncate f sz d = (r, d')"
  shows "same_except (f_path f) d d'"
    and "r = Inr () \<Longrightarrow> d_content d' (f_path f) = set_size sz (d_content d (f_path f))"
    and "r = Inl e \<Longrightarrow> same_disk d d'"
  using assms retry_eintr_spec [of "''ftruncate''" "f_path f"
      "\<lambda>d. d_write (f_path f) (set_size sz (d_content d (f_path f))) d" d r d']
  by (auto simp: File_Truncate_def same_disk_content same_disk_except split: if_splits)

lemma File_Size_spec:
  assumes "File_Size f d = (r, d')"
  shows "same_disk d d'" and "r = Inr n \<Longrightarrow> n = length (d_content d (f_path f))"
  using assms
  by (auto simp: File_Size_def dest!: sys_call_cases dest: same_disk_content
      split: if_splits prod.splits sum.splits)

lemma File_Close_spec:
  assumes "File_Close (f, d) = (r, (f', d'))"
  shows "same_disk d d'" and "f_path f' = f_path f" and "\<not> File_is_open f'"
  using assms
  by (auto simp: File_Close_def File_is_open_def Let_def dest!: sys_call_cases
      split: if_splits prod.splits sum.splits)

lemma sys_open_cases:
  assumes "sys_open p flags d = (r, d')"
  shows "same_except p d d' \<and> d_next_fd d \<le> d_next_fd d' \<and>
    (case r of Inl e \<Rightarrow> same_disk d d'
     | Inr fd \<Rightarrow> 0 \<le> fd \<and> d_lookup d' p \<noteq> None \<and>
         d_content d' p = (if flags = CreateRwTrunc then [] else d_content d p))"
proof -
  obtain x d1 where n: "next_ret d = (x, d1)" by (cases "next_ret d")
  then have s: "same_disk d d1" "d_next_fd d1 = d_next_fd d" using next_ret_same by blast+
  then have l: "d_lookup d1 = d_lookup d" "d_dirs d1 = d_dirs d" "d_content d1 = d_content d"
    by (simp_all add: same_disk_def d_content_lookup fun_eq_iff)
  have m: "map_of (d_files d1) p = d_lookup d p" using l(1) by (simp add: d_lookup_def)
  show ?thesis
    using assms n s l m
    by (cases x)
      (auto simp: sys_open_def Let_def same_except_def same_disk_def d_content_lookup
        split: if_splits option.splits)
qed

lemma File_Open_spec:
  assumes "File_Open p flags d = (r, d')"
  shows "same_except p d d'"
    and "r = Inl e \<Longrightarrow> same_disk d d' \<and> st_code e = kIoError"
    and "r = Inr f \<Longrightarrow> f_path f = p \<and> File_is_open f \<and> d_lookup d' p \<noteq> None \<and>
      d_content d' p = (if flags = CreateRwTrunc then [] else d_content d p)"
  using assms
  by (auto simp: File_Open_def File_is_open_def IoErrorFromErrno_def dest!: sys_open_cases
      split: prod.splits sum.splits)

lemma File_Open_create_ok:
  assumes "d_script d = []" "butlast p \<in> set (d_dirs d)" "p \<notin> set (d_dirs d)" "flags \<noteq> ReadOnly"
  shows "\<exists>f d'. File_Open p flags d = (Inr f, d') \<and> d_script d' = []"
  using assms by (auto simp: File_Open_def sys_open_def Let_def split: option.splits)

end
