(* ===== verification/OffsetIndex.thy ===== *)
theory OffsetIndex
  imports FileIO Endian
begin

text \<open>
  Models \<^verbatim>\<open>include/logmq/storage/offset_index.h\<close> and
  \<^verbatim>\<open>src/storage/offset_index.cpp\<close>: the sparse index from batch offsets to file
  positions of one segment. The lemmas: the entries stay strictly increasing, an append
  that keeps the order never fails, \<^verbatim>\<open>FindFloor\<close> returns the greatest entry not beyond
  the offset, and \<^verbatim>\<open>Rewrite\<close> changes no file but its own.
\<close>

section \<open>The code\<close>

record IndexEntry =
  ie_offset :: int
  ie_position :: nat

record OffsetIndex =
  ix_path :: path
  ix_base_offset :: int
  ix_interval_bytes :: nat
  ix_entries :: "IndexEntry list"

definition kIndexEntryBytes :: nat where "kIndexEntryBytes = 8 + 8"

definition EncodeEntry :: "IndexEntry \<Rightarrow> byte list" where
  "EncodeEntry entry =
     (let bytes = AppendLittleEndian (word_of_int (ie_offset entry) :: u64) []
      in AppendLittleEndian (word_of_nat (ie_position entry) :: u64) bytes)"

definition mk_OffsetIndex :: "path \<Rightarrow> int \<Rightarrow> nat \<Rightarrow> OffsetIndex" where
  "mk_OffsetIndex p base_offset interval_bytes =
     \<lparr>ix_path = p, ix_base_offset = base_offset,
      ix_interval_bytes = (if interval_bytes = 0 then 1 else interval_bytes), ix_entries = []\<rparr>"

text \<open>\<^verbatim>\<open>std::upper_bound\<close>: the number of leading entries for which the comparison
  \<^verbatim>\<open>value < entry\<close> does not hold.\<close>

definition upper_bound :: "('a \<Rightarrow> bool) \<Rightarrow> 'a list \<Rightarrow> nat" where
  "upper_bound beyond xs = length (takeWhile (\<lambda>x. \<not> beyond x) xs)"

definition FindFloor :: "OffsetIndex \<Rightarrow> int \<Rightarrow> IndexEntry Result" where
  "FindFloor ix offset =
     (if ix_entries ix = [] \<or> offset < ie_offset (hd (ix_entries ix))
      then Inl (NotFound ''offset index has no floor entry'')
      else
        let it = upper_bound (\<lambda>entry. offset < ie_offset entry) (ix_entries ix)
        in Inr (ix_entries ix ! (it - 1)))"

definition MaybeAppend :: "int \<Rightarrow> nat \<Rightarrow> OffsetIndex \<Rightarrow> unit Result \<times> OffsetIndex" where
  "MaybeAppend offset position ix =
     (let pushed = ix\<lparr>ix_entries :=
                        ix_entries ix @ [\<lparr>ie_offset = offset, ie_position = position\<rparr>]\<rparr>
      in if ix_base_offset ix < 0
         then (Inl (InvalidArgument ''offset index base_offset must not be negative''), ix)
         else if offset < ix_base_offset ix
         then (Inl (InvalidArgument ''offset index entry is before base_offset''), ix)
         else if ix_entries ix \<noteq> []
         then
           let final = last (ix_entries ix)
           in if offset \<le> ie_offset final
              then (Inl (InvalidArgument ''offset index entries must be increasing''), ix)
              else if position < ie_position final
              then (Inl (InvalidArgument ''offset index positions must be increasing''), ix)
              else if position - ie_position final < ix_interval_bytes ix then (Inr (), ix)
              else (Inr (), pushed)
         else (Inr (), pushed))"

definition OffsetIndex_Clear :: "OffsetIndex \<Rightarrow> OffsetIndex" where
  "OffsetIndex_Clear ix = ix\<lparr>ix_entries := []\<rparr>"

text \<open>The destructor of a \<^verbatim>\<open>File\<close> that goes out of scope closes it and ignores the
  status.\<close>

definition File_destroy :: "File \<Rightarrow> Disk \<Rightarrow> Disk" where
  "File_destroy f d = snd (snd (File_Close (f, d)))"

definition Rewrite :: "OffsetIndex \<Rightarrow> Disk \<Rightarrow> unit Result \<times> Disk" where
  "Rewrite ix d =
     (case File_Open (ix_path ix) CreateRwTrunc d of
        (Inl e, d1) \<Rightarrow> (Inl e, d1)
      | (Inr file, d1) \<Rightarrow>
          let bytes = concat (map EncodeEntry (ix_entries ix))
          in case File_PWrite file bytes 0 d1 of
               (Inl e, d2) \<Rightarrow> (Inl e, File_destroy file d2)
             | (Inr _, d2) \<Rightarrow>
                 let (r, d3) = File_Fsync file d2 in (r, File_destroy file d3))"

section \<open>Order of the entries\<close>

definition entry_less :: "IndexEntry \<Rightarrow> IndexEntry \<Rightarrow> bool" where
  "entry_less a b \<longleftrightarrow> ie_offset a < ie_offset b \<and> ie_position a < ie_position b"

definition index_ok :: "OffsetIndex \<Rightarrow> bool" where
  "index_ok ix \<longleftrightarrow> 0 \<le> ix_base_offset ix \<and> 0 < ix_interval_bytes ix \<and>
     sorted_wrt entry_less (ix_entries ix) \<and>
     (\<forall>e \<in> set (ix_entries ix). ix_base_offset ix \<le> ie_offset e)"

lemma index_ok_mk: "0 \<le> base \<Longrightarrow> index_ok (mk_OffsetIndex p base n)"
  by (simp add: index_ok_def mk_OffsetIndex_def)

lemma index_ok_Clear: "index_ok ix \<Longrightarrow> index_ok (OffsetIndex_Clear ix)"
  by (simp add: index_ok_def OffsetIndex_Clear_def)

lemma sorted_wrt_snoc:
  "sorted_wrt R (xs @ [x]) \<longleftrightarrow> sorted_wrt R xs \<and> (\<forall>y \<in> set xs. R y x)"
  by (simp add: sorted_wrt_append)

lemma sorted_wrt_last:
  assumes "sorted_wrt R xs" "y \<in> set xs" "y \<noteq> last xs"
  shows "R y (last xs)"
  using assms by (cases xs rule: rev_cases) (auto simp: sorted_wrt_append)

lemma entry_less_snoc:
  assumes "sorted_wrt entry_less xs" "xs \<noteq> []" "entry_less (last xs) x" "y \<in> set xs"
  shows "entry_less y x"
  using sorted_wrt_last [OF assms(1,4)] assms(3) by (cases "y = last xs") (auto simp: entry_less_def)

lemma MaybeAppend_frame:
  "MaybeAppend off pos ix = (r, ix') \<Longrightarrow> ix_path ix' = ix_path ix \<and>
     ix_base_offset ix' = ix_base_offset ix \<and> ix_interval_bytes ix' = ix_interval_bytes ix"
  by (auto simp: MaybeAppend_def Let_def split: if_splits)

lemma index_ok_MaybeAppend:
  assumes "index_ok ix" and "MaybeAppend off pos ix = (r, ix')"
  shows "index_ok ix'"
proof (cases "ix' = ix")
  case True
  with assms show ?thesis by simp
next
  case False
  with assms have new: "ix' = ix\<lparr>ix_entries := ix_entries ix @ [\<lparr>ie_offset = off, ie_position = pos\<rparr>]\<rparr>"
    "ix_base_offset ix \<le> off"
    by (auto simp: MaybeAppend_def Let_def split: if_splits)
  have lst: "ix_entries ix \<noteq> [] \<longrightarrow>
      entry_less (last (ix_entries ix)) \<lparr>ie_offset = off, ie_position = pos\<rparr>"
    using assms False by (auto simp: MaybeAppend_def Let_def entry_less_def index_ok_def split: if_splits)
  have "entry_less y \<lparr>ie_offset = off, ie_position = pos\<rparr>" if "y \<in> set (ix_entries ix)" for y
  proof (rule entry_less_snoc)
    show "sorted_wrt entry_less (ix_entries ix)" using assms(1) by (simp add: index_ok_def)
    show "y \<in> set (ix_entries ix)" "ix_entries ix \<noteq> []" using that by auto
    with lst show "entry_less (last (ix_entries ix)) \<lparr>ie_offset = off, ie_position = pos\<rparr>" by blast
  qed
  with assms(1) new show ?thesis by (simp add: index_ok_def sorted_wrt_snoc)
qed

lemma MaybeAppend_ok:
  assumes "index_ok ix" and "ix_base_offset ix \<le> off"
    and "\<forall>e \<in> set (ix_entries ix). ie_offset e < off \<and> ie_position e \<le> pos"
  obtains ix' where "MaybeAppend off pos ix = (Inr (), ix')"
    and "ix_entries ix' = ix_entries ix \<or>
      ix_entries ix' = ix_entries ix @ [\<lparr>ie_offset = off, ie_position = pos\<rparr>]"
    and "ix_entries ix = [] \<Longrightarrow> ix_entries ix' = [\<lparr>ie_offset = off, ie_position = pos\<rparr>]"
proof -
  have "ix_entries ix \<noteq> [] \<longrightarrow>
      ie_offset (last (ix_entries ix)) < off \<and> ie_position (last (ix_entries ix)) \<le> pos"
    using assms(3) last_in_set by blast
  with assms(1,2) have "\<exists>ix'. MaybeAppend off pos ix = (Inr (), ix') \<and>
      (ix_entries ix' = ix_entries ix \<or>
       ix_entries ix' = ix_entries ix @ [\<lparr>ie_offset = off, ie_position = pos\<rparr>]) \<and>
      (ix_entries ix = [] \<longrightarrow> ix_entries ix' = [\<lparr>ie_offset = off, ie_position = pos\<rparr>])"
    by (auto simp: MaybeAppend_def Let_def index_ok_def)
  with that show thesis by blast
qed

section \<open>Search\<close>

lemma upper_bound_spec:
  assumes "sorted_wrt (\<lambda>a b. beyond a \<longrightarrow> beyond b) xs"
  shows "upper_bound beyond xs \<le> length xs"
    and "i < upper_bound beyond xs \<Longrightarrow> \<not> beyond (xs ! i)"
    and "upper_bound beyond xs \<le> i \<Longrightarrow> i < length xs \<Longrightarrow> beyond (xs ! i)"
proof -
  let ?n = "upper_bound beyond xs"
  show "?n \<le> length xs" by (simp add: upper_bound_def length_takeWhile_le)
  show "i < ?n \<Longrightarrow> \<not> beyond (xs ! i)"
    unfolding upper_bound_def by (metis nth_mem set_takeWhileD takeWhile_nth)
  assume i: "?n \<le> i" "i < length xs"
  then have "beyond (xs ! ?n)"
    using nth_length_takeWhile [of "\<lambda>x. \<not> beyond x" xs] by (simp add: upper_bound_def)
  with i assms show "beyond (xs ! i)"
    using sorted_wrt_nth_less [OF assms, of ?n i] by (cases "?n = i") auto
qed

text \<open>\<^verbatim>\<open>FindFloor\<close> returns the greatest entry whose offset is not above the one asked for.\<close>

lemma FindFloor_Inr:
  assumes "index_ok ix" and "FindFloor ix off = Inr e"
  shows "e \<in> set (ix_entries ix)" and "ie_offset e \<le> off"
    and "e' \<in> set (ix_entries ix) \<Longrightarrow> ie_offset e' \<le> off \<Longrightarrow> ie_offset e' \<le> ie_offset e"
proof -
  let ?xs = "ix_entries ix" and ?beyond = "\<lambda>e. off < ie_offset e"
  let ?n = "upper_bound ?beyond ?xs"
  have srt: "sorted_wrt entry_less ?xs" using assms(1) by (simp add: index_ok_def)
  then have mono: "sorted_wrt (\<lambda>a b. ?beyond a \<longrightarrow> ?beyond b) ?xs"
    by (rule sorted_wrt_mono_rel [rotated]) (auto simp: entry_less_def)
  note ub = upper_bound_spec [OF mono]
  from assms(2) have ne: "?xs \<noteq> []" and hd: "\<not> ?beyond (hd ?xs)" and e: "e = ?xs ! (?n - 1)"
    by (auto simp: FindFloor_def Let_def split: if_splits)
  from ne hd have n: "0 < ?n" by (cases ?xs) (auto simp: upper_bound_def)
  with ub(1) have m: "?n - 1 < length ?xs" by linarith
  with e show "e \<in> set ?xs" by simp
  show "ie_offset e \<le> off" using ub(2) [of "?n - 1"] n e by simp
  assume "e' \<in> set ?xs" and le: "ie_offset e' \<le> off"
  then obtain i where i: "i < length ?xs" "e' = ?xs ! i" by (auto simp: in_set_conv_nth)
  with le ub(3) [of i] have "i < ?n" by (meson leD not_le)
  then have "i \<le> ?n - 1" by simp
  with i e m srt show "ie_offset e' \<le> ie_offset e"
    using sorted_wrt_nth_less [OF srt, of i "?n - 1"]
    by (cases "i = ?n - 1") (auto simp: entry_less_def)
qed

lemma FindFloor_Inl:
  assumes "index_ok ix" and "FindFloor ix off = Inl s" and "e \<in> set (ix_entries ix)"
  shows "off < ie_offset e"
proof -
  from assms(2,3) have "off < ie_offset (hd (ix_entries ix))"
    by (auto simp: FindFloor_def Let_def split: if_splits)
  with assms(1,3) show ?thesis
    by (cases "ix_entries ix") (auto simp: index_ok_def entry_less_def)
qed

lemma FindFloor_NotFound: "FindFloor ix off = Inl s \<Longrightarrow> st_code s = kNotFound"
  by (auto simp: FindFloor_def Let_def split: if_splits)

section \<open>The index file\<close>

lemma File_destroy_same: "same_disk d (File_destroy f d)"
  using File_Close_spec [of f d] by (cases "File_Close (f, d)") (auto simp: File_destroy_def)

lemma File_destroy_script: "d_script d = [] \<Longrightarrow> d_script (File_destroy f d) = []"
  by (simp add: File_destroy_def File_Close_def Let_def)

definition index_bytes :: "IndexEntry list \<Rightarrow> byte list" where
  "index_bytes es = concat (map EncodeEntry es)"

lemma length_EncodeEntry: "length (EncodeEntry e) = kIndexEntryBytes"
  by (simp add: EncodeEntry_def AppendLittleEndian_def kIndexEntryBytes_def)

lemma overwrite_empty [simp]: "overwrite [] 0 bs = bs"
  by (simp add: overwrite_def)

lemma Rewrite_spec:
  assumes "Rewrite ix d = (r, d')"
  shows "same_except (ix_path ix) d d'"
    and "r = Inr () \<Longrightarrow> d_content d' (ix_path ix) = index_bytes (ix_entries ix)"
proof -
  obtain x d1 where o: "File_Open (ix_path ix) CreateRwTrunc d = (x, d1)"
    by (cases "File_Open (ix_path ix) CreateRwTrunc d")
  have goal: "same_except (ix_path ix) d d' \<and>
      (r = Inr () \<longrightarrow> d_content d' (ix_path ix) = index_bytes (ix_entries ix))"
  proof (cases x)
    case (Inl e)
    with assms o File_Open_spec(1) [OF o] show ?thesis by (auto simp: Rewrite_def)
  next
    case (Inr f)
    note op = File_Open_spec(1) [OF o] File_Open_spec(3) [OF o Inr]
    let ?bs = "index_bytes (ix_entries ix)"
    obtain y d2 where w: "File_PWrite f ?bs 0 d1 = (y, d2)" by (cases "File_PWrite f ?bs 0 d1")
    note pw = File_PWrite_spec [OF w le0]
    then have s2: "same_except (ix_path ix) d d2"
      using op by (metis same_except_trans)
    obtain z d3 where s: "File_Fsync f d2 = (z, d3)" by (cases "File_Fsync f d2")
    note dst = same_disk_except [OF File_destroy_same]
    show ?thesis
    proof (cases y)
      case (Inl e)
      with assms o Inr w s2 show ?thesis
        by (auto simp: Rewrite_def index_bytes_def intro: same_except_trans dst)
    next
      case y: (Inr u)
      with pw(2) op(2) have c2: "d_content d2 (ix_path ix) = ?bs" by auto
      from File_Fsync_same [OF s] have "same_disk d2 (File_destroy f d3)"
        using File_destroy_same same_disk_trans by blast
      with assms o Inr w y s s2 c2 show ?thesis
        by (auto simp: Rewrite_def index_bytes_def same_disk_content intro: same_except_trans
            same_disk_except)
    qed
  qed
  then show "same_except (ix_path ix) d d'"
    and "r = Inr () \<Longrightarrow> d_content d' (ix_path ix) = index_bytes (ix_entries ix)" by blast+
qed

end
