(* ===== verification/Segment.thy ===== *)
theory Segment
  imports RecordBatch OffsetIndex
begin

text \<open>
  Models \<^verbatim>\<open>include/logmq/storage/segment.h\<close> and \<^verbatim>\<open>src/storage/segment.cpp\<close>: one
  append-only file of batches. The abstract view of a segment is the list of bytes below
  its write position (\<open>seg_holds\<close>); bytes beyond it, left by a write that failed half
  way, are not part of it. The lemmas state every operation over that view, for every
  script of system call outcomes.
\<close>

section \<open>The code\<close>

record Segment =
  sg_path :: path
  sg_base_offset :: int
  sg_write_position :: nat
  sg_file :: File
  sg_closed :: bool

definition Segment_Open :: "path \<Rightarrow> int \<Rightarrow> Disk \<Rightarrow> Segment Result \<times> Disk" where
  "Segment_Open p base_offset d =
     (if base_offset < 0
      then (Inl (InvalidArgument ''segment base_offset must not be negative''), d)
      else
        case File_Open p CreateRw d of
          (Inl e, d1) \<Rightarrow> (Inl e, d1)
        | (Inr opened_file, d1) \<Rightarrow>
            (case File_Size opened_file d1 of
               (Inl e, d2) \<Rightarrow> (Inl e, File_destroy opened_file d2)
             | (Inr file_size, d2) \<Rightarrow>
                 (Inr \<lparr>sg_path = p, sg_base_offset = base_offset, sg_write_position = file_size,
                       sg_file = opened_file, sg_closed = False\<rparr>, d2)))"

definition Segment_Append :: "RecordBatch \<Rightarrow> Segment \<times> Disk \<Rightarrow> nat Result \<times> (Segment \<times> Disk)" where
  "Segment_Append batch sd =
     (let (s, d) = sd
      in if sg_closed s then (Inl (InvalidArgument ''append on closed segment''), (s, d))
         else
           case EncodeRecordBatch batch of
             Inl e \<Rightarrow> (Inl e, (s, d))
           | Inr encoded \<Rightarrow>
               let position = sg_write_position s
               in case File_PWrite (sg_file s) encoded position d of
                    (Inl e, d') \<Rightarrow> (Inl e, (s, d'))
                  | (Inr _, d') \<Rightarrow>
                      (Inr position,
                       (s\<lparr>sg_write_position := sg_write_position s + length encoded\<rparr>, d')))"

definition Segment_Read :: "Segment \<Rightarrow> nat \<Rightarrow> nat \<Rightarrow> Disk \<Rightarrow> RecordBatch Result \<times> Disk" where
  "Segment_Read s position max_bytes d =
     (if sg_closed s then (Inl (InvalidArgument ''read on closed segment''), d)
      else if max_bytes < kRecordBatchHeaderBytes
      then (Inl (InvalidArgument ''max_bytes is smaller than record batch header''), d)
      else
        case File_PRead (sg_file s) kRecordBatchHeaderBytes position d of
          (Inl e, d1) \<Rightarrow> (Inl e, d1)
        | (Inr header, d1) \<Rightarrow>
            if length header = 0
            then (Inl (NotFound ''record batch position is not readable''), d1)
            else if length header \<noteq> kRecordBatchHeaderBytes
            then (Inl (Corruption ''record batch header is truncated''), d1)
            else
              (case PeekRecordBatchBytes header of
                 Inl e \<Rightarrow> (Inl e, d1)
               | Inr bbytes \<Rightarrow>
                   if unat bbytes > max_bytes
                   then (Inl (InvalidArgument ''record batch is larger than max_bytes''), d1)
                   else
                     (case File_PRead (sg_file s) (unat bbytes) position d1 of
                        (Inl e, d2) \<Rightarrow> (Inl e, d2)
                      | (Inr encoded, d2) \<Rightarrow>
                          if length encoded \<noteq> unat bbytes
                          then (Inl (Corruption ''record batch payload is truncated''), d2)
                          else (DecodeRecordBatch encoded, d2))))"

definition Segment_Flush :: "Segment \<Rightarrow> Disk \<Rightarrow> unit Result \<times> Disk" where
  "Segment_Flush s d = File_Fsync (sg_file s) d"

definition Segment_Truncate :: "nat \<Rightarrow> Segment \<times> Disk \<Rightarrow> unit Result \<times> (Segment \<times> Disk)" where
  "Segment_Truncate sz sd =
     (let (s, d) = sd
      in if sg_closed s then (Inl (InvalidArgument ''truncate on closed segment''), (s, d))
         else
           case File_Truncate (sg_file s) sz d of
             (Inl e, d') \<Rightarrow> (Inl e, (s, d'))
           | (Inr _, d') \<Rightarrow> (Inr (), (s\<lparr>sg_write_position := sz\<rparr>, d')))"

definition Segment_Close :: "Segment \<times> Disk \<Rightarrow> unit Result \<times> (Segment \<times> Disk)" where
  "Segment_Close sd =
     (let (s, d) = sd;
          (r, (f, d')) = File_Close (sg_file s, d)
      in (r, (s\<lparr>sg_closed := True, sg_file := f\<rparr>, d')))"

section \<open>The bytes a segment holds\<close>

definition seg_open :: "Segment \<Rightarrow> bool" where
  "seg_open s \<longleftrightarrow> \<not> sg_closed s \<and> File_is_open (sg_file s) \<and> f_path (sg_file s) = sg_path s"

definition seg_holds :: "Disk \<Rightarrow> Segment \<Rightarrow> byte list \<Rightarrow> bool" where
  "seg_holds d s data \<longleftrightarrow> seg_open s \<and> length data = sg_write_position s \<and>
     (\<exists>rest. d_content d (sg_path s) = data @ rest)"

lemma seg_holds_content:
  "seg_holds d s data \<Longrightarrow> d_content d' (sg_path s) = d_content d (sg_path s) \<Longrightarrow> seg_holds d' s data"
  by (simp add: seg_holds_def)

lemma seg_holds_same: "seg_holds d s data \<Longrightarrow> same_disk d d' \<Longrightarrow> seg_holds d' s data"
  by (simp add: seg_holds_def same_disk_content)

lemma seg_holds_except:
  "seg_holds d s data \<Longrightarrow> same_except p d d' \<Longrightarrow> p \<noteq> sg_path s \<Longrightarrow> seg_holds d' s data"
  by (simp add: seg_holds_def same_except_content)

lemma Segment_Open_spec:
  assumes "Segment_Open p base d = (r, d')"
  shows "same_except p d d' \<and> d_content d' p = d_content d p \<and>
    (\<forall>s. r = Inr s \<longrightarrow> sg_path s = p \<and> sg_base_offset s = base \<and>
       seg_holds d' s (d_content d p) \<and> d_lookup d' p \<noteq> None)"
proof (cases "base < 0")
  case True
  with assms show ?thesis by (auto simp: Segment_Open_def)
next
  case False
  obtain x d1 where o: "File_Open p CreateRw d = (x, d1)" by (cases "File_Open p CreateRw d")
  note op = File_Open_spec [OF o]
  show ?thesis
  proof (cases x)
    case (Inl e)
    with assms False o op(1,2) show ?thesis by (auto simp: Segment_Open_def same_disk_content)
  next
    case (Inr f)
    with op have f: "f_path f = p" "File_is_open f" "d_content d1 p = d_content d p" "d_lookup d1 p \<noteq> None"
      by auto
    obtain y d2 where z: "File_Size f d1 = (y, d2)" by (cases "File_Size f d1")
    note sz = File_Size_spec [OF z]
    show ?thesis
    proof (cases y)
      case y: (Inl e)
      have "same_disk d1 (File_destroy f d2)"
        using sz(1) File_destroy_same by (rule same_disk_trans)
      moreover have "r = Inl e" "d' = File_destroy f d2"
        using assms False o Inr z y by (auto simp: Segment_Open_def)
      ultimately show ?thesis
        using f(3) op(1) same_except_trans same_disk_except same_disk_content by (metis Inl_Inr_False)
    next
      case y: (Inr n)
      have "same_except p d d2" "d_content d2 p = d_content d p" "d_lookup d2 p \<noteq> None"
        using sz(1) f(3,4) op(1) same_except_trans same_disk_except same_disk_content
        by (metis same_disk_def)+
      with assms False o Inr z y sz(2) f show ?thesis
        by (auto simp: Segment_Open_def seg_holds_def seg_open_def)
    qed
  qed
qed

lemma Segment_Append_spec:
  assumes "seg_holds d s data" "0 \<le> base" "batch_fits rs"
    and run: "Segment_Append (mk_batch base rs) (s, d) = (r, (s', d'))"
  shows "same_except (sg_path s) d d' \<and>
    (\<forall>e. r = Inl e \<longrightarrow> s' = s \<and> seg_holds d' s data) \<and>
    (\<forall>pos. r = Inr pos \<longrightarrow> pos = length data \<and>
       s' = s\<lparr>sg_write_position := length (data @ batch_bytes base rs)\<rparr> \<and>
       seg_holds d' s' (data @ batch_bytes base rs))"
proof -
  let ?bs = "batch_bytes base rs"
  from assms(1) obtain rest where s: "seg_open s" "length data = sg_write_position s"
    and c: "d_content d (sg_path s) = data @ rest" by (auto simp: seg_holds_def)
  obtain y d1 where w: "File_PWrite (sg_file s) ?bs (length data) d = (y, d1)"
    by (cases "File_PWrite (sg_file s) ?bs (length data) d")
  have p: "f_path (sg_file s) = sg_path s" using s(1) by (simp add: seg_open_def)
  have "length data \<le> length (d_content d (f_path (sg_file s)))" by (simp add: p c)
  note pw = File_PWrite_spec [OF w this, unfolded p]
  from pw(2) obtain k where k: "k \<le> length ?bs" "y = Inr () \<longrightarrow> k = length ?bs"
    "d_content d1 (sg_path s) = overwrite (data @ rest) (length data) (take k ?bs)"
    by (auto simp: c)
  have ow: "overwrite (data @ rest) (length data) xs = data @ xs @ drop (length xs) rest" for xs
    by (simp add: overwrite_def)
  note run' = run [unfolded Segment_Append_def, simplified EncodeRecordBatch_mk_batch [OF assms(2,3)]]
  show ?thesis
  proof (cases y)
    case (Inl e)
    with run' w s pw(1) k ow show ?thesis
      by (auto simp: seg_holds_def seg_open_def Let_def)
  next
    case (Inr u)
    with run' w s pw(1) k ow show ?thesis
      by (auto simp: seg_holds_def seg_open_def Let_def)
  qed
qed

text \<open>A read at the start of a batch the segment holds: the batch, or an I/O error, or the
  complaint that the caller's limit is smaller than the batch.\<close>

lemma Segment_Read_spec:
  assumes "seg_holds d s (pre @ batch_bytes base rs @ post)"
    and b: "0 \<le> base" "is_i64 base" "batch_fits rs"
    and run: "Segment_Read s (length pre) max_bytes d = (r, d')"
  shows "same_disk d d' \<and>
    (\<forall>e. r = Inl e \<longrightarrow> st_code e = kIoError \<or>
       max_bytes < length (batch_bytes base rs) \<and> st_code e = kInvalidArgument) \<and>
    (\<forall>v. r = Inr v \<longrightarrow> v = mk_batch base rs)"
proof -
  let ?bs = "batch_bytes base rs"
  from assms(1) obtain rest where s: "\<not> sg_closed s" "File_is_open (sg_file s)" "f_path (sg_file s) = sg_path s"
    and c: "d_content d (sg_path s) = pre @ ?bs @ post @ rest" by (auto simp: seg_holds_def seg_open_def)
  have h: "kRecordBatchHeaderBytes \<le> length ?bs" by simp
  have n: "unat (word_of_nat (kRecordBatchHeaderBytes + length (payload_bytes rs)) :: u64) = length ?bs"
    using unat_batch_length [OF b(3)] by simp
  have peek: "PeekRecordBatchBytes (take kRecordBatchHeaderBytes (?bs @ xs)) =
      Inr (word_of_nat (kRecordBatchHeaderBytes + length (payload_bytes rs)))" for xs
    by (subst PeekRecordBatchBytes_take) (simp_all add: PeekRecordBatchBytes_batch_bytes [OF b(3)])
  obtain x d1 where r1: "File_PRead (sg_file s) kRecordBatchHeaderBytes (length pre) d = (x, d1)"
    by (cases "File_PRead (sg_file s) kRecordBatchHeaderBytes (length pre) d")
  note p1 = File_PRead_spec [OF r1, unfolded s(3)]
  obtain y d2 where r2: "File_PRead (sg_file s) (length ?bs) (length pre) d1 = (y, d2)"
    by (cases "File_PRead (sg_file s) (length ?bs) (length pre) d1")
  note p2 = File_PRead_spec [OF r2, unfolded s(3) same_disk_content [OF p1(1)]]
  have hd: "x = Inr xs \<Longrightarrow> xs = take kRecordBatchHeaderBytes (?bs @ post @ rest) \<and>
      length xs = kRecordBatchHeaderBytes" for xs
    using p1(2) [of xs] h by (simp add: c)
  have en: "y = Inr xs \<Longrightarrow> xs = ?bs" for xs using p2(2) [of xs] by (simp add: c)
  have dec: "DecodeRecordBatch ?bs = Inr (mk_batch base rs)"
    using DecodeRecordBatch_batch_bytes [OF b, of "[]"] by simp
  have same2: "same_disk d d2" using p1(1) p2(1) by (rule same_disk_trans)
  have nz: "kRecordBatchHeaderBytes \<noteq> 0" by (simp add: kRecordBatchHeaderBytes_def)
  show ?thesis
  proof (cases "max_bytes < kRecordBatchHeaderBytes")
    case True
    with run s(1) show ?thesis by (auto simp: Segment_Read_def)
  next
    case big: False
    show ?thesis
    proof (cases x)
      case (Inl e)
      with big run s(1,2) r1 p1 show ?thesis by (auto simp: Segment_Read_def)
    next
      case (Inr hs)
      have run2: "(if length ?bs > max_bytes
          then (Inl (InvalidArgument ''record batch is larger than max_bytes''), d1)
          else (case y of Inl e \<Rightarrow> (Inl e, d2)
                | Inr encoded \<Rightarrow> if length encoded \<noteq> length ?bs
                    then (Inl (Corruption ''record batch payload is truncated''), d2)
                    else (DecodeRecordBatch encoded, d2))) = (r, d')"
      proof -
        have pk: "PeekRecordBatchBytes hs =
            Inr (word_of_nat (kRecordBatchHeaderBytes + length (payload_bytes rs)))"
          using hd [OF Inr] peek by simp
        have len: "length hs = kRecordBatchHeaderBytes" using hd [OF Inr] by blast
        show ?thesis
          using run unfolding Segment_Read_def
          by (simp only: s(1) big r1 Inr prod.case sum.case if_False len nz not_True_eq_False
              simp_thms pk n r2)
      qed
      show ?thesis
      proof (cases y)
        case Inl
        with run2 p1(1) p2(3) same2 s(2) show ?thesis by (auto split: if_splits)
      next
        case (Inr xs)
        with run2 p1(1) same2 en dec show ?thesis by (auto split: if_splits)
      qed
    qed
  qed
qed

lemma Segment_Truncate_spec:
  assumes "seg_holds d s (data @ tail)" and "Segment_Truncate (length data) (s, d) = (r, (s', d'))"
  shows "same_except (sg_path s) d d' \<and>
    (\<forall>e. r = Inl e \<longrightarrow> s' = s \<and> same_disk d d') \<and>
    (r = Inr () \<longrightarrow> s' = s\<lparr>sg_write_position := length data\<rparr> \<and>
       d_content d' (sg_path s) = data \<and> seg_holds d' s' data)"
proof -
  from assms(1) obtain rest where s: "seg_open s" and p: "f_path (sg_file s) = sg_path s"
    and c: "d_content d (sg_path s) = data @ tail @ rest" by (auto simp: seg_holds_def seg_open_def)
  obtain x d1 where t: "File_Truncate (sg_file s) (length data) d = (x, d1)"
    by (cases "File_Truncate (sg_file s) (length data) d")
  note tr = File_Truncate_spec [OF t, unfolded p c]
  have "set_size (length data) (data @ tail @ rest) = data" by (simp add: set_size_def)
  with assms(2) s t tr show ?thesis
    by (cases x) (auto simp: Segment_Truncate_def seg_holds_def seg_open_def)
qed

section \<open>Reads without faults\<close>

lemma Segment_Read_ok:
  assumes "d_script d = []" "seg_holds d s (pre @ batch_bytes base rs @ post)"
    and "0 \<le> base" "is_i64 base" "batch_fits rs" "length (batch_bytes base rs) \<le> max_bytes"
  shows "Segment_Read s (length pre) max_bytes d = (Inr (mk_batch base rs), d)"
proof -
  let ?bs = "batch_bytes base rs"
  from assms(2) obtain rest where s: "\<not> sg_closed s" "File_is_open (sg_file s)" "f_path (sg_file s) = sg_path s"
    and c: "d_content d (sg_path s) = pre @ ?bs @ post @ rest" by (auto simp: seg_holds_def seg_open_def)
  have n: "unat (word_of_nat (kRecordBatchHeaderBytes + length (payload_bytes rs)) :: u64) = length ?bs"
    using unat_batch_length [OF assms(5)] by simp
  have peek: "PeekRecordBatchBytes (take kRecordBatchHeaderBytes (?bs @ post @ rest)) =
      Inr (word_of_nat (kRecordBatchHeaderBytes + length (payload_bytes rs)))"
    by (subst PeekRecordBatchBytes_take) (simp_all add: PeekRecordBatchBytes_batch_bytes [OF assms(5)])
  have "DecodeRecordBatch ?bs = Inr (mk_batch base rs)"
    using DecodeRecordBatch_batch_bytes [OF assms(3-5), of "[]"] by simp
  moreover have "length (take kRecordBatchHeaderBytes (?bs @ post @ rest)) = kRecordBatchHeaderBytes"
    "kRecordBatchHeaderBytes \<noteq> 0" "\<not> max_bytes < kRecordBatchHeaderBytes"
    using assms(6) by (simp_all add: kRecordBatchHeaderBytes_def)
  moreover have "take (length ?bs) (?bs @ post @ rest) = ?bs"
    by (simp del: length_batch_bytes)
  ultimately show ?thesis
    using assms(6)
    by (simp add: Segment_Read_def s File_PRead_ok [OF assms(1)] c peek n
        del: length_batch_bytes of_nat_add unat_of_nat_u64 take_append length_take)
qed

text \<open>A proper prefix of a batch at the end of a segment, as an append leaves it that a crash
  cut short, is never read as a batch.\<close>

lemma Segment_Read_torn:
  assumes "d_script d = []" "seg_open s" "d_content d (sg_path s) = pre @ take k (batch_bytes base rs)"
    and "batch_fits rs" "k < length (batch_bytes base rs)"
  shows "\<exists>e. Segment_Read s (length pre) k d = (Inl e, d) \<and> st_code e \<noteq> kIoError"
proof (cases "k < kRecordBatchHeaderBytes")
  case True
  with assms(2) show ?thesis by (simp add: Segment_Read_def seg_open_def)
next
  case False
  let ?bs = "batch_bytes base rs"
  from assms(2) have s: "\<not> sg_closed s" "File_is_open (sg_file s)" "f_path (sg_file s) = sg_path s"
    by (auto simp: seg_open_def)
  have n: "unat (word_of_nat (kRecordBatchHeaderBytes + length (payload_bytes rs)) :: u64) = length ?bs"
    using unat_batch_length [OF assms(4)] by simp
  have peek: "PeekRecordBatchBytes (take kRecordBatchHeaderBytes ?bs) =
      Inr (word_of_nat (kRecordBatchHeaderBytes + length (payload_bytes rs)))"
    using PeekRecordBatchBytes_batch_bytes [OF assms(4), of base "[]"]
    by (subst PeekRecordBatchBytes_take) simp_all
  have hd: "take kRecordBatchHeaderBytes (take k ?bs) = take kRecordBatchHeaderBytes ?bs"
    "length (take kRecordBatchHeaderBytes ?bs) = kRecordBatchHeaderBytes"
    "kRecordBatchHeaderBytes \<noteq> 0"
    using False by (simp_all add: min_def kRecordBatchHeaderBytes_def)
  show ?thesis
    using False assms(5)
    by (simp add: Segment_Read_def s File_PRead_ok [OF assms(1)] assms(3) peek n hd
        del: length_batch_bytes of_nat_add unat_of_nat_u64 take_take length_take)
qed

end
