(* ===== verification/CommitLog.thy ===== *)
theory CommitLog
  imports Segment
begin

text \<open>
  The code of \<^verbatim>\<open>include/logmq/storage/commit_log.h\<close> and
  \<^verbatim>\<open>src/storage/commit_log.cpp\<close>: the log of one partition, a list of segments with a
  sparse index each. Its correctness is in the theories \<^verbatim>\<open>CommitLog_Refines\<close> and
  \<^verbatim>\<open>CommitLog_Recovery\<close>.

  The mutex makes every public operation atomic, so an operation is one function on the
  log and the disk. File sizes, positions and \<^verbatim>\<open>segment_bytes\<close> are natural numbers:
  no file reaches $2^{63}$ bytes. The directory iterator of \<^verbatim>\<open>LoadOrCreateSegments\<close>
  lists the files of the disk whose parent is the data directory; it is taken not to
  throw. Descriptors of segments that a failing \<^verbatim>\<open>Open\<close> drops are closed by their
  destructors, which changes no file and is left out.
\<close>

record CommitLogOptions =
  clo_data_dir :: path
  clo_segment_bytes :: nat
  clo_index_interval_bytes :: nat
  clo_strict_recovery :: bool

record AppendResult =
  ar_base_offset :: int
  ar_position :: nat
  ar_segment_path :: path

record CommitLog =
  cl_options :: CommitLogOptions
  cl_segments :: "Segment list"
  cl_indexes :: "OffsetIndex list"
  cl_next_offset :: int
  cl_closed :: bool

definition mk_CommitLog :: "CommitLogOptions \<Rightarrow> CommitLog" where
  "mk_CommitLog options =
     \<lparr>cl_options = options, cl_segments = [], cl_indexes = [], cl_next_offset = 0, cl_closed = True\<rparr>"

section \<open>Names\<close>

definition ParseBaseOffset :: "path \<Rightarrow> int option" where
  "ParseBaseOffset p =
     (let name = path_stem (last p)
      in if name = [] then None else parse_digits i64_max name 0)"

definition SegmentPath :: "CommitLogOptions \<Rightarrow> int \<Rightarrow> path" where
  "SegmentPath options base_offset =
     clo_data_dir options @ [pad_zeros 20 (to_string base_offset) @ ''.log'']"

definition IndexPath :: "CommitLogOptions \<Rightarrow> int \<Rightarrow> path" where
  "IndexPath options base_offset =
     clo_data_dir options @ [pad_zeros 20 (to_string base_offset) @ ''.index'']"

definition BatchContainsOffset :: "RecordBatch \<Rightarrow> int \<Rightarrow> bool" where
  "BatchContainsOffset batch offset =
     (if rb_base_offset batch < 0 then False
      else
        let count = sint (rb_record_count batch)
        in rb_base_offset batch \<le> offset \<and> offset < rb_base_offset batch + count)"

section \<open>Rolling to a new segment\<close>

definition RollSegment :: "int \<Rightarrow> CommitLog \<times> Disk \<Rightarrow> unit Result \<times> (CommitLog \<times> Disk)" where
  "RollSegment base_offset st =
     (let (cl, d) = st
      in case Segment_Open (SegmentPath (cl_options cl) base_offset) base_offset d of
           (Inl e, d1) \<Rightarrow> (Inl e, (cl, d1))
         | (Inr segment, d1) \<Rightarrow>
             let index = mk_OffsetIndex (IndexPath (cl_options cl) base_offset) base_offset
                           (clo_index_interval_bytes (cl_options cl));
                 cl' = cl\<lparr>cl_segments := cl_segments cl @ [segment],
                           cl_indexes := cl_indexes cl @ [index]\<rparr>;
                 (r, d2) = Rewrite index d1
             in (r, (cl', d2)))"

section \<open>Append\<close>

text \<open>The end of \<^verbatim>\<open>Append\<close>, on the last segment after a possible roll.\<close>

definition append_to_last ::
  "RecordBatch \<Rightarrow> CommitLog \<times> Disk \<Rightarrow> AppendResult Result \<times> (CommitLog \<times> Disk)" where
  "append_to_last batch st =
     (let (cl, d) = st;
          target = last (cl_segments cl);
          index = last (cl_indexes cl)
      in case Segment_Append batch (target, d) of
           (Inl e, (target', d')) \<Rightarrow>
             (Inl e, (cl\<lparr>cl_segments := butlast (cl_segments cl) @ [target']\<rparr>, d'))
         | (Inr position, (target', d')) \<Rightarrow>
             let cl' = cl\<lparr>cl_segments := butlast (cl_segments cl) @ [target']\<rparr>
             in case MaybeAppend (rb_base_offset batch) position index of
                  (Inl e, index') \<Rightarrow>
                    (Inl e, (cl'\<lparr>cl_indexes := butlast (cl_indexes cl) @ [index']\<rparr>, d'))
                | (Inr _, index') \<Rightarrow>
                    (Inr \<lparr>ar_base_offset = rb_base_offset batch, ar_position = position,
                          ar_segment_path = sg_path target'\<rparr>,
                     (cl'\<lparr>cl_indexes := butlast (cl_indexes cl) @ [index'],
                           cl_next_offset := cl_next_offset cl + sint (rb_record_count batch)\<rparr>, d')))"

definition CommitLog_Append ::
  "Record list \<Rightarrow> CommitLog \<times> Disk \<Rightarrow> AppendResult Result \<times> (CommitLog \<times> Disk)" where
  "CommitLog_Append records st =
     (let (cl, d) = st
      in if cl_closed cl then (Inl (InvalidArgument ''append on closed commit log''), st)
         else if records = []
         then (Inl (InvalidArgument ''commit log append requires at least one record''), st)
         else if int (length records) > i64_max - cl_next_offset cl
         then (Inl (InvalidArgument ''commit log append would overflow offset''), st)
         else
           case MakeRecordBatch (cl_next_offset cl) records of
             Inl e \<Rightarrow> (Inl e, st)
           | Inr batch \<Rightarrow>
               let active = last (cl_segments cl)
               in if sg_write_position active > 0 \<and>
                     sg_write_position active + unat (rb_batch_bytes batch) >
                       clo_segment_bytes (cl_options cl)
                  then sbind (RollSegment (rb_base_offset batch)) (\<lambda>_. append_to_last batch) st
                  else append_to_last batch st)"

section \<open>Read\<close>

definition FindSegmentIndex :: "CommitLog \<Rightarrow> int \<Rightarrow> nat Result" where
  "FindSegmentIndex cl offset =
     (if cl_segments cl = [] then Inl (NotFound ''commit log has no segments'')
      else
        let it = upper_bound (\<lambda>segment. offset < sg_base_offset segment) (cl_segments cl)
        in if it = 0 then Inl (NotFound ''commit log offset is before first segment'')
           else Inr (it - 1))"

text \<open>A batch that was read is never empty, so the loops over a segment make progress.\<close>

lemma DecodeRecordBatch_bytes: "DecodeRecordBatch data = Inr b \<Longrightarrow> 32 \<le> unat (rb_batch_bytes b)"
  by (auto simp: DecodeRecordBatch_def PeekRecordBatchBytes_def rbind_Inr_iff Let_def
      kRecordBatchHeaderBytes_def split: if_splits prod.splits)

lemma Segment_Read_bytes: "Segment_Read s pos n d = (Inr b, d') \<Longrightarrow> 32 \<le> unat (rb_batch_bytes b)"
  by (auto simp: Segment_Read_def dest!: DecodeRecordBatch_bytes
      split: if_splits sum.splits prod.splits)

function read_loop ::
  "Segment \<Rightarrow> int \<Rightarrow> nat \<Rightarrow> nat \<Rightarrow> Disk \<Rightarrow> RecordBatch Result \<times> Disk" where
  "read_loop segment offset max_bytes position d =
     (if position < sg_write_position segment
      then (case Segment_Read segment position max_bytes d of
              (Inl e, d') \<Rightarrow> (Inl e, d')
            | (Inr batch, d') \<Rightarrow>
                if BatchContainsOffset batch offset then (Inr batch, d')
                else read_loop segment offset max_bytes
                       (position + unat (rb_batch_bytes batch)) d')
      else (Inl (NotFound ''commit log offset was not found in segment''), d))"
  by pat_completeness auto
termination
  by (relation "measure (\<lambda>(segment, _, _, position, _). sg_write_position segment - position)")
    (auto dest!: Segment_Read_bytes [OF sym])

declare read_loop.simps [simp del]

definition CommitLog_Read ::
  "int \<Rightarrow> nat \<Rightarrow> CommitLog \<times> Disk \<Rightarrow> RecordBatch Result \<times> (CommitLog \<times> Disk)" where
  "CommitLog_Read offset max_bytes st =
     (let (cl, d) = st
      in if cl_closed cl then (Inl (InvalidArgument ''read on closed commit log''), st)
         else if offset < 0
         then (Inl (InvalidArgument ''commit log read offset must not be negative''), st)
         else if offset \<ge> cl_next_offset cl
         then (Inl (NotFound ''commit log offset is not readable''), st)
         else
           case FindSegmentIndex cl offset of
             Inl e \<Rightarrow> (Inl e, st)
           | Inr segment_index \<Rightarrow>
               let segment = cl_segments cl ! segment_index;
                   index = cl_indexes cl ! segment_index;
                   from = (\<lambda>position. let (r, d') = read_loop segment offset max_bytes position d
                                      in (r, (cl, d')))
               in (case FindFloor index offset of
                     Inr floor_entry \<Rightarrow> from (ie_position floor_entry)
                   | Inl e \<Rightarrow> if st_code e \<noteq> kNotFound then (Inl e, st) else from 0))"

section \<open>Flush and close\<close>

fun for_status :: "('a \<Rightarrow> 's \<Rightarrow> unit Result \<times> 's) \<Rightarrow> 'a list \<Rightarrow> 's \<Rightarrow> unit Result \<times> 's" where
  "for_status f [] = sreturn ()"
| "for_status f (x # xs) = sbind (f x) (\<lambda>_. for_status f xs)"

definition CommitLog_Flush :: "CommitLog \<times> Disk \<Rightarrow> unit Result \<times> (CommitLog \<times> Disk)" where
  "CommitLog_Flush st =
     (let (cl, d) = st
      in if cl_closed cl then (Inl (InvalidArgument ''flush on closed commit log''), st)
         else
           let (r, d') = sbind (for_status Segment_Flush (cl_segments cl))
                           (\<lambda>_. for_status Rewrite (cl_indexes cl)) d
           in (r, (cl, d')))"

fun close_segments :: "Segment list \<Rightarrow> Disk \<Rightarrow> unit Result \<times> (Segment list \<times> Disk)" where
  "close_segments [] d = (Inr (), ([], d))"
| "close_segments (s # ss) d =
     (case Segment_Close (s, d) of
        (Inl e, (s', d')) \<Rightarrow> (Inl e, (s' # ss, d'))
      | (Inr _, (s', d')) \<Rightarrow>
          let (r, (ss', d'')) = close_segments ss d' in (r, (s' # ss', d'')))"

definition CommitLog_Close :: "CommitLog \<times> Disk \<Rightarrow> unit Result \<times> (CommitLog \<times> Disk)" where
  "CommitLog_Close st =
     (let (cl, d) = st
      in if cl_closed cl then (Inr (), st)
         else
           case for_status Rewrite (cl_indexes cl) d of
             (Inl e, d1) \<Rightarrow> (Inl e, (cl, d1))
           | (Inr _, d1) \<Rightarrow>
               (case close_segments (cl_segments cl) d1 of
                  (Inl e, (ss, d2)) \<Rightarrow> (Inl e, (cl\<lparr>cl_segments := ss\<rparr>, d2))
                | (Inr _, (ss, d2)) \<Rightarrow>
                    (Inr (), (cl\<lparr>cl_segments := ss, cl_closed := True\<rparr>, d2))))"

section \<open>Recovery\<close>

text \<open>The decision after a batch that could not be read: success leaves the loop and the
  tail is cut off, failure is the result of the recovery.\<close>

definition tail_check ::
  "bool \<Rightarrow> bool \<Rightarrow> Segment \<Rightarrow> nat \<Rightarrow> nat \<Rightarrow> Status \<Rightarrow> Disk \<Rightarrow> unit Result \<times> Disk" where
  "tail_check strict active_segment segment position remaining status d =
     (if strict
      then
        if \<not> active_segment \<or> st_code status = kIoError then (Inl status, d)
        else if remaining < kRecordBatchHeaderBytes then (Inr (), d)
        else
          case File_Open (sg_path segment) ReadOnly d of
            (Inl e, d1) \<Rightarrow> (Inl e, d1)
          | (Inr file, d1) \<Rightarrow>
              (case File_PRead file kRecordBatchHeaderBytes position d1 of
                 (Inl e, d2) \<Rightarrow> (Inl e, File_destroy file d2)
               | (Inr header, d2) \<Rightarrow>
                   if length header \<noteq> kRecordBatchHeaderBytes
                   then (Inl status, File_destroy file d2)
                   else
                     (case PeekRecordBatchBytes header of
                        Inl _ \<Rightarrow> (Inl status, File_destroy file d2)
                      | Inr declared_bytes \<Rightarrow>
                          if unat declared_bytes \<le> remaining
                          then (Inl status, File_destroy file d2)
                          else (Inr (), File_destroy file d2)))
      else (Inr (), d))"

function recover_loop ::
  "CommitLogOptions \<Rightarrow> bool \<Rightarrow> Segment \<Rightarrow> nat \<Rightarrow> nat \<Rightarrow> int \<Rightarrow> OffsetIndex \<Rightarrow> Disk \<Rightarrow>
   (nat \<times> int) Result \<times> (OffsetIndex \<times> Disk)" where
  "recover_loop options active_segment segment file_size position recovered_next_offset index d =
     (if position < file_size
      then
        let remaining = file_size - position
        in if remaining > u64_max
           then (Inl (InvalidArgument ''segment is too large to recover on this platform''), (index, d))
           else
             (case Segment_Read segment position remaining d of
                (Inl e, d1) \<Rightarrow>
                  (case tail_check (clo_strict_recovery options) active_segment segment
                          position remaining e d1 of
                     (Inl e', d2) \<Rightarrow> (Inl e', (index, d2))
                   | (Inr _, d2) \<Rightarrow> (Inr (position, recovered_next_offset), (index, d2)))
              | (Inr batch, d1) \<Rightarrow>
                  (case MaybeAppend (rb_base_offset batch) position index of
                     (Inl e, index') \<Rightarrow> (Inl e, (index', d1))
                   | (Inr _, index') \<Rightarrow>
                       recover_loop options active_segment segment file_size
                         (position + unat (rb_batch_bytes batch))
                         (max recovered_next_offset
                            (rb_base_offset batch + sint (rb_record_count batch)))
                         index' d1))
      else (Inr (position, recovered_next_offset), (index, d)))"
  by pat_completeness auto
termination
  by (relation "measure (\<lambda>(_, _, _, file_size, position, _, _, _). file_size - position)")
    (auto dest!: Segment_Read_bytes [OF sym])

declare recover_loop.simps [simp del]

definition RecoverSegment ::
  "CommitLogOptions \<Rightarrow> bool \<Rightarrow> Segment \<times> OffsetIndex \<times> Disk \<Rightarrow>
   int Result \<times> (Segment \<times> OffsetIndex \<times> Disk)" where
  "RecoverSegment options active_segment st =
     (let (segment, index, d) = st;
          file_size = sg_write_position segment
      in case recover_loop options active_segment segment file_size 0 (sg_base_offset segment)
                (OffsetIndex_Clear index) d of
           (Inl e, (index, d)) \<Rightarrow> (Inl e, (segment, index, d))
         | (Inr (position, recovered_next_offset), (index, d)) \<Rightarrow>
             (case (if position \<noteq> file_size then Segment_Truncate position (segment, d)
                    else (Inr (), (segment, d))) of
                (Inl e, (segment, d)) \<Rightarrow> (Inl e, (segment, index, d))
              | (Inr _, (segment, d)) \<Rightarrow>
                  (case Rewrite index d of
                     (Inl e, d) \<Rightarrow> (Inl e, (segment, index, d))
                   | (Inr _, d) \<Rightarrow> (Inr recovered_next_offset, (segment, index, d)))))"

definition list_logs :: "CommitLogOptions \<Rightarrow> Disk \<Rightarrow> (int \<times> path) list" where
  "list_logs options d =
     sort_key fst (List.map_filter (\<lambda>p.
       if p \<noteq> [] \<and> butlast p = clo_data_dir options \<and> path_extension (last p) = ''.log''
       then map_option (\<lambda>base_offset. (base_offset, p)) (ParseBaseOffset p)
       else None) (map fst (d_files d)))"

fun load_segments ::
  "path \<Rightarrow> (int \<times> path) list \<Rightarrow> CommitLog \<times> Disk \<Rightarrow> unit Result \<times> (CommitLog \<times> Disk)" where
  "load_segments last_path [] st = (Inr (), st)"
| "load_segments last_path ((base_offset, p) # logs) st =
     (let (cl, d) = st
      in case Segment_Open p base_offset d of
           (Inl e, d1) \<Rightarrow> (Inl e, (cl, d1))
         | (Inr segment, d1) \<Rightarrow>
             let index = mk_OffsetIndex (IndexPath (cl_options cl) base_offset) base_offset
                           (clo_index_interval_bytes (cl_options cl))
             in (case RecoverSegment (cl_options cl) (p = last_path) (segment, index, d1) of
                   (Inl e, (_, _, d2)) \<Rightarrow> (Inl e, (cl, d2))
                 | (Inr next_offset, (segment, index, d2)) \<Rightarrow>
                     load_segments last_path logs
                       (cl\<lparr>cl_next_offset := max (cl_next_offset cl) next_offset,
                           cl_segments := cl_segments cl @ [segment],
                           cl_indexes := cl_indexes cl @ [index]\<rparr>, d2)))"

definition LoadOrCreateSegments :: "CommitLog \<times> Disk \<Rightarrow> unit Result \<times> (CommitLog \<times> Disk)" where
  "LoadOrCreateSegments st =
     (let (cl, d) = st;
          logs = list_logs (cl_options cl) d
      in if logs = [] then RollSegment 0 st
         else sbind (load_segments (snd (last logs)) logs) (\<lambda>_ (cl, d).
                if cl_segments cl = [] then RollSegment 0 (cl, d) else (Inr (), (cl, d))) st)"

text \<open>\<^verbatim>\<open>std::filesystem::create_directories\<close>: every missing directory on the way, unless a
  file stands there.\<close>

definition path_prefixes :: "path \<Rightarrow> path list" where
  "path_prefixes p = map (\<lambda>n. take n p) [1..<Suc (length p)]"

definition create_directories :: "path \<Rightarrow> Disk \<Rightarrow> (errno + unit) \<times> Disk" where
  "create_directories p d =
     (let (r, d1) = next_ret d
      in case r of
           Intr \<Rightarrow> (Inl EINTR, d1)
         | Fail e \<Rightarrow> (Inl (Errno e), d1)
         | _ \<Rightarrow>
             if \<exists>q \<in> set (path_prefixes p). q \<in> set (map fst (d_files d1))
             then (Inl (Errno ''Not a directory''), d1)
             else (Inr (), d1\<lparr>d_dirs := d_dirs d1 @
                     filter (\<lambda>q. q \<notin> set (d_dirs d1)) (path_prefixes p)\<rparr>))"

definition CommitLog_Open :: "CommitLogOptions \<Rightarrow> Disk \<Rightarrow> CommitLog Result \<times> Disk" where
  "CommitLog_Open options d =
     (if clo_data_dir options = []
      then (Inl (InvalidArgument ''commit log data_dir must not be empty''), d)
      else if clo_segment_bytes options < kRecordBatchHeaderBytes
      then (Inl (InvalidArgument ''commit log segment_bytes is too small''), d)
      else
        let options = (if clo_index_interval_bytes options = 0
                       then options\<lparr>clo_index_interval_bytes := 1\<rparr> else options)
        in case create_directories (clo_data_dir options) d of
             (Inl e, d1) \<Rightarrow> (Inl (IoError (''create commit log directory: '' @ strerror e)), d1)
           | (Inr _, d1) \<Rightarrow>
               (case LoadOrCreateSegments (mk_CommitLog options, d1) of
                  (Inl e, (_, d2)) \<Rightarrow> (Inl e, d2)
                | (Inr _, (cl, d2)) \<Rightarrow> (Inr (cl\<lparr>cl_closed := False\<rparr>), d2)))"

end
