(* ===== verification/TextStream.thy ===== *)
theory TextStream
  imports FileIO
begin

text \<open>
  The parts of the C++ stream and filesystem libraries that the topic manager and the offset
  store keep their text files with: \<^verbatim>\<open>std::getline\<close>, \<^verbatim>\<open>operator>>\<close> for words and 64 bit
  integers, \<^verbatim>\<open>std::ifstream\<close>, \<^verbatim>\<open>std::ofstream\<close> with truncation, \<^verbatim>\<open>rename\<close> and
  \<^verbatim>\<open>exists\<close>.

  An input stream is the text that is still to be read and whether it ends at the end of
  the file; otherwise a read error follows, which sets \<^verbatim>\<open>badbit\<close>. Extraction that reaches
  a read error fails. The reads of a file are taken together when it is opened.
\<close>

type_synonym istream = "string \<times> bool"

section \<open>Extraction\<close>

definition is_space :: "char \<Rightarrow> bool" where
  "is_space ch \<longleftrightarrow> (let c = of_char ch :: nat in c = 32 \<or> 9 \<le> c \<and> c \<le> 13)"

definition is_digit :: "char \<Rightarrow> bool" where
  "is_digit ch \<longleftrightarrow> (let c = of_char ch :: nat in 48 \<le> c \<and> c \<le> 57)"

definition getline :: "istream \<Rightarrow> (string \<times> istream) option" where
  "getline input =
     (let (s, ok) = input;
          line = takeWhile (\<lambda>c. c \<noteq> CHR 0x0A) s
      in case dropWhile (\<lambda>c. c \<noteq> CHR 0x0A) s of
           _ # rest \<Rightarrow> Some (line, (rest, ok))
         | [] \<Rightarrow> if s \<noteq> [] \<and> ok then Some (line, ([], ok)) else None)"

definition read_word :: "istream \<Rightarrow> (string \<times> istream) option" where
  "read_word input =
     (let (s, ok) = input;
          s = dropWhile is_space s;
          word = takeWhile (\<lambda>c. \<not> is_space c) s;
          rest = dropWhile (\<lambda>c. \<not> is_space c) s
      in if word = [] \<or> rest = [] \<and> \<not> ok then None else Some (word, (rest, ok)))"

text \<open>The sign and the digits of a decimal integer; a value above the limit fails.\<close>

definition read_decimal :: "int \<Rightarrow> int \<Rightarrow> istream \<Rightarrow> (bool \<times> int \<times> istream) option" where
  "read_decimal limit negative_limit input =
     (let (s, ok) = input;
          s = dropWhile is_space s;
          negative = (s \<noteq> [] \<and> hd s = CHR ''-'');
          s = (if s \<noteq> [] \<and> (hd s = CHR ''-'' \<or> hd s = CHR ''+'') then tl s else s);
          digits = takeWhile is_digit s;
          rest = dropWhile is_digit s
      in if digits = [] \<or> rest = [] \<and> \<not> ok then None
         else map_option (\<lambda>v. (negative, v, (rest, ok)))
                (parse_digits (if negative then negative_limit else limit) digits 0))"

text \<open>For an unsigned type a minus sign negates modulo $2^{64}$.\<close>

definition read_u64 :: "istream \<Rightarrow> (nat \<times> istream) option" where
  "read_u64 input =
     map_option (\<lambda>(negative, v, rest).
        (unat (if negative then - word_of_int v else word_of_int v :: u64), rest))
       (read_decimal (int u64_max) (int u64_max) input)"

definition read_i64 :: "istream \<Rightarrow> (int \<times> istream) option" where
  "read_i64 input =
     map_option (\<lambda>(negative, v, rest). (if negative then - v else v, rest))
       (read_decimal i64_max (i64_max + 1) input)"

text \<open>The lines that \<^verbatim>\<open>while (std::getline(input, line))\<close> delivers.\<close>

lemma getline_shorter: "getline (s, ok) = Some (line, (rest, ok')) \<Longrightarrow> length rest < length s"
proof -
  assume g: "getline (s, ok) = Some (line, (rest, ok'))"
  show ?thesis
  proof (cases "dropWhile (\<lambda>c. c \<noteq> CHR 0x0A) s")
    case Nil
    with g show ?thesis by (auto simp: getline_def split: if_splits)
  next
    case (Cons c cs)
    have "length (c # cs) \<le> length s" unfolding Cons [symmetric] by (rule length_dropWhile_le)
    with g Cons show ?thesis by (simp add: getline_def)
  qed
qed

function stream_lines :: "istream \<Rightarrow> string list" where
  "stream_lines input =
     (case getline input of None \<Rightarrow> [] | Some (line, rest) \<Rightarrow> line # stream_lines rest)"
  by pat_completeness auto
termination
  by (relation "measure (\<lambda>(s, _). length s)") (auto dest: getline_shorter)

declare stream_lines.simps [simp del]

section \<open>Files\<close>

function stream_read :: "path \<Rightarrow> byte list \<Rightarrow> Disk \<Rightarrow> istream \<times> Disk" where
  "stream_read p data d =
     (if length data < length (d_content d p)
      then (case sys_pread p (length (d_content d p) - length data) (length data) d of
              (Inl e, d') \<Rightarrow> if e = EINTR then stream_read p data d' else ((data, False), d')
            | (Inr bs, d') \<Rightarrow>
                if bs = [] then ((data, True), d') else stream_read p (data @ bs) d')
      else ((data, True), d))"
  by pat_completeness auto
termination
proof (relation "measure (\<lambda>(p, data, d). (length (d_content d p) - length data) + length (d_script d))",
    goal_cases)
  case 1
  show ?case by simp
next
  case (2 p data d x d' e)
  then have "length (d_script d') < length (d_script d)" "d_content d' = d_content d"
    using next_ret_script [of d] next_ret_same [of d]
    by (auto simp: sys_pread_def Let_def same_disk_content split: prod.splits sysret.splits)
  then show ?case by simp
next
  case (3 p data d x d' bs)
  then have "length (d_script d') \<le> length (d_script d)" "d_content d' = d_content d"
    "length bs \<le> length (d_content d p) - length data"
    using next_ret_script [of d] next_ret_same [of d]
    by (auto simp: sys_pread_def Let_def same_disk_content split: prod.splits sysret.splits)
  with 3 show ?case by (cases bs) auto
qed

declare stream_read.simps [simp del]

text \<open>\<^verbatim>\<open>std::ifstream input(path)\<close> with all its reads; \<open>None\<close> when it is not open.\<close>

definition ifstream :: "path \<Rightarrow> Disk \<Rightarrow> istream option \<times> Disk" where
  "ifstream p d =
     (case sys_open p ReadOnly d of
        (Inl _, d1) \<Rightarrow> (None, d1)
      | (Inr _, d1) \<Rightarrow> (let (input, d2) = stream_read p [] d1 in (Some input, d2)))"

text \<open>\<^verbatim>\<open>std::ofstream output(path, std::ios::trunc)\<close>, its output and its \<^verbatim>\<open>flush\<close>. The file
  buffer writes the text in order, continues after interrupts and short writes, and the
  first failure makes the stream not \<^verbatim>\<open>good()\<close>.\<close>

datatype ofstream_result = NotOpen | NotGood | Written

definition ofstream :: "path \<Rightarrow> string \<Rightarrow> Disk \<Rightarrow> ofstream_result \<times> Disk" where
  "ofstream p output d =
     (case sys_open p CreateRwTrunc d of
        (Inl _, d1) \<Rightarrow> (NotOpen, d1)
      | (Inr _, d1) \<Rightarrow>
          (case WriteAll p output 0 0 d1 of
             (Inl _, d2) \<Rightarrow> (NotGood, d2)
           | (Inr _, d2) \<Rightarrow> (Written, d2)))"

definition sys_rename :: "path \<Rightarrow> path \<Rightarrow> Disk \<Rightarrow> (errno + unit) \<times> Disk" where
  "sys_rename p q d =
     (let (r, d1) = next_ret d
      in case r of
           Intr \<Rightarrow> (Inl EINTR, d1)
         | Fail e \<Rightarrow> (Inl (Errno e), d1)
         | _ \<Rightarrow>
             (case map_of (d_files d1) p of
                None \<Rightarrow> (Inl (Errno ''No such file or directory''), d1)
              | Some content \<Rightarrow>
                  if q \<in> set (d_dirs d1) then (Inl (Errno ''Is a directory''), d1)
                  else (Inr (), d1\<lparr>d_files := AList.update q content (AList.delete p (d_files d1))\<rparr>)))"

definition sys_exists :: "path \<Rightarrow> Disk \<Rightarrow> (errno + bool) \<times> Disk" where
  "sys_exists p d =
     (let (r, d1) = next_ret d
      in case r of
           Intr \<Rightarrow> (Inl EINTR, d1)
         | Fail e \<Rightarrow> (Inl (Errno e), d1)
         | _ \<Rightarrow> (Inr (p \<in> set (map fst (d_files d1)) \<or> p \<in> set (d_dirs d1)), d1))"

definition FilesystemError :: "string \<Rightarrow> errno \<Rightarrow> Status" where
  "FilesystemError operation e = IoError (operation @ '': '' @ strerror e)"

end
