(* ===== verification/StdMap.thy ===== *)
theory StdMap
  imports BaseStatus "HOL-Library.Char_ord" "HOL-Library.List_Lexorder"
begin

text \<open>
  \<^verbatim>\<open>std::map\<close>: an association list in increasing order of its keys, which is the order in
  which the source iterates. Keys of type \<^verbatim>\<open>std::string\<close> compare lexicographically by
  bytes, which is the library's order on strings. The laws of look-up after an update are
  stated once, as the locale \<open>ordered_map\<close>, with the consequences the brokers' tables
  need.
\<close>

section \<open>The laws\<close>

locale ordered_map =
  fixes inv :: "'m \<Rightarrow> bool"
    and find :: "'k \<Rightarrow> 'm \<Rightarrow> 'v option"
    and insert :: "'k \<Rightarrow> 'v \<Rightarrow> 'm \<Rightarrow> 'm"
    and erase :: "'k \<Rightarrow> 'm \<Rightarrow> 'm"
    and empty :: "'m"
  assumes inv_empty: "inv empty"
    and inv_insert: "inv m \<Longrightarrow> inv (insert k v m)"
    and inv_erase: "inv m \<Longrightarrow> inv (erase k m)"
    and find_empty: "find k empty = None"
    and find_insert: "inv m \<Longrightarrow> find k' (insert k v m) = (if k' = k then Some v else find k' m)"
    and find_erase: "inv m \<Longrightarrow> find k' (erase k m) = (if k' = k then None else find k' m)"
begin

definition values_all :: "('k \<Rightarrow> 'v \<Rightarrow> bool) \<Rightarrow> 'm \<Rightarrow> bool" where
  "values_all P m \<longleftrightarrow> (\<forall>k v. find k m = Some v \<longrightarrow> P k v)"

lemma values_all_insert: "inv m \<Longrightarrow> values_all P m \<Longrightarrow> P k v \<Longrightarrow> values_all P (insert k v m)"
  by (simp add: values_all_def find_insert)

lemma values_all_erase: "inv m \<Longrightarrow> values_all P m \<Longrightarrow> values_all P (erase k m)"
  by (simp add: values_all_def find_erase)

lemma values_all_empty: "values_all P empty"
  by (simp add: values_all_def find_empty)

lemma values_allD: "values_all P m \<Longrightarrow> find k m = Some v \<Longrightarrow> P k v"
  by (simp add: values_all_def)

end

section \<open>Sorted association lists\<close>

type_synonym ('k, 'v) std_map = "('k \<times> 'v) list"

definition stdmap_ok :: "('k::linorder, 'v) std_map \<Rightarrow> bool" where
  "stdmap_ok m \<longleftrightarrow> sorted_wrt (<) (map fst m)"

definition stdmap_find :: "'k \<Rightarrow> ('k, 'v) std_map \<Rightarrow> 'v option" where
  "stdmap_find k m = map_of m k"

fun stdmap_insert :: "'k::linorder \<Rightarrow> 'v \<Rightarrow> ('k, 'v) std_map \<Rightarrow> ('k, 'v) std_map" where
  "stdmap_insert k v [] = [(k, v)]"
| "stdmap_insert k v ((k', v') # m) =
     (if k < k' then (k, v) # (k', v') # m
      else if k = k' then (k, v) # m
      else (k', v') # stdmap_insert k v m)"

definition stdmap_erase :: "'k \<Rightarrow> ('k, 'v) std_map \<Rightarrow> ('k, 'v) std_map" where
  "stdmap_erase k m = filter (\<lambda>e. fst e \<noteq> k) m"

text \<open>\<^verbatim>\<open>emplace\<close> and \<^verbatim>\<open>try_emplace\<close> leave an existing element alone.\<close>

definition stdmap_emplace :: "'k::linorder \<Rightarrow> 'v \<Rightarrow> ('k, 'v) std_map \<Rightarrow> ('k, 'v) std_map" where
  "stdmap_emplace k v m = (if stdmap_find k m = None then stdmap_insert k v m else m)"

lemma set_stdmap_insert: "fst ` set (stdmap_insert k v m) = insert k (fst ` set m)"
  by (induction m rule: stdmap_insert.induct) auto

lemma stdmap_ok_Cons: "stdmap_ok ((k, v) # m) \<longleftrightarrow> (\<forall>k' \<in> fst ` set m. k < k') \<and> stdmap_ok m"
  by (auto simp: stdmap_ok_def)

lemma stdmap_ok_insert: "stdmap_ok m \<Longrightarrow> stdmap_ok (stdmap_insert k v m)"
proof (induction k v m rule: stdmap_insert.induct)
  case (2 k v k' v' m)
  then show ?case by (auto simp: stdmap_ok_Cons set_stdmap_insert)
qed (simp add: stdmap_ok_def)

lemma stdmap_ok_filter: "stdmap_ok m \<Longrightarrow> stdmap_ok (filter P m)"
  by (induction m) (auto simp: stdmap_ok_def)

lemma stdmap_ok_erase: "stdmap_ok m \<Longrightarrow> stdmap_ok (stdmap_erase k m)"
  by (simp add: stdmap_erase_def stdmap_ok_filter)

lemma stdmap_ok_Nil: "stdmap_ok []"
  by (simp add: stdmap_ok_def)

lemma stdmap_ok_map: "stdmap_ok (map (\<lambda>e. (fst e, f e)) m) \<longleftrightarrow> stdmap_ok m"
  by (simp add: stdmap_ok_def comp_def)

lemma stdmap_ok_distinct: "stdmap_ok m \<Longrightarrow> distinct (map fst m)"
  unfolding stdmap_ok_def using strict_sorted_iff by blast

lemma map_of_stdmap_insert:
  "stdmap_ok m \<Longrightarrow> map_of (stdmap_insert k v m) = (map_of m)(k \<mapsto> v)"
proof (induction k v m rule: stdmap_insert.induct)
  case (2 k v k' v' m)
  have "map_of m k = None" if "k < k'"
    using that 2 by (force simp: stdmap_ok_Cons map_of_eq_None_iff)
  with 2 show ?case by (auto simp: stdmap_ok_Cons fun_eq_iff)
qed simp

lemma map_of_stdmap_erase: "map_of (stdmap_erase k m) k' = (if k' = k then None else map_of m k')"
  by (induction m) (auto simp: stdmap_erase_def)

interpretation stdm: ordered_map stdmap_ok stdmap_find stdmap_insert stdmap_erase "[]"
  by unfold_locales
    (auto simp: stdmap_find_def map_of_stdmap_insert map_of_stdmap_erase stdmap_ok_insert
      stdmap_ok_erase stdmap_ok_Nil)

lemma stdmap_find_emplace:
  "stdmap_ok m \<Longrightarrow> stdmap_find k' (stdmap_emplace k v m) =
     (if k' = k \<and> stdmap_find k m = None then Some v else stdmap_find k' m)"
  by (auto simp: stdmap_emplace_def stdm.find_insert)

lemma stdmap_ok_emplace: "stdmap_ok m \<Longrightarrow> stdmap_ok (stdmap_emplace k v m)"
  by (simp add: stdmap_emplace_def stdm.inv_insert)

lemma stdmap_find_in_set: "stdmap_ok m \<Longrightarrow> stdmap_find k m = Some v \<longleftrightarrow> (k, v) \<in> set m"
  by (simp add: stdmap_find_def stdmap_ok_distinct)

text \<open>A pass over a map that changes values and drops entries, and an update in place as seen
  through a function of the values.\<close>

definition stdmap_filter_map :: "('v \<Rightarrow> 'w option) \<Rightarrow> ('k, 'v) std_map \<Rightarrow> ('k, 'w) std_map" where
  "stdmap_filter_map f m = List.map_filter (\<lambda>(k, v). map_option (Pair k) (f v)) m"

lemma stdmap_filter_map_simps [simp]:
  "stdmap_filter_map f [] = []"
  "stdmap_filter_map f ((k, v) # m) =
     (case f v of None \<Rightarrow> stdmap_filter_map f m | Some w \<Rightarrow> (k, w) # stdmap_filter_map f m)"
  by (simp_all add: stdmap_filter_map_def map_filter_simps split: option.splits)

lemma keys_stdmap_filter_map: "fst ` set (stdmap_filter_map f m) \<subseteq> fst ` set m"
  by (induction m) (force split: option.splits)+

lemma stdmap_ok_filter_map: "stdmap_ok m \<Longrightarrow> stdmap_ok (stdmap_filter_map f m)"
proof (induction m)
  case (Cons e m)
  then show ?case using keys_stdmap_filter_map [of f m]
    by (cases e) (force simp: stdmap_ok_Cons split: option.splits)
qed (simp add: stdmap_ok_Nil)

lemma stdmap_find_filter_map:
  "stdmap_ok m \<Longrightarrow> stdmap_find k (stdmap_filter_map f m) = Option.bind (stdmap_find k m) f"
proof (induction m)
  case (Cons e m)
  obtain k' v where e: "e = (k', v)" by force
  from Cons.prems have "k' \<notin> fst ` set m" by (auto simp: e stdmap_ok_Cons)
  then have "map_of m k' = None" "map_of (stdmap_filter_map f m) k' = None"
    using keys_stdmap_filter_map [of f m] by (auto simp: map_of_eq_None_iff)
  with Cons show ?case
    by (auto simp: e stdmap_find_def stdmap_ok_Cons split: option.splits)
qed (simp add: stdmap_find_def)

lemma map_stdmap_insert_same:
  "stdmap_ok m \<Longrightarrow> stdmap_find k m = Some v \<Longrightarrow> f v' = f v \<Longrightarrow>
   map (\<lambda>(k, v). (k, f v)) (stdmap_insert k v' m) = map (\<lambda>(k, v). (k, f v)) m"
proof (induction k v' m rule: stdmap_insert.induct)
  case (2 k v0 k' v1 m)
  have "(k, v) \<in> set m \<Longrightarrow> k' < k" using 2(2) by (force simp: stdmap_ok_Cons)
  moreover have "stdmap_find k m = Some v" if "k \<noteq> k'" using 2(3) that by (simp add: stdmap_find_def)
  ultimately show ?case using 2 stdmap_find_in_set [of m k v]
    by (auto simp: stdmap_ok_Cons stdmap_find_def)
qed (simp add: stdmap_find_def)

lemma set_stdmap_insert_subset: "set (stdmap_insert k v m) \<subseteq> insert (k, v) (set m)"
  by (induction k v m rule: stdmap_insert.induct) auto

end
