(* ===== verification/ProtocolTypes.thy ===== *)
theory ProtocolTypes
  imports Endian
begin

text \<open>
  The messages of \<^verbatim>\<open>include/logmq/protocol/types.h\<close>: one record per struct, one datatype
  per enumeration and per \<^verbatim>\<open>std::variant\<close>. Default member initialisers are the
  constants \<open>\<dots>_default\<close> of the response types, which error responses carry.
\<close>

type_synonym TopicName = string
type_synonym PartitionId = int
type_synonym Offset = int

datatype ApiKey = kProduce | kFetch | kMetadata | kCreateTopic | kCommitOffset
  | kFetchCommittedOffset | kJoinGroup | kSyncGroup | kHeartbeat | kLeaveGroup | kNack

datatype ProtocolErrorCode = pkNone | pkInvalidRequest | pkTopicNotFound | pkOffsetOutOfRange
  | pkInternal | pkUnsupportedVersion | pkUnknownMember | pkIllegalGeneration

definition kInvalidPartitionId :: PartitionId where "kInvalidPartitionId = -1"
definition kInvalidOffset :: Offset where "kInvalidOffset = -1"

definition kProtocolVersion :: u16 where "kProtocolVersion = 1"
definition kRetryProtocolVersion :: u16 where "kRetryProtocolVersion = 2"

definition SupportedProtocolVersion :: "u16 \<Rightarrow> bool" where
  "SupportedProtocolVersion version \<longleftrightarrow>
     version = kProtocolVersion \<or> version = kRetryProtocolVersion"

definition kFrameHeaderBytes :: nat where "kFrameHeaderBytes = 4 + 2 + 2 + 8"
definition kMaxFrameBytes :: nat where "kMaxFrameBytes = 16 * 1024 * 1024"

record RetryMetadata =
  rm_retry_count :: u32
  rm_next_visible_time :: u64
  rm_original_topic :: TopicName
  rm_failure_reason :: string
  rm_original_partition :: PartitionId
  rm_original_offset :: Offset

record ProtocolRecord =
  prc_timestamp :: u64
  prc_key :: string
  prc_value :: string
  prc_retry :: "RetryMetadata option"

record ProduceRequest =
  prq_topic :: TopicName
  prq_partition_id :: PartitionId
  prq_records :: "ProtocolRecord list"

record FetchRequest =
  frq_topic :: TopicName
  frq_partition_id :: PartitionId
  frq_offset :: Offset
  frq_max_bytes :: u32

record MetadataRequest =
  mrq_topic :: TopicName

record CreateTopicRequest =
  ctq_topic :: TopicName
  ctq_partition_count :: u32

record CommitOffsetRequest =
  coq_group_id :: string
  coq_topic :: TopicName
  coq_partition_id :: PartitionId
  coq_offset :: Offset

record FetchCommittedOffsetRequest =
  fcq_group_id :: string
  fcq_topic :: TopicName
  fcq_partition_id :: PartitionId

record PartitionAssignment =
  pa_topic :: TopicName
  pa_partition_ids :: "PartitionId list"

record JoinGroupRequest =
  jgq_group_id :: string
  jgq_member_id :: string
  jgq_topic :: TopicName

record SyncGroupRequest =
  sgq_group_id :: string
  sgq_member_id :: string
  sgq_generation_id :: int

record HeartbeatRequest =
  hbq_group_id :: string
  hbq_member_id :: string
  hbq_generation_id :: int

record LeaveGroupRequest =
  lgq_group_id :: string
  lgq_member_id :: string

record NackRequest =
  nkq_topic :: TopicName
  nkq_partition_id :: PartitionId
  nkq_offset :: Offset
  nkq_reason :: string

datatype RequestBody = ReqProduce ProduceRequest | ReqFetch FetchRequest
  | ReqMetadata MetadataRequest | ReqCreateTopic CreateTopicRequest
  | ReqCommitOffset CommitOffsetRequest | ReqFetchCommittedOffset FetchCommittedOffsetRequest
  | ReqJoinGroup JoinGroupRequest | ReqSyncGroup SyncGroupRequest
  | ReqHeartbeat HeartbeatRequest | ReqLeaveGroup LeaveGroupRequest | ReqNack NackRequest

record RequestEnvelope =
  rqe_api_key :: ApiKey
  rqe_version :: u16
  rqe_request_id :: u64
  rqe_body :: RequestBody

record ErrorResponse =
  er_error_code :: ProtocolErrorCode
  er_message :: string

record ProduceResponse =
  prs_partition_id :: PartitionId
  prs_base_offset :: Offset
  prs_record_count :: u32

record FetchResponse =
  frs_base_offset :: Offset
  frs_high_watermark :: Offset
  frs_records :: "ProtocolRecord list"

record TopicMetadata =
  tm_topic :: TopicName
  tm_partition_count :: u32

record MetadataResponse =
  mrs_topics :: "TopicMetadata list"

record CreateTopicResponse =
  cts_topic :: TopicName
  cts_partition_count :: u32

record CommitOffsetResponse =
  cos_group_id :: string
  cos_topic :: TopicName
  cos_partition_id :: PartitionId
  cos_offset :: Offset

record FetchCommittedOffsetResponse =
  fcs_group_id :: string
  fcs_topic :: TopicName
  fcs_partition_id :: PartitionId
  fcs_committed :: bool
  fcs_offset :: Offset

record JoinGroupResponse =
  jgs_group_id :: string
  jgs_member_id :: string
  jgs_generation_id :: int
  jgs_leader_id :: string

record SyncGroupResponse =
  sgs_group_id :: string
  sgs_member_id :: string
  sgs_generation_id :: int
  sgs_assignment :: PartitionAssignment

record HeartbeatResponse =
  hbs_group_id :: string
  hbs_member_id :: string
  hbs_generation_id :: int

record LeaveGroupResponse =
  lgs_group_id :: string
  lgs_member_id :: string
  lgs_generation_id :: int

record NackResponse =
  nks_topic :: TopicName
  nks_partition_id :: PartitionId
  nks_offset :: Offset
  nks_retry :: RetryMetadata
  nks_dead_letter :: bool

datatype ResponseBody = RspProduce ProduceResponse | RspFetch FetchResponse
  | RspMetadata MetadataResponse | RspCreateTopic CreateTopicResponse
  | RspCommitOffset CommitOffsetResponse | RspFetchCommittedOffset FetchCommittedOffsetResponse
  | RspJoinGroup JoinGroupResponse | RspSyncGroup SyncGroupResponse
  | RspHeartbeat HeartbeatResponse | RspLeaveGroup LeaveGroupResponse | RspNack NackResponse

record ResponseEnvelope =
  rse_api_key :: ApiKey
  rse_version :: u16
  rse_request_id :: u64
  rse_error :: ErrorResponse
  rse_body :: ResponseBody

section \<open>Default values\<close>

definition RetryMetadata_default :: RetryMetadata where
  "RetryMetadata_default = \<lparr>rm_retry_count = 0, rm_next_visible_time = 0, rm_original_topic = [],
     rm_failure_reason = [], rm_original_partition = kInvalidPartitionId,
     rm_original_offset = kInvalidOffset\<rparr>"

definition EmptyResponseBodyFor :: "ApiKey \<Rightarrow> ResponseBody" where
  "EmptyResponseBodyFor api_key = (case api_key of
     kNack \<Rightarrow> RspNack \<lparr>nks_topic = [], nks_partition_id = kInvalidPartitionId,
       nks_offset = kInvalidOffset, nks_retry = RetryMetadata_default, nks_dead_letter = False\<rparr>
   | kProduce \<Rightarrow> RspProduce \<lparr>prs_partition_id = kInvalidPartitionId,
       prs_base_offset = kInvalidOffset, prs_record_count = 0\<rparr>
   | kFetch \<Rightarrow> RspFetch \<lparr>frs_base_offset = kInvalidOffset, frs_high_watermark = kInvalidOffset,
       frs_records = []\<rparr>
   | kMetadata \<Rightarrow> RspMetadata \<lparr>mrs_topics = []\<rparr>
   | kCreateTopic \<Rightarrow> RspCreateTopic \<lparr>cts_topic = [], cts_partition_count = 0\<rparr>
   | kCommitOffset \<Rightarrow> RspCommitOffset \<lparr>cos_group_id = [], cos_topic = [],
       cos_partition_id = kInvalidPartitionId, cos_offset = kInvalidOffset\<rparr>
   | kFetchCommittedOffset \<Rightarrow> RspFetchCommittedOffset \<lparr>fcs_group_id = [], fcs_topic = [],
       fcs_partition_id = kInvalidPartitionId, fcs_committed = False, fcs_offset = 0\<rparr>
   | kJoinGroup \<Rightarrow> RspJoinGroup \<lparr>jgs_group_id = [], jgs_member_id = [], jgs_generation_id = 0,
       jgs_leader_id = []\<rparr>
   | kSyncGroup \<Rightarrow> RspSyncGroup \<lparr>sgs_group_id = [], sgs_member_id = [], sgs_generation_id = 0,
       sgs_assignment = \<lparr>pa_topic = [], pa_partition_ids = []\<rparr>\<rparr>
   | kHeartbeat \<Rightarrow> RspHeartbeat \<lparr>hbs_group_id = [], hbs_member_id = [], hbs_generation_id = 0\<rparr>
   | kLeaveGroup \<Rightarrow> RspLeaveGroup \<lparr>lgs_group_id = [], lgs_member_id = [], lgs_generation_id = 0\<rparr>)"

section \<open>Names\<close>

definition ApiKeyName :: "ApiKey \<Rightarrow> string" where
  "ApiKeyName api_key = (case api_key of
     kNack \<Rightarrow> ''Nack'' | kProduce \<Rightarrow> ''Produce'' | kFetch \<Rightarrow> ''Fetch'' | kMetadata \<Rightarrow> ''Metadata''
   | kCreateTopic \<Rightarrow> ''CreateTopic'' | kCommitOffset \<Rightarrow> ''CommitOffset''
   | kFetchCommittedOffset \<Rightarrow> ''FetchCommittedOffset'' | kJoinGroup \<Rightarrow> ''JoinGroup''
   | kSyncGroup \<Rightarrow> ''SyncGroup'' | kHeartbeat \<Rightarrow> ''Heartbeat'' | kLeaveGroup \<Rightarrow> ''LeaveGroup'')"

definition ProtocolErrorCodeName :: "ProtocolErrorCode \<Rightarrow> string" where
  "ProtocolErrorCodeName code = (case code of
     pkNone \<Rightarrow> ''None'' | pkInvalidRequest \<Rightarrow> ''InvalidRequest''
   | pkTopicNotFound \<Rightarrow> ''TopicNotFound'' | pkOffsetOutOfRange \<Rightarrow> ''OffsetOutOfRange''
   | pkInternal \<Rightarrow> ''Internal'' | pkUnsupportedVersion \<Rightarrow> ''UnsupportedVersion''
   | pkUnknownMember \<Rightarrow> ''UnknownMember'' | pkIllegalGeneration \<Rightarrow> ''IllegalGeneration'')"

section \<open>Numbers on the wire\<close>

definition api_key_value :: "ApiKey \<Rightarrow> u16" where
  "api_key_value api_key = (case api_key of
     kProduce \<Rightarrow> 1 | kFetch \<Rightarrow> 2 | kMetadata \<Rightarrow> 3 | kCreateTopic \<Rightarrow> 4 | kCommitOffset \<Rightarrow> 5
   | kFetchCommittedOffset \<Rightarrow> 6 | kJoinGroup \<Rightarrow> 7 | kSyncGroup \<Rightarrow> 8 | kHeartbeat \<Rightarrow> 9
   | kLeaveGroup \<Rightarrow> 10 | kNack \<Rightarrow> 11)"

definition error_code_value :: "ProtocolErrorCode \<Rightarrow> u16" where
  "error_code_value code = (case code of
     pkNone \<Rightarrow> 0 | pkInvalidRequest \<Rightarrow> 1 | pkTopicNotFound \<Rightarrow> 2 | pkOffsetOutOfRange \<Rightarrow> 3
   | pkInternal \<Rightarrow> 4 | pkUnsupportedVersion \<Rightarrow> 5 | pkUnknownMember \<Rightarrow> 6 | pkIllegalGeneration \<Rightarrow> 7)"

definition ParseApiKey :: "u16 \<Rightarrow> ApiKey Result" where
  "ParseApiKey v =
     (if v = 1 then Inr kProduce else if v = 2 then Inr kFetch else if v = 3 then Inr kMetadata
      else if v = 4 then Inr kCreateTopic else if v = 5 then Inr kCommitOffset
      else if v = 6 then Inr kFetchCommittedOffset else if v = 7 then Inr kJoinGroup
      else if v = 8 then Inr kSyncGroup else if v = 9 then Inr kHeartbeat
      else if v = 11 then Inr kNack else if v = 10 then Inr kLeaveGroup
      else Inl (InvalidArgument ''unknown api key''))"

definition ParseProtocolErrorCode :: "u16 \<Rightarrow> ProtocolErrorCode Result" where
  "ParseProtocolErrorCode v =
     (if v = 0 then Inr pkNone else if v = 1 then Inr pkInvalidRequest
      else if v = 2 then Inr pkTopicNotFound else if v = 3 then Inr pkOffsetOutOfRange
      else if v = 4 then Inr pkInternal else if v = 5 then Inr pkUnsupportedVersion
      else if v = 6 then Inr pkUnknownMember else if v = 7 then Inr pkIllegalGeneration
      else Inl (InvalidArgument ''unknown protocol error code''))"

lemma ParseApiKey_value [simp]: "ParseApiKey (api_key_value k) = Inr k"
  by (cases k) (simp_all add: ParseApiKey_def api_key_value_def)

lemma ParseApiKey_Inr: "ParseApiKey v = Inr k \<longleftrightarrow> v = api_key_value k"
  by (cases k) (auto simp: ParseApiKey_def api_key_value_def split: if_splits)

lemma ParseProtocolErrorCode_value [simp]: "ParseProtocolErrorCode (error_code_value c) = Inr c"
  by (cases c) (simp_all add: ParseProtocolErrorCode_def error_code_value_def)

lemma ParseProtocolErrorCode_Inr: "ParseProtocolErrorCode v = Inr c \<longleftrightarrow> v = error_code_value c"
  by (cases c) (auto simp: ParseProtocolErrorCode_def error_code_value_def split: if_splits)

end
