(* ===== verification/Names.thy ===== *)
theory Names
  imports ProtocolTypes
begin

text \<open>
  Names of topics, groups and members: the internal topic prefixes of
  \<^verbatim>\<open>include/logmq/broker/retry_scheduler.h\<close> and the name checks of
  \<^verbatim>\<open>src/broker/topic_manager.cpp\<close> and \<^verbatim>\<open>src/broker/group_coordinator.cpp\<close>.
  \<^verbatim>\<open>std::isalnum\<close> is the one of the \<^verbatim>\<open>C\<close> locale, which the broker never changes.
\<close>

definition kRetryTopicPrefix :: string where "kRetryTopicPrefix = ''%RETRY%''"
definition kDlqTopicPrefix :: string where "kDlqTopicPrefix = ''%DLQ%''"

definition starts_with :: "string \<Rightarrow> string \<Rightarrow> bool" where
  "starts_with s prefix \<longleftrightarrow> take (length prefix) s = prefix"

definition IsRetryTopic :: "string \<Rightarrow> bool" where
  "IsRetryTopic topic \<longleftrightarrow> starts_with topic kRetryTopicPrefix"

definition IsDlqTopic :: "string \<Rightarrow> bool" where
  "IsDlqTopic topic \<longleftrightarrow> starts_with topic kDlqTopicPrefix"

definition IsInternalTopic :: "string \<Rightarrow> bool" where
  "IsInternalTopic topic \<longleftrightarrow> IsRetryTopic topic \<or> IsDlqTopic topic"

definition isalnum :: "char \<Rightarrow> bool" where
  "isalnum ch \<longleftrightarrow> (let c = of_char ch :: nat in
     48 \<le> c \<and> c \<le> 57 \<or> 65 \<le> c \<and> c \<le> 90 \<or> 97 \<le> c \<and> c \<le> 122)"

definition name_char :: "char \<Rightarrow> bool" where
  "name_char ch \<longleftrightarrow> isalnum ch \<or> ch = CHR ''.'' \<or> ch = CHR ''_'' \<or> ch = CHR ''-''"

definition strip_internal :: "string \<Rightarrow> string" where
  "strip_internal topic =
     (if IsInternalTopic topic
      then drop (if IsRetryTopic topic then length kRetryTopicPrefix else length kDlqTopicPrefix) topic
      else topic)"

definition allowed_characters :: string where
  "allowed_characters =
     (let quoted = (\<lambda>s. [CHR 0x27] @ s @ [CHR 0x27])
      in '' may only contain letters, digits, '' @ quoted ''.'' @ '', '' @ quoted ''_'' @ '' and '' @
         quoted ''-'')"

definition ValidateTopicName :: "string \<Rightarrow> Status" where
  "ValidateTopicName topic =
     (let topic = strip_internal topic
      in if topic = [] then InvalidArgument ''topic name must not be empty''
         else if topic = ''.'' \<or> topic = ''..''
         then InvalidArgument ''topic name must not be . or ..''
         else if list_all name_char topic then Status_Ok
         else InvalidArgument (''topic name'' @ allowed_characters))"

definition ValidateSafeName :: "string \<Rightarrow> string \<Rightarrow> Status" where
  "ValidateSafeName name field =
     (let name = (if field = ''topic'' then strip_internal name else name)
      in if name = [] then InvalidArgument (field @ '' must not be empty'')
         else if name = ''.'' \<or> name = ''..''
         then InvalidArgument (field @ '' must not be . or ..'')
         else if list_all name_char name then Status_Ok
         else InvalidArgument (field @ allowed_characters))"

text \<open>The two checks agree on topics, and an accepted name is one path component: it has no
  separator and is neither of the special directories.\<close>

lemma ValidateSafeName_topic:
  "Status_ok (ValidateSafeName topic ''topic'') \<longleftrightarrow> Status_ok (ValidateTopicName topic)"
  by (simp add: ValidateSafeName_def ValidateTopicName_def Let_def)

lemma name_char_no_separator: "name_char c \<Longrightarrow> c \<noteq> CHR ''/'' \<and> c \<noteq> CHR '' '' \<and> c \<noteq> CHR 0x0A"
  by (auto simp: name_char_def isalnum_def Let_def)

lemma strip_internal_parts:
  obtains "strip_internal t = t"
  | "t = kRetryTopicPrefix @ strip_internal t" | "t = kDlqTopicPrefix @ strip_internal t"
proof -
  have split: "starts_with t p \<Longrightarrow> t = p @ drop (length p) t" for p
    by (metis append_take_drop_id starts_with_def)
  show thesis
    using that split [of kRetryTopicPrefix] split [of kDlqTopicPrefix]
    unfolding strip_internal_def IsInternalTopic_def IsRetryTopic_def IsDlqTopic_def
    by (cases "starts_with t kRetryTopicPrefix"; cases "starts_with t kDlqTopicPrefix") simp_all
qed

lemma ValidateTopicName_safe:
  assumes "Status_ok (ValidateTopicName t)"
  shows "CHR ''/'' \<notin> set t" "CHR '' '' \<notin> set t" "CHR 0x0A \<notin> set t" "t \<noteq> []" "t \<noteq> ''.''" "t \<noteq> ''..''"
proof -
  let ?s = "strip_internal t"
  from assms have s: "?s \<noteq> []" "?s \<noteq> ''.''" "?s \<noteq> ''..''" "list_all name_char ?s"
    by (auto simp: ValidateTopicName_def Let_def split: if_splits)
  have "\<forall>c \<in> set ?s. c \<noteq> CHR ''/'' \<and> c \<noteq> CHR '' '' \<and> c \<noteq> CHR 0x0A"
    using s(4) name_char_no_separator by (auto simp: list_all_iff)
  then have free: "CHR ''/'' \<notin> set ?s \<and> CHR '' '' \<notin> set ?s \<and> CHR 0x0A \<notin> set ?s" by blast
  let ?safe = "\<lambda>t. CHR ''/'' \<notin> set t \<and> CHR '' '' \<notin> set t \<and> CHR 0x0A \<notin> set t \<and>
    t \<noteq> [] \<and> t \<noteq> ''.'' \<and> t \<noteq> ''..''"
  have pre: "?safe (kRetryTopicPrefix @ ?s)" "?safe (kDlqTopicPrefix @ ?s)"
    using free by (simp_all add: kRetryTopicPrefix_def kDlqTopicPrefix_def)
  have "?safe t"
  proof (cases t rule: strip_internal_parts)
    case 1
    with free s show ?thesis by simp
  next
    case 2
    from pre(1) show ?thesis unfolding 2 [symmetric] .
  next
    case 3
    from pre(2) show ?thesis unfolding 3 [symmetric] .
  qed
  then show "CHR ''/'' \<notin> set t" "CHR '' '' \<notin> set t" "CHR 0x0A \<notin> set t" "t \<noteq> []" "t \<noteq> ''.''" "t \<noteq> ''..''"
    by blast+
qed

end
