(* ===== verification/Config.thy ===== *)
theory Config
  imports FileIO
begin

text \<open>
  Models \<^verbatim>\<open>include/logmq/base/config.h\<close> and \<^verbatim>\<open>src/base/config.cpp\<close>: the broker's
  configuration and its check. \<^verbatim>\<open>int\<close> and \<^verbatim>\<open>std::chrono::milliseconds\<close> fields are
  \<^typ>\<open>int\<close>, \<^verbatim>\<open>std::size_t\<close> fields are \<^typ>\<open>nat\<close>. The default of
  \<^verbatim>\<open>worker_threads\<close> depends on the machine: the number of its hardware threads is an
  argument.
\<close>

datatype FlushPolicy = kSync | kAsync

record BrokerConfig =
  bc_id :: int
  bc_host :: string
  bc_port :: u16

record StorageConfig =
  sc_data_dir :: path
  sc_segment_bytes :: nat
  sc_flush_policy :: FlushPolicy
  sc_flush_interval :: int

record NetworkConfig =
  nc_io_threads :: int
  nc_worker_threads :: int
  nc_max_connections :: nat
  nc_read_buffer_bytes :: nat

record ConsumerConfig =
  cc_session_timeout :: int
  cc_rebalance_timeout :: int

record Config =
  cf_broker :: BrokerConfig
  cf_storage :: StorageConfig
  cf_network :: NetworkConfig
  cf_consumer :: ConsumerConfig

definition DefaultWorkerThreads :: "u32 \<Rightarrow> int" where
  "DefaultWorkerThreads n = (if n = 0 then 4 else sint n)"

definition Config_default :: "u32 \<Rightarrow> Config" where
  "Config_default hardware_concurrency =
     \<lparr>cf_broker = \<lparr>bc_id = 1, bc_host = ''0.0.0.0'', bc_port = 9092\<rparr>,
      cf_storage = \<lparr>sc_data_dir = [''.'', ''data''], sc_segment_bytes = 1024 * 1024 * 1024,
        sc_flush_policy = kAsync, sc_flush_interval = 1000\<rparr>,
      cf_network = \<lparr>nc_io_threads = 4, nc_worker_threads = DefaultWorkerThreads hardware_concurrency,
        nc_max_connections = 10000, nc_read_buffer_bytes = 64 * 1024\<rparr>,
      cf_consumer = \<lparr>cc_session_timeout = 10000, cc_rebalance_timeout = 30000\<rparr>\<rparr>"

definition Config_Validate :: "Config \<Rightarrow> Status" where
  "Config_Validate c =
     (if bc_id (cf_broker c) \<le> 0 then InvalidArgument ''broker.id must be positive''
      else if bc_host (cf_broker c) = [] then InvalidArgument ''broker.host must not be empty''
      else if bc_port (cf_broker c) = 0 then InvalidArgument ''broker.port must be in 1..65535''
      else if sc_data_dir (cf_storage c) = []
      then InvalidArgument ''storage.data_dir must not be empty''
      else if sc_segment_bytes (cf_storage c) = 0
      then InvalidArgument ''storage.segment_bytes must be positive''
      else if sc_flush_interval (cf_storage c) < 0
      then InvalidArgument ''storage.flush_interval must not be negative''
      else if nc_io_threads (cf_network c) \<le> 0
      then InvalidArgument ''network.io_threads must be positive''
      else if nc_worker_threads (cf_network c) \<le> 0
      then InvalidArgument ''network.worker_threads must be positive''
      else if nc_max_connections (cf_network c) = 0
      then InvalidArgument ''network.max_connections must be positive''
      else if nc_read_buffer_bytes (cf_network c) = 0
      then InvalidArgument ''network.read_buffer_bytes must be positive''
      else if cc_session_timeout (cf_consumer c) \<le> 0
      then InvalidArgument ''consumer.session_timeout must be positive''
      else if cc_rebalance_timeout (cf_consumer c) \<le> 0
      then InvalidArgument ''consumer.rebalance_timeout must be positive''
      else Status_Ok)"

definition FlushPolicyName :: "FlushPolicy \<Rightarrow> string" where
  "FlushPolicyName policy = (case policy of kSync \<Rightarrow> ''sync'' | kAsync \<Rightarrow> ''async'')"

definition ParseFlushPolicy :: "string \<Rightarrow> FlushPolicy Result" where
  "ParseFlushPolicy s =
     (if s = ''sync'' then Inr kSync
      else if s = ''async'' then Inr kAsync
      else Inl (InvalidArgument ''flush_policy must be sync or async''))"

lemma ParseFlushPolicy_iff: "ParseFlushPolicy s = Inr p \<longleftrightarrow> s = FlushPolicyName p"
  by (cases p) (auto simp: ParseFlushPolicy_def FlushPolicyName_def)

lemma Config_Validate_ok:
  "Status_ok (Config_Validate c) \<longleftrightarrow>
     0 < bc_id (cf_broker c) \<and> bc_host (cf_broker c) \<noteq> [] \<and> bc_port (cf_broker c) \<noteq> 0 \<and>
     sc_data_dir (cf_storage c) \<noteq> [] \<and> 0 < sc_segment_bytes (cf_storage c) \<and>
     0 \<le> sc_flush_interval (cf_storage c) \<and> 0 < nc_io_threads (cf_network c) \<and>
     0 < nc_worker_threads (cf_network c) \<and> 0 < nc_max_connections (cf_network c) \<and>
     0 < nc_read_buffer_bytes (cf_network c) \<and> 0 < cc_session_timeout (cf_consumer c) \<and>
     0 < cc_rebalance_timeout (cf_consumer c)"
  by (auto simp: Config_Validate_def)

end
