(* ===== verification/TopicManager.thy ===== *)
theory TopicManager
  imports CommitLog TextStream StdMap Names Config
begin

text \<open>
  The code of \<^verbatim>\<open>include/logmq/broker/topic_manager.h\<close> and
  \<^verbatim>\<open>src/broker/topic_manager.cpp\<close>: the table of topics, each with its partitions and their
  logs, the choice of a partition for a record, and the metadata file that survives a
  restart.

  The operations take the lock for their whole duration and are functions of the table and
  the disk. The \<^verbatim>\<open>unordered_map\<close> is a sorted association list: where the code iterates over
  it (\<^verbatim>\<open>Flush\<close>, \<^verbatim>\<open>Close\<close>) the order is not specified, and elsewhere it sorts. A partition
  that \<^verbatim>\<open>GetPartition\<close> or \<^verbatim>\<open>SelectPartition\<close> returns by pointer is named by its topic and
  index; an operation on its log goes through \<open>on_partition\<close>.
\<close>

section \<open>State\<close>

record TopicManagerOptions =
  tmo_data_dir :: path
  tmo_segment_bytes :: nat
  tmo_index_interval_bytes :: nat

record Partition =
  pt_id :: PartitionId
  pt_log :: CommitLog

record Topic =
  tp_name :: TopicName
  tp_partitions :: "Partition list"
  tp_next_partition :: u32

record PartitionSelection =
  ps_id :: PartitionId
  ps_partition :: Partition

record TopicManager =
  tmg_options :: TopicManagerOptions
  tmg_topics :: "(TopicName, Topic) std_map"

definition mk_TopicManager :: "TopicManagerOptions \<Rightarrow> TopicManager" where
  "mk_TopicManager options = \<lparr>tmg_options = options, tmg_topics = []\<rparr>"

definition TopicManagerOptionsFromConfig :: "StorageConfig \<Rightarrow> TopicManagerOptions" where
  "TopicManagerOptionsFromConfig config =
     \<lparr>tmo_data_dir = sc_data_dir config, tmo_segment_bytes = sc_segment_bytes config,
      tmo_index_interval_bytes = 4 * 1024\<rparr>"

definition kTopicMetadataMagic :: string where
  "kTopicMetadataMagic = ''logmq_topic_metadata_v1''"

section \<open>Paths\<close>

definition PartitionPath :: "TopicManagerOptions \<Rightarrow> TopicName \<Rightarrow> PartitionId \<Rightarrow> path" where
  "PartitionPath options topic partition_id =
     tmo_data_dir options @ [topic, to_string partition_id]"

definition MetadataPath :: "TopicManagerOptions \<Rightarrow> path" where
  "MetadataPath options = tmo_data_dir options @ [''topics.meta'']"

definition MetadataTempPath :: "TopicManagerOptions \<Rightarrow> path" where
  "MetadataTempPath options = tmo_data_dir options @ [''topics.meta.tmp'']"

section \<open>Opening a topic\<close>

definition log_options :: "TopicManagerOptions \<Rightarrow> TopicName \<Rightarrow> PartitionId \<Rightarrow> CommitLogOptions" where
  "log_options options topic partition_id =
     \<lparr>clo_data_dir = PartitionPath options topic partition_id,
      clo_segment_bytes = tmo_segment_bytes options,
      clo_index_interval_bytes = tmo_index_interval_bytes options,
      clo_strict_recovery = IsInternalTopic topic\<rparr>"

fun open_partitions ::
  "TopicManagerOptions \<Rightarrow> TopicName \<Rightarrow> nat list \<Rightarrow> Disk \<Rightarrow> Partition list Result \<times> Disk" where
  "open_partitions options topic [] d = (Inr [], d)"
| "open_partitions options topic (i # is) d =
     (let partition_id = sint (word_of_nat i :: u32)
      in case CommitLog_Open (log_options options topic partition_id) d of
           (Inl e, d1) \<Rightarrow> (Inl e, d1)
         | (Inr log, d1) \<Rightarrow>
             (case open_partitions options topic is d1 of
                (Inl e, d2) \<Rightarrow> (Inl e, d2)
              | (Inr ps, d2) \<Rightarrow> (Inr (\<lparr>pt_id = partition_id, pt_log = log\<rparr> # ps), d2)))"

definition OpenTopic ::
  "TopicManagerOptions \<Rightarrow> TopicName \<Rightarrow> u32 \<Rightarrow> Disk \<Rightarrow> Topic Result \<times> Disk" where
  "OpenTopic options topic partition_count d =
     (case open_partitions options topic [0..<unat partition_count] d of
        (Inl e, d1) \<Rightarrow> (Inl e, d1)
      | (Inr ps, d1) \<Rightarrow>
          (Inr \<lparr>tp_name = topic, tp_partitions = ps, tp_next_partition = 0\<rparr>, d1))"

section \<open>The metadata file\<close>

definition topic_metadata :: "TopicManager \<Rightarrow> TopicMetadata list" where
  "topic_metadata tm =
     sort_key tm_topic (map (\<lambda>(name, topic).
       \<lparr>tm_topic = name, tm_partition_count = word_of_nat (length (tp_partitions topic))\<rparr>)
       (tmg_topics tm))"

definition metadata_text :: "TopicMetadata list \<Rightarrow> string" where
  "metadata_text metadata =
     kTopicMetadataMagic @ [CHR 0x0A] @
     concat (map (\<lambda>topic. tm_topic topic @ '' '' @ nat_to_string (unat (tm_partition_count topic)) @
       [CHR 0x0A]) metadata)"

definition PersistMetadataLocked :: "TopicManager \<Rightarrow> Disk \<Rightarrow> unit Result \<times> Disk" where
  "PersistMetadataLocked tm d =
     (case create_directories (tmo_data_dir (tmg_options tm)) d of
        (Inl e, d1) \<Rightarrow> (Inl (FilesystemError ''create topic data directory'' e), d1)
      | (Inr _, d1) \<Rightarrow>
          let temp_path = MetadataTempPath (tmg_options tm)
          in (case ofstream temp_path (metadata_text (topic_metadata tm)) d1 of
                (NotOpen, d2) \<Rightarrow> (Inl (IoError (''open topic metadata temp '' @ path_text temp_path)), d2)
              | (NotGood, d2) \<Rightarrow> (Inl (IoError (''write topic metadata temp '' @ path_text temp_path)), d2)
              | (Written, d2) \<Rightarrow>
                  (case sys_rename temp_path (MetadataPath (tmg_options tm)) d2 of
                     (Inl e, d3) \<Rightarrow> (Inl (FilesystemError ''rename topic metadata'' e), d3)
                   | (Inr _, d3) \<Rightarrow> (Inr (), d3))))"

text \<open>A line of the file: a name, a count and nothing else.\<close>

definition parse_metadata_line :: "string \<Rightarrow> (TopicName \<times> nat) option" where
  "parse_metadata_line line =
     (case read_word (line, True) of
        None \<Rightarrow> None
      | Some (topic, s1) \<Rightarrow>
          (case read_u64 s1 of
             None \<Rightarrow> None
           | Some (partition_count, s2) \<Rightarrow>
               if read_word s2 \<noteq> None then None else Some (topic, partition_count)))"

fun load_lines ::
  "TopicManagerOptions \<Rightarrow> nat \<Rightarrow> string list \<Rightarrow> (TopicName, Topic) std_map \<Rightarrow> Disk \<Rightarrow>
   (TopicName, Topic) std_map Result \<times> Disk" where
  "load_lines options line_number [] loaded d = (Inr loaded, d)"
| "load_lines options line_number (line # lines) loaded d =
     (let line_number = Suc line_number
      in if line = [] then load_lines options line_number lines loaded d
         else
           case parse_metadata_line line of
             None \<Rightarrow>
               (Inl (Corruption (''invalid topic metadata line '' @ nat_to_string line_number)), d)
           | Some (topic, partition_count) \<Rightarrow>
               if partition_count = 0 \<or> partition_count > u32_max
               then (Inl (Corruption ''invalid partition count in topic metadata''), d)
               else
                 let status = ValidateTopicName topic
                 in if \<not> Status_ok status then (Inl status, d)
                    else if stdmap_find topic loaded \<noteq> None
                    then (Inl (Corruption (''duplicate topic in metadata: '' @ topic)), d)
                    else
                      (case OpenTopic options topic (word_of_nat partition_count) d of
                         (Inl e, d1) \<Rightarrow> (Inl e, d1)
                       | (Inr opened, d1) \<Rightarrow>
                           load_lines options line_number lines (stdmap_emplace topic opened loaded) d1))"

definition TopicManager_Load :: "TopicManager \<times> Disk \<Rightarrow> unit Result \<times> (TopicManager \<times> Disk)" where
  "TopicManager_Load st =
     (let (tm, d) = st; options = tmg_options tm
      in case create_directories (tmo_data_dir options) d of
           (Inl e, d1) \<Rightarrow> (Inl (FilesystemError ''create topic data directory'' e), (tm, d1))
         | (Inr _, d1) \<Rightarrow>
             (case sys_exists (MetadataPath options) d1 of
                (Inl e, d2) \<Rightarrow> (Inl (FilesystemError ''stat topic metadata'' e), (tm, d2))
              | (Inr False, d2) \<Rightarrow> (Inr (), (tm, d2))
              | (Inr True, d2) \<Rightarrow>
                  (case ifstream (MetadataPath options) d2 of
                     (None, d3) \<Rightarrow>
                       (Inl (IoError (''open topic metadata '' @ path_text (MetadataPath options))), (tm, d3))
                   | (Some input, d3) \<Rightarrow>
                       (case getline input of
                          None \<Rightarrow> (Inl (Corruption ''topic metadata is empty''), (tm, d3))
                        | Some (line, input) \<Rightarrow>
                            if line \<noteq> kTopicMetadataMagic
                            then (Inl (Corruption ''topic metadata has unsupported format''), (tm, d3))
                            else
                              (case load_lines options 1 (stream_lines input) [] d3 of
                                 (Inl e, d4) \<Rightarrow> (Inl e, (tm, d4))
                               | (Inr loaded, d4) \<Rightarrow>
                                   if \<not> snd input
                                   then (Inl (IoError (''read topic metadata '' @
                                           path_text (MetadataPath options))), (tm, d4))
                                   else (Inr (), (tm\<lparr>tmg_topics := loaded\<rparr>, d4)))))))"

section \<open>Topics and partitions\<close>

definition CreateTopic ::
  "TopicName \<Rightarrow> u32 \<Rightarrow> TopicManager \<times> Disk \<Rightarrow> unit Result \<times> (TopicManager \<times> Disk)" where
  "CreateTopic topic partition_count st =
     (let (tm, d) = st; status = ValidateTopicName topic
      in if \<not> Status_ok status then (Inl status, st)
         else if partition_count = 0
         then (Inl (InvalidArgument ''partition_count must be positive''), st)
         else
           case stdmap_find topic (tmg_topics tm) of
             Some existing \<Rightarrow>
               if length (tp_partitions existing) = unat partition_count then (Inr (), st)
               else (Inl (InvalidArgument ''topic already exists with different partition count''), st)
           | None \<Rightarrow>
               (case OpenTopic (tmg_options tm) topic partition_count d of
                  (Inl e, d1) \<Rightarrow> (Inl e, (tm, d1))
                | (Inr opened, d1) \<Rightarrow>
                    let tm' = tm\<lparr>tmg_topics := stdmap_emplace topic opened (tmg_topics tm)\<rparr>
                    in (case PersistMetadataLocked tm' d1 of
                          (Inl e, d2) \<Rightarrow>
                            (Inl e, (tm'\<lparr>tmg_topics := stdmap_erase topic (tmg_topics tm')\<rparr>, d2))
                        | (Inr _, d2) \<Rightarrow> (Inr (), (tm', d2)))))"

definition GetPartition :: "TopicName \<Rightarrow> PartitionId \<Rightarrow> TopicManager \<Rightarrow> Partition Result" where
  "GetPartition topic partition_id tm =
     (case stdmap_find topic (tmg_topics tm) of
        None \<Rightarrow> Inl (NotFound ''topic not found'')
      | Some selected_topic \<Rightarrow>
          if partition_id < 0 \<or> nat partition_id \<ge> length (tp_partitions selected_topic)
          then Inl (NotFound ''partition not found'')
          else Inr (tp_partitions selected_topic ! nat partition_id))"

definition kFnvOffsetBasis :: u64 where "kFnvOffsetBasis = 14695981039346656037"
definition kFnvPrime :: u64 where "kFnvPrime = 1099511628211"

definition fnv_step :: "u64 \<Rightarrow> byte \<Rightarrow> u64" where
  "fnv_step hash ch = (hash XOR from_byte ch) * kFnvPrime"

definition StableHash :: "string \<Rightarrow> u64" where
  "StableHash s = foldl fnv_step kFnvOffsetBasis s"

text \<open>The cast of a \<^verbatim>\<open>size_t\<close> to \<^verbatim>\<open>PartitionId\<close>.\<close>

definition to_partition_id :: "nat \<Rightarrow> PartitionId" where
  "to_partition_id n = sint (word_of_nat n :: u32)"

definition SelectPartition ::
  "TopicName \<Rightarrow> PartitionId \<Rightarrow> string \<Rightarrow> TopicManager \<Rightarrow> PartitionSelection Result \<times> TopicManager" where
  "SelectPartition topic requested_partition key tm =
     (case stdmap_find topic (tmg_topics tm) of
        None \<Rightarrow> (Inl (NotFound ''topic not found''), tm)
      | Some selected_topic \<Rightarrow>
          let count = length (tp_partitions selected_topic)
          in if count = 0 then (Inl (Internal ''topic has no partitions''), tm)
             else
               let (selected_id, tm) =
                     (if requested_partition = kInvalidPartitionId
                      then
                        if key \<noteq> []
                        then (to_partition_id (unat (StableHash key) mod count), tm)
                        else
                          let next_partition = tp_next_partition selected_topic
                          in (to_partition_id (unat next_partition mod count),
                              tm\<lparr>tmg_topics := stdmap_insert topic
                                   (selected_topic\<lparr>tp_next_partition := next_partition + 1\<rparr>)
                                   (tmg_topics tm)\<rparr>)
                      else (requested_partition, tm))
               in if selected_id < 0 \<or> nat selected_id \<ge> count
                  then (Inl (NotFound ''partition not found''), tm)
                  else (Inr \<lparr>ps_id = selected_id,
                             ps_partition = tp_partitions selected_topic ! nat selected_id\<rparr>, tm))"

definition GetMetadata :: "TopicName \<Rightarrow> TopicManager \<Rightarrow> TopicMetadata list Result" where
  "GetMetadata topic tm =
     (if topic \<noteq> []
      then
        (case stdmap_find topic (tmg_topics tm) of
           None \<Rightarrow> Inl (NotFound ''topic not found'')
         | Some found \<Rightarrow>
             Inr [\<lparr>tm_topic = tp_name found,
                   tm_partition_count = word_of_nat (length (tp_partitions found))\<rparr>])
      else Inr (topic_metadata tm))"

text \<open>An operation on the log of a partition, through the pointer to it.\<close>

definition on_partition ::
  "TopicName \<Rightarrow> nat \<Rightarrow> (CommitLog \<times> Disk \<Rightarrow> 'a Result \<times> (CommitLog \<times> Disk)) \<Rightarrow>
   TopicManager \<times> Disk \<Rightarrow> 'a Result \<times> (TopicManager \<times> Disk)" where
  "on_partition topic i f st =
     (let (tm, d) = st
      in case stdmap_find topic (tmg_topics tm) of
           None \<Rightarrow> (Inl (NotFound ''topic not found''), st)
         | Some t \<Rightarrow>
             let p = tp_partitions t ! i;
                 (r, (log, d')) = f (pt_log p, d)
             in (r, (tm\<lparr>tmg_topics := stdmap_insert topic
                         (t\<lparr>tp_partitions := (tp_partitions t)[i := p\<lparr>pt_log := log\<rparr>]\<rparr>)
                         (tmg_topics tm)\<rparr>, d')))"

section \<open>Flush and close\<close>

definition all_partitions :: "TopicManager \<Rightarrow> Partition list" where
  "all_partitions tm = concat (map (\<lambda>(_, topic). tp_partitions topic) (tmg_topics tm))"

definition TopicManager_Flush :: "TopicManager \<Rightarrow> Disk \<Rightarrow> unit Result \<times> Disk" where
  "TopicManager_Flush tm =
     for_status (\<lambda>partition d. let (r, (_, d')) = CommitLog_Flush (pt_log partition, d) in (r, d'))
       (all_partitions tm)"

fun close_partitions :: "Partition list \<Rightarrow> Disk \<Rightarrow> unit Result \<times> (Partition list \<times> Disk)" where
  "close_partitions [] d = (Inr (), ([], d))"
| "close_partitions (p # ps) d =
     (case CommitLog_Close (pt_log p, d) of
        (Inl e, (log, d1)) \<Rightarrow> (Inl e, (p\<lparr>pt_log := log\<rparr> # ps, d1))
      | (Inr _, (log, d1)) \<Rightarrow>
          let (r, (ps', d2)) = close_partitions ps d1 in (r, (p\<lparr>pt_log := log\<rparr> # ps', d2)))"

fun close_topics ::
  "(TopicName, Topic) std_map \<Rightarrow> Disk \<Rightarrow> unit Result \<times> ((TopicName, Topic) std_map \<times> Disk)" where
  "close_topics [] d = (Inr (), ([], d))"
| "close_topics ((name, topic) # ts) d =
     (case close_partitions (tp_partitions topic) d of
        (Inl e, (ps, d1)) \<Rightarrow> (Inl e, ((name, topic\<lparr>tp_partitions := ps\<rparr>) # ts, d1))
      | (Inr _, (ps, d1)) \<Rightarrow>
          let (r, (ts', d2)) = close_topics ts d1
          in (r, ((name, topic\<lparr>tp_partitions := ps\<rparr>) # ts', d2)))"

definition TopicManager_Close :: "TopicManager \<times> Disk \<Rightarrow> unit Result \<times> (TopicManager \<times> Disk)" where
  "TopicManager_Close st =
     (let (tm, d) = st; (r, (ts, d')) = close_topics (tmg_topics tm) d
      in (r, (tm\<lparr>tmg_topics := ts\<rparr>, d')))"

end
