(* ===== verification/Wire.thy ===== *)
theory Wire
  imports ProtocolTypes
begin

text \<open>
  The lower half of \<^verbatim>\<open>src/protocol/codec.cpp\<close>: appending integers, strings, partition
  ids and generations to a message, and the \<^verbatim>\<open>BodyReader\<close> that takes them off again.

  A function that appends to an output vector returns the new vector, or the status it
  fails with. A reading function is a state operation on the reader. \<open>reader_at pre rest\<close>
  is the reader that has consumed \<open>pre\<close> and has \<open>rest\<close> ahead of it; the rules
  \<open>reader_simps\<close> rewrite every read of an appended field, so that the round trips of all
  messages are by simplification. Fields that come in counted lists are instances of the
  locale \<open>wire_item\<close>.
\<close>

section \<open>Appending\<close>

definition AppendBytes :: "byte list \<Rightarrow> byte list \<Rightarrow> byte list" where
  "AppendBytes bytes output = output @ bytes"

definition AppendString :: "string \<Rightarrow> byte list \<Rightarrow> byte list Result" where
  "AppendString s output =
     (if length s > u32_max then Inl (InvalidArgument ''protocol string is too large'')
      else Inr (AppendBigEndian (word_of_nat (length s) :: u32) output @ s))"

definition AppendPartitionId :: "PartitionId \<Rightarrow> byte list \<Rightarrow> byte list" where
  "AppendPartitionId partition_id output = AppendBigEndian (word_of_int partition_id :: u32) output"

definition AppendGenerationId :: "int \<Rightarrow> byte list \<Rightarrow> byte list Result" where
  "AppendGenerationId generation_id output =
     (if generation_id < 0 then Inl (InvalidArgument ''generation_id must not be negative'')
      else Inr (AppendBigEndian (word_of_int generation_id :: u32) output))"

text \<open>The loop over the elements of a vector.\<close>

fun append_all :: "('a \<Rightarrow> byte list \<Rightarrow> byte list Result) \<Rightarrow> 'a list \<Rightarrow> byte list \<Rightarrow> byte list Result" where
  "append_all app [] output = Inr output"
| "append_all app (x # xs) output = rbind (app x output) (append_all app xs)"

section \<open>Reading\<close>

record BodyReader =
  br_data :: "byte list"
  br_offset :: nat

definition mk_BodyReader :: "byte list \<Rightarrow> BodyReader" where
  "mk_BodyReader data = \<lparr>br_data = data, br_offset = 0\<rparr>"

definition ReadUInt :: "BodyReader \<Rightarrow> 'a::len word Result \<times> BodyReader" where
  "ReadUInt r =
     (case ReadBigEndian (br_data r) (br_offset r) of
        Inl e \<Rightarrow> (Inl e, r)
      | Inr v \<Rightarrow> (Inr v, r\<lparr>br_offset := br_offset r + LENGTH('a) div 8\<rparr>))"

definition ReadString :: "BodyReader \<Rightarrow> string Result \<times> BodyReader" where
  "ReadString =
     sbind (ReadUInt :: BodyReader \<Rightarrow> u32 Result \<times> BodyReader) (\<lambda>sz r.
       if unat sz > length (br_data r) - br_offset r
       then (Inl (InvalidArgument ''protocol string payload is truncated''), r)
       else (Inr (take (unat sz) (drop (br_offset r) (br_data r))),
             r\<lparr>br_offset := br_offset r + unat sz\<rparr>))"

definition reader_remaining :: "BodyReader \<Rightarrow> nat" where
  "reader_remaining r = length (br_data r) - br_offset r"

definition reader_consumed :: "BodyReader \<Rightarrow> bool" where
  "reader_consumed r \<longleftrightarrow> br_offset r = length (br_data r)"

text \<open>A check in the middle of a decoder.\<close>

definition sguard :: "bool \<Rightarrow> Status \<Rightarrow> ('s \<Rightarrow> 'a Result \<times> 's) \<Rightarrow> 's \<Rightarrow> 'a Result \<times> 's" where
  "sguard bad e k s = (if bad then (Inl e, s) else k s)"

definition DecodePartitionId :: "u32 \<Rightarrow> PartitionId" where
  "DecodePartitionId v =
     (if uint v \<le> i32_max then uint v else uint v - (int u32_max + 1))"

definition DecodeGenerationId :: "u32 \<Rightarrow> int Result" where
  "DecodeGenerationId v =
     (if uint v > i32_max then Inl (InvalidArgument ''generation_id is too large'')
      else Inr (uint v))"

definition ReadGenerationId :: "BodyReader \<Rightarrow> int Result \<times> BodyReader" where
  "ReadGenerationId = sbind ReadUInt (\<lambda>generation r. (DecodeGenerationId generation, r))"

text \<open>The loop that reads a counted vector.\<close>

fun read_many :: "nat \<Rightarrow> ('s \<Rightarrow> 'a Result \<times> 's) \<Rightarrow> 's \<Rightarrow> 'a list Result \<times> 's" where
  "read_many 0 rd = sreturn []"
| "read_many (Suc n) rd = sbind rd (\<lambda>x. sbind (read_many n rd) (\<lambda>xs. sreturn (x # xs)))"

section \<open>What the functions append\<close>

definition string_bytes :: "string \<Rightarrow> byte list" where
  "string_bytes s = be_bytes (word_of_nat (length s) :: u32) @ s"

lemma AppendString_Inr_iff [append_simps]:
  "AppendString s out = Inr out' \<longleftrightarrow> length s \<le> u32_max \<and> out' = out @ string_bytes s"
  by (auto simp: AppendString_def string_bytes_def AppendBigEndian_eq [of _ out])

lemma AppendPartitionId_eq [append_simps]:
  "AppendPartitionId p out = out @ be_bytes (word_of_int p :: u32)"
  by (simp add: AppendPartitionId_def AppendBigEndian_eq [of _ out])

lemma AppendGenerationId_Inr_iff [append_simps]:
  "AppendGenerationId g out = Inr out' \<longleftrightarrow> 0 \<le> g \<and> out' = out @ be_bytes (word_of_int g :: u32)"
  by (auto simp: AppendGenerationId_def AppendBigEndian_eq [of _ out])

lemma length_string_bytes [simp]: "length (string_bytes s) = 4 + length s"
  by (simp add: string_bytes_def)

section \<open>What the reader takes off\<close>

definition reader_at :: "byte list \<Rightarrow> byte list \<Rightarrow> BodyReader" where
  "reader_at pre rest = \<lparr>br_data = pre @ rest, br_offset = length pre\<rparr>"

lemma mk_BodyReader_at [reader_simps]: "mk_BodyReader data = reader_at [] data"
  by (simp add: mk_BodyReader_def reader_at_def)

lemma ReadUInt_at:
  assumes "8 dvd LENGTH('a::len)"
  shows "ReadUInt (reader_at pre (be_bytes (v :: 'a word) @ rest)) =
    (Inr v, reader_at (pre @ be_bytes v) rest)"
  using assms by (simp add: ReadUInt_def reader_at_def)

lemmas ReadUInt_at_end = ReadUInt_at [where rest = "[]", simplified append_Nil2]

lemma dvd_widths [reader_simps]:
  "8 dvd LENGTH(8)" "8 dvd LENGTH(16)" "8 dvd LENGTH(32)" "8 dvd LENGTH(64)"
  by simp_all

lemma ReadString_at:
  assumes "length s \<le> u32_max"
  shows "ReadString (reader_at pre (string_bytes s @ rest)) =
    (Inr s, reader_at (pre @ string_bytes s) rest)"
proof -
  have "ReadUInt (reader_at pre (be_bytes (word_of_nat (length s) :: u32) @ s @ rest)) =
      (Inr (word_of_nat (length s) :: u32),
       reader_at (pre @ be_bytes (word_of_nat (length s) :: u32)) (s @ rest))"
    by (rule ReadUInt_at) simp
  with assms show ?thesis
    by (simp add: ReadString_def string_bytes_def) (simp add: reader_at_def)
qed

lemmas ReadString_at_end = ReadString_at [where rest = "[]", simplified append_Nil2]

lemmas reads [reader_simps] = ReadUInt_at ReadUInt_at_end ReadString_at ReadString_at_end

lemma reader_consumed_at [reader_simps]: "reader_consumed (reader_at pre rest) \<longleftrightarrow> rest = []"
  by (auto simp: reader_consumed_def reader_at_def)

lemma reader_remaining_at [reader_simps]: "reader_remaining (reader_at pre rest) = length rest"
  by (simp add: reader_remaining_def reader_at_def)

lemma sguard_eq [reader_simps]:
  "sguard True e k s = (Inl e, s)" "sguard False e k s = k s"
  by (simp_all add: sguard_def)

lemma DecodePartitionId_value [reader_simps]: "is_i32 p \<Longrightarrow> DecodePartitionId (word_of_int p) = p"
proof -
  assume p: "is_i32 p"
  show ?thesis
  proof (cases "0 \<le> p")
    case True
    with p show ?thesis by (simp add: DecodePartitionId_def is_i32_def)
  next
    case False
    have "uint (word_of_int p :: u32) = p mod 2 ^ 32" by (simp add: unsigned_of_int take_bit_eq_mod)
    also have "\<dots> = (p + 2 ^ 32) mod 2 ^ 32" by simp
    also have "\<dots> = p + 2 ^ 32" using p False by (intro mod_pos_pos_trivial) (simp_all add: is_i32_def)
    finally show ?thesis using p False by (simp add: DecodePartitionId_def is_i32_def)
  qed
qed

lemma DecodeGenerationId_value [reader_simps]:
  "0 \<le> g \<Longrightarrow> is_i32 g \<Longrightarrow> DecodeGenerationId (word_of_int g) = Inr g"
  by (simp add: DecodeGenerationId_def is_i32_def)

lemma ReadGenerationId_at [reader_simps]:
  assumes "0 \<le> g" "is_i32 g"
  shows "ReadGenerationId (reader_at pre (be_bytes (word_of_int g :: u32) @ rest)) =
      (Inr g, reader_at (pre @ be_bytes (word_of_int g :: u32)) rest)"
    and "ReadGenerationId (reader_at pre (be_bytes (word_of_int g :: u32))) =
      (Inr g, reader_at (pre @ be_bytes (word_of_int g :: u32)) [])"
  using assms by (simp_all add: ReadGenerationId_def reads DecodeGenerationId_value)

section \<open>Counted lists\<close>

text \<open>An element that reads back, up to a normal form, from what its writer appended.\<close>

locale wire_item =
  fixes app :: "'a \<Rightarrow> byte list \<Rightarrow> byte list Result"
    and rd :: "BodyReader \<Rightarrow> 'b Result \<times> BodyReader"
    and bytes :: "'a \<Rightarrow> byte list"
    and ok :: "'a \<Rightarrow> bool"
    and nf :: "'a \<Rightarrow> 'b"
  assumes app_bytes: "ok x \<Longrightarrow> app x out = Inr out' \<Longrightarrow> out' = out @ bytes x"
    and rd_bytes: "ok x \<Longrightarrow> app x out = Inr out' \<Longrightarrow>
      rd (reader_at pre (bytes x @ rest)) = (Inr (nf x), reader_at (pre @ bytes x) rest)"
begin

definition list_bytes :: "'a list \<Rightarrow> byte list" where
  "list_bytes xs = concat (map bytes xs)"

lemma append_all_bytes:
  "list_all ok xs \<Longrightarrow> append_all app xs out = Inr out' \<Longrightarrow> out' = out @ list_bytes xs"
proof (induction xs arbitrary: out)
  case (Cons x xs)
  from Cons.prems obtain out1 where "app x out = Inr out1" "append_all app xs out1 = Inr out'"
    by (auto simp: rbind_Inr_iff)
  with Cons.prems(1) Cons.IH [OF _ this(2)] app_bytes [OF _ this(1)] show ?case
    by (simp add: list_bytes_def)
qed (simp add: list_bytes_def)

lemma read_many_bytes:
  "list_all ok xs \<Longrightarrow> append_all app xs out = Inr out' \<Longrightarrow>
     read_many (length xs) rd (reader_at pre (list_bytes xs @ rest)) =
       (Inr (map nf xs), reader_at (pre @ list_bytes xs) rest)"
proof (induction xs arbitrary: out pre)
  case Nil
  then show ?case by (simp add: list_bytes_def)
next
  case (Cons x xs)
  from Cons.prems obtain out1 where "app x out = Inr out1" "append_all app xs out1 = Inr out'"
    by (auto simp: rbind_Inr_iff)
  with Cons.prems(1) Cons.IH [OF _ this(2), of "pre @ bytes x"]
    rd_bytes [OF _ this(1), of pre "list_bytes xs @ rest"]
  show ?case by (simp add: list_bytes_def)
qed

lemma read_many_bytes_end:
  "list_all ok xs \<Longrightarrow> append_all app xs out = Inr out' \<Longrightarrow>
     read_many (length xs) rd (reader_at pre (list_bytes xs)) =
       (Inr (map nf xs), reader_at (pre @ list_bytes xs) [])"
  using read_many_bytes [of xs out out' pre "[]"] by simp

end

end
