(* ===== verification/RequestCodec.thy ===== *)
theory RequestCodec
  imports Wire
begin

text \<open>
  The request half of \<^verbatim>\<open>src/protocol/codec.cpp\<close>: the body of each of the eleven requests,
  and the lemma for each that decoding inverts encoding. Field values are assumed to be in
  the range of their C++ types (\<open>typed\<close> predicates). A produced record loses its retry
  metadata on the wire (\<open>plain_record\<close>), since the produce request has no field for it.
\<close>

section \<open>Records\<close>

definition AppendProtocolRecord :: "ProtocolRecord \<Rightarrow> byte list \<Rightarrow> byte list Result" where
  "AppendProtocolRecord r body =
     (let body = AppendBigEndian (prc_timestamp r) body
      in rbind (AppendString (prc_key r) body) (AppendString (prc_value r)))"

definition DecodeProtocolRecord :: "BodyReader \<Rightarrow> ProtocolRecord Result \<times> BodyReader" where
  "DecodeProtocolRecord =
     sbind ReadUInt (\<lambda>timestamp. sbind ReadString (\<lambda>key. sbind ReadString (\<lambda>val.
     sreturn \<lparr>prc_timestamp = timestamp, prc_key = key, prc_value = val, prc_retry = None\<rparr>)))"

section \<open>Encoding\<close>

definition EncodeProduceBody :: "ProduceRequest \<Rightarrow> byte list Result" where
  "EncodeProduceBody request =
     (if prq_records request = []
      then Inl (InvalidArgument ''produce request must contain at least one record'')
      else if length (prq_records request) > u32_max
      then Inl (InvalidArgument ''produce request contains too many records'')
      else
        rbind (AppendString (prq_topic request) []) (\<lambda>body.
        let body = AppendPartitionId (prq_partition_id request) body;
            body = AppendBigEndian (word_of_nat (length (prq_records request)) :: u32) body
        in append_all AppendProtocolRecord (prq_records request) body))"

definition EncodeFetchBody :: "FetchRequest \<Rightarrow> byte list Result" where
  "EncodeFetchBody request =
     rbind (AppendString (frq_topic request) []) (\<lambda>body.
     let body = AppendPartitionId (frq_partition_id request) body;
         body = AppendBigEndian (word_of_int (frq_offset request) :: u64) body;
         body = AppendBigEndian (frq_max_bytes request) body
     in Inr body)"

definition EncodeMetadataBody :: "MetadataRequest \<Rightarrow> byte list Result" where
  "EncodeMetadataBody request = AppendString (mrq_topic request) []"

definition EncodeCreateTopicBody :: "CreateTopicRequest \<Rightarrow> byte list Result" where
  "EncodeCreateTopicBody request =
     rbind (AppendString (ctq_topic request) []) (\<lambda>body.
     Inr (AppendBigEndian (ctq_partition_count request) body))"

definition EncodeCommitOffsetBody :: "CommitOffsetRequest \<Rightarrow> byte list Result" where
  "EncodeCommitOffsetBody request =
     (if coq_offset request < 0
      then Inl (InvalidArgument ''commit offset request offset must not be negative'')
      else
        rbind (AppendString (coq_group_id request) []) (\<lambda>body.
        rbind (AppendString (coq_topic request) body) (\<lambda>body.
        let body = AppendPartitionId (coq_partition_id request) body
        in Inr (AppendBigEndian (word_of_int (coq_offset request) :: u64) body))))"

definition EncodeFetchCommittedOffsetBody :: "FetchCommittedOffsetRequest \<Rightarrow> byte list Result" where
  "EncodeFetchCommittedOffsetBody request =
     rbind (AppendString (fcq_group_id request) []) (\<lambda>body.
     rbind (AppendString (fcq_topic request) body) (\<lambda>body.
     Inr (AppendPartitionId (fcq_partition_id request) body)))"

definition EncodeJoinGroupBody :: "JoinGroupRequest \<Rightarrow> byte list Result" where
  "EncodeJoinGroupBody request =
     rbind (AppendString (jgq_group_id request) []) (\<lambda>body.
     rbind (AppendString (jgq_member_id request) body) (\<lambda>body.
     AppendString (jgq_topic request) body))"

definition EncodeSyncGroupBody :: "SyncGroupRequest \<Rightarrow> byte list Result" where
  "EncodeSyncGroupBody request =
     rbind (AppendString (sgq_group_id request) []) (\<lambda>body.
     rbind (AppendString (sgq_member_id request) body) (\<lambda>body.
     AppendGenerationId (sgq_generation_id request) body))"

definition EncodeHeartbeatBody :: "HeartbeatRequest \<Rightarrow> byte list Result" where
  "EncodeHeartbeatBody request =
     rbind (AppendString (hbq_group_id request) []) (\<lambda>body.
     rbind (AppendString (hbq_member_id request) body) (\<lambda>body.
     AppendGenerationId (hbq_generation_id request) body))"

definition EncodeLeaveGroupBody :: "LeaveGroupRequest \<Rightarrow> byte list Result" where
  "EncodeLeaveGroupBody request =
     rbind (AppendString (lgq_group_id request) []) (\<lambda>body.
     AppendString (lgq_member_id request) body)"

definition EncodeNackBody :: "NackRequest \<Rightarrow> byte list Result" where
  "EncodeNackBody request =
     (if nkq_topic request = [] \<or> nkq_partition_id request < 0 \<or> nkq_offset request < 0
      then Inl (InvalidArgument ''invalid nack location'')
      else
        rbind (AppendString (nkq_topic request) []) (\<lambda>body.
        let body = AppendPartitionId (nkq_partition_id request) body;
            body = AppendBigEndian (word_of_int (nkq_offset request) :: u64) body
        in AppendString (nkq_reason request) body))"

definition wrong_body :: "string \<Rightarrow> 'a Result" where
  "wrong_body name = Inl (InvalidArgument (name @ '' envelope has wrong body type''))"

definition EncodeRequestBody :: "RequestEnvelope \<Rightarrow> byte list Result" where
  "EncodeRequestBody request = (case rqe_api_key request of
     kNack \<Rightarrow> (case rqe_body request of ReqNack b \<Rightarrow> EncodeNackBody b | _ \<Rightarrow> wrong_body ''nack request'')
   | kProduce \<Rightarrow> (case rqe_body request of ReqProduce b \<Rightarrow> EncodeProduceBody b
       | _ \<Rightarrow> wrong_body ''produce request'')
   | kFetch \<Rightarrow> (case rqe_body request of ReqFetch b \<Rightarrow> EncodeFetchBody b
       | _ \<Rightarrow> wrong_body ''fetch request'')
   | kMetadata \<Rightarrow> (case rqe_body request of ReqMetadata b \<Rightarrow> EncodeMetadataBody b
       | _ \<Rightarrow> wrong_body ''metadata request'')
   | kCreateTopic \<Rightarrow> (case rqe_body request of ReqCreateTopic b \<Rightarrow> EncodeCreateTopicBody b
       | _ \<Rightarrow> wrong_body ''create topic request'')
   | kCommitOffset \<Rightarrow> (case rqe_body request of ReqCommitOffset b \<Rightarrow> EncodeCommitOffsetBody b
       | _ \<Rightarrow> wrong_body ''commit offset request'')
   | kFetchCommittedOffset \<Rightarrow> (case rqe_body request of
         ReqFetchCommittedOffset b \<Rightarrow> EncodeFetchCommittedOffsetBody b
       | _ \<Rightarrow> wrong_body ''fetch committed offset request'')
   | kJoinGroup \<Rightarrow> (case rqe_body request of ReqJoinGroup b \<Rightarrow> EncodeJoinGroupBody b
       | _ \<Rightarrow> wrong_body ''join group request'')
   | kSyncGroup \<Rightarrow> (case rqe_body request of ReqSyncGroup b \<Rightarrow> EncodeSyncGroupBody b
       | _ \<Rightarrow> wrong_body ''sync group request'')
   | kHeartbeat \<Rightarrow> (case rqe_body request of ReqHeartbeat b \<Rightarrow> EncodeHeartbeatBody b
       | _ \<Rightarrow> wrong_body ''heartbeat request'')
   | kLeaveGroup \<Rightarrow> (case rqe_body request of ReqLeaveGroup b \<Rightarrow> EncodeLeaveGroupBody b
       | _ \<Rightarrow> wrong_body ''leave group request''))"

section \<open>Decoding\<close>

text \<open>A decoder runs a state operation on a fresh reader; \<open>finish\<close> is its last check.\<close>

definition run_reader :: "(BodyReader \<Rightarrow> 'a Result \<times> BodyReader) \<Rightarrow> byte list \<Rightarrow> 'a Result" where
  "run_reader op body = fst (op (mk_BodyReader body))"

definition finish :: "string \<Rightarrow> 'a \<Rightarrow> BodyReader \<Rightarrow> 'a Result \<times> BodyReader" where
  "finish message v r =
     (if \<not> reader_consumed r then (Inl (InvalidArgument message), r) else (Inr v, r))"

definition DecodeProduceBody :: "byte list \<Rightarrow> ProduceRequest Result" where
  "DecodeProduceBody = run_reader (
     sbind ReadString (\<lambda>topic. sbind ReadUInt (\<lambda>partition.
     sbind (ReadUInt :: BodyReader \<Rightarrow> u32 Result \<times> BodyReader) (\<lambda>record_count.
     sguard (record_count = 0) (InvalidArgument ''produce request record_count is zero'') (
     sbind (read_many (unat record_count) DecodeProtocolRecord) (\<lambda>records.
     finish ''produce request has trailing bytes''
       \<lparr>prq_topic = topic, prq_partition_id = DecodePartitionId partition,
        prq_records = records\<rparr>))))))"

definition DecodeFetchBody :: "byte list \<Rightarrow> FetchRequest Result" where
  "DecodeFetchBody = run_reader (
     sbind ReadString (\<lambda>topic. sbind ReadUInt (\<lambda>partition.
     sbind (ReadUInt :: BodyReader \<Rightarrow> u64 Result \<times> BodyReader) (\<lambda>offset.
     sbind ReadUInt (\<lambda>max_bytes.
     finish ''fetch request has trailing bytes''
       \<lparr>frq_topic = topic, frq_partition_id = DecodePartitionId partition,
        frq_offset = sint offset, frq_max_bytes = max_bytes\<rparr>)))))"

definition DecodeMetadataBody :: "byte list \<Rightarrow> MetadataRequest Result" where
  "DecodeMetadataBody = run_reader (
     sbind ReadString (\<lambda>topic.
     finish ''metadata request has trailing bytes'' \<lparr>mrq_topic = topic\<rparr>))"

definition DecodeCreateTopicBody :: "byte list \<Rightarrow> CreateTopicRequest Result" where
  "DecodeCreateTopicBody = run_reader (
     sbind ReadString (\<lambda>topic. sbind ReadUInt (\<lambda>partition_count.
     finish ''create topic request has trailing bytes''
       \<lparr>ctq_topic = topic, ctq_partition_count = partition_count\<rparr>)))"

definition DecodeCommitOffsetBody :: "byte list \<Rightarrow> CommitOffsetRequest Result" where
  "DecodeCommitOffsetBody = run_reader (
     sbind ReadString (\<lambda>group_id. sbind ReadString (\<lambda>topic. sbind ReadUInt (\<lambda>partition.
     sbind (ReadUInt :: BodyReader \<Rightarrow> u64 Result \<times> BodyReader) (\<lambda>offset.
     finish ''commit offset request has trailing bytes''
       \<lparr>coq_group_id = group_id, coq_topic = topic,
        coq_partition_id = DecodePartitionId partition, coq_offset = sint offset\<rparr>)))))"

definition DecodeFetchCommittedOffsetBody :: "byte list \<Rightarrow> FetchCommittedOffsetRequest Result" where
  "DecodeFetchCommittedOffsetBody = run_reader (
     sbind ReadString (\<lambda>group_id. sbind ReadString (\<lambda>topic. sbind ReadUInt (\<lambda>partition.
     finish ''fetch committed offset request has trailing bytes''
       \<lparr>fcq_group_id = group_id, fcq_topic = topic,
        fcq_partition_id = DecodePartitionId partition\<rparr>))))"

definition DecodeJoinGroupBody :: "byte list \<Rightarrow> JoinGroupRequest Result" where
  "DecodeJoinGroupBody = run_reader (
     sbind ReadString (\<lambda>group_id. sbind ReadString (\<lambda>member_id. sbind ReadString (\<lambda>topic.
     finish ''join group request has trailing bytes''
       \<lparr>jgq_group_id = group_id, jgq_member_id = member_id, jgq_topic = topic\<rparr>))))"

definition DecodeSyncGroupBody :: "byte list \<Rightarrow> SyncGroupRequest Result" where
  "DecodeSyncGroupBody = run_reader (
     sbind ReadString (\<lambda>group_id. sbind ReadString (\<lambda>member_id.
     sbind ReadGenerationId (\<lambda>generation_id.
     finish ''sync group request has trailing bytes''
       \<lparr>sgq_group_id = group_id, sgq_member_id = member_id,
        sgq_generation_id = generation_id\<rparr>))))"

definition DecodeHeartbeatBody :: "byte list \<Rightarrow> HeartbeatRequest Result" where
  "DecodeHeartbeatBody = run_reader (
     sbind ReadString (\<lambda>group_id. sbind ReadString (\<lambda>member_id.
     sbind ReadGenerationId (\<lambda>generation_id.
     finish ''heartbeat request has trailing bytes''
       \<lparr>hbq_group_id = group_id, hbq_member_id = member_id,
        hbq_generation_id = generation_id\<rparr>))))"

definition DecodeLeaveGroupBody :: "byte list \<Rightarrow> LeaveGroupRequest Result" where
  "DecodeLeaveGroupBody = run_reader (
     sbind ReadString (\<lambda>group_id. sbind ReadString (\<lambda>member_id.
     finish ''leave group request has trailing bytes''
       \<lparr>lgq_group_id = group_id, lgq_member_id = member_id\<rparr>)))"

definition DecodeNackBody :: "byte list \<Rightarrow> NackRequest Result" where
  "DecodeNackBody = run_reader (
     sbind ReadString (\<lambda>topic. sbind ReadUInt (\<lambda>partition.
     sbind (ReadUInt :: BodyReader \<Rightarrow> u64 Result \<times> BodyReader) (\<lambda>offset.
     sbind ReadString (\<lambda>reason r.
       if \<not> reader_consumed r \<or> topic = [] \<or> DecodePartitionId partition < 0 \<or>
          uint offset > i64_max
       then (Inl (InvalidArgument ''invalid nack body''), r)
       else (Inr \<lparr>nkq_topic = topic, nkq_partition_id = DecodePartitionId partition,
                  nkq_offset = sint offset, nkq_reason = reason\<rparr>, r))))))"

definition DecodeRequestBody :: "ApiKey \<Rightarrow> byte list \<Rightarrow> RequestBody Result" where
  "DecodeRequestBody api_key body = (case api_key of
     kNack \<Rightarrow> map_sum id ReqNack (DecodeNackBody body)
   | kProduce \<Rightarrow> map_sum id ReqProduce (DecodeProduceBody body)
   | kFetch \<Rightarrow> map_sum id ReqFetch (DecodeFetchBody body)
   | kMetadata \<Rightarrow> map_sum id ReqMetadata (DecodeMetadataBody body)
   | kCreateTopic \<Rightarrow> map_sum id ReqCreateTopic (DecodeCreateTopicBody body)
   | kCommitOffset \<Rightarrow> map_sum id ReqCommitOffset (DecodeCommitOffsetBody body)
   | kFetchCommittedOffset \<Rightarrow>
       map_sum id ReqFetchCommittedOffset (DecodeFetchCommittedOffsetBody body)
   | kJoinGroup \<Rightarrow> map_sum id ReqJoinGroup (DecodeJoinGroupBody body)
   | kSyncGroup \<Rightarrow> map_sum id ReqSyncGroup (DecodeSyncGroupBody body)
   | kHeartbeat \<Rightarrow> map_sum id ReqHeartbeat (DecodeHeartbeatBody body)
   | kLeaveGroup \<Rightarrow> map_sum id ReqLeaveGroup (DecodeLeaveGroupBody body))"

section \<open>Round trips\<close>

definition plain_record :: "ProtocolRecord \<Rightarrow> ProtocolRecord" where
  "plain_record r = r\<lparr>prc_retry := None\<rparr>"

definition protocol_record_bytes :: "ProtocolRecord \<Rightarrow> byte list" where
  "protocol_record_bytes r =
     be_bytes (prc_timestamp r) @ string_bytes (prc_key r) @ string_bytes (prc_value r)"

lemma AppendProtocolRecord_Inr_iff [append_simps]:
  "AppendProtocolRecord r out = Inr out' \<longleftrightarrow>
     length (prc_key r) \<le> u32_max \<and> length (prc_value r) \<le> u32_max \<and>
     out' = out @ protocol_record_bytes r"
  by (auto simp: AppendProtocolRecord_def protocol_record_bytes_def rbind_Inr_iff append_simps
      AppendBigEndian_eq [of _ out])

lemma DecodeProtocolRecord_at:
  "length (prc_key r) \<le> u32_max \<Longrightarrow> length (prc_value r) \<le> u32_max \<Longrightarrow>
     DecodeProtocolRecord (reader_at pre (protocol_record_bytes r @ rest)) =
       (Inr (plain_record r), reader_at (pre @ protocol_record_bytes r) rest)"
  by (simp add: DecodeProtocolRecord_def protocol_record_bytes_def reader_simps plain_record_def)

interpretation prec: wire_item AppendProtocolRecord DecodeProtocolRecord protocol_record_bytes
    "\<lambda>_. True" plain_record
  by unfold_locales (auto simp: append_simps DecodeProtocolRecord_at)

lemma list_all_True [simp]: "list_all (\<lambda>_. True) xs"
  by (simp add: list_all_iff)

definition request_typed :: "RequestBody \<Rightarrow> bool" where
  "request_typed b = (case b of
     ReqProduce q \<Rightarrow> is_i32 (prq_partition_id q)
   | ReqFetch q \<Rightarrow> is_i32 (frq_partition_id q) \<and> is_i64 (frq_offset q)
   | ReqCommitOffset q \<Rightarrow> is_i32 (coq_partition_id q) \<and> is_i64 (coq_offset q)
   | ReqFetchCommittedOffset q \<Rightarrow> is_i32 (fcq_partition_id q)
   | ReqSyncGroup q \<Rightarrow> is_i32 (sgq_generation_id q)
   | ReqHeartbeat q \<Rightarrow> is_i32 (hbq_generation_id q)
   | ReqNack q \<Rightarrow> is_i32 (nkq_partition_id q) \<and> is_i64 (nkq_offset q)
   | _ \<Rightarrow> True)"

definition wire_request :: "RequestBody \<Rightarrow> RequestBody" where
  "wire_request b = (case b of
     ReqProduce q \<Rightarrow> ReqProduce (q\<lparr>prq_records := map plain_record (prq_records q)\<rparr>)
   | _ \<Rightarrow> b)"

lemmas codec_simps = rbind_Inr_iff append_simps reader_simps run_reader_def finish_def
  AppendBigEndian_eq [of _ "_ @ _"] AppendBigEndian_eq [of _ "string_bytes _"]

lemma Produce_roundtrip:
  assumes "EncodeProduceBody q = Inr body" "is_i32 (prq_partition_id q)"
  shows "DecodeProduceBody body = Inr (q\<lparr>prq_records := map plain_record (prq_records q)\<rparr>)"
proof -
  let ?n = "length (prq_records q)"
  let ?pre = "string_bytes (prq_topic q) @ be_bytes (word_of_int (prq_partition_id q) :: u32) @
    be_bytes (word_of_nat ?n :: u32)"
  from assms(1) have n: "prq_records q \<noteq> []" "?n \<le> u32_max" "length (prq_topic q) \<le> u32_max"
    and app: "append_all AppendProtocolRecord (prq_records q) ?pre = Inr body"
    by (simp_all add: EncodeProduceBody_def codec_simps split: if_splits)
  have body: "body = ?pre @ prec.list_bytes (prq_records q)"
    using prec.append_all_bytes [OF _ app] by simp
  have "(word_of_nat ?n :: u32) \<noteq> 0" using n(1,2) by (metis length_0_conv unat_0 unat_of_nat_u32)
  then show ?thesis
    unfolding body DecodeProduceBody_def
    using n assms(2) prec.read_many_bytes_end [OF _ app]
    by (simp add: codec_simps)
qed

lemma Fetch_roundtrip:
  "EncodeFetchBody q = Inr body \<Longrightarrow> is_i32 (frq_partition_id q) \<Longrightarrow> is_i64 (frq_offset q) \<Longrightarrow>
     DecodeFetchBody body = Inr q"
  by (auto simp: EncodeFetchBody_def DecodeFetchBody_def codec_simps)

lemma Metadata_roundtrip: "EncodeMetadataBody q = Inr body \<Longrightarrow> DecodeMetadataBody body = Inr q"
  by (auto simp: EncodeMetadataBody_def DecodeMetadataBody_def codec_simps)

lemma CreateTopic_roundtrip:
  "EncodeCreateTopicBody q = Inr body \<Longrightarrow> DecodeCreateTopicBody body = Inr q"
  by (auto simp: EncodeCreateTopicBody_def DecodeCreateTopicBody_def codec_simps)

lemma CommitOffset_roundtrip:
  "EncodeCommitOffsetBody q = Inr body \<Longrightarrow> is_i32 (coq_partition_id q) \<Longrightarrow> is_i64 (coq_offset q) \<Longrightarrow>
     DecodeCommitOffsetBody body = Inr q"
  by (auto simp: EncodeCommitOffsetBody_def DecodeCommitOffsetBody_def codec_simps split: if_splits)

lemma FetchCommittedOffset_roundtrip:
  "EncodeFetchCommittedOffsetBody q = Inr body \<Longrightarrow> is_i32 (fcq_partition_id q) \<Longrightarrow>
     DecodeFetchCommittedOffsetBody body = Inr q"
  by (auto simp: EncodeFetchCommittedOffsetBody_def DecodeFetchCommittedOffsetBody_def codec_simps)

lemma JoinGroup_roundtrip: "EncodeJoinGroupBody q = Inr body \<Longrightarrow> DecodeJoinGroupBody body = Inr q"
  by (auto simp: EncodeJoinGroupBody_def DecodeJoinGroupBody_def codec_simps)

lemma SyncGroup_roundtrip:
  "EncodeSyncGroupBody q = Inr body \<Longrightarrow> is_i32 (sgq_generation_id q) \<Longrightarrow>
     DecodeSyncGroupBody body = Inr q"
  by (auto simp: EncodeSyncGroupBody_def DecodeSyncGroupBody_def codec_simps)

lemma Heartbeat_roundtrip:
  "EncodeHeartbeatBody q = Inr body \<Longrightarrow> is_i32 (hbq_generation_id q) \<Longrightarrow>
     DecodeHeartbeatBody body = Inr q"
  by (auto simp: EncodeHeartbeatBody_def DecodeHeartbeatBody_def codec_simps)

lemma LeaveGroup_roundtrip: "EncodeLeaveGroupBody q = Inr body \<Longrightarrow> DecodeLeaveGroupBody body = Inr q"
  by (auto simp: EncodeLeaveGroupBody_def DecodeLeaveGroupBody_def codec_simps)

lemma Nack_roundtrip:
  assumes "EncodeNackBody q = Inr body" "is_i32 (nkq_partition_id q)" "is_i64 (nkq_offset q)"
  shows "DecodeNackBody body = Inr q"
proof -
  from assms have "0 \<le> nkq_offset q" "nkq_offset q \<le> i64_max"
    by (auto simp: EncodeNackBody_def is_i64_def split: if_splits)
  with assms show ?thesis
    by (auto simp: EncodeNackBody_def DecodeNackBody_def codec_simps split: if_splits)
qed

lemmas request_roundtrips = Produce_roundtrip Fetch_roundtrip Metadata_roundtrip CreateTopic_roundtrip
  CommitOffset_roundtrip FetchCommittedOffset_roundtrip JoinGroup_roundtrip SyncGroup_roundtrip
  Heartbeat_roundtrip LeaveGroup_roundtrip Nack_roundtrip

lemma RequestBody_roundtrip:
  assumes "EncodeRequestBody request = Inr body" "request_typed (rqe_body request)"
  shows "DecodeRequestBody (rqe_api_key request) body = Inr (wire_request (rqe_body request))"
  using assms
  by (cases "rqe_api_key request"; cases "rqe_body request")
    (simp_all add: EncodeRequestBody_def DecodeRequestBody_def wrong_body_def request_typed_def
      wire_request_def request_roundtrips)

end
