(* ===== verification/ResponseCodec.thy ===== *)
theory ResponseCodec
  imports RequestCodec
begin

text \<open>
  The response half of \<^verbatim>\<open>src/protocol/codec.cpp\<close>: the payload of each of the eleven
  responses and the lemma for each that decoding inverts encoding. Protocol version 2
  adds retry metadata to fetched records; under version 1 it is dropped
  (\<open>wire_record\<close>).
\<close>

section \<open>Retry metadata\<close>

definition AppendRetryMetadata :: "RetryMetadata \<Rightarrow> byte list \<Rightarrow> byte list Result" where
  "AppendRetryMetadata retry body =
     (if rm_retry_count retry = 0 \<or> rm_original_topic retry = [] \<or>
         rm_original_partition retry < 0 \<or> rm_original_offset retry < 0
      then Inl (InvalidArgument ''invalid retry metadata'')
      else
        let body = AppendBigEndian (rm_retry_count retry) body;
            body = AppendBigEndian (rm_next_visible_time retry) body
        in rbind (AppendString (rm_original_topic retry) body) (\<lambda>body.
           rbind (AppendString (rm_failure_reason retry) body) (\<lambda>body.
           let body = AppendPartitionId (rm_original_partition retry) body
           in Inr (AppendBigEndian (word_of_int (rm_original_offset retry) :: u64) body))))"

definition DecodeRetryMetadata :: "BodyReader \<Rightarrow> RetryMetadata Result \<times> BodyReader" where
  "DecodeRetryMetadata =
     sbind ReadUInt (\<lambda>count. sbind ReadUInt (\<lambda>time. sbind ReadString (\<lambda>topic.
     sbind ReadString (\<lambda>reason. sbind ReadUInt (\<lambda>partition.
     sbind (ReadUInt :: BodyReader \<Rightarrow> u64 Result \<times> BodyReader) (\<lambda>offset.
     sguard (count = 0 \<or> topic = [] \<or> DecodePartitionId partition < 0 \<or> uint offset > i64_max)
       (InvalidArgument ''invalid retry metadata'') (
     sreturn \<lparr>rm_retry_count = count, rm_next_visible_time = time, rm_original_topic = topic,
              rm_failure_reason = reason, rm_original_partition = DecodePartitionId partition,
              rm_original_offset = sint offset\<rparr>)))))))"

section \<open>Encoding\<close>

definition EncodeNackResponseBody :: "NackResponse \<Rightarrow> byte list Result" where
  "EncodeNackResponseBody response =
     rbind (EncodeNackBody \<lparr>nkq_topic = nks_topic response,
              nkq_partition_id = nks_partition_id response, nkq_offset = nks_offset response,
              nkq_reason = []\<rparr>) (\<lambda>body.
     rbind (AppendRetryMetadata (nks_retry response) body) (\<lambda>body.
     Inr (AppendBigEndian ((if nks_dead_letter response then 1 else 0) :: u8) body)))"

definition EncodeProduceResponseBody :: "ProduceResponse \<Rightarrow> byte list Result" where
  "EncodeProduceResponseBody response =
     (if prs_partition_id response < 0
      then Inl (InvalidArgument ''produce response partition_id must not be negative'')
      else if prs_base_offset response < 0
      then Inl (InvalidArgument ''produce response base_offset must not be negative'')
      else
        let body = AppendPartitionId (prs_partition_id response) [];
            body = AppendBigEndian (word_of_int (prs_base_offset response) :: u64) body
        in Inr (AppendBigEndian (prs_record_count response) body))"

text \<open>One round of the record loop of \<^verbatim>\<open>EncodeFetchResponseBody\<close>.\<close>

definition AppendFetchRecord :: "u16 \<Rightarrow> ProtocolRecord \<Rightarrow> byte list \<Rightarrow> byte list Result" where
  "AppendFetchRecord version r body =
     rbind (AppendProtocolRecord r body) (\<lambda>body.
     if version = kRetryProtocolVersion
     then
       let body = AppendBigEndian ((if prc_retry r \<noteq> None then 1 else 0) :: u8) body
       in case prc_retry r of None \<Rightarrow> Inr body | Some retry \<Rightarrow> AppendRetryMetadata retry body
     else Inr body)"

definition EncodeFetchResponseBody :: "FetchResponse \<Rightarrow> u16 \<Rightarrow> byte list Result" where
  "EncodeFetchResponseBody response version =
     (if frs_base_offset response < 0
      then Inl (InvalidArgument ''fetch response base_offset must not be negative'')
      else if frs_high_watermark response < 0
      then Inl (InvalidArgument ''fetch response high_watermark must not be negative'')
      else if length (frs_records response) > u32_max
      then Inl (InvalidArgument ''fetch response contains too many records'')
      else
        let body = AppendBigEndian (word_of_int (frs_base_offset response) :: u64) [];
            body = AppendBigEndian (word_of_int (frs_high_watermark response) :: u64) body;
            body = AppendBigEndian (word_of_nat (length (frs_records response)) :: u32) body
        in append_all (AppendFetchRecord version) (frs_records response) body)"

definition AppendTopicMetadata :: "TopicMetadata \<Rightarrow> byte list \<Rightarrow> byte list Result" where
  "AppendTopicMetadata topic body =
     rbind (AppendString (tm_topic topic) body) (\<lambda>body.
     Inr (AppendBigEndian (tm_partition_count topic) body))"

definition EncodeMetadataResponseBody :: "MetadataResponse \<Rightarrow> byte list Result" where
  "EncodeMetadataResponseBody response =
     (if length (mrs_topics response) > u32_max
      then Inl (InvalidArgument ''metadata response contains too many topics'')
      else
        let body = AppendBigEndian (word_of_nat (length (mrs_topics response)) :: u32) []
        in append_all AppendTopicMetadata (mrs_topics response) body)"

definition EncodeCreateTopicResponseBody :: "CreateTopicResponse \<Rightarrow> byte list Result" where
  "EncodeCreateTopicResponseBody response =
     rbind (AppendString (cts_topic response) []) (\<lambda>body.
     Inr (AppendBigEndian (cts_partition_count response) body))"

definition EncodeCommitOffsetResponseBody :: "CommitOffsetResponse \<Rightarrow> byte list Result" where
  "EncodeCommitOffsetResponseBody response =
     (if cos_partition_id response < 0
      then Inl (InvalidArgument ''commit offset response partition_id must not be negative'')
      else if cos_offset response < 0
      then Inl (InvalidArgument ''commit offset response offset must not be negative'')
      else
        rbind (AppendString (cos_group_id response) []) (\<lambda>body.
        rbind (AppendString (cos_topic response) body) (\<lambda>body.
        let body = AppendPartitionId (cos_partition_id response) body
        in Inr (AppendBigEndian (word_of_int (cos_offset response) :: u64) body))))"

definition EncodeFetchCommittedOffsetResponseBody ::
  "FetchCommittedOffsetResponse \<Rightarrow> byte list Result" where
  "EncodeFetchCommittedOffsetResponseBody response =
     (if fcs_partition_id response < 0
      then Inl (InvalidArgument ''fetch committed offset response partition_id must not be negative'')
      else if fcs_offset response < 0
      then Inl (InvalidArgument ''fetch committed offset response offset must not be negative'')
      else
        rbind (AppendString (fcs_group_id response) []) (\<lambda>body.
        rbind (AppendString (fcs_topic response) body) (\<lambda>body.
        let body = AppendPartitionId (fcs_partition_id response) body;
            body = AppendBigEndian ((if fcs_committed response then 1 else 0) :: u32) body
        in Inr (AppendBigEndian (word_of_int (fcs_offset response) :: u64) body))))"

definition AppendAssignedPartition :: "PartitionId \<Rightarrow> byte list \<Rightarrow> byte list Result" where
  "AppendAssignedPartition partition_id body =
     (if partition_id < 0
      then Inl (InvalidArgument ''assignment partition_id must not be negative'')
      else Inr (AppendPartitionId partition_id body))"

definition AppendPartitionAssignment :: "PartitionAssignment \<Rightarrow> byte list \<Rightarrow> byte list Result" where
  "AppendPartitionAssignment assignment body =
     (if length (pa_partition_ids assignment) > u32_max
      then Inl (InvalidArgument ''assignment contains too many partitions'')
      else
        rbind (AppendString (pa_topic assignment) body) (\<lambda>body.
        append_all AppendAssignedPartition (pa_partition_ids assignment)
          (AppendBigEndian (word_of_nat (length (pa_partition_ids assignment)) :: u32) body)))"

definition EncodeJoinGroupResponseBody :: "JoinGroupResponse \<Rightarrow> byte list Result" where
  "EncodeJoinGroupResponseBody response =
     rbind (AppendString (jgs_group_id response) []) (\<lambda>body.
     rbind (AppendString (jgs_member_id response) body) (\<lambda>body.
     rbind (AppendGenerationId (jgs_generation_id response) body) (\<lambda>body.
     AppendString (jgs_leader_id response) body)))"

definition EncodeSyncGroupResponseBody :: "SyncGroupResponse \<Rightarrow> byte list Result" where
  "EncodeSyncGroupResponseBody response =
     rbind (AppendString (sgs_group_id response) []) (\<lambda>body.
     rbind (AppendString (sgs_member_id response) body) (\<lambda>body.
     rbind (AppendGenerationId (sgs_generation_id response) body) (\<lambda>body.
     AppendPartitionAssignment (sgs_assignment response) body)))"

definition EncodeHeartbeatResponseBody :: "HeartbeatResponse \<Rightarrow> byte list Result" where
  "EncodeHeartbeatResponseBody response =
     rbind (AppendString (hbs_group_id response) []) (\<lambda>body.
     rbind (AppendString (hbs_member_id response) body) (\<lambda>body.
     AppendGenerationId (hbs_generation_id response) body))"

definition EncodeLeaveGroupResponseBody :: "LeaveGroupResponse \<Rightarrow> byte list Result" where
  "EncodeLeaveGroupResponseBody response =
     rbind (AppendString (lgs_group_id response) []) (\<lambda>body.
     rbind (AppendString (lgs_member_id response) body) (\<lambda>body.
     AppendGenerationId (lgs_generation_id response) body))"

definition EncodeResponseBody :: "ResponseEnvelope \<Rightarrow> byte list Result" where
  "EncodeResponseBody response = (case rse_api_key response of
     kNack \<Rightarrow> (case rse_body response of RspNack b \<Rightarrow> EncodeNackResponseBody b
       | _ \<Rightarrow> wrong_body ''nack response'')
   | kProduce \<Rightarrow> (case rse_body response of RspProduce b \<Rightarrow> EncodeProduceResponseBody b
       | _ \<Rightarrow> wrong_body ''produce response'')
   | kFetch \<Rightarrow> (case rse_body response of
         RspFetch b \<Rightarrow> EncodeFetchResponseBody b (rse_version response)
       | _ \<Rightarrow> wrong_body ''fetch response'')
   | kMetadata \<Rightarrow> (case rse_body response of RspMetadata b \<Rightarrow> EncodeMetadataResponseBody b
       | _ \<Rightarrow> wrong_body ''metadata response'')
   | kCreateTopic \<Rightarrow> (case rse_body response of RspCreateTopic b \<Rightarrow> EncodeCreateTopicResponseBody b
       | _ \<Rightarrow> wrong_body ''create topic response'')
   | kCommitOffset \<Rightarrow> (case rse_body response of
         RspCommitOffset b \<Rightarrow> EncodeCommitOffsetResponseBody b
       | _ \<Rightarrow> wrong_body ''commit offset response'')
   | kFetchCommittedOffset \<Rightarrow> (case rse_body response of
         RspFetchCommittedOffset b \<Rightarrow> EncodeFetchCommittedOffsetResponseBody b
       | _ \<Rightarrow> wrong_body ''fetch committed offset response'')
   | kJoinGroup \<Rightarrow> (case rse_body response of RspJoinGroup b \<Rightarrow> EncodeJoinGroupResponseBody b
       | _ \<Rightarrow> wrong_body ''join group response'')
   | kSyncGroup \<Rightarrow> (case rse_body response of RspSyncGroup b \<Rightarrow> EncodeSyncGroupResponseBody b
       | _ \<Rightarrow> wrong_body ''sync group response'')
   | kHeartbeat \<Rightarrow> (case rse_body response of RspHeartbeat b \<Rightarrow> EncodeHeartbeatResponseBody b
       | _ \<Rightarrow> wrong_body ''heartbeat response'')
   | kLeaveGroup \<Rightarrow> (case rse_body response of RspLeaveGroup b \<Rightarrow> EncodeLeaveGroupResponseBody b
       | _ \<Rightarrow> wrong_body ''leave group response''))"

section \<open>Decoding\<close>

definition DecodeNackResponseBody :: "BodyReader \<Rightarrow> NackResponse Result \<times> BodyReader" where
  "DecodeNackResponseBody =
     sbind ReadString (\<lambda>topic. sbind ReadUInt (\<lambda>partition.
     sbind (ReadUInt :: BodyReader \<Rightarrow> u64 Result \<times> BodyReader) (\<lambda>offset.
     sbind ReadString (\<lambda>reason. sbind DecodeRetryMetadata (\<lambda>retry.
     sbind (ReadUInt :: BodyReader \<Rightarrow> u8 Result \<times> BodyReader) (\<lambda>dlq.
     sguard (topic = [] \<or> DecodePartitionId partition < 0 \<or> uint offset > i64_max \<or>
             reason \<noteq> [] \<or> uint dlq > 1)
       (InvalidArgument ''invalid nack response'') (
     sreturn \<lparr>nks_topic = topic, nks_partition_id = DecodePartitionId partition,
              nks_offset = sint offset, nks_retry = retry, nks_dead_letter = (dlq = 1)\<rparr>)))))))"

definition DecodeProduceResponseBody :: "BodyReader \<Rightarrow> ProduceResponse Result \<times> BodyReader" where
  "DecodeProduceResponseBody =
     sbind ReadUInt (\<lambda>partition_id.
     sbind (ReadUInt :: BodyReader \<Rightarrow> u64 Result \<times> BodyReader) (\<lambda>base_offset.
     sbind ReadUInt (\<lambda>record_count.
     sreturn \<lparr>prs_partition_id = DecodePartitionId partition_id,
              prs_base_offset = sint base_offset, prs_record_count = record_count\<rparr>)))"

definition DecodeFetchRecord :: "u16 \<Rightarrow> BodyReader \<Rightarrow> ProtocolRecord Result \<times> BodyReader" where
  "DecodeFetchRecord version =
     sbind DecodeProtocolRecord (\<lambda>r.
     if version = kRetryProtocolVersion
     then
       sbind (ReadUInt :: BodyReader \<Rightarrow> u8 Result \<times> BodyReader) (\<lambda>present.
       sguard (uint present > 1) (InvalidArgument ''invalid retry presence flag'') (
       if present = 1
       then sbind DecodeRetryMetadata (\<lambda>retry. sreturn (r\<lparr>prc_retry := Some retry\<rparr>))
       else sreturn r))
     else sreturn r)"

definition DecodeFetchResponseBody :: "u16 \<Rightarrow> BodyReader \<Rightarrow> FetchResponse Result \<times> BodyReader" where
  "DecodeFetchResponseBody version =
     sbind (ReadUInt :: BodyReader \<Rightarrow> u64 Result \<times> BodyReader) (\<lambda>base_offset.
     sbind (ReadUInt :: BodyReader \<Rightarrow> u64 Result \<times> BodyReader) (\<lambda>high_watermark.
     sbind (ReadUInt :: BodyReader \<Rightarrow> u32 Result \<times> BodyReader) (\<lambda>record_count r.
     sguard (unat record_count > reader_remaining r div 16)
       (InvalidArgument ''fetch record count exceeds body size'') (
     sbind (read_many (unat record_count) (DecodeFetchRecord version)) (\<lambda>records.
     sreturn \<lparr>frs_base_offset = sint base_offset, frs_high_watermark = sint high_watermark,
              frs_records = records\<rparr>)) r)))"

definition DecodeTopicMetadata :: "BodyReader \<Rightarrow> TopicMetadata Result \<times> BodyReader" where
  "DecodeTopicMetadata =
     sbind ReadString (\<lambda>topic. sbind ReadUInt (\<lambda>partition_count.
     sreturn \<lparr>tm_topic = topic, tm_partition_count = partition_count\<rparr>))"

definition DecodeMetadataResponseBody :: "BodyReader \<Rightarrow> MetadataResponse Result \<times> BodyReader" where
  "DecodeMetadataResponseBody =
     sbind (ReadUInt :: BodyReader \<Rightarrow> u32 Result \<times> BodyReader) (\<lambda>topic_count.
     sbind (read_many (unat topic_count) DecodeTopicMetadata) (\<lambda>topics.
     sreturn \<lparr>mrs_topics = topics\<rparr>))"

definition DecodeCreateTopicResponseBody ::
  "BodyReader \<Rightarrow> CreateTopicResponse Result \<times> BodyReader" where
  "DecodeCreateTopicResponseBody =
     sbind ReadString (\<lambda>topic. sbind ReadUInt (\<lambda>partition_count.
     sreturn \<lparr>cts_topic = topic, cts_partition_count = partition_count\<rparr>))"

definition DecodeCommitOffsetResponseBody ::
  "BodyReader \<Rightarrow> CommitOffsetResponse Result \<times> BodyReader" where
  "DecodeCommitOffsetResponseBody =
     sbind ReadString (\<lambda>group_id. sbind ReadString (\<lambda>topic. sbind ReadUInt (\<lambda>partition.
     sbind (ReadUInt :: BodyReader \<Rightarrow> u64 Result \<times> BodyReader) (\<lambda>offset.
     sreturn \<lparr>cos_group_id = group_id, cos_topic = topic,
              cos_partition_id = DecodePartitionId partition, cos_offset = sint offset\<rparr>))))"

definition DecodeFetchCommittedOffsetResponseBody ::
  "BodyReader \<Rightarrow> FetchCommittedOffsetResponse Result \<times> BodyReader" where
  "DecodeFetchCommittedOffsetResponseBody =
     sbind ReadString (\<lambda>group_id. sbind ReadString (\<lambda>topic. sbind ReadUInt (\<lambda>partition.
     sbind (ReadUInt :: BodyReader \<Rightarrow> u32 Result \<times> BodyReader) (\<lambda>committed.
     sguard (uint committed > 1)
       (InvalidArgument ''fetch committed offset response has invalid flag'') (
     sbind (ReadUInt :: BodyReader \<Rightarrow> u64 Result \<times> BodyReader) (\<lambda>offset.
     sreturn \<lparr>fcs_group_id = group_id, fcs_topic = topic,
              fcs_partition_id = DecodePartitionId partition, fcs_committed = (committed = 1),
              fcs_offset = sint offset\<rparr>))))))"

definition DecodeAssignedPartition :: "BodyReader \<Rightarrow> PartitionId Result \<times> BodyReader" where
  "DecodeAssignedPartition =
     sbind ReadUInt (\<lambda>partition.
     sguard (DecodePartitionId partition < 0)
       (InvalidArgument ''assignment partition_id must not be negative'') (
     sreturn (DecodePartitionId partition)))"

definition DecodePartitionAssignment ::
  "BodyReader \<Rightarrow> PartitionAssignment Result \<times> BodyReader" where
  "DecodePartitionAssignment =
     sbind ReadString (\<lambda>topic.
     sbind (ReadUInt :: BodyReader \<Rightarrow> u32 Result \<times> BodyReader) (\<lambda>partition_count.
     sbind (read_many (unat partition_count) DecodeAssignedPartition) (\<lambda>partition_ids.
     sreturn \<lparr>pa_topic = topic, pa_partition_ids = partition_ids\<rparr>)))"

definition DecodeJoinGroupResponseBody :: "BodyReader \<Rightarrow> JoinGroupResponse Result \<times> BodyReader" where
  "DecodeJoinGroupResponseBody =
     sbind ReadString (\<lambda>group_id. sbind ReadString (\<lambda>member_id.
     sbind ReadGenerationId (\<lambda>generation_id. sbind ReadString (\<lambda>leader_id.
     sreturn \<lparr>jgs_group_id = group_id, jgs_member_id = member_id,
              jgs_generation_id = generation_id, jgs_leader_id = leader_id\<rparr>))))"

definition DecodeSyncGroupResponseBody :: "BodyReader \<Rightarrow> SyncGroupResponse Result \<times> BodyReader" where
  "DecodeSyncGroupResponseBody =
     sbind ReadString (\<lambda>group_id. sbind ReadString (\<lambda>member_id.
     sbind ReadGenerationId (\<lambda>generation_id. sbind DecodePartitionAssignment (\<lambda>assignment.
     sreturn \<lparr>sgs_group_id = group_id, sgs_member_id = member_id,
              sgs_generation_id = generation_id, sgs_assignment = assignment\<rparr>))))"

definition DecodeHeartbeatResponseBody :: "BodyReader \<Rightarrow> HeartbeatResponse Result \<times> BodyReader" where
  "DecodeHeartbeatResponseBody =
     sbind ReadString (\<lambda>group_id. sbind ReadString (\<lambda>member_id.
     sbind ReadGenerationId (\<lambda>generation_id.
     sreturn \<lparr>hbs_group_id = group_id, hbs_member_id = member_id,
              hbs_generation_id = generation_id\<rparr>)))"

definition DecodeLeaveGroupResponseBody :: "BodyReader \<Rightarrow> LeaveGroupResponse Result \<times> BodyReader" where
  "DecodeLeaveGroupResponseBody =
     sbind ReadString (\<lambda>group_id. sbind ReadString (\<lambda>member_id.
     sbind ReadGenerationId (\<lambda>generation_id.
     sreturn \<lparr>lgs_group_id = group_id, lgs_member_id = member_id,
              lgs_generation_id = generation_id\<rparr>)))"

definition smap :: "('a \<Rightarrow> 'b) \<Rightarrow> ('s \<Rightarrow> 'a Result \<times> 's) \<Rightarrow> 's \<Rightarrow> 'b Result \<times> 's" where
  "smap f m = sbind m (\<lambda>x. sreturn (f x))"

definition DecodeResponseBody ::
  "ApiKey \<Rightarrow> u16 \<Rightarrow> BodyReader \<Rightarrow> ResponseBody Result \<times> BodyReader" where
  "DecodeResponseBody api_key version = (case api_key of
     kNack \<Rightarrow> smap RspNack DecodeNackResponseBody
   | kProduce \<Rightarrow> smap RspProduce DecodeProduceResponseBody
   | kFetch \<Rightarrow> smap RspFetch (DecodeFetchResponseBody version)
   | kMetadata \<Rightarrow> smap RspMetadata DecodeMetadataResponseBody
   | kCreateTopic \<Rightarrow> smap RspCreateTopic DecodeCreateTopicResponseBody
   | kCommitOffset \<Rightarrow> smap RspCommitOffset DecodeCommitOffsetResponseBody
   | kFetchCommittedOffset \<Rightarrow> smap RspFetchCommittedOffset DecodeFetchCommittedOffsetResponseBody
   | kJoinGroup \<Rightarrow> smap RspJoinGroup DecodeJoinGroupResponseBody
   | kSyncGroup \<Rightarrow> smap RspSyncGroup DecodeSyncGroupResponseBody
   | kHeartbeat \<Rightarrow> smap RspHeartbeat DecodeHeartbeatResponseBody
   | kLeaveGroup \<Rightarrow> smap RspLeaveGroup DecodeLeaveGroupResponseBody)"

section \<open>Round trips\<close>

definition retry_typed :: "RetryMetadata \<Rightarrow> bool" where
  "retry_typed m \<longleftrightarrow> is_i32 (rm_original_partition m) \<and> is_i64 (rm_original_offset m)"

definition retry_bytes :: "RetryMetadata \<Rightarrow> byte list" where
  "retry_bytes m = be_bytes (rm_retry_count m) @ be_bytes (rm_next_visible_time m) @
     string_bytes (rm_original_topic m) @ string_bytes (rm_failure_reason m) @
     be_bytes (word_of_int (rm_original_partition m) :: u32) @
     be_bytes (word_of_int (rm_original_offset m) :: u64)"

definition retry_valid :: "RetryMetadata \<Rightarrow> bool" where
  "retry_valid m \<longleftrightarrow> rm_retry_count m \<noteq> 0 \<and> rm_original_topic m \<noteq> [] \<and>
     0 \<le> rm_original_partition m \<and> 0 \<le> rm_original_offset m \<and>
     length (rm_original_topic m) \<le> u32_max \<and> length (rm_failure_reason m) \<le> u32_max"

lemma AppendRetryMetadata_Inr_iff [append_simps]:
  "AppendRetryMetadata m out = Inr out' \<longleftrightarrow> retry_valid m \<and> out' = out @ retry_bytes m"
  by (auto simp: AppendRetryMetadata_def retry_valid_def retry_bytes_def rbind_Inr_iff append_simps
      AppendBigEndian_eq [of _ out] AppendBigEndian_eq [of _ "_ @ _"])

lemma is_i64_le: "is_i64 i \<Longrightarrow> \<not> i64_max < i"
  by (simp add: is_i64_def)

lemma DecodeRetryMetadata_at [reader_simps]:
  assumes "retry_valid m" "retry_typed m"
  shows "DecodeRetryMetadata (reader_at pre (retry_bytes m @ rest)) =
    (Inr m, reader_at (pre @ retry_bytes m) rest)"
  using assms
  by (simp add: DecodeRetryMetadata_def retry_bytes_def retry_valid_def retry_typed_def reader_simps
      is_i64_le)

lemma DecodeRetryMetadata_at_end [reader_simps]:
  assumes "retry_valid m" "retry_typed m"
  shows "DecodeRetryMetadata (reader_at pre (retry_bytes m)) = (Inr m, reader_at (pre @ retry_bytes m) [])"
  using DecodeRetryMetadata_at [OF assms, of pre "[]"] by simp

text \<open>A fetched record on the wire.\<close>

definition record_typed :: "ProtocolRecord \<Rightarrow> bool" where
  "record_typed r = (case prc_retry r of None \<Rightarrow> True | Some m \<Rightarrow> retry_typed m)"

definition wire_record :: "u16 \<Rightarrow> ProtocolRecord \<Rightarrow> ProtocolRecord" where
  "wire_record version r = (if version = kRetryProtocolVersion then r else plain_record r)"

definition fetch_record_bytes :: "u16 \<Rightarrow> ProtocolRecord \<Rightarrow> byte list" where
  "fetch_record_bytes version r = protocol_record_bytes r @
     (if version = kRetryProtocolVersion
      then case prc_retry r of
             None \<Rightarrow> be_bytes (0 :: u8) | Some m \<Rightarrow> be_bytes (1 :: u8) @ retry_bytes m
      else [])"

lemma AppendFetchRecord_Inr_iff:
  "AppendFetchRecord v r out = Inr out' \<longleftrightarrow>
     length (prc_key r) \<le> u32_max \<and> length (prc_value r) \<le> u32_max \<and>
     (v = kRetryProtocolVersion \<longrightarrow> (\<forall>m. prc_retry r = Some m \<longrightarrow> retry_valid m)) \<and>
     out' = out @ fetch_record_bytes v r"
  by (cases "prc_retry r")
    (auto simp: AppendFetchRecord_def fetch_record_bytes_def rbind_Inr_iff append_simps
      AppendBigEndian_eq [of _ "_ @ _"])

lemma plain_record_id: "prc_retry r = None \<Longrightarrow> plain_record r = r"
  by (simp add: plain_record_def)

lemma plain_record_retry: "prc_retry r = Some m \<Longrightarrow> plain_record r\<lparr>prc_retry := Some m\<rparr> = r"
  by (simp add: plain_record_def)

lemma DecodeFetchRecord_at:
  assumes "AppendFetchRecord v r out = Inr out'" "record_typed r"
  shows "DecodeFetchRecord v (reader_at pre (fetch_record_bytes v r @ rest)) =
    (Inr (wire_record v r), reader_at (pre @ fetch_record_bytes v r) rest)"
  using assms
  by (cases "prc_retry r")
    (auto simp: AppendFetchRecord_Inr_iff DecodeFetchRecord_def fetch_record_bytes_def wire_record_def
      record_typed_def DecodeProtocolRecord_at reader_simps plain_record_id plain_record_retry)

interpretation frec: wire_item "AppendFetchRecord v" "DecodeFetchRecord v" "fetch_record_bytes v"
    record_typed "wire_record v" for v
  by unfold_locales (auto simp: AppendFetchRecord_Inr_iff intro: DecodeFetchRecord_at)

definition topic_metadata_bytes :: "TopicMetadata \<Rightarrow> byte list" where
  "topic_metadata_bytes t = string_bytes (tm_topic t) @ be_bytes (tm_partition_count t)"

lemma AppendTopicMetadata_Inr_iff:
  "AppendTopicMetadata t out = Inr out' \<longleftrightarrow>
     length (tm_topic t) \<le> u32_max \<and> out' = out @ topic_metadata_bytes t"
  by (auto simp: AppendTopicMetadata_def topic_metadata_bytes_def codec_simps)

interpretation tmeta: wire_item AppendTopicMetadata DecodeTopicMetadata topic_metadata_bytes
    "\<lambda>_. True" id
  by unfold_locales
    (auto simp: AppendTopicMetadata_Inr_iff DecodeTopicMetadata_def topic_metadata_bytes_def reader_simps)

interpretation apart: wire_item AppendAssignedPartition DecodeAssignedPartition
    "\<lambda>p. be_bytes (word_of_int p :: u32)" is_i32 id
  by unfold_locales
    (auto simp: AppendAssignedPartition_def DecodeAssignedPartition_def append_simps reader_simps
      split: if_splits)

definition response_typed :: "ResponseBody \<Rightarrow> bool" where
  "response_typed b = (case b of
     RspProduce s \<Rightarrow> is_i32 (prs_partition_id s) \<and> is_i64 (prs_base_offset s)
   | RspFetch s \<Rightarrow> is_i64 (frs_base_offset s) \<and> is_i64 (frs_high_watermark s) \<and>
       list_all record_typed (frs_records s)
   | RspCommitOffset s \<Rightarrow> is_i32 (cos_partition_id s) \<and> is_i64 (cos_offset s)
   | RspFetchCommittedOffset s \<Rightarrow> is_i32 (fcs_partition_id s) \<and> is_i64 (fcs_offset s)
   | RspJoinGroup s \<Rightarrow> is_i32 (jgs_generation_id s)
   | RspSyncGroup s \<Rightarrow> is_i32 (sgs_generation_id s) \<and>
       list_all is_i32 (pa_partition_ids (sgs_assignment s))
   | RspHeartbeat s \<Rightarrow> is_i32 (hbs_generation_id s)
   | RspLeaveGroup s \<Rightarrow> is_i32 (lgs_generation_id s)
   | RspNack s \<Rightarrow> is_i32 (nks_partition_id s) \<and> is_i64 (nks_offset s) \<and> retry_typed (nks_retry s)
   | _ \<Rightarrow> True)"

definition wire_response :: "u16 \<Rightarrow> ResponseBody \<Rightarrow> ResponseBody" where
  "wire_response version b = (case b of
     RspFetch s \<Rightarrow> RspFetch (s\<lparr>frs_records := map (wire_record version) (frs_records s)\<rparr>)
   | _ \<Rightarrow> b)"

lemma ProduceResponse_roundtrip:
  "EncodeProduceResponseBody s = Inr body \<Longrightarrow> is_i32 (prs_partition_id s) \<Longrightarrow>
   is_i64 (prs_base_offset s) \<Longrightarrow>
     DecodeProduceResponseBody (reader_at pre body) = (Inr s, reader_at (pre @ body) [])"
  by (auto simp: EncodeProduceResponseBody_def DecodeProduceResponseBody_def codec_simps
      AppendBigEndian_eq [of _ "be_bytes _"] split: if_splits)

lemma length_fetch_records: "16 * length rs \<le> length (frec.list_bytes v rs)"
proof (induction rs)
  case (Cons r rs)
  have "16 \<le> length (fetch_record_bytes v r)"
    by (simp add: fetch_record_bytes_def protocol_record_bytes_def)
  with Cons show ?case by (simp add: frec.list_bytes_def)
qed simp

lemma FetchResponse_roundtrip:
  assumes "EncodeFetchResponseBody s v = Inr body" "is_i64 (frs_base_offset s)"
    "is_i64 (frs_high_watermark s)" "list_all record_typed (frs_records s)"
  shows "DecodeFetchResponseBody v (reader_at pre body) =
    (Inr (s\<lparr>frs_records := map (wire_record v) (frs_records s)\<rparr>), reader_at (pre @ body) [])"
proof -
  let ?n = "length (frs_records s)"
  let ?pre = "be_bytes (word_of_int (frs_base_offset s) :: u64) @
    be_bytes (word_of_int (frs_high_watermark s) :: u64) @ be_bytes (word_of_nat ?n :: u32)"
  from assms(1) have n: "?n \<le> u32_max"
    and app: "append_all (AppendFetchRecord v) (frs_records s) ?pre = Inr body"
    by (simp_all add: EncodeFetchResponseBody_def codec_simps AppendBigEndian_eq [of _ "be_bytes _"]
        split: if_splits)
  have body: "body = ?pre @ frec.list_bytes v (frs_records s)"
    using frec.append_all_bytes [OF assms(4) app] by simp
  have "\<not> length (frec.list_bytes v (frs_records s)) div 16 < ?n"
    using length_fetch_records [of "frs_records s" v] by (simp add: div_less_iff_less_mult)
  then show ?thesis
    unfolding body DecodeFetchResponseBody_def
    using n assms(2,3) frec.read_many_bytes_end [OF assms(4) app]
    by (simp add: codec_simps)
qed

lemma MetadataResponse_roundtrip:
  assumes "EncodeMetadataResponseBody s = Inr body"
  shows "DecodeMetadataResponseBody (reader_at pre body) = (Inr s, reader_at (pre @ body) [])"
proof -
  let ?pre = "be_bytes (word_of_nat (length (mrs_topics s)) :: u32)"
  from assms have n: "length (mrs_topics s) \<le> u32_max"
    and app: "append_all AppendTopicMetadata (mrs_topics s) ?pre = Inr body"
    by (simp_all add: EncodeMetadataResponseBody_def split: if_splits)
  have body: "body = ?pre @ tmeta.list_bytes (mrs_topics s)"
    using tmeta.append_all_bytes [OF _ app] by simp
  show ?thesis
    unfolding body DecodeMetadataResponseBody_def
    using n tmeta.read_many_bytes_end [OF _ app] by (simp add: codec_simps)
qed

lemma CreateTopicResponse_roundtrip:
  "EncodeCreateTopicResponseBody s = Inr body \<Longrightarrow>
     DecodeCreateTopicResponseBody (reader_at pre body) = (Inr s, reader_at (pre @ body) [])"
  by (auto simp: EncodeCreateTopicResponseBody_def DecodeCreateTopicResponseBody_def codec_simps)

lemma CommitOffsetResponse_roundtrip:
  "EncodeCommitOffsetResponseBody s = Inr body \<Longrightarrow> is_i32 (cos_partition_id s) \<Longrightarrow>
   is_i64 (cos_offset s) \<Longrightarrow>
     DecodeCommitOffsetResponseBody (reader_at pre body) = (Inr s, reader_at (pre @ body) [])"
  by (auto simp: EncodeCommitOffsetResponseBody_def DecodeCommitOffsetResponseBody_def codec_simps
      split: if_splits)

lemma FetchCommittedOffsetResponse_roundtrip:
  "EncodeFetchCommittedOffsetResponseBody s = Inr body \<Longrightarrow> is_i32 (fcs_partition_id s) \<Longrightarrow>
   is_i64 (fcs_offset s) \<Longrightarrow>
     DecodeFetchCommittedOffsetResponseBody (reader_at pre body) = (Inr s, reader_at (pre @ body) [])"
  by (cases "fcs_committed s")
    (auto simp: EncodeFetchCommittedOffsetResponseBody_def DecodeFetchCommittedOffsetResponseBody_def
      codec_simps split: if_splits)

lemma JoinGroupResponse_roundtrip:
  "EncodeJoinGroupResponseBody s = Inr body \<Longrightarrow> is_i32 (jgs_generation_id s) \<Longrightarrow>
     DecodeJoinGroupResponseBody (reader_at pre body) = (Inr s, reader_at (pre @ body) [])"
  by (auto simp: EncodeJoinGroupResponseBody_def DecodeJoinGroupResponseBody_def codec_simps)

lemma HeartbeatResponse_roundtrip:
  "EncodeHeartbeatResponseBody s = Inr body \<Longrightarrow> is_i32 (hbs_generation_id s) \<Longrightarrow>
     DecodeHeartbeatResponseBody (reader_at pre body) = (Inr s, reader_at (pre @ body) [])"
  by (auto simp: EncodeHeartbeatResponseBody_def DecodeHeartbeatResponseBody_def codec_simps)

lemma LeaveGroupResponse_roundtrip:
  "EncodeLeaveGroupResponseBody s = Inr body \<Longrightarrow> is_i32 (lgs_generation_id s) \<Longrightarrow>
     DecodeLeaveGroupResponseBody (reader_at pre body) = (Inr s, reader_at (pre @ body) [])"
  by (auto simp: EncodeLeaveGroupResponseBody_def DecodeLeaveGroupResponseBody_def codec_simps)

lemma SyncGroupResponse_roundtrip:
  assumes "EncodeSyncGroupResponseBody s = Inr body" "is_i32 (sgs_generation_id s)"
    "list_all is_i32 (pa_partition_ids (sgs_assignment s))"
  shows "DecodeSyncGroupResponseBody (reader_at pre body) = (Inr s, reader_at (pre @ body) [])"
proof -
  let ?a = "sgs_assignment s"
  let ?n = "length (pa_partition_ids ?a)"
  let ?pre = "string_bytes (sgs_group_id s) @ string_bytes (sgs_member_id s) @
    be_bytes (word_of_int (sgs_generation_id s) :: u32) @ string_bytes (pa_topic ?a) @
    be_bytes (word_of_nat ?n :: u32)"
  from assms(1) have n: "?n \<le> u32_max" "0 \<le> sgs_generation_id s" "length (sgs_group_id s) \<le> u32_max"
    "length (sgs_member_id s) \<le> u32_max" "length (pa_topic ?a) \<le> u32_max"
    and app: "append_all AppendAssignedPartition (pa_partition_ids ?a) ?pre = Inr body"
    by (simp_all add: EncodeSyncGroupResponseBody_def AppendPartitionAssignment_def codec_simps
        split: if_splits)
  have body: "body = ?pre @ apart.list_bytes (pa_partition_ids ?a)"
    using apart.append_all_bytes [OF assms(3) app] by simp
  show ?thesis
    unfolding body DecodeSyncGroupResponseBody_def DecodePartitionAssignment_def
    using n assms(2) apart.read_many_bytes_end [OF assms(3) app]
    by (simp add: codec_simps)
qed

lemma NackResponse_roundtrip:
  assumes "EncodeNackResponseBody s = Inr body" "is_i32 (nks_partition_id s)"
    "is_i64 (nks_offset s)" "retry_typed (nks_retry s)"
  shows "DecodeNackResponseBody (reader_at pre body) = (Inr s, reader_at (pre @ body) [])"
  using assms
  by (cases "nks_dead_letter s")
    (auto simp: EncodeNackResponseBody_def EncodeNackBody_def DecodeNackResponseBody_def codec_simps
      append_simps reader_simps is_i64_le split: if_splits)

lemmas response_roundtrips = ProduceResponse_roundtrip FetchResponse_roundtrip
  MetadataResponse_roundtrip CreateTopicResponse_roundtrip CommitOffsetResponse_roundtrip
  FetchCommittedOffsetResponse_roundtrip JoinGroupResponse_roundtrip SyncGroupResponse_roundtrip
  HeartbeatResponse_roundtrip LeaveGroupResponse_roundtrip NackResponse_roundtrip

lemma smap_Inr: "m s = (Inr x, s') \<Longrightarrow> smap f m s = (Inr (f x), s')"
  by (simp add: smap_def)

lemma ResponseBody_roundtrip:
  assumes "EncodeResponseBody response = Inr body" "response_typed (rse_body response)"
  shows "DecodeResponseBody (rse_api_key response) (rse_version response) (reader_at pre body) =
    (Inr (wire_response (rse_version response) (rse_body response)), reader_at (pre @ body) [])"
  using assms
  by (cases "rse_api_key response"; cases "rse_body response")
    (simp_all add: EncodeResponseBody_def DecodeResponseBody_def wrong_body_def response_typed_def
      wire_response_def response_roundtrips smap_Inr)

end
