(* ===== verification/Codec.thy ===== *)
theory Codec
  imports ResponseCodec
begin

text \<open>
  The public functions of \<^verbatim>\<open>src/protocol/codec.cpp\<close>: request and response frames and the
  \<^verbatim>\<open>FrameDecoder\<close> that cuts a byte stream into frames. The lemmas: a frame that was
  encoded decodes to the message it was made of, and the decoder's result does not
  depend on how the network cut the stream into chunks.
\<close>

section \<open>Frames\<close>

definition AppendFrameHeader ::
  "ApiKey \<Rightarrow> u16 \<Rightarrow> u64 \<Rightarrow> byte list \<Rightarrow> byte list \<Rightarrow> byte list Result" where
  "AppendFrameHeader api_key version request_id body output =
     (if length body > kMaxFrameBytes - kFrameHeaderBytes
      then Inl (InvalidArgument ''protocol frame body is too large'')
      else
        let total_len = word_of_nat (kFrameHeaderBytes + length body) :: u32;
            output = AppendBigEndian total_len output;
            output = AppendBigEndian (api_key_value api_key) output;
            output = AppendBigEndian version output
        in Inr (AppendBigEndian request_id output))"

definition ValidateFrame :: "byte list \<Rightarrow> unit Result" where
  "ValidateFrame frame =
     (if length frame < kFrameHeaderBytes
      then Inl (InvalidArgument ''protocol frame header is truncated'')
      else
        rbind (ReadBigEndian frame 0 :: u32 Result) (\<lambda>total_len.
        if unat total_len < kFrameHeaderBytes
        then Inl (InvalidArgument ''protocol frame length is smaller than header'')
        else if unat total_len > kMaxFrameBytes
        then Inl (InvalidArgument ''protocol frame length exceeds max frame size'')
        else if unat total_len \<noteq> length frame
        then Inl (InvalidArgument ''protocol frame length does not match buffer size'')
        else Inr ()))"

definition EncodeRequest :: "RequestEnvelope \<Rightarrow> byte list Result" where
  "EncodeRequest request =
     (if \<not> SupportedProtocolVersion (rqe_version request)
      then Inl (InvalidArgument ''unsupported protocol version'')
      else
        rbind (EncodeRequestBody request) (\<lambda>body.
        rbind (AppendFrameHeader (rqe_api_key request) (rqe_version request)
                 (rqe_request_id request) body []) (\<lambda>output.
        Inr (AppendBytes body output))))"

definition DecodeRequest :: "byte list \<Rightarrow> RequestEnvelope Result" where
  "DecodeRequest frame =
     rbind (ValidateFrame frame) (\<lambda>_.
     rbind (ReadBigEndian frame 4 :: u16 Result) (\<lambda>api_key_value.
     rbind (ParseApiKey api_key_value) (\<lambda>api_key.
     rbind (ReadBigEndian frame (4 + 2) :: u16 Result) (\<lambda>version.
     if \<not> SupportedProtocolVersion version
     then Inl (InvalidArgument ''unsupported protocol version'')
     else
       rbind (ReadBigEndian frame (4 + 2 + 2) :: u64 Result) (\<lambda>request_id.
       rbind (DecodeRequestBody api_key (drop kFrameHeaderBytes frame)) (\<lambda>body.
       Inr \<lparr>rqe_api_key = api_key, rqe_version = version, rqe_request_id = request_id,
            rqe_body = body\<rparr>))))))"

definition EncodeResponse :: "ResponseEnvelope \<Rightarrow> byte list Result" where
  "EncodeResponse response =
     (if \<not> SupportedProtocolVersion (rse_version response)
      then Inl (InvalidArgument ''unsupported protocol version'')
      else
        let body = AppendBigEndian (error_code_value (er_error_code (rse_error response))) []
        in rbind (AppendString (er_message (rse_error response)) body) (\<lambda>body.
           rbind (if er_error_code (rse_error response) = pkNone
                  then rbind (EncodeResponseBody response) (\<lambda>success_body.
                       Inr (AppendBytes success_body body))
                  else Inr body) (\<lambda>body.
           rbind (AppendFrameHeader (rse_api_key response) (rse_version response)
                    (rse_request_id response) body []) (\<lambda>output.
           Inr (AppendBytes body output)))))"

definition EncodeErrorResponse ::
  "ApiKey \<Rightarrow> u16 \<Rightarrow> u64 \<Rightarrow> ProtocolErrorCode \<Rightarrow> string \<Rightarrow> byte list Result" where
  "EncodeErrorResponse api_key version request_id code message =
     (if \<not> SupportedProtocolVersion version
      then Inl (InvalidArgument ''unsupported protocol version'')
      else
        rbind (AppendString message (AppendBigEndian (error_code_value code) [])) (\<lambda>body.
        rbind (AppendFrameHeader api_key version request_id body []) (\<lambda>output.
        Inr (AppendBytes body output))))"

definition DecodeResponse :: "byte list \<Rightarrow> ResponseEnvelope Result" where
  "DecodeResponse frame =
     rbind (ValidateFrame frame) (\<lambda>_.
     rbind (ReadBigEndian frame 4 :: u16 Result) (\<lambda>api_key_value.
     rbind (ParseApiKey api_key_value) (\<lambda>api_key.
     rbind (ReadBigEndian frame (4 + 2) :: u16 Result) (\<lambda>version.
     if \<not> SupportedProtocolVersion version
     then Inl (InvalidArgument ''unsupported protocol version'')
     else
       rbind (ReadBigEndian frame (4 + 2 + 2) :: u64 Result) (\<lambda>request_id.
       run_reader (
         sbind ReadUInt (\<lambda>error_code_value.
         sbind (\<lambda>r. (ParseProtocolErrorCode error_code_value, r)) (\<lambda>error_code.
         sbind ReadString (\<lambda>message.
         sbind (if error_code = pkNone then DecodeResponseBody api_key version
                else sreturn (EmptyResponseBodyFor api_key)) (\<lambda>body.
         finish ''response has trailing bytes''
           \<lparr>rse_api_key = api_key, rse_version = version, rse_request_id = request_id,
            rse_error = \<lparr>er_error_code = error_code, er_message = message\<rparr>,
            rse_body = body\<rparr>))))) (drop kFrameHeaderBytes frame))))))"

section \<open>Cutting a stream into frames\<close>

record FrameDecoder =
  fd_max_frame_bytes :: nat
  fd_buffer :: "byte list"

definition mk_FrameDecoder :: "nat \<Rightarrow> FrameDecoder" where
  "mk_FrameDecoder max_frame_bytes =
     \<lparr>fd_max_frame_bytes = max max_frame_bytes kFrameHeaderBytes, fd_buffer = []\<rparr>"

definition PeekFrameLength :: "byte list \<Rightarrow> u32 Result" where
  "PeekFrameLength data =
     (if length data < 4 then Inl (InvalidArgument ''protocol frame length is incomplete'')
      else ReadBigEndian data 0)"

function push_loop ::
  "nat \<Rightarrow> byte list \<Rightarrow> RequestEnvelope list \<Rightarrow> RequestEnvelope list Result \<times> byte list" where
  "push_loop max_frame_bytes buffer requests =
     (if length buffer \<ge> 4
      then
        case PeekFrameLength buffer of
          Inl e \<Rightarrow> (Inl e, buffer)
        | Inr frame_len \<Rightarrow>
            if unat frame_len < kFrameHeaderBytes
            then (Inl (InvalidArgument ''protocol frame length is smaller than header''), buffer)
            else if unat frame_len > max_frame_bytes
            then (Inl (InvalidArgument ''protocol frame length exceeds max frame size''), buffer)
            else if length buffer < unat frame_len then (Inr requests, buffer)
            else
              (case DecodeRequest (take (unat frame_len) buffer) of
                 Inl e \<Rightarrow> (Inl e, buffer)
               | Inr request \<Rightarrow>
                   push_loop max_frame_bytes (drop (unat frame_len) buffer) (requests @ [request]))
      else (Inr requests, buffer))"
  by pat_completeness auto
termination
  by (relation "measure (\<lambda>(_, buffer, _). length buffer)") (auto simp: kFrameHeaderBytes_def)

declare push_loop.simps [simp del]

definition FrameDecoder_Push ::
  "byte list \<Rightarrow> FrameDecoder \<Rightarrow> RequestEnvelope list Result \<times> FrameDecoder" where
  "FrameDecoder_Push data fd =
     (let (r, buffer) = push_loop (fd_max_frame_bytes fd) (fd_buffer fd @ data) []
      in (r, fd\<lparr>fd_buffer := buffer\<rparr>))"

definition FrameDecoder_Clear :: "FrameDecoder \<Rightarrow> FrameDecoder" where
  "FrameDecoder_Clear fd = fd\<lparr>fd_buffer := []\<rparr>"

section \<open>An encoded frame decodes\<close>

definition frame_bytes :: "ApiKey \<Rightarrow> u16 \<Rightarrow> u64 \<Rightarrow> byte list \<Rightarrow> byte list" where
  "frame_bytes api_key version request_id body =
     be_bytes (word_of_nat (kFrameHeaderBytes + length body) :: u32) @
     be_bytes (api_key_value api_key) @ be_bytes version @ be_bytes request_id @ body"

lemma length_frame_bytes [simp]:
  "length (frame_bytes k v i body) = kFrameHeaderBytes + length body"
  by (simp add: frame_bytes_def kFrameHeaderBytes_def)

lemma AppendFrameHeader_Inr_iff:
  "rbind (AppendFrameHeader k v i body []) (\<lambda>output. Inr (AppendBytes body output)) = Inr frame \<longleftrightarrow>
     length body \<le> kMaxFrameBytes - kFrameHeaderBytes \<and> frame = frame_bytes k v i body"
  by (auto simp: AppendFrameHeader_def AppendBytes_def frame_bytes_def Let_def
      AppendBigEndian_eq [of _ "_ @ _"] AppendBigEndian_eq [of _ "be_bytes _"])

lemma read_frame_bytes:
  "ReadBigEndian (frame_bytes k v i body @ rest) 0 =
     Inr (word_of_nat (kFrameHeaderBytes + length body) :: u32)"
  "ReadBigEndian (frame_bytes k v i body @ rest) 4 = Inr (api_key_value k)"
  "ReadBigEndian (frame_bytes k v i body @ rest) 6 = Inr v"
  "ReadBigEndian (frame_bytes k v i body @ rest) 8 = Inr i"
proof -
  let ?l = "be_bytes (word_of_nat (kFrameHeaderBytes + length body) :: u32)"
  let ?k = "be_bytes (api_key_value k)" and ?v = "be_bytes v" and ?i = "be_bytes i"
  note r = ReadBigEndian_append
  have eq: "frame_bytes k v i body @ rest = ?l @ ?k @ ?v @ ?i @ body @ rest"
    by (simp add: frame_bytes_def)
  show "ReadBigEndian (frame_bytes k v i body @ rest) 0 =
      Inr (word_of_nat (kFrameHeaderBytes + length body) :: u32)"
    unfolding eq using r [of "[]" 0 "word_of_nat (kFrameHeaderBytes + length body) :: u32"] by simp
  show "ReadBigEndian (frame_bytes k v i body @ rest) 4 = Inr (api_key_value k)"
    unfolding eq using r [of ?l 4 "api_key_value k" "?v @ ?i @ body @ rest"] by simp
  show "ReadBigEndian (frame_bytes k v i body @ rest) 6 = Inr v"
    unfolding eq using r [of "?l @ ?k" 6 v "?i @ body @ rest"] by simp
  show "ReadBigEndian (frame_bytes k v i body @ rest) 8 = Inr i"
    unfolding eq using r [of "?l @ ?k @ ?v" 8 i "body @ rest"] by simp
qed

lemmas read_frame = read_frame_bytes [where rest = "[]", simplified append_Nil2]

lemma drop_frame_bytes: "drop kFrameHeaderBytes (frame_bytes k v i body) = body"
  by (simp add: frame_bytes_def kFrameHeaderBytes_def)

lemma unat_frame_length:
  "length body \<le> kMaxFrameBytes - kFrameHeaderBytes \<Longrightarrow>
     unat (word_of_nat (kFrameHeaderBytes + length body) :: u32) = kFrameHeaderBytes + length body"
  by (rule unat_of_nat_u32) (simp add: kMaxFrameBytes_def kFrameHeaderBytes_def)

lemma ValidateFrame_frame_bytes:
  assumes "length body \<le> kMaxFrameBytes - kFrameHeaderBytes"
  shows "ValidateFrame (frame_bytes k v i body) = Inr ()"
proof -
  have "\<not> kMaxFrameBytes < kFrameHeaderBytes + length body"
    using assms by (simp add: kMaxFrameBytes_def kFrameHeaderBytes_def)
  then show ?thesis
    by (simp add: ValidateFrame_def read_frame unat_frame_length [OF assms]
        del: of_nat_add unat_of_nat_u32)
qed

definition wire_request_envelope :: "RequestEnvelope \<Rightarrow> RequestEnvelope" where
  "wire_request_envelope q = q\<lparr>rqe_body := wire_request (rqe_body q)\<rparr>"

text \<open>What the receiver of a response sees: an error response carries no payload.\<close>

definition wire_response_envelope :: "ResponseEnvelope \<Rightarrow> ResponseEnvelope" where
  "wire_response_envelope s = s\<lparr>rse_body :=
     (if er_error_code (rse_error s) = pkNone then wire_response (rse_version s) (rse_body s)
      else EmptyResponseBodyFor (rse_api_key s))\<rparr>"

lemma EncodeRequest_Inr_iff:
  "EncodeRequest q = Inr frame \<longleftrightarrow> SupportedProtocolVersion (rqe_version q) \<and>
     (\<exists>body. EncodeRequestBody q = Inr body \<and> length body \<le> kMaxFrameBytes - kFrameHeaderBytes \<and>
        frame = frame_bytes (rqe_api_key q) (rqe_version q) (rqe_request_id q) body)"
  unfolding EncodeRequest_def using AppendFrameHeader_Inr_iff
  by (cases "EncodeRequestBody q") auto

lemma EncodeRequest_frame_length:
  "EncodeRequest q = Inr frame \<Longrightarrow>
     kFrameHeaderBytes \<le> length frame \<and> length frame \<le> kMaxFrameBytes"
  by (auto simp: EncodeRequest_Inr_iff kMaxFrameBytes_def kFrameHeaderBytes_def)

lemma DecodeRequest_EncodeRequest:
  assumes "EncodeRequest q = Inr frame" "request_typed (rqe_body q)"
  shows "DecodeRequest frame = Inr (wire_request_envelope q)"
proof -
  from assms(1) obtain body where b: "EncodeRequestBody q = Inr body"
    "length body \<le> kMaxFrameBytes - kFrameHeaderBytes" "SupportedProtocolVersion (rqe_version q)"
    "frame = frame_bytes (rqe_api_key q) (rqe_version q) (rqe_request_id q) body"
    by (auto simp: EncodeRequest_Inr_iff)
  with RequestBody_roundtrip [OF b(1) assms(2)] show ?thesis
    by (simp add: DecodeRequest_def ValidateFrame_frame_bytes read_frame drop_frame_bytes
        wire_request_envelope_def)
qed

lemma EncodeResponse_InrE:
  assumes "EncodeResponse s = Inr frame"
  obtains body success where "length body \<le> kMaxFrameBytes - kFrameHeaderBytes"
    "frame = frame_bytes (rse_api_key s) (rse_version s) (rse_request_id s) body"
    "length (er_message (rse_error s)) \<le> u32_max" "SupportedProtocolVersion (rse_version s)"
    "body = be_bytes (error_code_value (er_error_code (rse_error s))) @
       string_bytes (er_message (rse_error s)) @ success"
    "if er_error_code (rse_error s) = pkNone then EncodeResponseBody s = Inr success else success = []"
  using assms
  by (auto simp: EncodeResponse_def rbind_Inr_iff [of "AppendString _ _"]
      rbind_Inr_iff [of "if _ then _ else _"] rbind_Inr_iff [of "EncodeResponseBody s"]
      AppendFrameHeader_Inr_iff append_simps AppendBytes_def [of _ "_ @ _"] split: if_splits)

lemma DecodeResponse_EncodeResponse:
  assumes "EncodeResponse s = Inr frame" "response_typed (rse_body s)"
  shows "DecodeResponse frame = Inr (wire_response_envelope s)"
proof -
  let ?m = "er_message (rse_error s)" and ?c = "er_error_code (rse_error s)"
  from EncodeResponse_InrE [OF assms(1)] obtain body success where
    b: "length body \<le> kMaxFrameBytes - kFrameHeaderBytes"
    "frame = frame_bytes (rse_api_key s) (rse_version s) (rse_request_id s) body"
    "length ?m \<le> u32_max" "SupportedProtocolVersion (rse_version s)"
    "body = be_bytes (error_code_value ?c) @ string_bytes ?m @ success"
    "if ?c = pkNone then EncodeResponseBody s = Inr success else success = []" .
  have "DecodeResponseBody (rse_api_key s) (rse_version s) (reader_at pre success) =
      (Inr (wire_response (rse_version s) (rse_body s)), reader_at (pre @ success) [])"
    if "?c = pkNone" for pre
    using ResponseBody_roundtrip [OF _ assms(2)] b(6) that by simp
  with b show ?thesis
    by (auto simp: DecodeResponse_def ValidateFrame_frame_bytes read_frame drop_frame_bytes
        wire_response_envelope_def codec_simps)
qed

section \<open>Chunks do not matter\<close>

lemma PeekFrameLength_append: "4 \<le> length a \<Longrightarrow> PeekFrameLength (a @ b) = PeekFrameLength a"
  by (simp add: PeekFrameLength_def ReadBigEndian_def be_value_prefix)

lemma push_loop_acc:
  "push_loop n buffer (acc @ rs) =
     (let (r, rest) = push_loop n buffer rs in (map_sum id ((@) acc) r, rest))"
proof (induction n buffer rs rule: push_loop.induct)
  case (1 n buffer rs)
  let ?go = "\<lambda>k q. 4 \<le> length buffer \<and> PeekFrameLength buffer = Inr k \<and>
    \<not> unat k < kFrameHeaderBytes \<and> \<not> n < unat k \<and> \<not> length buffer < unat k \<and>
    DecodeRequest (take (unat k) buffer) = Inr q"
  show ?case
  proof (cases "\<exists>k q. ?go k q")
    case True
    then obtain k q where go: "?go k q" by blast
    then have "push_loop n buffer xs = push_loop n (drop (unat k) buffer) (xs @ [q])" for xs
      by (simp add: push_loop.simps [of n buffer])
    with "1.IH" [of k q] go show ?thesis by simp
  next
    case False
    then show ?thesis by (auto simp: push_loop.simps [of n buffer] split: sum.splits)
  qed
qed

text \<open>A successful pass over a buffer is a pass over its first part followed by a pass over
  what that left and the second part.\<close>

lemma push_loop_append:
  assumes "push_loop n (a @ b) acc = (Inr rs, rest)"
  shows "\<exists>rs1 rest1. push_loop n a acc = (Inr rs1, rest1) \<and>
    push_loop n (rest1 @ b) rs1 = (Inr rs, rest)"
  using assms
proof (induction n a acc rule: push_loop.induct)
  case (1 n a acc)
  show ?case
  proof (cases "4 \<le> length a")
    case False
    then show ?thesis using "1.prems" by (simp add: push_loop.simps [of n a])
  next
    case len: True
    then have peek: "PeekFrameLength (a @ b) = PeekFrameLength a" by (rule PeekFrameLength_append)
    show ?thesis
    proof (cases "PeekFrameLength a")
      case (Inl e)
      with "1.prems" len peek show ?thesis by (simp add: push_loop.simps [of n "a @ b"])
    next
      case (Inr k)
      note run = "1.prems" [unfolded push_loop.simps [of n "a @ b"]]
      have k: "\<not> unat k < kFrameHeaderBytes" "\<not> n < unat k"
        using run len peek Inr by (auto split: if_splits)
      show ?thesis
      proof (cases "length a < unat k")
        case True
        with len Inr k "1.prems" show ?thesis by (simp add: push_loop.simps [of n a])
      next
        case False
        then obtain q where q: "DecodeRequest (take (unat k) a) = Inr q"
          and nxt: "push_loop n (drop (unat k) a @ b) (acc @ [q]) = (Inr rs, rest)"
          using run len peek Inr k by (auto split: sum.splits)
        from "1.IH" [OF len Inr k False q nxt] obtain rs1 rest1 where
          "push_loop n (drop (unat k) a) (acc @ [q]) = (Inr rs1, rest1)"
          "push_loop n (rest1 @ b) rs1 = (Inr rs, rest)" by blast
        with len Inr k False q show ?thesis by (simp add: push_loop.simps [of n a])
      qed
    qed
  qed
qed

text \<open>A decoder that is fed a list of chunks, one after the other, and stops at the first
  error.\<close>

fun push_all :: "byte list list \<Rightarrow> FrameDecoder \<Rightarrow> RequestEnvelope list Result \<times> FrameDecoder" where
  "push_all [] fd = (Inr [], fd)"
| "push_all (c # cs) fd =
     (case FrameDecoder_Push c fd of
        (Inl e, fd') \<Rightarrow> (Inl e, fd')
      | (Inr rs, fd') \<Rightarrow> (case push_all cs fd' of
            (Inl e, fd'') \<Rightarrow> (Inl e, fd'')
          | (Inr rs', fd'') \<Rightarrow> (Inr (rs @ rs'), fd'')))"

lemma push_all_concat:
  assumes "push_loop (fd_max_frame_bytes fd) (fd_buffer fd @ concat cs) [] = (Inr rs, rest)"
    and "cs \<noteq> []"
  shows "push_all cs fd = (Inr rs, fd\<lparr>fd_buffer := rest\<rparr>)"
  using assms
proof (induction cs arbitrary: fd rs)
  case (Cons c cs)
  let ?n = "fd_max_frame_bytes fd"
  from push_loop_append [of ?n "fd_buffer fd @ c" "concat cs" "[]" rs rest] Cons.prems(1)
  obtain rs1 rest1 where first: "push_loop ?n (fd_buffer fd @ c) [] = (Inr rs1, rest1)"
    and second: "push_loop ?n (rest1 @ concat cs) rs1 = (Inr rs, rest)" by auto
  from second push_loop_acc [of ?n "rest1 @ concat cs" rs1 "[]"] obtain rs2 where
    rs2: "push_loop ?n (rest1 @ concat cs) [] = (Inr rs2, rest)" "rs = rs1 @ rs2"
    by (auto split: prod.splits) (metis map_sum.simps obj_sumE sum.distinct(1) sum.inject(2))
  show ?case
  proof (cases "cs = []")
    case True
    with Cons.prems(1) show ?thesis by (simp add: FrameDecoder_Push_def)
  next
    case False
    with Cons.IH [of "fd\<lparr>fd_buffer := rest1\<rparr>" rs2] rs2 first show ?thesis
      by (simp add: FrameDecoder_Push_def)
  qed
qed simp

lemma push_loop_frames:
  assumes "list_all2 (\<lambda>q f. EncodeRequest q = Inr f \<and> request_typed (rqe_body q)) qs fs"
    and "kMaxFrameBytes \<le> n"
  shows "push_loop n (concat fs) acc = (Inr (acc @ map wire_request_envelope qs), [])"
  using assms(1)
proof (induction qs fs arbitrary: acc rule: list_all2_induct)
  case Nil
  then show ?case by (simp add: push_loop.simps)
next
  case (Cons q qs f fs)
  then have enc: "EncodeRequest q = Inr f" and typed: "request_typed (rqe_body q)" by simp_all
  from enc obtain body where body: "length body \<le> kMaxFrameBytes - kFrameHeaderBytes"
    and f: "f = frame_bytes (rqe_api_key q) (rqe_version q) (rqe_request_id q) body"
    by (auto simp: EncodeRequest_Inr_iff)
  let ?k = "word_of_nat (kFrameHeaderBytes + length body) :: u32"
  have k: "unat ?k = length f" by (simp add: f unat_frame_length [OF body] del: of_nat_add)
  note fl = EncodeRequest_frame_length [OF enc]
  have peek: "PeekFrameLength (f @ concat fs) = Inr ?k"
    using fl read_frame_bytes(1) [of "rqe_api_key q" "rqe_version q" "rqe_request_id q" body "concat fs"]
    by (simp add: PeekFrameLength_def f kFrameHeaderBytes_def)
  have len: "4 \<le> length (f @ concat fs)" "\<not> length f < kFrameHeaderBytes" "\<not> n < length f"
    using fl assms(2) by (auto simp: kFrameHeaderBytes_def)
  have "push_loop n (concat (f # fs)) acc = push_loop n (concat fs) (acc @ [wire_request_envelope q])"
    using len
    by (subst push_loop.simps)
      (simp add: peek k DecodeRequest_EncodeRequest [OF enc typed] del: of_nat_add)
  with Cons.IH show ?case by simp
qed

end
