(* ===== verification/RetryRecord.thy ===== *)
theory RetryRecord
  imports Codec Names LogRecord
begin

text \<open>
  The envelope in which retried and dead records are stored, the first part of
  \<^verbatim>\<open>src/broker/retry_scheduler.cpp\<close>: a record of an internal topic holds, behind a magic
  number, a fetch response of protocol version 2 with the one original record and its retry
  metadata.
\<close>

definition kEnvelopeMagic :: string where
  "kEnvelopeMagic = ''LMQR'' @ [CHR 0x01]"

definition kMaxRetryBatchBytes :: nat where
  "kMaxRetryBatchBytes = 2 * kMaxFrameBytes + 128"

definition retry_envelope :: "ProtocolRecord \<Rightarrow> ResponseEnvelope" where
  "retry_envelope record =
     \<lparr>rse_api_key = kFetch, rse_version = kRetryProtocolVersion, rse_request_id = 0,
      rse_error = \<lparr>er_error_code = pkNone, er_message = []\<rparr>,
      rse_body = RspFetch \<lparr>frs_base_offset = 0, frs_high_watermark = 1, frs_records = [record]\<rparr>\<rparr>"

definition EncodeRetryRecord :: "ProtocolRecord \<Rightarrow> Record Result" where
  "EncodeRetryRecord record =
     (if (case prc_retry record of None \<Rightarrow> True | Some retry \<Rightarrow> IsInternalTopic (rm_original_topic retry))
      then Inl (InvalidArgument ''retry record needs original topic metadata'')
      else
        rbind (EncodeResponse (retry_envelope record)) (\<lambda>bytes.
        Inr \<lparr>rec_timestamp = prc_timestamp record, rec_key = prc_key record,
             rec_value = kEnvelopeMagic @ bytes, rec_crc32 = 0\<rparr>))"

text \<open>\<^verbatim>\<open>std::get<FetchResponse>\<close> cannot throw: the body of a decoded response has the type of
  its api key.\<close>

definition DecodeRetryRecord :: "Record \<Rightarrow> ProtocolRecord Result" where
  "DecodeRetryRecord record =
     (if \<not> starts_with (rec_value record) kEnvelopeMagic
      then Inl (Corruption ''invalid retry envelope magic or version'')
      else
        case DecodeResponse (drop (length kEnvelopeMagic) (rec_value record)) of
          Inl status \<Rightarrow> Inl (Corruption (st_message status))
        | Inr response \<Rightarrow>
            if rse_api_key response \<noteq> kFetch \<or> rse_version response \<noteq> kRetryProtocolVersion \<or>
               er_error_code (rse_error response) \<noteq> pkNone
            then Inl (Corruption ''invalid retry envelope type'')
            else
              (case rse_body response of
                 RspFetch fetch \<Rightarrow>
                   (case frs_records fetch of
                      [front] \<Rightarrow>
                        if frs_base_offset fetch \<noteq> 0 \<or> frs_high_watermark fetch \<noteq> 1 \<or>
                           (case prc_retry front of None \<Rightarrow> True
                            | Some retry \<Rightarrow> IsInternalTopic (rm_original_topic retry)) \<or>
                           prc_key front \<noteq> rec_key record \<or>
                           prc_timestamp front \<noteq> rec_timestamp record
                        then Inl (Corruption ''invalid retry envelope contents'')
                        else Inr front
                    | _ \<Rightarrow> Inl (Corruption ''invalid retry envelope contents''))
               | _ \<Rightarrow> Inl (Corruption ''invalid retry envelope contents'')))"

lemma starts_with_append [simp]: "starts_with (p @ s) p"
  by (simp add: starts_with_def)

lemma retry_record_roundtrip:
  assumes "EncodeRetryRecord r = Inr stored" "record_typed r"
  shows "DecodeRetryRecord (stored\<lparr>rec_crc32 := crc\<rparr>) = Inr r"
proof -
  from assms(1) obtain retry bytes where r: "prc_retry r = Some retry" "\<not> IsInternalTopic (rm_original_topic retry)"
    and enc: "EncodeResponse (retry_envelope r) = Inr bytes"
    and stored: "stored = \<lparr>rec_timestamp = prc_timestamp r, rec_key = prc_key r,
      rec_value = kEnvelopeMagic @ bytes, rec_crc32 = 0\<rparr>"
    by (auto simp: EncodeRetryRecord_def rbind_Inr_iff split: if_splits option.splits)
  have "response_typed (rse_body (retry_envelope r))"
    using assms(2) by (simp add: retry_envelope_def response_typed_def is_i64_def)
  from DecodeResponse_EncodeResponse [OF enc this]
  have "DecodeResponse bytes = Inr (retry_envelope r)"
    by (simp add: wire_response_envelope_def wire_response_def wire_record_def retry_envelope_def
        kRetryProtocolVersion_def)
  with r show ?thesis by (simp add: DecodeRetryRecord_def stored retry_envelope_def)
qed

end
