(* ===== verification/RetryScheduler.thy ===== *)
theory RetryScheduler
  imports TopicManager RetryRecord "HOL-Library.Product_Lexorder"
begin

text \<open>
  The code of the class \<^verbatim>\<open>RetryScheduler\<close> in \<^verbatim>\<open>include/logmq/broker/retry_scheduler.h\<close> and
  \<^verbatim>\<open>src/broker/retry_scheduler.cpp\<close>: records of a retry topic become visible to consumers
  when their time has come, and only as a contiguous prefix of each partition.

  The priority queue is the list of its tasks in increasing order of time, which is the
  order in which they are popped; the order among equal times is not specified by the
  library and does not matter (\<^verbatim>\<open>RetryVisibility\<close>). \<^verbatim>\<open>std::set\<close> of offsets is an increasing
  list. The readings of the wall clock in milliseconds are arguments.
\<close>

record RetryTask =
  rt_topic :: TopicName
  rt_partition :: PartitionId
  rt_offset :: Offset
  rt_time :: u64

record Visibility =
  vs_end :: Offset
  vs_ready :: "Offset list"

record RetryScheduler =
  rs_tasks :: "RetryTask list"
  rs_visibility :: "(TopicName \<times> PartitionId, Visibility) std_map"
  rs_running :: bool
  rs_stopped :: bool

record RetryOptions =
  ro_delay :: int
  ro_max_retries :: u32

definition mk_RetryScheduler :: RetryScheduler where
  "mk_RetryScheduler = \<lparr>rs_tasks = [], rs_visibility = [], rs_running = False, rs_stopped = False\<rparr>"

definition mk_Visibility :: Visibility where
  "mk_Visibility = \<lparr>vs_end = 0, vs_ready = []\<rparr>"

text \<open>\<^verbatim>\<open>RetryNowMs\<close> of a reading of the system clock.\<close>

definition RetryNowMs :: "int \<Rightarrow> u64" where
  "RetryNowMs time = word_of_int (max 0 time)"

definition push_task :: "RetryTask \<Rightarrow> RetryTask list \<Rightarrow> RetryTask list" where
  "push_task task tasks = insort_key rt_time task tasks"

section \<open>Visibility\<close>

text \<open>\<^verbatim>\<open>while (state.ready.erase(state.end) != 0) ++state.end\<close>.\<close>

function advance :: "Offset \<Rightarrow> Offset list \<Rightarrow> Offset \<times> Offset list" where
  "advance e ready =
     (if e \<in> set ready then advance (e + 1) (remove1 e ready) else (e, ready))"
  by pat_completeness auto
termination
  by (relation "measure (\<lambda>(_, ready). length ready)") (auto simp: length_remove1 dest: length_pos_if_in_set)

declare advance.simps [simp del]

definition show_task :: "RetryTask \<Rightarrow> Visibility \<Rightarrow> Visibility" where
  "show_task task state =
     (let ready = (if rt_offset task \<ge> vs_end state then insort_insert (rt_offset task) (vs_ready state)
                   else vs_ready state);
          (e, ready) = advance (vs_end state) ready
      in \<lparr>vs_end = e, vs_ready = ready\<rparr>)"

definition visibility_of :: "(TopicName \<times> PartitionId, Visibility) std_map \<Rightarrow> TopicName \<times> PartitionId \<Rightarrow> Visibility" where
  "visibility_of vis key = (case stdmap_find key vis of None \<Rightarrow> mk_Visibility | Some v \<Rightarrow> v)"

fun make_due ::
  "u64 \<Rightarrow> RetryTask list \<Rightarrow> (TopicName \<times> PartitionId, Visibility) std_map \<Rightarrow>
   RetryTask list \<times> (TopicName \<times> PartitionId, Visibility) std_map" where
  "make_due now [] vis = ([], vis)"
| "make_due now (task # tasks) vis =
     (if rt_time task \<le> now
      then
        let key = (rt_topic task, rt_partition task)
        in make_due now tasks (stdmap_insert key (show_task task (visibility_of vis key)) vis)
      else (task # tasks, vis))"

definition MakeDueVisibleLocked :: "u64 \<Rightarrow> RetryScheduler \<Rightarrow> RetryScheduler" where
  "MakeDueVisibleLocked now rs =
     (let (tasks, vis) = make_due now (rs_tasks rs) (rs_visibility rs)
      in rs\<lparr>rs_tasks := tasks, rs_visibility := vis\<rparr>)"

definition Schedule ::
  "u64 \<Rightarrow> TopicName \<Rightarrow> PartitionId \<Rightarrow> Offset \<Rightarrow> u64 \<Rightarrow> RetryScheduler \<Rightarrow> RetryScheduler" where
  "Schedule now topic partition_id offset time rs =
     MakeDueVisibleLocked now
       (rs\<lparr>rs_tasks := push_task \<lparr>rt_topic = topic, rt_partition = partition_id, rt_offset = offset,
                                  rt_time = time\<rparr> (rs_tasks rs)\<rparr>)"

definition VisibleEnd :: "TopicName \<Rightarrow> PartitionId \<Rightarrow> RetryScheduler \<Rightarrow> Offset" where
  "VisibleEnd topic partition_id rs =
     (case stdmap_find (topic, partition_id) (rs_visibility rs) of None \<Rightarrow> 0 | Some v \<Rightarrow> vs_end v)"

text \<open>One turn of the loop of \<^verbatim>\<open>Run\<close>, and how long the thread then waits: \<open>None\<close> is until it is
  notified.\<close>

definition RetryScheduler_Run :: "u64 \<Rightarrow> RetryScheduler \<Rightarrow> RetryScheduler" where
  "RetryScheduler_Run now rs =
     (if rs_running rs \<and> \<not> rs_stopped rs then MakeDueVisibleLocked now rs else rs)"

definition run_delay :: "u64 \<Rightarrow> RetryScheduler \<Rightarrow> u64 option" where
  "run_delay now rs =
     (case rs_tasks rs of
        [] \<Rightarrow> None
      | task # _ \<Rightarrow> Some (min (if rt_time task > now then rt_time task - now else 0) 1000))"

definition RetryScheduler_Close :: "RetryScheduler \<Rightarrow> RetryScheduler" where
  "RetryScheduler_Close rs = rs\<lparr>rs_stopped := True, rs_running := False\<rparr>"

section \<open>Recovery\<close>

text \<open>One record of an internal partition; \<open>None\<close> for a dead letter, which is not scheduled.\<close>

definition recover_record ::
  "TopicName \<Rightarrow> TopicName \<Rightarrow> PartitionId \<Rightarrow> Offset \<Rightarrow> RecordBatch \<Rightarrow> RetryTask option Result" where
  "recover_record topic original partition_id offset batch =
     (if rb_base_offset batch \<noteq> offset \<or> length (rb_records batch) \<noteq> 1
      then Inl (Corruption ''retry log must contain single-record batches'')
      else
        rbind (DecodeRetryRecord (hd (rb_records batch))) (\<lambda>record.
          let retry = the (prc_retry record)
          in if rm_original_topic retry \<noteq> original \<or> rm_original_partition retry \<noteq> partition_id \<or>
                IsRetryTopic topic \<and> rm_next_visible_time retry = 0 \<or>
                IsDlqTopic topic \<and> rm_next_visible_time retry \<noteq> 0
             then Inl (Corruption ''retry metadata does not match internal topic'')
             else if IsRetryTopic topic
             then Inr (Some \<lparr>rt_topic = topic, rt_partition = partition_id, rt_offset = offset,
                             rt_time = rm_next_visible_time retry\<rparr>)
             else Inr None))"

text \<open>The loops over the offsets of a partition, the partitions of a topic and the topics, on the
  tasks so far.\<close>

type_synonym recovery = "RetryTask list \<times> TopicManager \<times> Disk"

definition recover_offset ::
  "TopicName \<Rightarrow> TopicName \<Rightarrow> PartitionId \<Rightarrow> Offset \<Rightarrow> recovery \<Rightarrow> unit Result \<times> recovery" where
  "recover_offset topic original partition_id offset st =
     (let (tasks, tm, d) = st;
          (batch, (tm, d)) =
            on_partition topic (nat partition_id) (CommitLog_Read offset kMaxRetryBatchBytes) (tm, d)
      in case rbind batch (recover_record topic original partition_id offset) of
           Inl e \<Rightarrow> (Inl e, (tasks, tm, d))
         | Inr task \<Rightarrow>
             (Inr (), (case task of None \<Rightarrow> tasks | Some t \<Rightarrow> push_task t tasks, tm, d)))"

definition recover_partition :: "TopicName \<Rightarrow> TopicName \<Rightarrow> nat \<Rightarrow> recovery \<Rightarrow> unit Result \<times> recovery" where
  "recover_partition topic original i st =
     (case GetPartition topic (to_partition_id i) (fst (snd st)) of
        Inl e \<Rightarrow> (Inl e, st)
      | Inr part \<Rightarrow>
          for_status (recover_offset topic original (to_partition_id i))
            (map int [0..<nat (cl_next_offset (pt_log part))]) st)"

definition recover_topic :: "TopicMetadata \<Rightarrow> recovery \<Rightarrow> unit Result \<times> recovery" where
  "recover_topic topic st =
     (if \<not> IsInternalTopic (tm_topic topic) then (Inr (), st)
      else
        let original = drop (length (if IsRetryTopic (tm_topic topic) then kRetryTopicPrefix
                                     else kDlqTopicPrefix)) (tm_topic topic);
            source = GetMetadata original (fst (snd st))
        in if (case source of Inl _ \<Rightarrow> True
               | Inr ms \<Rightarrow> tm_partition_count (hd ms) \<noteq> tm_partition_count topic)
           then (Inl (Corruption ''internal topic has invalid original topic''), st)
           else for_status (recover_partition (tm_topic topic) original)
                  [0..<unat (tm_partition_count topic)] st)"

definition RetryScheduler_Start ::
  "u64 \<Rightarrow> RetryScheduler \<times> TopicManager \<times> Disk \<Rightarrow>
   unit Result \<times> (RetryScheduler \<times> TopicManager \<times> Disk)" where
  "RetryScheduler_Start now st =
     (let (rs, tm, d) = st
      in if rs_running rs then (Inr (), st)
         else if rs_stopped rs then (Inl (InvalidArgument ''retry scheduler is closed''), st)
         else
           let rs = rs\<lparr>rs_tasks := [], rs_visibility := []\<rparr>
           in (case GetMetadata [] tm of
                 Inl e \<Rightarrow> (Inl e, (rs, tm, d))
               | Inr metadata \<Rightarrow>
                   (case for_status recover_topic metadata ([], tm, d) of
                      (Inl e, (tasks, tm, d)) \<Rightarrow> (Inl e, (rs\<lparr>rs_tasks := tasks\<rparr>, tm, d))
                    | (Inr _, (tasks, tm, d)) \<Rightarrow>
                        (Inr (), ((MakeDueVisibleLocked now (rs\<lparr>rs_tasks := tasks\<rparr>))\<lparr>rs_running := True\<rparr>,
                                  tm, d)))))"

end
