(* ===== verification/OffsetStore.thy ===== *)
theory OffsetStore
  imports CommitLog TextStream StdMap Names "HOL-Library.Product_Lexorder"
begin

text \<open>
  The code of \<^verbatim>\<open>include/logmq/broker/offset_store.h\<close> and
  \<^verbatim>\<open>src/broker/offset_store.cpp\<close>: the committed offsets of consumer groups, one small text
  file for each group, topic and partition, replaced atomically by a rename.

  The key of the table is the triple that \<^verbatim>\<open>ConsumerOffsetKey::operator==\<close> compares; the
  hash of the \<^verbatim>\<open>unordered_map\<close> has no visible effect. The directory iterators of \<^verbatim>\<open>Load\<close>
  list the directories under the root and the files in them in the order of the disk; they
  are taken not to fail, and \<^verbatim>\<open>Load\<close> reads each file at once.
\<close>

type_synonym ConsumerOffsetKey = "string \<times> TopicName \<times> PartitionId"

record OffsetStore =
  os_data_dir :: path
  os_offsets :: "(ConsumerOffsetKey, Offset) std_map"

definition mk_OffsetStore :: "path \<Rightarrow> OffsetStore" where
  "mk_OffsetStore data_dir = \<lparr>os_data_dir = data_dir, os_offsets = []\<rparr>"

definition kOffsetMetadataMagic :: string where
  "kOffsetMetadataMagic = ''logmq_consumer_offset_v1''"

section \<open>Paths\<close>

definition RootPath :: "OffsetStore \<Rightarrow> path" where
  "RootPath os = os_data_dir os @ [''__consumer_offsets'']"

definition GroupPath :: "OffsetStore \<Rightarrow> string \<Rightarrow> path" where
  "GroupPath os group_id = RootPath os @ [group_id]"

definition OffsetPath :: "OffsetStore \<Rightarrow> string \<Rightarrow> TopicName \<Rightarrow> PartitionId \<Rightarrow> path" where
  "OffsetPath os group_id topic partition_id =
     GroupPath os group_id @ [topic @ ''-'' @ to_string partition_id @ ''.offset'']"

definition OffsetTempPath :: "OffsetStore \<Rightarrow> string \<Rightarrow> TopicName \<Rightarrow> PartitionId \<Rightarrow> path" where
  "OffsetTempPath os group_id topic partition_id =
     GroupPath os group_id @ [topic @ ''-'' @ to_string partition_id @ ''.offset.tmp'']"

text \<open>The part before the last dash, and the part after it.\<close>

definition ParseOffsetFilename :: "string \<Rightarrow> (TopicName \<times> PartitionId) option" where
  "ParseOffsetFilename name =
     (if path_extension name \<noteq> ''.offset'' then None
      else
        let stem = path_stem name;
            partition = rev (takeWhile (\<lambda>c. c \<noteq> CHR ''-'') (rev stem));
            delimiter = length stem - length partition - 1
        in if length partition = length stem \<or> delimiter = 0 \<or> partition = [] then None
           else map_option (\<lambda>parsed. (take delimiter stem, parsed)) (parse_digits i32_max partition 0))"

section \<open>One offset file\<close>

definition offset_text :: "ConsumerOffsetKey \<Rightarrow> Offset \<Rightarrow> string" where
  "offset_text key offset =
     (let (group_id, topic, partition_id) = key
      in kOffsetMetadataMagic @ [CHR 0x0A] @
         group_id @ '' '' @ topic @ '' '' @ to_string partition_id @ '' '' @ to_string offset @ [CHR 0x0A])"

definition PersistLocked :: "OffsetStore \<Rightarrow> ConsumerOffsetKey \<Rightarrow> Offset \<Rightarrow> Disk \<Rightarrow> unit Result \<times> Disk" where
  "PersistLocked os key offset d =
     (let (group_id, topic, partition_id) = key
      in case create_directories (GroupPath os group_id) d of
           (Inl e, d1) \<Rightarrow> (Inl (FilesystemError ''create consumer offset group directory'' e), d1)
         | (Inr _, d1) \<Rightarrow>
             let temp_path = OffsetTempPath os group_id topic partition_id
             in (case ofstream temp_path (offset_text key offset) d1 of
                   (NotOpen, d2) \<Rightarrow>
                     (Inl (IoError (''open consumer offset temp '' @ path_text temp_path)), d2)
                 | (NotGood, d2) \<Rightarrow>
                     (Inl (IoError (''write consumer offset temp '' @ path_text temp_path)), d2)
                 | (Written, d2) \<Rightarrow>
                     (case sys_rename temp_path (OffsetPath os group_id topic partition_id) d2 of
                        (Inl e, d3) \<Rightarrow> (Inl (FilesystemError ''rename consumer offset'' e), d3)
                      | (Inr _, d3) \<Rightarrow> (Inr (), d3))))"

text \<open>The body of a file after its first line: two words, two numbers and nothing else.\<close>

definition parse_offset_body :: "istream \<Rightarrow> (string \<times> TopicName \<times> int \<times> int) option" where
  "parse_offset_body input =
     (case read_word input of
        None \<Rightarrow> None
      | Some (file_group, s1) \<Rightarrow>
          (case read_word s1 of
             None \<Rightarrow> None
           | Some (file_topic, s2) \<Rightarrow>
               (case read_i64 s2 of
                  None \<Rightarrow> None
                | Some (file_partition, s3) \<Rightarrow>
                    (case read_i64 s3 of
                       None \<Rightarrow> None
                     | Some (file_offset, s4) \<Rightarrow>
                         if read_word s4 \<noteq> None then None
                         else Some (file_group, file_topic, file_partition, file_offset)))))"

definition load_offset_text ::
  "string \<Rightarrow> TopicName \<Rightarrow> PartitionId \<Rightarrow> istream \<Rightarrow> (ConsumerOffsetKey \<times> Offset) Result" where
  "load_offset_text group_id topic partition_id input =
     (case getline input of
        None \<Rightarrow> Inl (Corruption ''consumer offset file is empty'')
      | Some (magic, input) \<Rightarrow>
          if magic \<noteq> kOffsetMetadataMagic
          then Inl (Corruption ''consumer offset file has unsupported format'')
          else
            (case parse_offset_body input of
               None \<Rightarrow> Inl (Corruption ''invalid consumer offset file body'')
             | Some (file_group, file_topic, file_partition, file_offset) \<Rightarrow>
                 if file_group \<noteq> group_id \<or> file_topic \<noteq> topic \<or> file_partition \<noteq> partition_id
                 then Inl (Corruption ''consumer offset file does not match path'')
                 else if \<not> Status_ok (ValidateSafeName file_topic ''topic'')
                 then Inl (ValidateSafeName file_topic ''topic'')
                 else if file_offset < 0
                 then Inl (Corruption ''consumer offset must not be negative'')
                 else Inr ((file_group, file_topic, file_partition), file_offset)))"

section \<open>Load\<close>

fun load_group ::
  "string \<Rightarrow> path list \<Rightarrow> (ConsumerOffsetKey, Offset) std_map \<Rightarrow> Disk \<Rightarrow>
   (ConsumerOffsetKey, Offset) std_map Result \<times> Disk" where
  "load_group group_id [] loaded d = (Inr loaded, d)"
| "load_group group_id (p # ps) loaded d =
     (case ParseOffsetFilename (last p) of
        None \<Rightarrow> load_group group_id ps loaded d
      | Some (topic, partition_id) \<Rightarrow>
          if \<not> Status_ok (ValidateSafeName topic ''topic'')
          then (Inl (ValidateSafeName topic ''topic''), d)
          else
            (case ifstream p d of
               (None, d1) \<Rightarrow> (Inl (IoError (''open consumer offset '' @ path_text p)), d1)
             | (Some input, d1) \<Rightarrow>
                 (case load_offset_text group_id topic partition_id input of
                    Inl e \<Rightarrow> (Inl e, d1)
                  | Inr (key, offset) \<Rightarrow>
                      load_group group_id ps (stdmap_emplace key offset loaded) d1)))"

fun load_groups ::
  "path list \<Rightarrow> (ConsumerOffsetKey, Offset) std_map \<Rightarrow> Disk \<Rightarrow>
   (ConsumerOffsetKey, Offset) std_map Result \<times> Disk" where
  "load_groups [] loaded d = (Inr loaded, d)"
| "load_groups (dir # dirs) loaded d =
     (let group_id = last dir; status = ValidateSafeName group_id ''group_id''
      in if \<not> Status_ok status then (Inl status, d)
         else
           case load_group group_id (filter (\<lambda>p. p \<noteq> [] \<and> butlast p = dir) (map fst (d_files d))) loaded d of
             (Inl e, d1) \<Rightarrow> (Inl e, d1)
           | (Inr loaded, d1) \<Rightarrow> load_groups dirs loaded d1)"

definition OffsetStore_Load :: "OffsetStore \<times> Disk \<Rightarrow> unit Result \<times> (OffsetStore \<times> Disk)" where
  "OffsetStore_Load st =
     (let (os, d) = st
      in case create_directories (RootPath os) d of
           (Inl e, d1) \<Rightarrow> (Inl (FilesystemError ''create consumer offset directory'' e), (os, d1))
         | (Inr _, d1) \<Rightarrow>
             (case load_groups (filter (\<lambda>p. p \<noteq> [] \<and> butlast p = RootPath os) (d_dirs d1)) [] d1 of
                (Inl e, d2) \<Rightarrow> (Inl e, (os, d2))
              | (Inr loaded, d2) \<Rightarrow> (Inr (), (os\<lparr>os_offsets := loaded\<rparr>, d2))))"

section \<open>Commit and fetch\<close>

definition Commit ::
  "string \<Rightarrow> TopicName \<Rightarrow> PartitionId \<Rightarrow> Offset \<Rightarrow> OffsetStore \<times> Disk \<Rightarrow>
   unit Result \<times> (OffsetStore \<times> Disk)" where
  "Commit group_id topic partition_id offset st =
     (let (os, d) = st
      in if \<not> Status_ok (ValidateSafeName group_id ''group_id'')
         then (Inl (ValidateSafeName group_id ''group_id''), st)
         else if \<not> Status_ok (ValidateSafeName topic ''topic'')
         then (Inl (ValidateSafeName topic ''topic''), st)
         else if partition_id < 0
         then (Inl (InvalidArgument ''partition_id must not be negative''), st)
         else if offset < 0
         then (Inl (InvalidArgument ''offset must not be negative''), st)
         else
           let key = (group_id, topic, partition_id)
           in (case PersistLocked os key offset d of
                 (Inl e, d1) \<Rightarrow> (Inl e, (os, d1))
               | (Inr _, d1) \<Rightarrow>
                   (Inr (), (os\<lparr>os_offsets := stdmap_insert key offset (os_offsets os)\<rparr>, d1))))"

definition Fetch :: "string \<Rightarrow> TopicName \<Rightarrow> PartitionId \<Rightarrow> OffsetStore \<Rightarrow> Offset option Result" where
  "Fetch group_id topic partition_id os =
     (if \<not> Status_ok (ValidateSafeName group_id ''group_id'')
      then Inl (ValidateSafeName group_id ''group_id'')
      else if \<not> Status_ok (ValidateSafeName topic ''topic'')
      then Inl (ValidateSafeName topic ''topic'')
      else if partition_id < 0
      then Inl (InvalidArgument ''partition_id must not be negative'')
      else Inr (stdmap_find (group_id, topic, partition_id) (os_offsets os)))"

end
