(* ===== verification/BrokerService.thy ===== *)
theory BrokerService
  imports RetryScheduler OffsetStore GroupCoordinator
begin

text \<open>
  The code of \<^verbatim>\<open>include/logmq/broker/broker_service.h\<close> and
  \<^verbatim>\<open>src/broker/broker_service.cpp\<close>: one handler for each request, the dispatch on the api
  key, and the start and stop of the broker's parts.

  A handler is a function of the broker and the disk; handlers that several worker threads
  run at the same time are taken one after the other. \<^verbatim>\<open>Clock\<close> is what a handler reads from
  the clocks: the steady clock in nanoseconds, and the system clock in milliseconds when
  \<^verbatim>\<open>HandleNack\<close> computes the time of a retry and again when it schedules it.
\<close>

record BrokerServiceOptions =
  bso_storage :: StorageConfig
  bso_consumer :: ConsumerConfig
  bso_retry :: RetryOptions

datatype flusher_state = FlusherNone | FlusherWaiting | FlusherFlushing | FlusherDone

record BrokerService =
  bs_options :: BrokerServiceOptions
  bs_topics :: TopicManager
  bs_retries :: RetryScheduler
  bs_offsets :: OffsetStore
  bs_groups :: GroupCoordinator
  bs_flusher :: flusher_state
  bs_stop_flusher :: bool
  bs_started :: bool
  bs_closed :: bool

record Clock =
  ck_steady :: int
  ck_system :: int
  ck_system_later :: int

type_synonym broker = "BrokerService \<times> Disk"

definition mk_BrokerService :: "BrokerServiceOptions \<Rightarrow> BrokerService" where
  "mk_BrokerService options =
     \<lparr>bs_options = options,
      bs_topics = mk_TopicManager (TopicManagerOptionsFromConfig (bso_storage options)),
      bs_retries = mk_RetryScheduler,
      bs_offsets = mk_OffsetStore (sc_data_dir (bso_storage options)),
      bs_groups = mk_GroupCoordinator (cc_session_timeout (bso_consumer options)),
      bs_flusher = FlusherNone, bs_stop_flusher = False, bs_started = False, bs_closed = False\<rparr>"

section \<open>Records and errors\<close>

definition ToStorageRecord :: "ProtocolRecord \<Rightarrow> Record" where
  "ToStorageRecord record =
     \<lparr>rec_timestamp = prc_timestamp record, rec_key = prc_key record, rec_value = prc_value record,
      rec_crc32 = 0\<rparr>"

definition ToProtocolRecord :: "Record \<Rightarrow> ProtocolRecord" where
  "ToProtocolRecord record =
     \<lparr>prc_timestamp = rec_timestamp record, prc_key = rec_key record, prc_value = rec_value record,
      prc_retry = None\<rparr>"

definition InvalidOrInternal :: "Status \<Rightarrow> ProtocolErrorCode" where
  "InvalidOrInternal status = (if st_code status = kInvalidArgument then pkInvalidRequest else pkInternal)"

definition GroupErrorCode :: "Status \<Rightarrow> ProtocolErrorCode" where
  "GroupErrorCode status =
     (if st_code status = kNotFound \<and> st_message status = ''unknown member'' then pkUnknownMember
      else if st_code status = kInvalidArgument \<and> st_message status = ''illegal generation''
      then pkIllegalGeneration
      else InvalidOrInternal status)"

definition reply_version :: "RequestEnvelope \<Rightarrow> u16" where
  "reply_version envelope =
     (if SupportedProtocolVersion (rqe_version envelope) then rqe_version envelope else kProtocolVersion)"

text \<open>The body that an error leaves default constructed is the first alternative of the variant.\<close>

definition MakeError :: "RequestEnvelope \<Rightarrow> ProtocolErrorCode \<Rightarrow> string \<Rightarrow> ResponseEnvelope" where
  "MakeError envelope code message =
     \<lparr>rse_api_key = rqe_api_key envelope, rse_version = reply_version envelope,
      rse_request_id = rqe_request_id envelope,
      rse_error = \<lparr>er_error_code = code, er_message = message\<rparr>,
      rse_body = EmptyResponseBodyFor kProduce\<rparr>"

definition MakeSuccess :: "RequestEnvelope \<Rightarrow> ResponseBody \<Rightarrow> ResponseEnvelope" where
  "MakeSuccess envelope body =
     \<lparr>rse_api_key = rqe_api_key envelope, rse_version = reply_version envelope,
      rse_request_id = rqe_request_id envelope,
      rse_error = \<lparr>er_error_code = pkNone, er_message = []\<rparr>, rse_body = body\<rparr>"

section \<open>Topics, produce and fetch\<close>

definition with_topics :: "(TopicManager \<times> Disk \<Rightarrow> 'a \<times> (TopicManager \<times> Disk)) \<Rightarrow> broker \<Rightarrow> 'a \<times> broker" where
  "with_topics f st =
     (let (bs, d) = st; (r, (tm, d')) = f (bs_topics bs, d) in (r, (bs\<lparr>bs_topics := tm\<rparr>, d')))"

text \<open>\<^verbatim>\<open>log.Flush()\<close> under the synchronous policy.\<close>

definition sync_flush :: "TopicName \<Rightarrow> nat \<Rightarrow> broker \<Rightarrow> unit Result \<times> broker" where
  "sync_flush topic i st =
     (if sc_flush_policy (bso_storage (bs_options (fst st))) = kSync
      then with_topics (on_partition topic i CommitLog_Flush) st
      else (Inr (), st))"

definition HandleProduce :: "RequestEnvelope \<Rightarrow> ProduceRequest \<Rightarrow> broker \<Rightarrow> ResponseEnvelope \<times> broker" where
  "HandleProduce envelope request st =
     (if IsInternalTopic (prq_topic request)
      then (MakeError envelope pkInvalidRequest ''internal topics are reserved for Nack'', st)
      else if prq_records request = []
      then (MakeError envelope pkInvalidRequest ''produce request must contain at least one record'', st)
      else
        case SelectPartition (prq_topic request) (prq_partition_id request)
               (prc_key (hd (prq_records request))) (bs_topics (fst st)) of
          (Inl e, tm) \<Rightarrow>
            (MakeError envelope pkTopicNotFound (st_message e), ((fst st)\<lparr>bs_topics := tm\<rparr>, snd st))
        | (Inr selection, tm) \<Rightarrow>
            let i = nat (ps_id selection);
                records = map ToStorageRecord (prq_records request)
            in case with_topics (on_partition (prq_topic request) i (CommitLog_Append records))
                      ((fst st)\<lparr>bs_topics := tm\<rparr>, snd st) of
                 (Inl e, st) \<Rightarrow> (MakeError envelope (InvalidOrInternal e) (st_message e), st)
               | (Inr appended, st) \<Rightarrow>
                   (case sync_flush (prq_topic request) i st of
                      (Inl e, st) \<Rightarrow> (MakeError envelope pkInternal (st_message e), st)
                    | (Inr _, st) \<Rightarrow>
                        (MakeSuccess envelope (RspProduce
                           \<lparr>prs_partition_id = ps_id selection,
                            prs_base_offset = ar_base_offset appended,
                            prs_record_count = word_of_nat (length (prq_records request))\<rparr>), st)))"

text \<open>The loop over the records of a batch in \<^verbatim>\<open>HandleFetch\<close>; an error ends the request.\<close>

fun fetch_records ::
  "bool \<Rightarrow> u16 \<Rightarrow> nat \<Rightarrow> Record list \<Rightarrow> (ProtocolErrorCode \<times> string) + ProtocolRecord list" where
  "fetch_records internal version max_bytes [] = Inr []"
| "fetch_records internal version max_bytes (record # records) =
     (case (if internal
            then
              (case DecodeRetryRecord record of
                 Inl e \<Rightarrow> Inl (pkInternal, st_message e)
               | Inr v \<Rightarrow>
                   if kRecordBatchHeaderBytes + EncodedRecordSize (ToStorageRecord v) > max_bytes
                   then Inl (pkInvalidRequest, ''record batch is larger than max_bytes'')
                   else Inr (if version = kProtocolVersion then v\<lparr>prc_retry := None\<rparr> else v))
            else Inr (ToProtocolRecord record)) of
        Inl e \<Rightarrow> Inl e
      | Inr v \<Rightarrow>
          (case fetch_records internal version max_bytes records of
             Inl e \<Rightarrow> Inl e
           | Inr vs \<Rightarrow> Inr (v # vs)))"

definition HandleFetch :: "RequestEnvelope \<Rightarrow> FetchRequest \<Rightarrow> broker \<Rightarrow> ResponseEnvelope \<times> broker" where
  "HandleFetch envelope request st =
     (if frq_offset request < 0
      then (MakeError envelope pkOffsetOutOfRange ''fetch offset must not be negative'', st)
      else if frq_max_bytes request = 0
      then (MakeError envelope pkInvalidRequest ''fetch max_bytes must be positive'', st)
      else
        case GetPartition (frq_topic request) (frq_partition_id request) (bs_topics (fst st)) of
          Inl e \<Rightarrow> (MakeError envelope pkTopicNotFound (st_message e), st)
        | Inr part \<Rightarrow>
            let log_end = cl_next_offset (pt_log part);
                high_watermark = (if IsRetryTopic (frq_topic request)
                  then VisibleEnd (frq_topic request) (frq_partition_id request) (bs_retries (fst st))
                  else log_end);
                internal = IsInternalTopic (frq_topic request)
            in if frq_offset request > log_end
               then (MakeError envelope pkOffsetOutOfRange ''fetch offset is beyond log end'', st)
               else if frq_offset request \<ge> high_watermark
               then (MakeSuccess envelope (RspFetch
                       \<lparr>frs_base_offset = frq_offset request, frs_high_watermark = high_watermark,
                        frs_records = []\<rparr>), st)
               else
                 (case with_topics (on_partition (frq_topic request) (nat (frq_partition_id request))
                         (CommitLog_Read (frq_offset request)
                            (if internal then kMaxRetryBatchBytes else unat (frq_max_bytes request)))) st of
                    (Inl e, st) \<Rightarrow>
                      (MakeError envelope
                         (if st_code e = kNotFound then pkOffsetOutOfRange else InvalidOrInternal e)
                         (st_message e), st)
                  | (Inr batch, st) \<Rightarrow>
                      (case fetch_records internal (rqe_version envelope) (unat (frq_max_bytes request))
                              (rb_records batch) of
                         Inl (code, message) \<Rightarrow> (MakeError envelope code message, st)
                       | Inr records \<Rightarrow>
                           (MakeSuccess envelope (RspFetch
                              \<lparr>frs_base_offset = rb_base_offset batch,
                               frs_high_watermark = high_watermark, frs_records = records\<rparr>), st))))"

definition HandleMetadata :: "RequestEnvelope \<Rightarrow> MetadataRequest \<Rightarrow> broker \<Rightarrow> ResponseEnvelope \<times> broker" where
  "HandleMetadata envelope request st =
     (case GetMetadata (mrq_topic request) (bs_topics (fst st)) of
        Inl e \<Rightarrow> (MakeError envelope pkTopicNotFound (st_message e), st)
      | Inr metadata \<Rightarrow> (MakeSuccess envelope (RspMetadata \<lparr>mrs_topics = metadata\<rparr>), st))"

definition HandleCreateTopic ::
  "RequestEnvelope \<Rightarrow> CreateTopicRequest \<Rightarrow> broker \<Rightarrow> ResponseEnvelope \<times> broker" where
  "HandleCreateTopic envelope request st =
     (if IsInternalTopic (ctq_topic request)
      then (MakeError envelope pkInvalidRequest ''internal topics are reserved for Nack'', st)
      else
        case with_topics (CreateTopic (ctq_topic request) (ctq_partition_count request)) st of
          (Inl e, st) \<Rightarrow> (MakeError envelope (InvalidOrInternal e) (st_message e), st)
        | (Inr _, st) \<Rightarrow>
            (MakeSuccess envelope (RspCreateTopic
               \<lparr>cts_topic = ctq_topic request, cts_partition_count = ctq_partition_count request\<rparr>), st))"

section \<open>Offsets and groups\<close>

definition HandleCommitOffset ::
  "RequestEnvelope \<Rightarrow> CommitOffsetRequest \<Rightarrow> broker \<Rightarrow> ResponseEnvelope \<times> broker" where
  "HandleCommitOffset envelope request st =
     (if coq_offset request < 0
      then (MakeError envelope pkInvalidRequest ''commit offset must not be negative'', st)
      else
        case GetPartition (coq_topic request) (coq_partition_id request) (bs_topics (fst st)) of
          Inl e \<Rightarrow> (MakeError envelope pkTopicNotFound (st_message e), st)
        | Inr part \<Rightarrow>
            if coq_offset request > cl_next_offset (pt_log part)
            then (MakeError envelope pkOffsetOutOfRange ''commit offset is beyond high watermark'', st)
            else
              (case Commit (coq_group_id request) (coq_topic request) (coq_partition_id request)
                      (coq_offset request) (bs_offsets (fst st), snd st) of
                 (Inl e, (os, d)) \<Rightarrow>
                   (MakeError envelope (InvalidOrInternal e) (st_message e),
                    ((fst st)\<lparr>bs_offsets := os\<rparr>, d))
               | (Inr _, (os, d)) \<Rightarrow>
                   (MakeSuccess envelope (RspCommitOffset
                      \<lparr>cos_group_id = coq_group_id request, cos_topic = coq_topic request,
                       cos_partition_id = coq_partition_id request, cos_offset = coq_offset request\<rparr>),
                    ((fst st)\<lparr>bs_offsets := os\<rparr>, d))))"

definition HandleFetchCommittedOffset ::
  "RequestEnvelope \<Rightarrow> FetchCommittedOffsetRequest \<Rightarrow> broker \<Rightarrow> ResponseEnvelope \<times> broker" where
  "HandleFetchCommittedOffset envelope request st =
     (case GetPartition (fcq_topic request) (fcq_partition_id request) (bs_topics (fst st)) of
        Inl e \<Rightarrow> (MakeError envelope pkTopicNotFound (st_message e), st)
      | Inr _ \<Rightarrow>
          (case Fetch (fcq_group_id request) (fcq_topic request) (fcq_partition_id request)
                  (bs_offsets (fst st)) of
             Inl e \<Rightarrow> (MakeError envelope (InvalidOrInternal e) (st_message e), st)
           | Inr offset \<Rightarrow>
               (MakeSuccess envelope (RspFetchCommittedOffset
                  \<lparr>fcs_group_id = fcq_group_id request, fcs_topic = fcq_topic request,
                   fcs_partition_id = fcq_partition_id request, fcs_committed = (offset \<noteq> None),
                   fcs_offset = (case offset of None \<Rightarrow> 0 | Some v \<Rightarrow> v)\<rparr>), st)))"

text \<open>The common end of the four group handlers.\<close>

definition group_reply ::
  "RequestEnvelope \<Rightarrow> ('a \<Rightarrow> ResponseBody) \<Rightarrow> (GroupCoordinator \<Rightarrow> 'a Result \<times> GroupCoordinator) \<Rightarrow>
   broker \<Rightarrow> ResponseEnvelope \<times> broker" where
  "group_reply envelope body f st =
     (let (r, gc) = f (bs_groups (fst st))
      in (case r of
            Inl e \<Rightarrow> MakeError envelope (GroupErrorCode e) (st_message e)
          | Inr v \<Rightarrow> MakeSuccess envelope (body v),
          ((fst st)\<lparr>bs_groups := gc\<rparr>, snd st)))"

definition HandleJoinGroup ::
  "Clock \<Rightarrow> RequestEnvelope \<Rightarrow> JoinGroupRequest \<Rightarrow> broker \<Rightarrow> ResponseEnvelope \<times> broker" where
  "HandleJoinGroup clock envelope request st =
     (case GetMetadata (jgq_topic request) (bs_topics (fst st)) of
        Inl e \<Rightarrow> (MakeError envelope pkTopicNotFound (st_message e), st)
      | Inr [] \<Rightarrow> (MakeError envelope pkTopicNotFound ''topic not found'', st)
      | Inr (metadata # _) \<Rightarrow>
          group_reply envelope RspJoinGroup
            (JoinGroup (ck_steady clock) request (tm_partition_count metadata)) st)"

definition HandleSyncGroup ::
  "Clock \<Rightarrow> RequestEnvelope \<Rightarrow> SyncGroupRequest \<Rightarrow> broker \<Rightarrow> ResponseEnvelope \<times> broker" where
  "HandleSyncGroup clock envelope request =
     group_reply envelope RspSyncGroup (SyncGroup (ck_steady clock) request)"

definition HandleHeartbeat ::
  "Clock \<Rightarrow> RequestEnvelope \<Rightarrow> HeartbeatRequest \<Rightarrow> broker \<Rightarrow> ResponseEnvelope \<times> broker" where
  "HandleHeartbeat clock envelope request =
     group_reply envelope RspHeartbeat (Heartbeat (ck_steady clock) request)"

definition HandleLeaveGroup ::
  "RequestEnvelope \<Rightarrow> LeaveGroupRequest \<Rightarrow> broker \<Rightarrow> ResponseEnvelope \<times> broker" where
  "HandleLeaveGroup envelope request = group_reply envelope RspLeaveGroup (LeaveGroup request)"

section \<open>Nack\<close>

text \<open>The record to retry, with its metadata so far: that of its envelope if it comes from a retry
  topic, fresh metadata otherwise.\<close>

definition nack_source ::
  "NackRequest \<Rightarrow> Record \<Rightarrow> string + (ProtocolRecord \<times> RetryMetadata)" where
  "nack_source request stored =
     (if IsRetryTopic (nkq_topic request)
      then
        (case DecodeRetryRecord stored of
           Inl e \<Rightarrow> Inl (st_message e)
         | Inr record \<Rightarrow>
             let retry = the (prc_retry record)
             in if nkq_topic request \<noteq> kRetryTopicPrefix @ rm_original_topic retry \<or>
                   nkq_partition_id request \<noteq> rm_original_partition retry \<or>
                   rm_retry_count retry = 0xFFFFFFFF
                then Inl ''invalid retry source metadata''
                else Inr (record, retry))
      else Inr (ToProtocolRecord stored,
                \<lparr>rm_retry_count = 0, rm_next_visible_time = 0, rm_original_topic = nkq_topic request,
                 rm_failure_reason = nkq_reason request, rm_original_partition = nkq_partition_id request,
                 rm_original_offset = nkq_offset request\<rparr>))"

definition next_retry :: "u64 \<Rightarrow> RetryOptions \<Rightarrow> string \<Rightarrow> RetryMetadata \<Rightarrow> bool \<times> RetryMetadata" where
  "next_retry now options reason retry =
     (let retry_count = rm_retry_count retry + 1;
          dead_letter = retry_count > ro_max_retries options
      in (dead_letter,
          retry\<lparr>rm_retry_count := retry_count, rm_failure_reason := reason,
                rm_next_visible_time :=
                  (if dead_letter then 0 else now + word_of_int (ro_delay options))\<rparr>))"

text \<open>The end of \<^verbatim>\<open>HandleNack\<close>: the encoded record goes to its destination and is scheduled there.\<close>

definition nack_store ::
  "Clock \<Rightarrow> RequestEnvelope \<Rightarrow> NackRequest \<Rightarrow> bool \<Rightarrow> RetryMetadata \<Rightarrow> Record \<Rightarrow> broker \<Rightarrow>
   ResponseEnvelope \<times> broker" where
  "nack_store clock envelope request dead_letter retry encoded st =
     (case GetMetadata (rm_original_topic retry) (bs_topics (fst st)) of
        Inl e \<Rightarrow> (MakeError envelope pkTopicNotFound (st_message e), st)
      | Inr metadata \<Rightarrow>
          let destination =
                (if dead_letter then kDlqTopicPrefix else kRetryTopicPrefix) @ rm_original_topic retry;
              i = nat (nkq_partition_id request)
          in case with_topics (CreateTopic destination (tm_partition_count (hd metadata))) st of
               (Inl e, st) \<Rightarrow> (MakeError envelope (InvalidOrInternal e) (st_message e), st)
             | (Inr _, st) \<Rightarrow>
                 (case GetPartition destination (nkq_partition_id request) (bs_topics (fst st)) of
                    Inl e \<Rightarrow> (MakeError envelope pkInternal (st_message e), st)
                  | Inr _ \<Rightarrow>
                      (case with_topics (on_partition destination i (CommitLog_Append [encoded])) st of
                         (Inl e, st) \<Rightarrow> (MakeError envelope (InvalidOrInternal e) (st_message e), st)
                       | (Inr appended, (bs, d)) \<Rightarrow>
                           let bs = (if dead_letter then bs
                                     else bs\<lparr>bs_retries := Schedule (RetryNowMs (ck_system_later clock))
                                            destination (nkq_partition_id request)
                                            (ar_base_offset appended) (rm_next_visible_time retry)
                                            (bs_retries bs)\<rparr>)
                           in (case sync_flush destination i (bs, d) of
                                 (Inl e, st) \<Rightarrow> (MakeError envelope pkInternal (st_message e), st)
                               | (Inr _, st) \<Rightarrow>
                                   (MakeSuccess envelope (RspNack
                                      \<lparr>nks_topic = destination,
                                       nks_partition_id = nkq_partition_id request,
                                       nks_offset = ar_base_offset appended, nks_retry = retry,
                                       nks_dead_letter = dead_letter\<rparr>), st)))))"

definition HandleNack ::
  "Clock \<Rightarrow> RequestEnvelope \<Rightarrow> NackRequest \<Rightarrow> broker \<Rightarrow> ResponseEnvelope \<times> broker" where
  "HandleNack clock envelope request st =
     (if IsDlqTopic (nkq_topic request)
      then (MakeError envelope pkInvalidRequest ''DLQ messages cannot be retried'', st)
      else if nkq_offset request < 0
      then (MakeError envelope pkOffsetOutOfRange ''nack offset must not be negative'', st)
      else
        case GetPartition (nkq_topic request) (nkq_partition_id request) (bs_topics (fst st)) of
          Inl e \<Rightarrow> (MakeError envelope pkTopicNotFound (st_message e), st)
        | Inr source \<Rightarrow>
            if nkq_offset request \<ge> cl_next_offset (pt_log source)
            then (MakeError envelope pkOffsetOutOfRange ''nack offset is beyond log end'', st)
            else if IsRetryTopic (nkq_topic request) \<and>
                    nkq_offset request \<ge>
                      VisibleEnd (nkq_topic request) (nkq_partition_id request) (bs_retries (fst st))
            then (MakeError envelope pkInvalidRequest ''retry message is not visible yet'', st)
            else
              (case with_topics (on_partition (nkq_topic request) (nat (nkq_partition_id request))
                      (CommitLog_Read (nkq_offset request) kMaxRetryBatchBytes)) st of
                 (Inl e, st) \<Rightarrow> (MakeError envelope (InvalidOrInternal e) (st_message e), st)
               | (Inr batch, st) \<Rightarrow>
                   let index = unat (word_of_int (nkq_offset request - rb_base_offset batch) :: u64)
                   in if index \<ge> length (rb_records batch)
                      then (MakeError envelope pkInternal ''nack offset not found in batch'', st)
                      else
                        (case nack_source request (rb_records batch ! index) of
                           Inl message \<Rightarrow> (MakeError envelope pkInternal message, st)
                         | Inr (record, retry) \<Rightarrow>
                             let (dead_letter, retry) = next_retry (RetryNowMs (ck_system clock))
                                   (bso_retry (bs_options (fst st))) (nkq_reason request) retry
                             in (case EncodeRetryRecord (record\<lparr>prc_retry := Some retry\<rparr>) of
                                   Inl e \<Rightarrow>
                                     (MakeError envelope (InvalidOrInternal e) (st_message e), st)
                                 | Inr encoded \<Rightarrow>
                                     nack_store clock envelope request dead_letter retry encoded st))))"

section \<open>Dispatch\<close>

definition wrong_body_type :: "RequestEnvelope \<Rightarrow> string \<Rightarrow> broker \<Rightarrow> ResponseEnvelope \<times> broker" where
  "wrong_body_type envelope request st =
     (MakeError envelope pkInvalidRequest (request @ '' request envelope has wrong body type''), st)"

definition Handle :: "Clock \<Rightarrow> RequestEnvelope \<Rightarrow> broker \<Rightarrow> ResponseEnvelope \<times> broker" where
  "Handle clock request st =
     (if \<not> SupportedProtocolVersion (rqe_version request)
      then (MakeError request pkUnsupportedVersion ''unsupported protocol version'', st)
      else
        case rqe_api_key request of
          kNack \<Rightarrow> (case rqe_body request of
              ReqNack q \<Rightarrow> HandleNack clock request q st | _ \<Rightarrow> wrong_body_type request ''nack'' st)
        | kProduce \<Rightarrow> (case rqe_body request of
              ReqProduce q \<Rightarrow> HandleProduce request q st | _ \<Rightarrow> wrong_body_type request ''produce'' st)
        | kFetch \<Rightarrow> (case rqe_body request of
              ReqFetch q \<Rightarrow> HandleFetch request q st | _ \<Rightarrow> wrong_body_type request ''fetch'' st)
        | kMetadata \<Rightarrow> (case rqe_body request of
              ReqMetadata q \<Rightarrow> HandleMetadata request q st
            | _ \<Rightarrow> wrong_body_type request ''metadata'' st)
        | kCreateTopic \<Rightarrow> (case rqe_body request of
              ReqCreateTopic q \<Rightarrow> HandleCreateTopic request q st
            | _ \<Rightarrow> wrong_body_type request ''create topic'' st)
        | kCommitOffset \<Rightarrow> (case rqe_body request of
              ReqCommitOffset q \<Rightarrow> HandleCommitOffset request q st
            | _ \<Rightarrow> wrong_body_type request ''commit offset'' st)
        | kFetchCommittedOffset \<Rightarrow> (case rqe_body request of
              ReqFetchCommittedOffset q \<Rightarrow> HandleFetchCommittedOffset request q st
            | _ \<Rightarrow> wrong_body_type request ''fetch committed offset'' st)
        | kJoinGroup \<Rightarrow> (case rqe_body request of
              ReqJoinGroup q \<Rightarrow> HandleJoinGroup clock request q st
            | _ \<Rightarrow> wrong_body_type request ''join group'' st)
        | kSyncGroup \<Rightarrow> (case rqe_body request of
              ReqSyncGroup q \<Rightarrow> HandleSyncGroup clock request q st
            | _ \<Rightarrow> wrong_body_type request ''sync group'' st)
        | kHeartbeat \<Rightarrow> (case rqe_body request of
              ReqHeartbeat q \<Rightarrow> HandleHeartbeat clock request q st
            | _ \<Rightarrow> wrong_body_type request ''heartbeat'' st)
        | kLeaveGroup \<Rightarrow> (case rqe_body request of
              ReqLeaveGroup q \<Rightarrow> HandleLeaveGroup request q st
            | _ \<Rightarrow> wrong_body_type request ''leave group'' st))"

section \<open>Start, flushing and close\<close>

definition BrokerService_Start :: "Clock \<Rightarrow> broker \<Rightarrow> unit Result \<times> broker" where
  "BrokerService_Start clock st =
     (let (bs, d) = st; options = bs_options bs
      in if bs_started bs then (Inr (), st)
         else if bs_closed bs then (Inl (InvalidArgument ''broker service is closed''), st)
         else if ro_delay (bso_retry options) < 0 \<or> ro_max_retries (bso_retry options) = 0 \<or>
                 ro_max_retries (bso_retry options) = 0xFFFFFFFF
         then (Inl (InvalidArgument ''invalid retry options''), st)
         else
           case with_topics TopicManager_Load st of
             (Inl e, st) \<Rightarrow> (Inl e, st)
           | (Inr _, (bs, d)) \<Rightarrow>
               (case OffsetStore_Load (bs_offsets bs, d) of
                  (Inl e, (os, d)) \<Rightarrow> (Inl e, (bs\<lparr>bs_offsets := os\<rparr>, d))
                | (Inr _, (os, d)) \<Rightarrow>
                    (case RetryScheduler_Start (RetryNowMs (ck_system clock)) (bs_retries bs, bs_topics bs, d) of
                       (Inl e, (rs, tm, d)) \<Rightarrow>
                         (Inl e, (bs\<lparr>bs_offsets := os, bs_retries := rs, bs_topics := tm\<rparr>, d))
                     | (Inr _, (rs, tm, d)) \<Rightarrow>
                         let bs = bs\<lparr>bs_offsets := os, bs_retries := rs, bs_topics := tm\<rparr>;
                             (r, gc) = GroupCoordinator_Start (bs_groups bs);
                             bs = bs\<lparr>bs_groups := gc\<rparr>
                         in (case r of
                               Inl e \<Rightarrow> (Inl e, (bs, d))
                             | Inr _ \<Rightarrow>
                                 (Inr (), (bs\<lparr>bs_started := True,
                                    bs_flusher := (if sc_flush_policy (bso_storage options) = kAsync \<and>
                                                      sc_flush_interval (bso_storage options) > 0
                                                   then FlusherWaiting else bs_flusher bs)\<rparr>, d))))))"

text \<open>One turn of \<^verbatim>\<open>RunAsyncFlusher\<close>: the return of \<^verbatim>\<open>wait_for\<close>, or a flush of all logs.\<close>

definition RunAsyncFlusher :: "broker \<Rightarrow> broker" where
  "RunAsyncFlusher st =
     (let (bs, d) = st
      in case bs_flusher bs of
           FlusherWaiting \<Rightarrow>
             (bs\<lparr>bs_flusher := (if bs_stop_flusher bs then FlusherDone else FlusherFlushing)\<rparr>, d)
         | FlusherFlushing \<Rightarrow>
             (bs\<lparr>bs_flusher := FlusherWaiting\<rparr>, snd (TopicManager_Flush (bs_topics bs) d))
         | _ \<Rightarrow> st)"

text \<open>\<^verbatim>\<open>Close\<close> waits for the flusher, which finishes a flush it has begun.\<close>

definition BrokerService_Close :: "broker \<Rightarrow> unit Result \<times> broker" where
  "BrokerService_Close st =
     (let (bs, d) = st
      in if bs_closed bs then (Inr (), st)
         else
           let d = (if bs_flusher bs = FlusherFlushing then snd (TopicManager_Flush (bs_topics bs) d) else d);
               bs = bs\<lparr>bs_closed := True,
                       bs_stop_flusher := (bs_stop_flusher bs \<or> bs_flusher bs \<noteq> FlusherNone),
                       bs_flusher := (if bs_flusher bs = FlusherNone then FlusherNone else FlusherDone),
                       bs_retries := RetryScheduler_Close (bs_retries bs)\<rparr>;
               (group_status, gc) = GroupCoordinator_Close (bs_groups bs);
               (topics_status, st) = with_topics TopicManager_Close (bs\<lparr>bs_groups := gc\<rparr>, d)
           in (case group_status of Inl e \<Rightarrow> Inl e | Inr _ \<Rightarrow> topics_status, st))"

end
