(* ===== verification/CommitLog_Refines.thy ===== *)
theory CommitLog_Refines
  imports CommitLog
begin

text \<open>
  The commit log implements an append-only list of batches. The abstract log is a list of
  pairs of a first offset and the records from it on; \<open>log_rep\<close> relates it to the
  segments, indexes and files. For every script of system call outcomes
  \<^verbatim>\<open>Append\<close> either appends exactly one batch at the next offset or reports an error and
  leaves the abstract log as it was, and \<^verbatim>\<open>Read\<close> returns exactly the batch that
  holds the offset.
\<close>

section \<open>File names\<close>

lemma to_string_nonneg: "0 \<le> b \<Longrightarrow> to_string b = nat_to_string (nat b)"
  by (simp add: to_string_def)

lemma pad_zeros_nonempty [simp]: "s \<noteq> [] \<Longrightarrow> pad_zeros w s \<noteq> []"
  by (simp add: pad_zeros_def)

lemma ParseBaseOffset_SegmentPath:
  assumes "0 \<le> b" "is_i64 b"
  shows "ParseBaseOffset (SegmentPath opts b) = Some b"
proof -
  have ne: "pad_zeros 20 (to_string b) \<noteq> []" by (simp add: to_string_nonneg assms)
  have "path_stem (pad_zeros 20 (to_string b) @ ''.log'') = pad_zeros 20 (to_string b)"
    using dot_split_append [of "''log''" "pad_zeros 20 (to_string b)"] ne
    by (simp add: path_stem_def)
  moreover have "parse_digits i64_max (pad_zeros 20 (to_string b)) 0 = Some b"
    using assms parse_digits_nat_to_string [of "nat b" i64_max]
    by (simp add: pad_zeros_def parse_digits_zeros to_string_nonneg is_i64_def)
  ultimately show ?thesis using ne by (simp add: ParseBaseOffset_def SegmentPath_def)
qed

lemma extension_SegmentPath: "0 \<le> b \<Longrightarrow> path_extension (last (SegmentPath opts b)) = ''.log''"
  using dot_split_append [of "''log''" "pad_zeros 20 (to_string b)"]
  by (simp add: path_extension_def SegmentPath_def to_string_nonneg)

lemma SegmentPath_inj:
  "SegmentPath opts a = SegmentPath opts b \<Longrightarrow> 0 \<le> a \<Longrightarrow> is_i64 a \<Longrightarrow> 0 \<le> b \<Longrightarrow> is_i64 b \<Longrightarrow> a = b"
  by (metis ParseBaseOffset_SegmentPath option.inject)

lemma log_neq_index: "s @ ''.log'' \<noteq> t @ ''.index''"
proof
  assume "s @ ''.log'' = t @ ''.index''"
  then have "last (s @ ''.log'') = last (t @ ''.index'')" by simp
  then show False by simp
qed

lemma IndexPath_neq_SegmentPath [simp]:
  "IndexPath opts a \<noteq> SegmentPath opts b" "SegmentPath opts b \<noteq> IndexPath opts a"
  using log_neq_index by (auto simp: IndexPath_def SegmentPath_def)

section \<open>The abstract log\<close>

fun seg_bytes :: "int \<Rightarrow> Record list list \<Rightarrow> byte list" where
  "seg_bytes base [] = []"
| "seg_bytes base (rs # Bs) = batch_bytes base rs @ seg_bytes (base + int (length rs)) Bs"

definition seg_next :: "int \<Rightarrow> Record list list \<Rightarrow> int" where
  "seg_next base Bs = base + int (length (concat Bs))"

fun batches_from :: "int \<Rightarrow> Record list list \<Rightarrow> (int \<times> Record list) list" where
  "batches_from base [] = []"
| "batches_from base (rs # Bs) = (base, rs) # batches_from (base + int (length rs)) Bs"

definition log_batches :: "(int \<times> Record list list) list \<Rightarrow> (int \<times> Record list) list" where
  "log_batches S = concat (map (\<lambda>(base, Bs). batches_from base Bs) S)"

text \<open>The specification of a read: the batch whose offsets include the one asked for.\<close>

definition holds_offset :: "int \<Rightarrow> int \<times> Record list \<Rightarrow> bool" where
  "holds_offset offset b \<longleftrightarrow> fst b \<le> offset \<and> offset < fst b + int (length (snd b))"

text \<open>Segments follow each other without a gap, and only the last may be empty.\<close>

fun chain :: "int \<Rightarrow> (int \<times> Record list list) list \<Rightarrow> int \<Rightarrow> bool" where
  "chain b [] e \<longleftrightarrow> b = e"
| "chain b ((base, Bs) # S) e \<longleftrightarrow> base = b \<and> (S \<noteq> [] \<longrightarrow> Bs \<noteq> []) \<and> chain (seg_next base Bs) S e"

lemma seg_next_simps [simp]:
  "seg_next base [] = base"
  "seg_next base (rs # Bs) = seg_next (base + int (length rs)) Bs"
  by (simp_all add: seg_next_def)

lemma seg_next_append [simp]: "seg_next base (As @ Bs) = seg_next (seg_next base As) Bs"
  by (simp add: seg_next_def)

lemma seg_next_ge: "base \<le> seg_next base Bs"
  by (simp add: seg_next_def)

lemma seg_bytes_append [simp]:
  "seg_bytes base (As @ Bs) = seg_bytes base As @ seg_bytes (seg_next base As) Bs"
  by (induction As arbitrary: base) simp_all

lemma batches_from_append [simp]:
  "batches_from base (As @ Bs) = batches_from base As @ batches_from (seg_next base As) Bs"
  by (induction As arbitrary: base) simp_all

lemma log_batches_simps [simp]:
  "log_batches [] = []" "log_batches (x # S) = batches_from (fst x) (snd x) @ log_batches S"
  "log_batches (S @ T) = log_batches S @ log_batches T"
  by (simp_all add: log_batches_def split_def)

lemma chain_snoc:
  "chain b (S @ [(base, Bs)]) e \<longleftrightarrow>
     chain b S base \<and> e = seg_next base Bs \<and> (\<forall>x \<in> set S. snd x \<noteq> [])"
proof (induction b S e arbitrary: base Bs rule: chain.induct)
  case (1 b e)
  then show ?case by auto
next
  case (2 b base' Bs' S e)
  then show ?case by (cases S) auto
qed

lemma set_batches_from:
  "(b, rs) \<in> set (batches_from base Bs) \<longleftrightarrow>
     (\<exists>As Cs. Bs = As @ rs # Cs \<and> b = seg_next base As)"
proof
  show "(b, rs) \<in> set (batches_from base Bs) \<Longrightarrow> \<exists>As Cs. Bs = As @ rs # Cs \<and> b = seg_next base As"
  proof (induction Bs arbitrary: base)
    case (Cons r Bs)
    show ?case
    proof (cases "(b, rs) = (base, r)")
      case True
      then show ?thesis by (intro exI [of _ "[]"] exI [of _ Bs]) simp
    next
      case False
      with Cons.prems obtain As Cs where "Bs = As @ rs # Cs" "b = seg_next (base + int (length r)) As"
        using Cons.IH [of "base + int (length r)"] by auto
      then show ?thesis by (intro exI [of _ "r # As"] exI [of _ Cs]) simp
    qed
  qed simp
qed auto

section \<open>Representation\<close>

definition batch_ok :: "Record list \<Rightarrow> bool" where
  "batch_ok rs \<longleftrightarrow> batch_fits rs \<and> int (length rs) \<le> i64_max"

text \<open>An index entry points at the start of one of the segment's batches.\<close>

definition entry_at :: "int \<Rightarrow> Record list list \<Rightarrow> IndexEntry \<Rightarrow> bool" where
  "entry_at base Bs e \<longleftrightarrow> (\<exists>As rs Cs. Bs = As @ rs # Cs \<and> ie_offset e = seg_next base As \<and>
     ie_position e = length (seg_bytes base As))"

definition seg_rep ::
  "CommitLogOptions \<Rightarrow> Disk \<Rightarrow> Segment \<times> OffsetIndex \<Rightarrow> int \<times> Record list list \<Rightarrow> bool" where
  "seg_rep opts d si x \<longleftrightarrow> (let (s, ix) = si; (base, Bs) = x in
     sg_path s = SegmentPath opts base \<and> sg_base_offset s = base \<and>
     seg_holds d s (seg_bytes base Bs) \<and> list_all batch_ok Bs \<and>
     ix_path ix = IndexPath opts base \<and> ix_base_offset ix = base \<and> index_ok ix \<and>
     (\<forall>e \<in> set (ix_entries ix). entry_at base Bs e))"

definition segs_rep ::
  "CommitLogOptions \<Rightarrow> Disk \<Rightarrow> Segment list \<Rightarrow> OffsetIndex list \<Rightarrow> (int \<times> Record list list) list \<Rightarrow> bool"
where
  "segs_rep opts d ss ixs S \<longleftrightarrow>
     length ss = length ixs \<and> list_all2 (seg_rep opts d) (zip ss ixs) S"

text \<open>Segment files that a later roll creates are not there yet.\<close>

definition no_later_files :: "CommitLogOptions \<Rightarrow> Disk \<Rightarrow> int \<Rightarrow> int \<Rightarrow> bool" where
  "no_later_files opts d active next \<longleftrightarrow>
     (\<forall>n. next \<le> n \<and> n \<le> i64_max \<and> n \<noteq> active \<longrightarrow> d_content d (SegmentPath opts n) = [])"

definition log_rep ::
  "CommitLog \<times> Disk \<Rightarrow> int \<Rightarrow> (int \<times> Record list list) list \<Rightarrow> bool" where
  "log_rep st first S \<longleftrightarrow> (let (cl, d) = st in
     \<not> cl_closed cl \<and> S \<noteq> [] \<and> 0 \<le> first \<and> chain first S (cl_next_offset cl) \<and>
     cl_next_offset cl \<le> i64_max \<and>
     segs_rep (cl_options cl) d (cl_segments cl) (cl_indexes cl) S \<and>
     no_later_files (cl_options cl) d (fst (last S)) (cl_next_offset cl))"

lemma segs_rep_Nil [simp]: "segs_rep opts d [] [] S \<longleftrightarrow> S = []"
  by (simp add: segs_rep_def)

lemma list_all2_snoc [simp]: "list_all2 P (xs @ [x]) (ys @ [y]) \<longleftrightarrow> list_all2 P xs ys \<and> P x y"
  using list_all2_rev [of P "xs @ [x]" "ys @ [y]"] by (auto simp: conj_commute)

lemma segs_rep_snoc:
  "segs_rep opts d (ss @ [s]) (ixs @ [ix]) (S @ [x]) \<longleftrightarrow>
     segs_rep opts d ss ixs S \<and> seg_rep opts d (s, ix) x"
  by (auto simp: segs_rep_def)

lemma segs_rep_snocE:
  assumes "segs_rep opts d ss ixs S" "S \<noteq> []"
  obtains ss' s ixs' ix S' base Bs where
    "ss = ss' @ [s]" "ixs = ixs' @ [ix]" "S = S' @ [(base, Bs)]"
    "segs_rep opts d ss' ixs' S'" "seg_rep opts d (s, ix) (base, Bs)"
proof -
  from assms(2) obtain S' base Bs where S: "S = S' @ [(base, Bs)]" by (cases S rule: rev_cases) auto
  from assms have "length ss = length S" "length ixs = length S"
    by (auto simp: segs_rep_def dest: list_all2_lengthD)
  with S obtain ss' s ixs' ix where "ss = ss' @ [s]" "ixs = ixs' @ [ix]"
    by (metis length_0_conv length_append_singleton nat.distinct(1) rev_exhaust)
  with S assms(1) that show thesis by (simp add: segs_rep_snoc)
qed

lemma segs_rep_nth:
  assumes "segs_rep opts d ss ixs S" "i < length S"
  shows "seg_rep opts d (ss ! i, ixs ! i) (S ! i)"
  using assms list_all2_nthD2 [of "seg_rep opts d" "zip ss ixs" S i]
  by (auto simp: segs_rep_def dest: list_all2_lengthD)

lemma segs_rep_lengths:
  "segs_rep opts d ss ixs S \<Longrightarrow> length ss = length S \<and> length ixs = length S"
  by (auto simp: segs_rep_def dest: list_all2_lengthD)

lemma seg_rep_content:
  "seg_rep opts d si x \<Longrightarrow>
   d_content d' (SegmentPath opts (fst x)) = d_content d (SegmentPath opts (fst x)) \<Longrightarrow>
   seg_rep opts d' si x"
  by (auto simp: seg_rep_def intro: seg_holds_content)

lemma segs_rep_content:
  "segs_rep opts d ss ixs S \<Longrightarrow>
   (\<And>x. x \<in> set S \<Longrightarrow>
      d_content d' (SegmentPath opts (fst x)) = d_content d (SegmentPath opts (fst x))) \<Longrightarrow>
   segs_rep opts d' ss ixs S"
proof -
  assume a: "segs_rep opts d ss ixs S"
    and c: "\<And>x. x \<in> set S \<Longrightarrow>
      d_content d' (SegmentPath opts (fst x)) = d_content d (SegmentPath opts (fst x))"
  have "seg_rep opts d' (ss ! i, ixs ! i) (S ! i)" if "i < length S" for i
    using seg_rep_content [OF segs_rep_nth [OF a that] c] that by simp
  with segs_rep_lengths [OF a] show ?thesis by (simp add: segs_rep_def list_all2_conv_all_nth)
qed

lemma seg_next_less:
  assumes "list_all batch_ok Bs" "Bs \<noteq> []"
  shows "base < seg_next base Bs"
proof -
  from assms obtain rs Cs where "Bs = rs # Cs" "rs \<noteq> []"
    by (cases Bs) (auto simp: batch_ok_def batch_fits_def)
  then show ?thesis by (cases rs) (simp_all add: seg_next_def)
qed

lemma chain_mono: "chain b S e \<Longrightarrow> b \<le> e"
proof (induction b S e rule: chain.induct)
  case (2 b base Bs S e)
  then show ?case using seg_next_ge [of base Bs] by auto
qed simp

lemma chain_bases:
  assumes "chain b S e" "\<forall>x \<in> set S. list_all batch_ok (snd x)" "x \<in> set S"
  shows "b \<le> fst x \<and> seg_next (fst x) (snd x) \<le> e"
  using assms
proof (induction b S e rule: chain.induct)
  case (2 b base Bs S e)
  then show ?case using seg_next_ge [of base Bs] chain_mono [of "seg_next base Bs" S e] by auto
qed simp

lemma segs_rep_batch_ok: "segs_rep opts d ss ixs S \<Longrightarrow> x \<in> set S \<Longrightarrow> list_all batch_ok (snd x)"
  using segs_rep_nth by (fastforce simp: seg_rep_def in_set_conv_nth)

text \<open>Every earlier segment starts below the last one.\<close>

lemma earlier_bases:
  assumes "chain b (S @ [(base, Bs)]) e" "segs_rep opts d ss ixs S" "x \<in> set S"
  shows "b \<le> fst x" "fst x < base"
proof -
  have ok: "\<forall>x \<in> set S. list_all batch_ok (snd x)" using assms(2) segs_rep_batch_ok by blast
  have c: "chain b S base" "snd x \<noteq> []" using assms(1,3) by (simp_all add: chain_snoc)
  show "b \<le> fst x" using chain_bases [OF c(1) ok assms(3)] by simp
  show "fst x < base"
    using chain_bases [OF c(1) ok assms(3)] seg_next_less [of "snd x" "fst x"] ok c(2) assms(3)
    by fastforce
qed

section \<open>Append\<close>

lemma sint_of_nat_i64 [simp]: "int n \<le> i64_max \<Longrightarrow> sint (word_of_nat n :: u64) = int n"
  by (simp add: signed_of_nat signed_take_bit_int_eq_self)

lemma MakeRecordBatch_Inr:
  assumes "MakeRecordBatch base rs = Inr b"
    and "kRecordBatchHeaderBytes + length (payload_bytes rs) \<le> u64_max"
  shows "0 \<le> base \<and> batch_fits rs \<and> b = mk_batch base rs"
proof -
  have fits: "append_records xs out = Inr y \<Longrightarrow> list_all record_fits xs" for xs out y
    by (induction xs arbitrary: out) (auto simp: rbind_Inr_iff AppendEncodedRecord_Inr_iff)
  have base: "0 \<le> base" "rs \<noteq> []"
    and "list_all record_fits (map stamp_crc rs)"
    using assms(1)
    by (auto simp: MakeRecordBatch_def EncodeRecordsPayload_def rbind_Inr_iff Let_def
        stamp_crc_def [abs_def] dest!: fits split: if_splits)
  then have "batch_fits rs" using assms(2) by (simp add: batch_fits_def list_all_iff)
  with base assms(1) MakeRecordBatch_fits show ?thesis by simp
qed

lemma entry_at_snoc: "entry_at base Bs e \<Longrightarrow> entry_at base (Bs @ [rs]) e"
  unfolding entry_at_def by (metis append_Cons append_assoc)

lemma entry_at_bounds:
  assumes "entry_at base Bs e" "list_all batch_ok Bs"
  shows "base \<le> ie_offset e" "ie_offset e < seg_next base Bs"
    "ie_position e \<le> length (seg_bytes base Bs)"
proof -
  from assms(1) obtain As rs Cs where e: "Bs = As @ rs # Cs" "ie_offset e = seg_next base As"
    "ie_position e = length (seg_bytes base As)" by (auto simp: entry_at_def)
  with assms(2) have "rs \<noteq> []" by (simp add: batch_ok_def batch_fits_def)
  then have "0 < int (length rs)" by simp
  with e show "base \<le> ie_offset e" "ie_offset e < seg_next base Bs"
    "ie_position e \<le> length (seg_bytes base Bs)"
    using seg_next_ge [of base As] seg_next_ge [of "seg_next base As + int (length rs)" Cs]
    by (simp_all del: of_nat_0_less_iff)
qed

lemma seg_repE:
  assumes "seg_rep opts d (s, ix) (base, Bs)"
  obtains "sg_path s = SegmentPath opts base" "sg_base_offset s = base"
    "seg_holds d s (seg_bytes base Bs)" "list_all batch_ok Bs"
    "ix_path ix = IndexPath opts base" "ix_base_offset ix = base" "index_ok ix"
    "\<And>e. e \<in> set (ix_entries ix) \<Longrightarrow> entry_at base Bs e"
  using assms by (simp add: seg_rep_def)

text \<open>The index never refuses the batch that follows the ones it knows.\<close>

lemma MaybeAppend_next:
  assumes ix: "index_ok ix" "ix_base_offset ix = base"
    "\<And>e. e \<in> set (ix_entries ix) \<Longrightarrow> entry_at base Bs e" and bs: "list_all batch_ok Bs"
  obtains ix' where "MaybeAppend (seg_next base Bs) (length (seg_bytes base Bs)) ix = (Inr (), ix')"
    "index_ok ix'" "ix_base_offset ix' = base" "ix_path ix' = ix_path ix"
    "\<And>e. e \<in> set (ix_entries ix') \<Longrightarrow> entry_at base (Bs @ [rs]) e"
proof -
  let ?pos = "length (seg_bytes base Bs)"
  have "\<forall>e \<in> set (ix_entries ix). ie_offset e < seg_next base Bs \<and> ie_position e \<le> ?pos"
    using entry_at_bounds [OF ix(3) bs] by blast
  from MaybeAppend_ok [OF ix(1) _ this] ix(2) seg_next_ge [of base Bs] obtain ix' where
    ma: "MaybeAppend (seg_next base Bs) ?pos ix = (Inr (), ix')"
    and es: "ix_entries ix' = ix_entries ix \<or>
      ix_entries ix' = ix_entries ix @ [\<lparr>ie_offset = seg_next base Bs, ie_position = ?pos\<rparr>]"
    by metis
  have "entry_at base (Bs @ [rs]) \<lparr>ie_offset = seg_next base Bs, ie_position = ?pos\<rparr>"
    unfolding entry_at_def by (intro exI [of _ Bs] exI [of _ rs] exI [of _ "[]"]) simp
  with es have "\<And>e. e \<in> set (ix_entries ix') \<Longrightarrow> entry_at base (Bs @ [rs]) e"
    by (auto dest!: ix(3) intro: entry_at_snoc)
  with ma MaybeAppend_frame [OF ma] index_ok_MaybeAppend [OF ix(1) ma] ix(2) that
  show thesis by simp
qed

text \<open>One segment: a batch appended to the file and offered to the index. The index never
  refuses it.\<close>

lemma seg_rep_append:
  assumes rep: "seg_rep opts d (s, ix) (base, Bs)" and ok: "0 \<le> base" "batch_ok rs"
    and run: "Segment_Append (mk_batch (seg_next base Bs) rs) (s, d) = (Inr pos, (s', d'))"
  obtains ix' where "MaybeAppend (seg_next base Bs) pos ix = (Inr (), ix')"
    "seg_rep opts d' (s', ix') (base, Bs @ [rs])"
proof -
  from rep obtain p: "sg_path s = SegmentPath opts base" "sg_base_offset s = base"
    and h: "seg_holds d s (seg_bytes base Bs)" and bs: "list_all batch_ok Bs"
    and ix: "ix_path ix = IndexPath opts base" "ix_base_offset ix = base" "index_ok ix"
      "\<And>e. e \<in> set (ix_entries ix) \<Longrightarrow> entry_at base Bs e"
    by (elim seg_repE) blast
  have "0 \<le> seg_next base Bs" using ok(1) seg_next_ge [of base Bs] by simp
  from Segment_Append_spec [OF h this _ run] ok(2)
  have pos: "pos = length (seg_bytes base Bs)"
    and s': "sg_path s' = sg_path s" "sg_base_offset s' = sg_base_offset s"
    and h': "seg_holds d' s' (seg_bytes base (Bs @ [rs]))"
    by (auto simp: batch_ok_def)
  from MaybeAppend_next [OF ix(3,2,4) bs, of rs] pos obtain ix' where
    ma: "MaybeAppend (seg_next base Bs) pos ix = (Inr (), ix')" "index_ok ix'"
      "ix_base_offset ix' = base" "ix_path ix' = ix_path ix"
      "\<And>e. e \<in> set (ix_entries ix') \<Longrightarrow> entry_at base (Bs @ [rs]) e" by metis
  with p s' h' bs ok(2) ix have "seg_rep opts d' (s', ix') (base, Bs @ [rs])"
    by (auto simp: seg_rep_def)
  with ma(1) that show thesis by blast
qed

text \<open>What an operation that touches only the active segment's file, or only an index file,
  leaves of the rest.\<close>

lemma others_untouched:
  assumes "chain first (S @ [(base, Bs)]) next" "segs_rep opts d ss ixs S"
    and "0 \<le> first" "next \<le> i64_max" "same_except (SegmentPath opts base) d d'"
  shows "segs_rep opts d' ss ixs S"
proof (rule segs_rep_content [OF assms(2)])
  fix x assume x: "x \<in> set S"
  note b = earlier_bases [OF assms(1,2) x]
  have "base \<le> next" using assms(1) seg_next_ge [of base Bs] by (simp add: chain_snoc)
  with b assms(3,4) have "SegmentPath opts (fst x) \<noteq> SegmentPath opts base"
    using SegmentPath_inj [of opts "fst x" base] by (auto simp: is_i64_def)
  with assms(5) show "d_content d' (SegmentPath opts (fst x)) = d_content d (SegmentPath opts (fst x))"
    by (rule same_except_content)
qed

lemma no_later_files_except:
  assumes "no_later_files opts d base next" "same_except (SegmentPath opts base) d d'"
    and "0 \<le> base" "base \<le> next" "next \<le> next'" "next' \<le> i64_max"
  shows "no_later_files opts d' base next'"
  unfolding no_later_files_def
proof (intro allI impI)
  fix n assume n: "next' \<le> n \<and> n \<le> i64_max \<and> n \<noteq> base"
  with assms(3-6) have "SegmentPath opts n \<noteq> SegmentPath opts base"
    using SegmentPath_inj [of opts n base] by (auto simp: is_i64_def)
  with assms(1,2,5) n show "d_content d' (SegmentPath opts n) = []"
    by (simp add: no_later_files_def same_except_content)
qed

lemma append_to_last_spec:
  assumes rep: "log_rep (cl, d) first S" and ok: "batch_ok rs"
    and fit: "int (length rs) \<le> i64_max - cl_next_offset cl"
    and run: "append_to_last (mk_batch (cl_next_offset cl) rs) (cl, d) = (r, (cl', d'))"
  shows "\<exists>S'. log_rep (cl', d') first S' \<and> cl_options cl' = cl_options cl \<and>
    (case r of
       Inl e \<Rightarrow> log_batches S' = log_batches S \<and> cl_next_offset cl' = cl_next_offset cl
     | Inr a \<Rightarrow> log_batches S' = log_batches S @ [(cl_next_offset cl, rs)] \<and>
         cl_next_offset cl' = cl_next_offset cl + int (length rs) \<and>
         ar_base_offset a = cl_next_offset cl)"
proof -
  let ?o = "cl_options cl" and ?n = "cl_next_offset cl"
  from rep have inv: "\<not> cl_closed cl" "S \<noteq> []" "0 \<le> first" "chain first S ?n" "?n \<le> i64_max"
    "segs_rep ?o d (cl_segments cl) (cl_indexes cl) S" "no_later_files ?o d (fst (last S)) ?n"
    by (simp_all add: log_rep_def)
  from segs_rep_snocE [OF inv(6,2)] obtain ss s ixs ix T base Bs where
    cl: "cl_segments cl = ss @ [s]" "cl_indexes cl = ixs @ [ix]" "S = T @ [(base, Bs)]"
    and T: "segs_rep ?o d ss ixs T" and act: "seg_rep ?o d (s, ix) (base, Bs)" .
  note ch = inv(4) [unfolded cl(3)]
  have n: "?n = seg_next base Bs" "first \<le> base" "base \<le> ?n"
    using ch seg_next_ge [of base Bs] chain_mono [of first T base] by (simp_all add: chain_snoc)
  have base: "0 \<le> base" using n(2) inv(3) by simp
  obtain x s' d1 where ap: "Segment_Append (mk_batch ?n rs) (s, d) = (x, (s', d1))"
    by (cases "Segment_Append (mk_batch ?n rs) (s, d)") auto
  from act have h: "seg_holds d s (seg_bytes base Bs)" and p: "sg_path s = SegmentPath ?o base"
    by (simp_all add: seg_rep_def)
  have "batch_fits rs" using ok by (simp add: batch_ok_def)
  note sp = Segment_Append_spec [OF h _ this ap, unfolded p]
  with n base have ex: "same_except (SegmentPath ?o base) d d1" by simp
  note T' = others_untouched [OF ch T inv(3,5) ex]
  show ?thesis
  proof (cases x)
    case (Inl e)
    with sp n base have "s' = s" "seg_holds d1 s (seg_bytes base Bs)" by auto
    with act have "seg_rep ?o d1 (s, ix) (base, Bs)" by (simp add: seg_rep_def)
    moreover have "no_later_files ?o d1 base ?n"
      using no_later_files_except [OF _ ex base n(3) order_refl inv(5)] inv(7) cl(3) by simp
    moreover have "cl' = cl" "d' = d1" "r = Inl e"
      using run ap Inl cl \<open>s' = s\<close> by (auto simp: append_to_last_def)
    ultimately show ?thesis
      using inv cl T' by (intro exI [of _ S]) (simp add: log_rep_def segs_rep_snoc)
  next
    case (Inr pos)
    from seg_rep_append [OF act base ok ap [unfolded n(1) Inr]] obtain ix' where
      ma: "MaybeAppend (seg_next base Bs) pos ix = (Inr (), ix')"
      and act': "seg_rep ?o d1 (s', ix') (base, Bs @ [rs])" .
    let ?S = "T @ [(base, Bs @ [rs])]" and ?n' = "?n + int (length rs)"
    have cnt: "sint (rb_record_count (mk_batch ?n rs)) = int (length rs)"
      "rb_base_offset (mk_batch ?n rs) = ?n"
      using ok by (simp_all add: mk_batch_def batch_ok_def)
    have res: "r = Inr \<lparr>ar_base_offset = ?n, ar_position = pos, ar_segment_path = sg_path s'\<rparr>"
      "d' = d1" "cl' = cl\<lparr>cl_segments := ss @ [s'], cl_indexes := ixs @ [ix'], cl_next_offset := ?n'\<rparr>"
      using run ap Inr cl ma cnt n(1) by (auto simp: append_to_last_def Let_def)
    have nl: "no_later_files ?o d1 base ?n'"
      using no_later_files_except [OF _ ex base n(3), of ?n'] inv(7) cl(3) fit by simp
    have ch': "chain first ?S ?n'" using ch by (simp add: chain_snoc n(1))
    from T' act' nl ch' fit inv(1,3) res have "log_rep (cl', d') first ?S"
      by (simp add: log_rep_def segs_rep_snoc)
    with res cl(3) n(1) show ?thesis by (intro exI [of _ ?S]) simp
  qed
qed

text \<open>No content changes when a new, empty segment file appears or an index file is
  rewritten.\<close>

definition same_logs :: "CommitLogOptions \<Rightarrow> Disk \<Rightarrow> Disk \<Rightarrow> bool" where
  "same_logs opts d d' \<longleftrightarrow> (\<forall>n. d_content d' (SegmentPath opts n) = d_content d (SegmentPath opts n))"

lemma same_logs_trans [trans]: "same_logs opts a b \<Longrightarrow> same_logs opts b c \<Longrightarrow> same_logs opts a c"
  by (simp add: same_logs_def)

lemma same_disk_logs: "same_disk d d' \<Longrightarrow> same_logs opts d d'"
  by (simp add: same_logs_def same_disk_content)

lemma Rewrite_same_logs:
  "Rewrite ix d = (r, d') \<Longrightarrow> ix_path ix = IndexPath opts b \<Longrightarrow> same_logs opts d d'"
  using Rewrite_spec(1) [of ix d r d'] by (auto simp: same_logs_def intro: same_except_content)

lemma Segment_Open_same_logs:
  "Segment_Open (SegmentPath opts b) base d = (r, d') \<Longrightarrow> same_logs opts d d'"
  using Segment_Open_spec [of "SegmentPath opts b" base d r d']
  by (auto simp: same_logs_def) (metis same_except_content)

lemma log_rep_same_logs:
  assumes "log_rep (cl, d) first S" "same_logs (cl_options cl) d d'"
  shows "log_rep (cl, d') first S"
  using assms segs_rep_content [of "cl_options cl" d _ _ S d']
  by (auto simp: log_rep_def same_logs_def no_later_files_def)

lemma write_position_pos:
  assumes "seg_rep opts d (s, ix) (base, Bs)" "0 < sg_write_position s"
  shows "base < seg_next base Bs"
proof -
  from assms have "Bs \<noteq> []" by (auto simp: seg_rep_def seg_holds_def)
  with assms(1) show ?thesis by (auto simp: seg_rep_def intro: seg_next_less)
qed

lemma RollSegment_spec:
  assumes rep: "log_rep (cl, d) first S" and pos: "0 < sg_write_position (last (cl_segments cl))"
    and run: "RollSegment (cl_next_offset cl) (cl, d) = (r, (cl', d'))"
  shows "\<exists>S'. log_rep (cl', d') first S' \<and> log_batches S' = log_batches S \<and>
    cl_options cl' = cl_options cl \<and> cl_next_offset cl' = cl_next_offset cl"
proof -
  let ?o = "cl_options cl" and ?n = "cl_next_offset cl"
  let ?p = "SegmentPath ?o ?n" and ?q = "IndexPath ?o ?n"
  from rep have inv: "\<not> cl_closed cl" "S \<noteq> []" "0 \<le> first" "chain first S ?n" "?n \<le> i64_max"
    "segs_rep ?o d (cl_segments cl) (cl_indexes cl) S" "no_later_files ?o d (fst (last S)) ?n"
    by (simp_all add: log_rep_def)
  from segs_rep_snocE [OF inv(6,2)] obtain ss s ixs ix T base Bs where
    cl: "cl_segments cl = ss @ [s]" "cl_indexes cl = ixs @ [ix]" "S = T @ [(base, Bs)]"
    and act: "seg_rep ?o d (s, ix) (base, Bs)" .
  have n: "?n = seg_next base Bs" "base < ?n" "0 \<le> ?n"
    using inv(4) write_position_pos [OF act] pos cl chain_mono [OF inv(4)] inv(3)
    by (auto simp: chain_snoc)
  then have Bs: "Bs \<noteq> []" by auto
  obtain x d1 where op: "Segment_Open ?p ?n d = (x, d1)" by (cases "Segment_Open ?p ?n d")
  have rep1: "log_rep (cl, d1) first S"
    by (rule log_rep_same_logs [OF rep Segment_Open_same_logs [OF op]])
  show ?thesis
  proof (cases x)
    case (Inl e)
    with run op rep1 show ?thesis by (auto simp: RollSegment_def)
  next
    case (Inr s1)
    let ?ix = "mk_OffsetIndex ?q ?n (clo_index_interval_bytes ?o)"
    obtain y d2 where rw: "Rewrite ?ix d1 = (y, d2)" by (cases "Rewrite ?ix d1")
    have d2: "same_logs ?o d1 d2" using Rewrite_same_logs [OF rw] by (simp add: mk_OffsetIndex_def)
    have "d_content d ?p = []" using inv(5,7) n(2) cl(3) by (simp add: no_later_files_def)
    with Segment_Open_spec [OF op] Inr have s1: "sg_path s1 = ?p" "sg_base_offset s1 = ?n"
      "seg_holds d1 s1 []" by auto
    moreover from this d2 have "seg_holds d2 s1 []"
      by (auto simp: same_logs_def intro: seg_holds_content)
    ultimately have new: "seg_rep ?o d2 (s1, ?ix) (?n, [])"
      using n(3) by (simp add: seg_rep_def index_ok_mk mk_OffsetIndex_def index_ok_def)
    have rep2: "log_rep (cl, d2) first S" by (rule log_rep_same_logs [OF rep1 d2])
    have cl': "cl' = cl\<lparr>cl_segments := cl_segments cl @ [s1], cl_indexes := cl_indexes cl @ [?ix]\<rparr>"
      "d' = d2" using run op Inr rw by (auto simp: RollSegment_def)
    have ch: "chain first (S @ [(?n, [])]) ?n"
      unfolding chain_snoc using inv(4) cl(3) Bs by (auto simp: chain_snoc)
    have "no_later_files ?o d2 ?n ?n"
      using rep2 n(2) cl(3) by (auto simp: log_rep_def no_later_files_def)
    with new rep2 cl' ch have "log_rep (cl', d') first (S @ [(?n, [])])"
      by (simp add: log_rep_def segs_rep_snoc)
    with cl' show ?thesis by (intro exI [of _ "S @ [(?n, [])]"]) simp
  qed
qed

definition in_memory :: "Record list \<Rightarrow> bool" where
  "in_memory rs \<longleftrightarrow> kRecordBatchHeaderBytes + length (payload_bytes rs) \<le> u64_max"

text \<open>\<^verbatim>\<open>Append\<close> under every script of system call outcomes.\<close>

lemma CommitLog_Append_refines:
  assumes rep: "log_rep (cl, d) first S" and mem: "in_memory rs"
    and run: "CommitLog_Append rs (cl, d) = (r, (cl', d'))"
  shows "\<exists>S'. log_rep (cl', d') first S' \<and> cl_options cl' = cl_options cl \<and>
    (case r of
       Inl e \<Rightarrow> log_batches S' = log_batches S \<and> cl_next_offset cl' = cl_next_offset cl
     | Inr a \<Rightarrow> log_batches S' = log_batches S @ [(cl_next_offset cl, rs)] \<and>
         cl_next_offset cl' = cl_next_offset cl + int (length rs) \<and>
         ar_base_offset a = cl_next_offset cl)"
proof -
  let ?n = "cl_next_offset cl"
  have unchanged: ?thesis if "r = Inl e" "cl' = cl" "d' = d" for e
    using rep that by (intro exI [of _ S]) simp
  have opened: "\<not> cl_closed cl" using rep by (simp add: log_rep_def)
  show ?thesis
  proof (cases "rs = [] \<or> int (length rs) > i64_max - ?n")
    case True
    with run opened unchanged show ?thesis by (auto simp: CommitLog_Append_def split: if_splits)
  next
    case fit: False
    show ?thesis
    proof (cases "MakeRecordBatch ?n rs")
      case (Inl e)
      with run opened fit unchanged show ?thesis by (auto simp: CommitLog_Append_def split: if_splits)
    next
      case (Inr b)
      from MakeRecordBatch_Inr [OF Inr] mem
      have b: "0 \<le> ?n" "batch_fits rs" "b = mk_batch ?n rs" by (simp_all add: in_memory_def)
      with fit have ok: "batch_ok rs" "rb_base_offset b = ?n"
        by (simp_all add: batch_ok_def mk_batch_def)
      show ?thesis
      proof (cases "0 < sg_write_position (last (cl_segments cl)) \<and>
          clo_segment_bytes (cl_options cl) <
            sg_write_position (last (cl_segments cl)) + unat (rb_batch_bytes b)")
        case False
        with run opened fit Inr have "append_to_last (mk_batch ?n rs) (cl, d) = (r, (cl', d'))"
          by (auto simp add: CommitLog_Append_def Let_def b(3) [symmetric])
        with append_to_last_spec [OF rep ok(1) _ this] fit show ?thesis by simp
      next
        case True
        with run opened fit Inr
        have "sbind (RollSegment ?n) (\<lambda>_. append_to_last (mk_batch ?n rs)) (cl, d) = (r, (cl', d'))"
          by (simp add: CommitLog_Append_def ok(2) b(3) [symmetric])
        then show ?thesis
        proof (cases rule: sbind_casesE)
          case (err e)
          with RollSegment_spec [OF rep _ err(1)] True show ?thesis by auto
        next
          case (val u st)
          obtain cl1 d1 where st: "st = (cl1, d1)" by (cases st)
          from RollSegment_spec [OF rep _ val(1) [unfolded st]] True obtain S1 where
            rep1: "log_rep (cl1, d1) first S1" and same: "log_batches S1 = log_batches S"
            "cl_options cl1 = cl_options cl" "cl_next_offset cl1 = ?n" by auto
          from append_to_last_spec [OF rep1 ok(1), unfolded same] val(2) [unfolded st] fit
          show ?thesis by simp
        qed
      qed
    qed
  qed
qed

section \<open>Read\<close>

lemma BatchContainsOffset_mk_batch:
  "0 \<le> base \<Longrightarrow> batch_ok rs \<Longrightarrow>
     BatchContainsOffset (mk_batch base rs) offset \<longleftrightarrow> holds_offset offset (base, rs)"
  by (simp add: BatchContainsOffset_def mk_batch_def batch_ok_def holds_offset_def)

lemma unat_batch_bytes_mk_batch:
  "batch_ok rs \<Longrightarrow> unat (rb_batch_bytes (mk_batch base rs)) = length (batch_bytes base rs)"
  using unat_batch_length [of rs] by (simp add: mk_batch_def batch_ok_def del: of_nat_add unat_of_nat_u64)

text \<open>The scan from a batch boundary at or before the offset finds the batch of the offset.
  It fails only with an I/O error, or when a batch on the way, or the batch itself, is
  larger than the caller's limit.\<close>

lemma read_loop_spec:
  assumes "seg_holds d s (pre @ seg_bytes b Bs)" "list_all batch_ok Bs" "0 \<le> b"
    and "seg_next b Bs \<le> i64_max" "b \<le> offset" "offset < seg_next b Bs"
    and "read_loop s offset max_bytes (length pre) d = (r, d')"
  shows "same_disk d d' \<and>
    (case r of
       Inl e \<Rightarrow> st_code e = kIoError \<or>
         st_code e = kInvalidArgument \<and> (\<exists>(c, rs) \<in> set (batches_from b Bs).
            c \<le> offset \<and> max_bytes < length (batch_bytes c rs))
     | Inr v \<Rightarrow> \<exists>(c, rs) \<in> set (batches_from b Bs). holds_offset offset (c, rs) \<and> v = mk_batch c rs)"
  using assms
proof (induction Bs arbitrary: pre b d)
  case Nil
  then show ?case by simp
next
  case (Cons rs Bs)
  let ?bs = "batch_bytes b rs" and ?n = "b + int (length rs)"
  from Cons.prems(2) have ok: "batch_ok rs" "list_all batch_ok Bs" by simp_all
  have h: "seg_holds d s (pre @ ?bs @ seg_bytes ?n Bs)" using Cons.prems(1) by simp
  have b: "is_i64 b" using Cons.prems(3,4) seg_next_ge [of ?n Bs] by (simp add: is_i64_def)
  obtain x d1 where rd: "Segment_Read s (length pre) max_bytes d = (x, d1)"
    by (cases "Segment_Read s (length pre) max_bytes d")
  have "batch_fits rs" using ok(1) by (simp add: batch_ok_def)
  note sp = Segment_Read_spec [OF h Cons.prems(3) b this rd]
  have less: "length pre < sg_write_position s"
    using h by (simp add: seg_holds_def kRecordBatchHeaderBytes_def)
  note step = Cons.prems(7) [unfolded read_loop.simps [of s offset max_bytes "length pre" d]]
  show ?case
  proof (cases x)
    case (Inl e)
    with step less rd sp Cons.prems(5) show ?thesis by auto
  next
    case (Inr v)
    with sp have v: "v = mk_batch b rs" and same: "same_disk d d1" by auto
    note has = BatchContainsOffset_mk_batch [OF Cons.prems(3) ok(1), of offset]
    show ?thesis
    proof (cases "holds_offset offset (b, rs)")
      case True
      with step less rd Inr v has same show ?thesis by auto
    next
      case False
      with step less rd Inr v has unat_batch_bytes_mk_batch [OF ok(1), of b]
      have run: "read_loop s offset max_bytes (length (pre @ ?bs)) d1 = (r, d')"
        by (simp del: length_batch_bytes)
      from False Cons.prems(5) have "?n \<le> offset" by (auto simp: holds_offset_def)
      moreover have "seg_holds d1 s ((pre @ ?bs) @ seg_bytes ?n Bs)"
        using seg_holds_same [OF h same] by simp
      ultimately have "same_disk d1 d' \<and>
        (case r of
           Inl e \<Rightarrow> st_code e = kIoError \<or>
             st_code e = kInvalidArgument \<and> (\<exists>(c, rs) \<in> set (batches_from ?n Bs).
                c \<le> offset \<and> max_bytes < length (batch_bytes c rs))
         | Inr v \<Rightarrow> \<exists>(c, rs) \<in> set (batches_from ?n Bs). holds_offset offset (c, rs) \<and> v = mk_batch c rs)"
        using Cons.IH [OF _ ok(2) _ _ _ _ run] Cons.prems(3,4,6) by simp
      with same show ?thesis
        by (cases r) (auto intro: same_disk_trans)
    qed
  qed
qed

lemma chain_find:
  "chain b S e \<Longrightarrow> b \<le> offset \<Longrightarrow> offset < e \<Longrightarrow>
     \<exists>i base Bs. upper_bound (\<lambda>c. offset < c) (map fst S) = Suc i \<and> i < length S \<and>
       S ! i = (base, Bs) \<and> base \<le> offset \<and> offset < seg_next base Bs"
proof (induction b S e rule: chain.induct)
  case (2 b base Bs S e)
  then have base: "base \<le> offset" by simp
  show ?case
  proof (cases "offset < seg_next base Bs")
    case True
    with 2 base show ?thesis
      by (intro exI [of _ 0] exI [of _ base] exI [of _ Bs], cases S) (auto simp: upper_bound_def)
  next
    case False
    with 2 obtain i base' Bs' where
      "upper_bound (\<lambda>c. offset < c) (map fst S) = Suc i" "i < length S"
      "S ! i = (base', Bs')" "base' \<le> offset" "offset < seg_next base' Bs'"
      by auto
    with base show ?thesis
      by (intro exI [of _ "Suc i"] exI [of _ base'] exI [of _ Bs']) (auto simp: upper_bound_def)
  qed
qed simp

lemma segs_rep_bases: "segs_rep opts d ss ixs S \<Longrightarrow> map sg_base_offset ss = map fst S"
  using segs_rep_nth [of opts d ss ixs S] segs_rep_lengths [of opts d ss ixs S]
  by (intro nth_equalityI) (fastforce simp: seg_rep_def)+

lemma upper_bound_map: "upper_bound P (map f xs) = upper_bound (\<lambda>x. P (f x)) xs"
  by (simp add: upper_bound_def takeWhile_map comp_def)

lemma FindSegmentIndex_spec:
  assumes "segs_rep opts d (cl_segments cl) (cl_indexes cl) S" "chain first S next"
    and "first \<le> offset" "offset < next" "S \<noteq> []"
  obtains i base Bs where "FindSegmentIndex cl offset = Inr i" "i < length S" "S ! i = (base, Bs)"
    "base \<le> offset" "offset < seg_next base Bs"
proof -
  have ub: "upper_bound (\<lambda>s. offset < sg_base_offset s) (cl_segments cl) =
      upper_bound (\<lambda>c. offset < c) (map fst S)"
    by (simp add: segs_rep_bases [OF assms(1), symmetric] upper_bound_map)
  have "cl_segments cl \<noteq> []" using segs_rep_lengths [OF assms(1)] assms(5) by auto
  with ub chain_find [OF assms(2-4)] that show thesis
    by (auto simp: FindSegmentIndex_def)
qed

text \<open>Where the scan of \<^verbatim>\<open>Read\<close> starts: at the start of a batch at or before the offset.\<close>

definition floor_position :: "OffsetIndex \<Rightarrow> int \<Rightarrow> nat" where
  "floor_position ix offset =
     (case FindFloor ix offset of Inr e \<Rightarrow> ie_position e | Inl _ \<Rightarrow> 0)"

lemma FindFloor_boundary:
  assumes "seg_rep opts d (s, ix) (base, Bs)" "base \<le> offset"
  obtains As Cs where "Bs = As @ Cs" "floor_position ix offset = length (seg_bytes base As)"
    "seg_next base As \<le> offset"
proof (cases "FindFloor ix offset")
  case (Inl e)
  with assms(2) that [of "[]" Bs] show thesis by (simp add: floor_position_def)
next
  case (Inr e)
  from assms(1) have ix: "index_ok ix" "\<And>e. e \<in> set (ix_entries ix) \<Longrightarrow> entry_at base Bs e"
    by (simp_all add: seg_rep_def)
  from ix(2) [OF FindFloor_Inr(1) [OF ix(1) Inr]] FindFloor_Inr(2) [OF ix(1) Inr] Inr that
  show thesis by (auto simp: entry_at_def floor_position_def)
qed

lemma CommitLog_Read_scan:
  assumes "\<not> cl_closed cl" "0 \<le> offset" "offset < cl_next_offset cl"
    and "FindSegmentIndex cl offset = Inr i"
  shows "CommitLog_Read offset max_bytes (cl, d) =
    (let (r, d') = read_loop (cl_segments cl ! i) offset max_bytes
                     (floor_position (cl_indexes cl ! i) offset) d
     in (r, (cl, d')))"
  using assms
  by (auto simp: CommitLog_Read_def Let_def floor_position_def dest: FindFloor_NotFound split: sum.splits)

text \<open>\<^verbatim>\<open>Read\<close> of an offset the log has.\<close>

lemma CommitLog_Read_refines:
  assumes rep: "log_rep (cl, d) first S" and off: "first \<le> offset" "offset < cl_next_offset cl"
    and run: "CommitLog_Read offset max_bytes (cl, d) = (r, (cl', d'))"
  shows "cl' = cl \<and> log_rep (cl, d') first S \<and>
    (case r of
       Inl e \<Rightarrow> st_code e = kIoError \<or>
         st_code e = kInvalidArgument \<and> (\<exists>(c, rs) \<in> set (log_batches S).
            c \<le> offset \<and> max_bytes < length (batch_bytes c rs))
     | Inr v \<Rightarrow> \<exists>(c, rs) \<in> set (log_batches S). holds_offset offset (c, rs) \<and> v = mk_batch c rs)"
proof -
  let ?o = "cl_options cl" and ?n = "cl_next_offset cl"
  from rep have inv: "\<not> cl_closed cl" "S \<noteq> []" "0 \<le> first" "chain first S ?n" "?n \<le> i64_max"
    "segs_rep ?o d (cl_segments cl) (cl_indexes cl) S"
    by (simp_all add: log_rep_def)
  from FindSegmentIndex_spec [OF inv(6,4) off inv(2)] obtain i base Bs where
    find: "FindSegmentIndex cl offset = Inr i" "i < length S" "S ! i = (base, Bs)"
    and o: "base \<le> offset" "offset < seg_next base Bs" .
  let ?s = "cl_segments cl ! i" and ?ix = "cl_indexes cl ! i"
  have mem: "(base, Bs) \<in> set S" using find(2,3) by (metis nth_mem)
  have "first \<le> base" "seg_next base Bs \<le> ?n"
    using chain_bases [OF inv(4) _ mem] segs_rep_batch_ok [OF inv(6)] by auto
  with inv(3,5) have bounds: "0 \<le> base" "seg_next base Bs \<le> i64_max" by simp_all
  from segs_rep_nth [OF inv(6) find(2)] find(3) have sr: "seg_rep ?o d (?s, ?ix) (base, Bs)" by simp
  then have h: "seg_holds d ?s (seg_bytes base Bs)" and bs: "list_all batch_ok Bs"
    by (simp_all add: seg_rep_def)
  define pos where "pos = floor_position ?ix offset"
  from FindFloor_boundary [OF sr o(1)] obtain As Cs where A: "Bs = As @ Cs"
    "pos = length (seg_bytes base As)" "seg_next base As \<le> offset" unfolding pos_def .
  obtain r1 d1 where rl: "read_loop ?s offset max_bytes pos d = (r1, d1)"
    by (cases "read_loop ?s offset max_bytes pos d")
  have "0 \<le> seg_next base As" using bounds(1) seg_next_ge [of base As] by simp
  with read_loop_spec [of d ?s "seg_bytes base As" "seg_next base As" Cs offset max_bytes r1 d1]
    h bs bounds o A rl
  have spec: "same_disk d d1" "case r1 of
       Inl e \<Rightarrow> st_code e = kIoError \<or>
         st_code e = kInvalidArgument \<and> (\<exists>(c, rs) \<in> set (batches_from (seg_next base As) Cs).
            c \<le> offset \<and> max_bytes < length (batch_bytes c rs))
     | Inr v \<Rightarrow> \<exists>(c, rs) \<in> set (batches_from (seg_next base As) Cs).
         holds_offset offset (c, rs) \<and> v = mk_batch c rs"
    by simp_all
  have "(r, (cl', d')) = (r1, (cl, d1))"
    using run off inv(3) rl CommitLog_Read_scan [OF inv(1) _ off(2) find(1), of max_bytes d]
    by (simp add: pos_def)
  moreover have "set (batches_from (seg_next base As) Cs) \<subseteq> set (log_batches S)"
    using mem A(1) by (force simp: log_batches_def)
  ultimately show ?thesis
    using spec log_rep_same_logs [OF rep same_disk_logs [OF spec(1)]]
    by (auto split: sum.splits)
qed

lemma CommitLog_Read_end:
  assumes "log_rep (cl, d) first S" "cl_next_offset cl \<le> offset"
  shows "CommitLog_Read offset max_bytes (cl, d) =
    (Inl (NotFound ''commit log offset is not readable''), (cl, d))"
  using assms chain_mono [of first S "cl_next_offset cl"]
  by (auto simp: CommitLog_Read_def log_rep_def)

end
