(* ===== verification/LogFrame.thy ===== *)
theory LogFrame
  imports CommitLog_Refines
begin

text \<open>
  What a commit log leaves alone: every operation changes only files in its own directory,
  whatever the system calls do and whatever the files hold. Two logs in different
  directories therefore do not disturb each other, which is what lets the broker keep one
  log for each partition on one disk.
\<close>

definition in_dir :: "path \<Rightarrow> path \<Rightarrow> bool" where
  "in_dir dir p \<longleftrightarrow> p \<noteq> [] \<and> butlast p = dir"

definition only_in :: "path \<Rightarrow> Disk \<Rightarrow> Disk \<Rightarrow> bool" where
  "only_in dir d d' \<longleftrightarrow> (\<forall>p. \<not> in_dir dir p \<longrightarrow> d_lookup d' p = d_lookup d p)"

lemma only_in_refl [simp]: "only_in dir d d"
  by (simp add: only_in_def)

lemma only_in_trans [trans]: "only_in dir a b \<Longrightarrow> only_in dir b c \<Longrightarrow> only_in dir a c"
  by (simp add: only_in_def)

lemma same_disk_only_in: "same_disk d d' \<Longrightarrow> only_in dir d d'"
  by (simp add: only_in_def same_disk_def)

lemma same_except_only_in: "same_except p d d' \<Longrightarrow> in_dir dir p \<Longrightarrow> only_in dir d d'"
  by (auto simp: only_in_def same_except_def)

lemma same_dirs_only_in: "d_files d' = d_files d \<Longrightarrow> only_in dir d d'"
  by (simp add: only_in_def d_lookup_def)

lemmas only_in_intros = same_disk_only_in same_except_only_in

lemma in_dir_paths [simp]:
  "in_dir (clo_data_dir opts) (SegmentPath opts n)" "in_dir (clo_data_dir opts) (IndexPath opts n)"
  by (simp_all add: in_dir_def SegmentPath_def IndexPath_def)

section \<open>Segments\<close>

definition seg_in :: "path \<Rightarrow> Segment \<Rightarrow> bool" where
  "seg_in dir s \<longleftrightarrow> in_dir dir (sg_path s) \<and> f_path (sg_file s) = sg_path s"

lemma WriteAll_same_except: "WriteAll p data off w d = (r, d') \<Longrightarrow> same_except p d d'"
proof (induction p data off w d rule: WriteAll.induct)
  case (1 p data off w d)
  show ?case
  proof (cases "w < length data")
    case False
    with "1.prems" show ?thesis by (simp add: WriteAll.simps [of p data off w d])
  next
    case True
    obtain x d1 where c: "sys_pwrite p (drop w data) (off + w) d = (x, d1)" by force
    have s: "same_except p d d1" using sys_pwrite_cases [OF c] by blast
    show ?thesis
    proof (cases x)
      case (Inl e)
      with "1.prems" True c s "1.IH"(1) [OF True c [symmetric] Inl] show ?thesis
        by (auto simp: WriteAll.simps [of p data off w d] split: if_splits intro: same_except_trans)
    next
      case (Inr n)
      with "1.prems" True c s "1.IH"(2) [OF True c [symmetric] Inr] show ?thesis
        by (auto simp: WriteAll.simps [of p data off w d] split: if_splits intro: same_except_trans)
    qed
  qed
qed

lemma Segment_Open_in:
  assumes "Segment_Open p base d = (r, d')" "in_dir dir p"
  shows "only_in dir d d' \<and> (\<forall>s. r = Inr s \<longrightarrow> seg_in dir s)"
  using Segment_Open_spec [OF assms(1)] assms(2)
  by (auto simp: seg_in_def seg_holds_def seg_open_def intro: same_except_only_in)

lemma Segment_Append_in:
  assumes "Segment_Append batch (s, d) = (r, (s', d'))" "seg_in dir s"
  shows "only_in dir d d' \<and> seg_in dir s'"
  using assms
  by (auto simp: Segment_Append_def File_PWrite_def seg_in_def Let_def
      split: if_splits sum.splits prod.splits dest!: WriteAll_same_except intro: same_except_only_in)

lemma Segment_Read_same: "Segment_Read s pos m d = (r, d') \<Longrightarrow> same_disk d d'"
  by (auto simp: Segment_Read_def split: if_splits sum.splits prod.splits
      dest!: File_PRead_spec(1) intro: same_disk_trans)

lemma read_loop_same: "read_loop s off m pos d = (r, d') \<Longrightarrow> same_disk d d'"
proof (induction s off m pos d rule: read_loop.induct)
  case (1 s off m pos d)
  obtain x d1 where rd: "Segment_Read s pos m d = (x, d1)" by force
  with Segment_Read_same have s: "same_disk d d1" by blast
  show ?case
  proof (cases "pos < sg_write_position s")
    case False
    with "1.prems" show ?thesis by (simp add: read_loop.simps [of s off m pos d])
  next
    case True
    show ?thesis
    proof (cases x)
      case (Inl e)
      with "1.prems" True rd s show ?thesis by (simp add: read_loop.simps [of s off m pos d])
    next
      case (Inr b)
      with "1.prems" True rd s "1.IH" [OF True rd [symmetric] Inr] show ?thesis
        by (auto simp: read_loop.simps [of s off m pos d] split: if_splits intro: same_disk_trans)
    qed
  qed
qed

lemma CommitLog_Read_same:
  assumes "CommitLog_Read off m (cl, d) = (r, (cl', d'))"
  shows "cl' = cl \<and> same_disk d d'"
  using assms
  by (auto simp: CommitLog_Read_def Let_def split: if_splits sum.splits prod.splits dest!: read_loop_same)

section \<open>Logs\<close>

definition paths_in :: "CommitLog \<Rightarrow> bool" where
  "paths_in cl \<longleftrightarrow> (\<forall>s \<in> set (cl_segments cl). seg_in (clo_data_dir (cl_options cl)) s) \<and>
     (\<forall>ix \<in> set (cl_indexes cl). in_dir (clo_data_dir (cl_options cl)) (ix_path ix))"

definition log_in :: "CommitLog \<Rightarrow> bool" where
  "log_in cl \<longleftrightarrow> paths_in cl \<and> cl_segments cl \<noteq> [] \<and> cl_indexes cl \<noteq> []"

lemma Rewrite_in: "Rewrite ix d = (r, d') \<Longrightarrow> in_dir dir (ix_path ix) \<Longrightarrow> only_in dir d d'"
  using Rewrite_spec(1) same_except_only_in by blast

lemma RollSegment_in:
  assumes "RollSegment base (cl, d) = (r, (cl', d'))" "paths_in cl"
  shows "only_in (clo_data_dir (cl_options cl)) d d' \<and> cl_options cl' = cl_options cl \<and> paths_in cl' \<and>
    (r = Inr () \<or> log_in cl \<longrightarrow> log_in cl')"
proof -
  let ?dir = "clo_data_dir (cl_options cl)"
  let ?ix = "mk_OffsetIndex (IndexPath (cl_options cl) base) base (clo_index_interval_bytes (cl_options cl))"
  obtain x d1 where o: "Segment_Open (SegmentPath (cl_options cl) base) base d = (x, d1)" by force
  have op: "only_in ?dir d d1" "\<And>s. x = Inr s \<Longrightarrow> seg_in ?dir s" using Segment_Open_in [OF o] by simp_all
  show ?thesis
  proof (cases x)
    case (Inl e)
    with assms o op show ?thesis by (auto simp: RollSegment_def)
  next
    case (Inr s)
    obtain y d2 where w: "Rewrite ?ix d1 = (y, d2)" by force
    have "only_in ?dir d1 d2" using Rewrite_in [OF w] by (simp add: mk_OffsetIndex_def)
    with op(1) have "only_in ?dir d d2" by (rule only_in_trans)
    moreover have "seg_in ?dir s" using op(2) Inr by blast
    ultimately show ?thesis using assms o Inr w
      by (auto simp: RollSegment_def Let_def paths_in_def log_in_def mk_OffsetIndex_def split: prod.splits)
  qed
qed

lemma MaybeAppend_path: "ix_path (snd (MaybeAppend off pos ix)) = ix_path ix"
  by (auto simp: MaybeAppend_def Let_def split: prod.splits)

lemma paths_in_last:
  assumes "log_in cl"
  shows "seg_in (clo_data_dir (cl_options cl)) (last (cl_segments cl))"
    "in_dir (clo_data_dir (cl_options cl)) (ix_path (last (cl_indexes cl)))"
    "\<And>s. seg_in (clo_data_dir (cl_options cl)) s \<Longrightarrow> log_in (cl\<lparr>cl_segments := butlast (cl_segments cl) @ [s]\<rparr>)"
  using assms by (auto simp: log_in_def paths_in_def dest: in_set_butlastD)

lemma append_to_last_in:
  assumes "append_to_last batch (cl, d) = (r, (cl', d'))" "log_in cl"
  shows "only_in (clo_data_dir (cl_options cl)) d d' \<and> cl_options cl' = cl_options cl \<and> log_in cl'"
proof -
  obtain x s1 d1 where a: "Segment_Append batch (last (cl_segments cl), d) = (x, (s1, d1))"
    by (metis prod_cases3)
  note l = paths_in_last [OF assms(2)]
  have s: "only_in (clo_data_dir (cl_options cl)) d d1" "seg_in (clo_data_dir (cl_options cl)) s1"
    using Segment_Append_in [OF a l(1)] by simp_all
  have set: "log_in (cl\<lparr>cl_segments := butlast (cl_segments cl) @ [s1]\<rparr>)" by (rule l(3) [OF s(2)])
  have idx: "log_in (cl\<lparr>cl_segments := butlast (cl_segments cl) @ [s1],
      cl_indexes := butlast (cl_indexes cl) @ [ix]\<rparr>)"
    "log_in (cl\<lparr>cl_segments := butlast (cl_segments cl) @ [s1],
      cl_indexes := butlast (cl_indexes cl) @ [ix], cl_next_offset := n\<rparr>)"
    if "ix_path ix = ix_path (last (cl_indexes cl))" for ix n
    using set that l(2) by (auto simp: log_in_def paths_in_def dest: in_set_butlastD)
  define y where "y pos = fst (MaybeAppend (rb_base_offset batch) pos (last (cl_indexes cl)))" for pos
  define ix where "ix pos = snd (MaybeAppend (rb_base_offset batch) pos (last (cl_indexes cl)))" for pos
  have m: "MaybeAppend (rb_base_offset batch) pos (last (cl_indexes cl)) = (y pos, ix pos)" for pos
    by (simp add: y_def ix_def)
  have ixp: "ix_path (ix pos) = ix_path (last (cl_indexes cl))" for pos
    using MaybeAppend_path [of "rb_base_offset batch" pos "last (cl_indexes cl)"] by (simp add: m)
  show ?thesis
    using assms(1) a s(1) set idx(1) [OF ixp] idx(2) [OF ixp]
    by (auto simp: append_to_last_def Let_def m split: sum.splits)
qed

lemma CommitLog_Append_in:
  assumes "CommitLog_Append rs (cl, d) = (r, (cl', d'))" "log_in cl"
  shows "only_in (clo_data_dir (cl_options cl)) d d' \<and> cl_options cl' = cl_options cl \<and> paths_in cl' \<and> log_in cl'"
proof -
  consider "cl' = cl" "d' = d" | b where "append_to_last b (cl, d) = (r, (cl', d'))"
    | b where "sbind (RollSegment (rb_base_offset b)) (\<lambda>_. append_to_last b) (cl, d) = (r, (cl', d'))"
    using assms(1) by (auto simp: CommitLog_Append_def Let_def split: if_splits sum.splits)
  then show ?thesis
  proof cases
    case 1
    with assms(2) show ?thesis by (simp add: log_in_def)
  next
    case 2
    from append_to_last_in [OF this assms(2)] show ?thesis by (simp add: log_in_def)
  next
    case (3 b)
    have p: "paths_in cl" using assms(2) by (simp add: log_in_def)
    from 3 show ?thesis
    proof (cases rule: sbind_casesE)
      case (err e)
      from RollSegment_in [OF err(1) p] assms(2) show ?thesis by simp
    next
      case (val u st)
      obtain cl1 d1 where st: "st = (cl1, d1)" by force
      from RollSegment_in [OF val(1) [unfolded st] p] have
        a: "only_in (clo_data_dir (cl_options cl)) d d1" "cl_options cl1 = cl_options cl" "log_in cl1" by auto
      from append_to_last_in [OF val(2) [unfolded st] a(3)] a show ?thesis
        by (auto simp: log_in_def intro: only_in_trans)
    qed
  qed
qed

text \<open>A loop of steps that each keep a reflexive and transitive relation keeps it.\<close>

lemma for_status_rel:
  assumes "for_status f xs s = (r, s')" "\<And>s. R s s" "\<And>a b c. R a b \<Longrightarrow> R b c \<Longrightarrow> R a c"
    and "\<And>x s r s'. x \<in> set xs \<Longrightarrow> f x s = (r, s') \<Longrightarrow> R s s'"
  shows "R s s'"
  using assms(1,4)
proof (induction xs arbitrary: s)
  case Nil
  with assms(2) show ?case by simp
next
  case (Cons x xs)
  from Cons.prems(1) show ?case unfolding for_status.simps
  proof (cases rule: sbind_casesE)
    case (err e)
    then show ?thesis using Cons.prems(2) [OF _ err(1)] by simp
  next
    case (val u t)
    have "R s t" using Cons.prems(2) [OF _ val(1)] by simp
    moreover have "R t s'" using Cons.IH [OF val(2)] Cons.prems(2) by (metis list.set_intros(2))
    ultimately show ?thesis by (rule assms(3))
  qed
qed

lemma CommitLog_Flush_in:
  assumes "CommitLog_Flush (cl, d) = (r, (cl', d'))" "paths_in cl"
  shows "only_in (clo_data_dir (cl_options cl)) d d' \<and> cl' = cl"
proof -
  let ?R = "only_in (clo_data_dir (cl_options cl))"
  have one: "?R d d'" if "for_status Segment_Flush (cl_segments cl) d = (r, d')" for d r d'
    using that by (rule for_status_rel)
      (auto simp: Segment_Flush_def intro: only_in_trans same_disk_only_in dest: File_Fsync_same)
  have two: "?R d d'" if "for_status Rewrite (cl_indexes cl) d = (r, d')" for d r d'
    using that
    by (rule for_status_rel) (use assms(2) in \<open>auto simp: paths_in_def intro: only_in_trans Rewrite_in\<close>)
  show ?thesis
  proof (cases "cl_closed cl")
    case True
    with assms(1) show ?thesis by (simp add: CommitLog_Flush_def)
  next
    case False
    obtain x e where run: "sbind (for_status Segment_Flush (cl_segments cl))
        (\<lambda>_. for_status Rewrite (cl_indexes cl)) d = (x, e)" by force
    then have "?R d e"
    proof (cases rule: sbind_casesE)
      case (err y)
      then show ?thesis by (blast intro: one)
    next
      case (val u t)
      then show ?thesis by (blast intro: only_in_trans one two)
    qed
    with False run assms(1) show ?thesis by (simp add: CommitLog_Flush_def)
  qed
qed

section \<open>Opening a log\<close>

lemma tail_check_in:
  assumes "tail_check strict act s pos rem e d = (r, d')" "seg_in dir s"
  shows "only_in dir d d'"
proof -
  obtain x d1 where o: "File_Open (sg_path s) ReadOnly d = (x, d1)" by force
  have o1: "only_in dir d d1" using File_Open_spec(1) [OF o] assms(2)
    by (auto simp: seg_in_def intro: same_except_only_in)
  show ?thesis
  proof (cases x)
    case (Inl e')
    with assms(1) o o1 show ?thesis by (auto simp: tail_check_def split: if_splits)
  next
    case (Inr f)
    obtain y d2 where p: "File_PRead f kRecordBatchHeaderBytes pos d1 = (y, d2)" by force
    have "only_in dir d d2" using only_in_trans [OF o1 same_disk_only_in [OF File_PRead_spec(1) [OF p]]] .
    then have "only_in dir d (File_destroy f d2)"
      using only_in_trans same_disk_only_in File_destroy_same by blast
    with assms(1) o Inr p show ?thesis
      by (auto simp: tail_check_def split: if_splits sum.splits)
  qed
qed

lemma recover_loop_in:
  assumes "recover_loop opts act s n pos off ix d = (r, (ix', d'))" "seg_in dir s"
  shows "only_in dir d d' \<and> ix_path ix' = ix_path ix"
  using assms
proof (induction opts act s n pos off ix d arbitrary: r ix' d' rule: recover_loop.induct)
  case (1 opts act s n pos off ix d)
  note unfold = recover_loop.simps [of opts act s n pos off ix d]
  show ?case
  proof (cases "pos < n \<and> \<not> n - pos > u64_max")
    case False
    with "1.prems" show ?thesis unfolding unfold by (auto simp: Let_def split: if_splits)
  next
    case True
    then have T: "pos < n" "\<not> n - pos > u64_max" by simp_all
    obtain x d1 where rd: "Segment_Read s pos (n - pos) d = (x, d1)" by force
    have d1: "only_in dir d d1" using Segment_Read_same [OF rd] by (rule same_disk_only_in)
    show ?thesis
    proof (cases x)
      case (Inl e)
      obtain y d2 where t: "tail_check (clo_strict_recovery opts) act s pos (n - pos) e d1 = (y, d2)" by force
      have "only_in dir d d2" using only_in_trans [OF d1 tail_check_in [OF t "1.prems"(2)]] .
      with "1.prems"(1) T rd Inl t show ?thesis unfolding unfold by (auto split: sum.splits)
    next
      case (Inr b)
      obtain y ix1 where m: "MaybeAppend (rb_base_offset b) pos ix = (y, ix1)" by force
      have ix1: "ix_path ix1 = ix_path ix" using MaybeAppend_path [of "rb_base_offset b" pos ix] m by simp
      show ?thesis
      proof (cases y)
        case (Inl e)
        with "1.prems"(1) T rd Inr m d1 ix1 show ?thesis unfolding unfold by auto
      next
        case y: (Inr u)
        have "recover_loop opts act s n (pos + unat (rb_batch_bytes b))
            (max off (rb_base_offset b + sint (rb_record_count b))) ix1 d1 = (r, (ix', d'))"
          using "1.prems"(1) T rd Inr m y unfolding unfold by simp
        from "1.IH" [OF T(1) refl T(2) rd [symmetric] Inr m [symmetric] y this "1.prems"(2)] d1 ix1
        show ?thesis by (auto intro: only_in_trans)
      qed
    qed
  qed
qed

lemma RecoverSegment_in:
  assumes "RecoverSegment opts act (s, ix, d) = (r, (s', ix', d'))" "seg_in dir s" "in_dir dir (ix_path ix)"
  shows "only_in dir d d' \<and> seg_in dir s' \<and> ix_path ix' = ix_path ix"
proof -
  let ?n = "sg_write_position s"
  obtain x ix1 d1 where l: "recover_loop opts act s ?n 0 (sg_base_offset s) (OffsetIndex_Clear ix) d = (x, (ix1, d1))"
    by (metis prod_cases3)
  have l1: "only_in dir d d1" "ix_path ix1 = ix_path ix"
    using recover_loop_in [OF l assms(2)] by (simp_all add: OffsetIndex_Clear_def)
  show ?thesis
  proof (cases x)
    case (Inl e)
    with assms l l1 show ?thesis by (auto simp: RecoverSegment_def Let_def)
  next
    case (Inr v)
    obtain pos off where v: "v = (pos, off)" by force
    obtain y s2 d2 where t: "(if pos \<noteq> ?n then Segment_Truncate pos (s, d1) else (Inr (), (s, d1))) = (y, (s2, d2))"
      by (metis prod_cases3)
    have t1: "only_in dir d d2" "seg_in dir s2"
    proof -
      have "only_in dir d1 d2 \<and> seg_in dir s2"
        using t assms(2)
        by (auto simp: Segment_Truncate_def seg_in_def Let_def split: if_splits sum.splits prod.splits
            dest!: File_Truncate_spec(1) intro: same_except_only_in)
      with l1(1) show "only_in dir d d2" "seg_in dir s2" by (auto intro: only_in_trans)
    qed
    obtain z d3 where w: "Rewrite ix1 d2 = (z, d3)" by force
    have "only_in dir d d3" using only_in_trans [OF t1(1) Rewrite_in [OF w]] l1(2) assms(3) by simp
    with assms(1) l Inr v t t1 l1 w show ?thesis
      by (auto simp: RecoverSegment_def Let_def split: sum.splits)
  qed
qed

lemma load_segments_in:
  assumes "load_segments lp logs (cl, d) = (r, (cl', d'))" "paths_in cl"
    and "\<forall>(b, p) \<in> set logs. in_dir (clo_data_dir (cl_options cl)) p"
      "length (cl_segments cl) = length (cl_indexes cl)"
  shows "only_in (clo_data_dir (cl_options cl)) d d' \<and> cl_options cl' = cl_options cl \<and> paths_in cl' \<and>
    length (cl_segments cl') = length (cl_indexes cl')"
  using assms
proof (induction logs arbitrary: cl d)
  case (Cons bp logs)
  obtain b p where bp: "bp = (b, p)" by force
  let ?dir = "clo_data_dir (cl_options cl)"
  let ?ix = "mk_OffsetIndex (IndexPath (cl_options cl) b) b (clo_index_interval_bytes (cl_options cl))"
  obtain x d1 where o: "Segment_Open p b d = (x, d1)" by force
  have o1: "only_in ?dir d d1" "\<And>s. x = Inr s \<Longrightarrow> seg_in ?dir s"
    using Segment_Open_in [OF o, of ?dir] Cons.prems(3) by (auto simp: bp)
  show ?case
  proof (cases x)
    case (Inl e)
    with Cons.prems o o1 bp show ?thesis by (auto simp: Let_def)
  next
    case (Inr s)
    obtain y s2 ix2 d2 where rec: "RecoverSegment (cl_options cl) (p = lp) (s, ?ix, d1) = (y, (s2, ix2, d2))"
      by (metis prod_cases4)
    have r1: "only_in ?dir d1 d2" "seg_in ?dir s2" "ix_path ix2 = IndexPath (cl_options cl) b"
      using RecoverSegment_in [OF rec o1(2) [OF Inr]] by (simp_all add: mk_OffsetIndex_def)
    have d2: "only_in ?dir d d2" using o1(1) r1(1) by (rule only_in_trans)
    show ?thesis
    proof (cases y)
      case (Inl e)
      with Cons.prems o Inr rec d2 bp show ?thesis by (auto simp: Let_def)
    next
      case y: (Inr n)
      let ?cl = "cl\<lparr>cl_next_offset := max (cl_next_offset cl) n, cl_segments := cl_segments cl @ [s2],
        cl_indexes := cl_indexes cl @ [ix2]\<rparr>"
      have "load_segments lp logs (?cl, d2) = (r, (cl', d'))"
        using Cons.prems(1) o Inr rec y bp by (simp add: Let_def)
      moreover have "paths_in ?cl" using Cons.prems(2) r1 by (simp add: paths_in_def)
      ultimately show ?thesis using Cons.IH [of ?cl d2] Cons.prems(3,4) d2 by (auto intro: only_in_trans)
    qed
  qed
qed simp

lemma list_logs_in: "(b, p) \<in> set (list_logs opts d) \<Longrightarrow> in_dir (clo_data_dir opts) p"
  by (auto simp: list_logs_def in_dir_def List.map_filter_def split: if_splits)

lemma LoadOrCreateSegments_in:
  assumes "LoadOrCreateSegments (cl, d) = (r, (cl', d'))" "cl_segments cl = []" "cl_indexes cl = []"
  shows "only_in (clo_data_dir (cl_options cl)) d d' \<and> cl_options cl' = cl_options cl \<and>
    (r = Inr () \<longrightarrow> log_in cl')"
proof -
  have p: "paths_in cl" using assms(2,3) by (simp add: paths_in_def)
  let ?logs = "list_logs (cl_options cl) d"
  show ?thesis
  proof (cases "?logs = []")
    case True
    with assms(1) have "RollSegment 0 (cl, d) = (r, (cl', d'))" by (simp add: LoadOrCreateSegments_def)
    from RollSegment_in [OF this p] show ?thesis by blast
  next
    case False
    with assms(1) have run: "sbind (load_segments (snd (last ?logs)) ?logs) (\<lambda>_ (cl, d).
        if cl_segments cl = [] then RollSegment 0 (cl, d) else (Inr (), (cl, d))) (cl, d) = (r, (cl', d'))"
      by (simp add: LoadOrCreateSegments_def Let_def)
    have in_logs: "\<forall>(b, p) \<in> set ?logs. in_dir (clo_data_dir (cl_options cl)) p"
      using list_logs_in by blast
    have len: "length (cl_segments cl) = length (cl_indexes cl)" using assms(2,3) by simp
    from run show ?thesis
    proof (cases rule: sbind_casesE)
      case (err e)
      from load_segments_in [OF err(1) p in_logs len] err(2) show ?thesis by simp
    next
      case (val u st)
      obtain cl1 d1 where st: "st = (cl1, d1)" by force
      from load_segments_in [OF val(1) [unfolded st] p in_logs len] have
        l: "only_in (clo_data_dir (cl_options cl)) d d1" "cl_options cl1 = cl_options cl" "paths_in cl1"
          "length (cl_segments cl1) = length (cl_indexes cl1)" by simp_all
      show ?thesis
      proof (cases "cl_segments cl1 = []")
        case True
        with val(2) st have "RollSegment 0 (cl1, d1) = (r, (cl', d'))" by simp
        from RollSegment_in [OF this l(3)] l show ?thesis by (auto intro: only_in_trans)
      next
        case False
        with val(2) st l show ?thesis by (auto simp: log_in_def)
      qed
    qed
  qed
qed

lemma create_directories_files: "create_directories p d = (r, d') \<Longrightarrow> d_lookup d' = d_lookup d"
  by (auto simp: create_directories_def next_ret_def d_lookup_def Let_def split: list.splits sysret.splits if_splits)

lemma CommitLog_Open_in:
  assumes "CommitLog_Open opts d = (r, d')"
  shows "only_in (clo_data_dir opts) d d' \<and>
    (\<forall>cl. r = Inr cl \<longrightarrow> log_in cl \<and> clo_data_dir (cl_options cl) = clo_data_dir opts)"
proof -
  let ?o = "if clo_index_interval_bytes opts = 0 then opts\<lparr>clo_index_interval_bytes := 1\<rparr> else opts"
  have dir: "clo_data_dir ?o = clo_data_dir opts" by simp
  obtain x d1 where c: "create_directories (clo_data_dir opts) d = (x, d1)" by force
  have d1: "only_in (clo_data_dir opts) d d1" using create_directories_files [OF c] by (simp add: only_in_def)
  obtain y cl d2 where l: "LoadOrCreateSegments (mk_CommitLog ?o, d1) = (y, (cl, d2))" by (metis prod_cases3)
  have l1: "only_in (clo_data_dir opts) d1 d2" "clo_data_dir (cl_options cl) = clo_data_dir opts"
      "y = Inr () \<Longrightarrow> log_in cl"
    using LoadOrCreateSegments_in [OF l] dir by (simp_all add: mk_CommitLog_def)
  have d2: "only_in (clo_data_dir opts) d d2" using d1 l1(1) by (rule only_in_trans)
  have l': "LoadOrCreateSegments (mk_CommitLog (opts\<lparr>clo_index_interval_bytes := 1\<rparr>), d1) = (y, (cl, d2))"
    if "clo_index_interval_bytes opts = 0" using l that by simp
  have "log_in (cl\<lparr>cl_closed := False\<rparr>)" if "y = Inr ()"
    using l1(3) [OF that] by (simp add: log_in_def paths_in_def)
  then show ?thesis using assms c l l' d1 d2 l1(2)
    by (auto simp: CommitLog_Open_def Let_def split: if_splits sum.splits)
qed

end
