(* ===== verification/LogInterface.thy ===== *)
theory LogInterface
  imports CommitLog_Refines
begin

text \<open>
  The contract of a partition log as its clients (the topic manager and the broker's
  produce and fetch handlers) rely on it, as a locale, and its consequences for every
  sequence of appends and reads: records get dense offsets in the order of the appends,
  and what was appended under an offset is what every later successful read of that offset
  returns. The commit log is an interpretation.
\<close>

section \<open>The contract\<close>

text \<open>Batches that follow each other without gaps, from one offset to another.\<close>

fun dense :: "int \<Rightarrow> (int \<times> Record list) list \<Rightarrow> int \<Rightarrow> bool" where
  "dense b [] e \<longleftrightarrow> b = e"
| "dense b (x # L) e \<longleftrightarrow> fst x = b \<and> snd x \<noteq> [] \<and> dense (b + int (length (snd x))) L e"

datatype log_op = Append "Record list" | Read int nat

locale append_log =
  fixes rep :: "'s \<Rightarrow> int \<Rightarrow> (int \<times> Record list) list \<Rightarrow> int \<Rightarrow> bool"
    and append :: "Record list \<Rightarrow> 's \<Rightarrow> AppendResult Result \<times> 's"
    and read :: "int \<Rightarrow> nat \<Rightarrow> 's \<Rightarrow> RecordBatch Result \<times> 's"
    and fits :: "Record list \<Rightarrow> bool"
  assumes rep_dense: "rep s b L n \<Longrightarrow> dense b L n"
    and append_ok: "rep s b L n \<Longrightarrow> fits rs \<Longrightarrow> append rs s = (Inr a, s') \<Longrightarrow>
      rep s' b (L @ [(n, rs)]) (n + int (length rs)) \<and> ar_base_offset a = n"
    and append_err: "rep s b L n \<Longrightarrow> fits rs \<Longrightarrow> append rs s = (Inl e, s') \<Longrightarrow> rep s' b L n"
    and read_keeps: "rep s b L n \<Longrightarrow> read off m s = (r, s') \<Longrightarrow> rep s' b L n"
    and read_ok: "rep s b L n \<Longrightarrow> read off m s = (Inr v, s') \<Longrightarrow>
      \<exists>x \<in> set L. holds_offset off x \<and> v = mk_batch (fst x) (snd x)"
begin

definition step :: "log_op \<Rightarrow> 's \<Rightarrow> 's" where
  "step op s = (case op of Append rs \<Rightarrow> snd (append rs s) | Read off m \<Rightarrow> snd (read off m s))"

definition op_fits :: "log_op \<Rightarrow> bool" where
  "op_fits op = (case op of Append rs \<Rightarrow> fits rs | Read _ _ \<Rightarrow> True)"

lemma step_extends:
  assumes "rep s b L n" "op_fits op"
  shows "\<exists>L' n'. rep (step op s) b (L @ L') n'"
proof (cases op)
  case (Append rs)
  with assms(2) have f: "fits rs" by (simp add: op_fits_def)
  obtain r s' where run: "append rs s = (r, s')" by (cases "append rs s")
  then have st: "step op s = s'" by (simp add: step_def Append)
  show ?thesis
  proof (cases r)
    case (Inl e)
    with append_err [OF assms(1) f] run have "rep s' b (L @ []) n" by simp
    with st show ?thesis by blast
  next
    case (Inr a)
    with append_ok [OF assms(1) f] run st show ?thesis by blast
  qed
next
  case (Read off m)
  obtain r s' where run: "read off m s = (r, s')" by (cases "read off m s")
  from read_keeps [OF assms(1) this] have "rep s' b (L @ []) n" by simp
  moreover have "step op s = s'" using run Read by (simp add: step_def)
  ultimately show ?thesis by blast
qed

lemma steps_extend:
  assumes "rep s b L n" "list_all op_fits ops"
  shows "\<exists>L' n'. rep (fold step ops s) b (L @ L') n'"
  using assms
proof (induction ops arbitrary: s L n)
  case Nil
  then show ?case by (intro exI [of _ "[]"]) auto
next
  case (Cons op ops)
  from Cons.prems(2) have ok: "op_fits op" "list_all op_fits ops" by simp_all
  from step_extends [OF Cons.prems(1) ok(1)] obtain L1 n1 where
    "rep (step op s) b (L @ L1) n1" by blast
  from Cons.IH [OF this ok(2)] show ?case by auto
qed

lemma dense_bounds:
  "dense b L e \<Longrightarrow> b \<le> e \<and> (\<forall>x \<in> set L. b \<le> fst x \<and> fst x + int (length (snd x)) \<le> e)"
  by (induction b L e rule: dense.induct) fastforce+

lemma dense_unique:
  assumes "dense b L e" "x \<in> set L" "y \<in> set L" "holds_offset off x" "holds_offset off y"
  shows "x = y"
  using assms
proof (induction b L e rule: dense.induct)
  case (2 b z L e)
  then have rest: "dense (b + int (length (snd z))) L e" by simp
  have "fst z = b" using 2 by simp
  with dense_bounds [OF rest] have "\<forall>w \<in> set L. holds_offset off w \<longrightarrow> \<not> holds_offset off z"
    by (force simp: holds_offset_def)
  with 2 rest show ?case by (metis set_ConsD)
qed simp

theorem durable:
  assumes "rep s b L n" "fits rs" "append rs s = (Inr a, s1)" "list_all op_fits ops"
    and "i < length rs" "read (ar_base_offset a + int i) m (fold step ops s1) = (Inr v, s2)"
  shows "v = mk_batch (ar_base_offset a) rs"
proof -
  from append_ok [OF assms(1-3)] have a: "ar_base_offset a = n"
    and "rep s1 b (L @ [(n, rs)]) (n + int (length rs))" by auto
  from steps_extend [OF this(2) assms(4)] obtain L' n' where
    r: "rep (fold step ops s1) b (L @ (n, rs) # L') n'" by auto
  from read_ok [OF r assms(6)] a obtain x where
    x: "x \<in> set (L @ (n, rs) # L')" "holds_offset (n + int i) x" "v = mk_batch (fst x) (snd x)" by blast
  have "holds_offset (n + int i) (n, rs)" using assms(5) by (simp add: holds_offset_def)
  with dense_unique [OF rep_dense [OF r] x(1) _ x(2)] have "x = (n, rs)" by simp
  with x(3) a show ?thesis by simp
qed

end

section \<open>The commit log keeps it\<close>

definition commit_log_rep ::
  "CommitLog \<times> Disk \<Rightarrow> int \<Rightarrow> (int \<times> Record list) list \<Rightarrow> int \<Rightarrow> bool" where
  "commit_log_rep st b L n \<longleftrightarrow>
     (\<exists>S. log_rep st b S \<and> L = log_batches S \<and> cl_next_offset (fst st) = n)"

lemma dense_append: "dense b L c \<Longrightarrow> dense c M e \<Longrightarrow> dense b (L @ M) e"
  by (induction b L c rule: dense.induct) auto

lemma dense_batches_from: "list_all batch_ok Bs \<Longrightarrow> dense b (batches_from b Bs) (seg_next b Bs)"
  by (induction Bs arbitrary: b) (auto simp: batch_ok_def batch_fits_def)

lemma dense_log_batches:
  "chain b S e \<Longrightarrow> \<forall>x \<in> set S. list_all batch_ok (snd x) \<Longrightarrow> dense b (log_batches S) e"
  by (induction b S e rule: chain.induct) (auto intro: dense_append dense_batches_from)

lemma CommitLog_Read_before:
  assumes "log_rep (cl, d) first S" "offset < first"
  shows "\<exists>e. CommitLog_Read offset m (cl, d) = (Inl e, (cl, d))"
proof -
  from assms(1) have segs: "segs_rep (cl_options cl) d (cl_segments cl) (cl_indexes cl) S"
    and S: "chain first S (cl_next_offset cl)" "S \<noteq> []" by (simp_all add: log_rep_def)
  have bases: "map sg_base_offset (cl_segments cl) = map fst S" by (rule segs_rep_bases [OF segs])
  moreover have "fst (hd S) = first" using S by (cases S) auto
  ultimately have "cl_segments cl \<noteq> []" "sg_base_offset (hd (cl_segments cl)) = first"
    using S(2) by (cases S; cases "cl_segments cl"; simp)+
  with assms(2) have "upper_bound (\<lambda>s. offset < sg_base_offset s) (cl_segments cl) = 0"
    by (cases "cl_segments cl") (auto simp: upper_bound_def)
  with \<open>cl_segments cl \<noteq> []\<close> show ?thesis
    by (auto simp: CommitLog_Read_def FindSegmentIndex_def)
qed

lemma CommitLog_Read_total:
  assumes "log_rep (cl, d) first S" "CommitLog_Read offset m (cl, d) = (r, (cl', d'))"
  shows "cl' = cl \<and> log_rep (cl, d') first S \<and>
    (\<forall>v. r = Inr v \<longrightarrow> (\<exists>x \<in> set (log_batches S). holds_offset offset x \<and> v = mk_batch (fst x) (snd x)))"
proof -
  consider "offset < first" | "cl_next_offset cl \<le> offset" | "first \<le> offset" "offset < cl_next_offset cl"
    by linarith
  then show ?thesis
  proof cases
    case 1
    with CommitLog_Read_before [OF assms(1) 1, of m] assms show ?thesis by auto
  next
    case 2
    with CommitLog_Read_end [OF assms(1) 2] assms show ?thesis by auto
  next
    case 3
    from CommitLog_Read_refines [OF assms(1) 3 assms(2)] show ?thesis by fastforce
  qed
qed

interpretation clog: append_log commit_log_rep CommitLog_Append CommitLog_Read in_memory
proof (unfold_locales, goal_cases)
  case (1 s b L n)
  then show ?case
    by (auto simp: commit_log_rep_def log_rep_def dest: segs_rep_batch_ok intro!: dense_log_batches)
next
  case (2 s b L n rs a s')
  obtain cl d cl' d' where st: "s = (cl, d)" "s' = (cl', d')" by (cases s; cases s') auto
  from 2 st obtain S where "log_rep (cl, d) b S" "L = log_batches S" "cl_next_offset cl = n"
    by (auto simp: commit_log_rep_def)
  with CommitLog_Append_refines [OF this(1) 2(2) 2(3) [unfolded st]] st show ?case
    by (auto simp: commit_log_rep_def)
next
  case (3 s b L n rs e s')
  obtain cl d cl' d' where st: "s = (cl, d)" "s' = (cl', d')" by (cases s; cases s') auto
  from 3 st obtain S where "log_rep (cl, d) b S" "L = log_batches S" "cl_next_offset cl = n"
    by (auto simp: commit_log_rep_def)
  with CommitLog_Append_refines [OF this(1) 3(2) 3(3) [unfolded st]] st show ?case
    by (auto simp: commit_log_rep_def)
next
  case (4 s b L n off m r s')
  obtain cl d cl' d' where st: "s = (cl, d)" "s' = (cl', d')" by (cases s; cases s') auto
  from 4 st obtain S where "log_rep (cl, d) b S" "L = log_batches S" "cl_next_offset cl = n"
    by (auto simp: commit_log_rep_def)
  with CommitLog_Read_total [OF this(1) 4(2) [unfolded st]] st show ?case
    by (auto simp: commit_log_rep_def)
next
  case (5 s b L n off m v s')
  obtain cl d cl' d' where st: "s = (cl, d)" "s' = (cl', d')" by (cases s; cases s') auto
  from 5 st obtain S where "log_rep (cl, d) b S" "L = log_batches S"
    by (auto simp: commit_log_rep_def)
  with CommitLog_Read_total [OF this(1) 5(2) [unfolded st]] st show ?case by auto
qed

end
