(* ===== verification/TopicLogs.thy ===== *)
theory TopicLogs
  imports TopicManager LogFrame LogInterface
begin

text \<open>
  The logs of all partitions on one disk. The abstract state gives each tracked partition
  the list of batches it holds. Every operation of the topic manager, and every write of
  its metadata, keeps it, except that an append to one partition extends the list of that
  partition: partitions do not disturb each other.
\<close>

section \<open>Directories of partitions\<close>

lemma to_string_inj: "to_string a = to_string b \<Longrightarrow> a = b"
proof -
  assume eq: "to_string a = to_string b"
  have minus: "CHR ''-'' # s \<noteq> nat_to_string n" for s n
  proof
    assume "CHR ''-'' # s = nat_to_string n"
    then have "CHR ''-'' \<in> set (nat_to_string n)" by (metis list.set_intros(1))
    from set_nat_to_string [OF this] obtain d where "d < 10" "CHR ''-'' = digit_char d" by blast
    then have "of_char (CHR ''-'') = (48 + d :: nat)" by (simp add: digit_char_def)
    then show False by simp
  qed
  have inj: "nat_to_string m = nat_to_string n \<Longrightarrow> m = n" for m n
  proof -
    assume eq: "nat_to_string m = nat_to_string n"
    have "parse_digits (int (m + n)) (nat_to_string m) 0 = Some (int m)"
      "parse_digits (int (m + n)) (nat_to_string n) 0 = Some (int n)"
      by (rule parse_digits_nat_to_string; simp)+
    then show "m = n" unfolding eq by (metis of_nat_eq_iff option.inject)
  qed
  show "a = b"
  proof (cases "a < 0"; cases "b < 0")
    assume "a < 0" "b < 0"
    with eq inj [of "nat (- a)" "nat (- b)"] show "a = b" by (simp add: to_string_def)
  next
    assume "\<not> a < 0" "\<not> b < 0"
    with eq inj [of "nat a" "nat b"] show "a = b" by (simp add: to_string_def)
  next
    assume "a < 0" "\<not> b < 0"
    with eq minus show "a = b" by (simp add: to_string_def)
  next
    assume "\<not> a < 0" "b < 0"
    with eq minus [of _ "nat a"] show "a = b" by (simp add: to_string_def) metis
  qed
qed

lemma to_partition_id_inj:
  "i \<le> u32_max \<Longrightarrow> j \<le> u32_max \<Longrightarrow> to_partition_id i = to_partition_id j \<Longrightarrow> i = j"
proof -
  assume le: "i \<le> u32_max" "j \<le> u32_max" and eq: "to_partition_id i = to_partition_id j"
  have "word_of_int (sint (word_of_nat i :: u32)) = (word_of_int (sint (word_of_nat j :: u32)) :: u32)"
    using eq by (simp only: to_partition_id_def)
  then have "(word_of_nat i :: u32) = word_of_nat j" by simp
  then have "unat (word_of_nat i :: u32) = unat (word_of_nat j :: u32)" by simp
  with le show "i = j" by simp
qed

lemma PartitionPath_inj:
  assumes "PartitionPath o1 t (to_partition_id i) = PartitionPath o1 t' (to_partition_id j)"
    "i \<le> u32_max" "j \<le> u32_max"
  shows "t = t' \<and> i = j"
  using assms to_string_inj to_partition_id_inj by (simp add: PartitionPath_def)

section \<open>The abstract state\<close>

definition part_log :: "TopicManager \<Rightarrow> TopicName \<Rightarrow> nat \<Rightarrow> CommitLog option" where
  "part_log tm topic i =
     (case stdmap_find topic (tmg_topics tm) of
        None \<Rightarrow> None
      | Some t \<Rightarrow> if i < length (tp_partitions t) then Some (pt_log (tp_partitions t ! i)) else None)"

definition tm_ok :: "TopicManager \<Rightarrow> bool" where
  "tm_ok tm \<longleftrightarrow> stdmap_ok (tmg_topics tm) \<and>
     (\<forall>topic i log. part_log tm topic i = Some log \<longrightarrow>
        log_in log \<and> i \<le> u32_max \<and>
        clo_data_dir (cl_options log) = PartitionPath (tmg_options tm) topic (to_partition_id i))"

type_synonym batches = "(int \<times> Record list) list"

definition tracked :: "TopicManager \<Rightarrow> Disk \<Rightarrow> TopicName \<Rightarrow> nat \<Rightarrow> batches \<Rightarrow> bool" where
  "tracked tm d topic i L \<longleftrightarrow>
     (\<exists>log b n. part_log tm topic i = Some log \<and> commit_log_rep (log, d) b L n)"

definition logs_rep :: "TopicManager \<times> Disk \<Rightarrow> (TopicName \<times> nat \<rightharpoonup> batches) \<Rightarrow> bool" where
  "logs_rep st A \<longleftrightarrow> (let (tm, d) = st in
     tm_ok tm \<and> (\<forall>topic i L. A (topic, i) = Some L \<longrightarrow> tracked tm d topic i L))"

definition extends :: "('k \<rightharpoonup> batches) \<Rightarrow> ('k \<rightharpoonup> batches) \<Rightarrow> bool" where
  "extends A A' \<longleftrightarrow> (\<forall>k L. A k = Some L \<longrightarrow> (\<exists>M. A' k = Some (L @ M)))"

lemma extends_refl [simp]: "extends A A"
  unfolding extends_def by (metis append_Nil2)

lemma extends_trans [trans]: "extends A B \<Longrightarrow> extends B C \<Longrightarrow> extends A C"
  unfolding extends_def by (metis append_assoc)

text \<open>One partition grows by some batches.\<close>

definition grows :: "('k \<rightharpoonup> batches) \<Rightarrow> 'k \<Rightarrow> batches \<Rightarrow> ('k \<rightharpoonup> batches) \<Rightarrow> bool" where
  "grows A k M A' \<longleftrightarrow> (\<forall>k' L. A k' = Some L \<longrightarrow> A' k' = Some (if k' = k then L @ M else L))"

lemma growsD: "grows A k M A' \<Longrightarrow> A k' = Some L \<Longrightarrow> A' k' = Some (if k' = k then L @ M else L)"
  by (simp add: grows_def del: split_paired_All)

lemma grows_extends:
  assumes "grows A k M A'"
  shows "extends A A'"
  unfolding extends_def
proof (intro allI impI)
  fix k' L assume "A k' = Some L"
  with growsD [OF assms] have "A' k' = Some (L @ (if k' = k then M else []))" by simp
  then show "\<exists>N. A' k' = Some (L @ N)" by blast
qed

lemma logs_rep_mono:
  assumes "logs_rep (tm, d) A'" "grows A k [] A'"
  shows "logs_rep (tm, d) A"
proof -
  have "A' k' = Some L" if "A k' = Some L" for k' L
    using growsD [OF assms(2) that] by simp
  with assms(1) show ?thesis by (simp add: logs_rep_def)
qed

text \<open>Changes of the disk that no segment file of a log sees.\<close>

lemma only_in_same_logs: "only_in dir d d' \<Longrightarrow> dir \<noteq> clo_data_dir opts \<Longrightarrow> same_logs opts d d'"
  by (auto simp: only_in_def same_logs_def d_content_lookup in_dir_def SegmentPath_def)

lemma commit_log_rep_same:
  "commit_log_rep (log, d) b L n \<Longrightarrow> same_logs (cl_options log) d d' \<Longrightarrow> commit_log_rep (log, d') b L n"
  by (auto simp: commit_log_rep_def intro: log_rep_same_logs)

definition seg_paths :: "path set" where
  "seg_paths = {p. \<exists>opts n. p = SegmentPath opts n}"

text \<open>A step that changes no segment file in the directory of any partition.\<close>

definition logs_quiet :: "TopicManager \<Rightarrow> Disk \<Rightarrow> Disk \<Rightarrow> bool" where
  "logs_quiet tm d d' \<longleftrightarrow>
     (\<forall>topic i log. part_log tm topic i = Some log \<longrightarrow> same_logs (cl_options log) d d')"

lemma logs_quiet_trans: "logs_quiet tm a b \<Longrightarrow> logs_quiet tm b c \<Longrightarrow> logs_quiet tm a c"
  unfolding logs_quiet_def by (meson same_logs_trans)

lemma logs_rep_quiet: "logs_rep (tm, d) A \<Longrightarrow> logs_quiet tm d d' \<Longrightarrow> logs_rep (tm, d') A"
  unfolding logs_rep_def tracked_def logs_quiet_def prod.case Let_def
  by (blast intro: commit_log_rep_same)

lemma logs_rep_part_log:
  assumes "logs_rep (tm, d) A" "part_log tm' = part_log tm" "tmg_options tm' = tmg_options tm"
    "stdmap_ok (tmg_topics tm')"
  shows "logs_rep (tm', d) A"
  using assms by (simp add: logs_rep_def tm_ok_def tracked_def)

section \<open>Operations on one log\<close>

definition framed :: "(CommitLog \<times> Disk \<Rightarrow> 'a Result \<times> (CommitLog \<times> Disk)) \<Rightarrow> bool" where
  "framed f \<longleftrightarrow> (\<forall>cl d r cl' d'. log_in cl \<longrightarrow> f (cl, d) = (r, (cl', d')) \<longrightarrow>
     log_in cl' \<and> cl_options cl' = cl_options cl \<and> only_in (clo_data_dir (cl_options cl)) d d')"

lemma framed_ops: "framed (CommitLog_Append rs)" "framed (CommitLog_Read off m)" "framed CommitLog_Flush"
proof -
  show "framed (CommitLog_Append rs)" unfolding framed_def using CommitLog_Append_in by blast
  show "framed (CommitLog_Read off m)"
    unfolding framed_def using CommitLog_Read_same same_disk_only_in by blast
  show "framed CommitLog_Flush" unfolding framed_def log_in_def using CommitLog_Flush_in by blast
qed

lemma on_partition_eq:
  assumes "part_log tm topic i = Some log" "f (log, d) = (r, (log', d'))"
  shows "\<exists>tm'. on_partition topic i f (tm, d) = (r, (tm', d')) \<and> tmg_options tm' = tmg_options tm \<and>
    (stdmap_ok (tmg_topics tm) \<longrightarrow> stdmap_ok (tmg_topics tm') \<and>
      (\<forall>topic' j. part_log tm' topic' j = (if topic' = topic \<and> j = i then Some log' else part_log tm topic' j)))"
proof -
  from assms(1) obtain t where t: "stdmap_find topic (tmg_topics tm) = Some t" "i < length (tp_partitions t)"
    "log = pt_log (tp_partitions t ! i)" by (auto simp: part_log_def split: option.splits if_splits)
  with assms(2) show ?thesis
    by (auto simp: on_partition_def part_log_def stdm.inv_insert stdm.find_insert nth_list_update
        split: option.splits)
qed

lemma on_partition_rep:
  assumes "logs_rep (tm, d) A" "framed f" "part_log tm topic i = Some log"
    "f (log, d) = (r, (log', d'))"
    and L: "\<And>L b n. A (topic, i) = Some L \<Longrightarrow> commit_log_rep (log, d) b L n \<Longrightarrow>
      \<exists>n'. commit_log_rep (log', d') b (L @ M) n'"
  shows "\<exists>tm' A'. on_partition topic i f (tm, d) = (r, (tm', d')) \<and> logs_rep (tm', d') A' \<and>
    grows A (topic, i) M A' \<and> tmg_options tm' = tmg_options tm \<and>
    part_log tm' topic i = Some log'"
proof -
  define A' where "A' = (case A (topic, i) of None \<Rightarrow> A | Some L \<Rightarrow> A((topic, i) \<mapsto> L @ M))"
  have ok: "tm_ok tm" and tr: "\<And>topic i L. A (topic, i) = Some L \<Longrightarrow> tracked tm d topic i L"
    using assms(1) by (simp_all add: logs_rep_def)
  from on_partition_eq [of tm topic i log f d, OF assms(3,4)] ok obtain tm' where
    run: "on_partition topic i f (tm, d) = (r, (tm', d'))" and opt: "tmg_options tm' = tmg_options tm"
    and ok': "stdmap_ok (tmg_topics tm')"
    and pl: "\<And>t j. part_log tm' t j = (if t = topic \<and> j = i then Some log' else part_log tm t j)"
    by (auto simp: tm_ok_def)
  have log: "log_in log" "i \<le> u32_max"
    "clo_data_dir (cl_options log) = PartitionPath (tmg_options tm) topic (to_partition_id i)"
    using ok assms(3) by (simp_all add: tm_ok_def)
  from assms(2,4) log(1) have fr: "log_in log'" "cl_options log' = cl_options log"
    "only_in (clo_data_dir (cl_options log)) d d'" by (auto simp: framed_def)
  have "tm_ok tm'" using ok ok' opt pl fr log by (auto simp: tm_ok_def)
  moreover have "tracked tm' d' t j L" if "A' (t, j) = Some L" for t j L
  proof (cases "t = topic \<and> j = i")
    case True
    with that obtain L0 where L0: "A (topic, i) = Some L0" "L = L0 @ M"
      by (auto simp: A'_def split: option.splits)
    from tr [OF L0(1)] assms(3) obtain b n where "commit_log_rep (log, d) b L0 n" by (auto simp: tracked_def)
    from L [OF L0(1) this] L0(2) True pl show ?thesis by (auto simp: tracked_def)
  next
    case False
    with that have "A (t, j) = Some L" by (auto simp: A'_def split: option.splits if_splits)
    from tr [OF this] obtain log2 b n where l2: "part_log tm t j = Some log2" "commit_log_rep (log2, d) b L n"
      by (auto simp: tracked_def)
    have "clo_data_dir (cl_options log2) = PartitionPath (tmg_options tm) t (to_partition_id j)" "j \<le> u32_max"
      using ok l2(1) by (simp_all add: tm_ok_def)
    with False log have "clo_data_dir (cl_options log) \<noteq> clo_data_dir (cl_options log2)"
      using PartitionPath_inj [of "tmg_options tm" t j topic i] by auto
    with fr(3) have "same_logs (cl_options log2) d d'" by (rule only_in_same_logs)
    with l2 False pl show ?thesis by (auto simp: tracked_def intro: commit_log_rep_same)
  qed
  ultimately have "logs_rep (tm', d') A'" by (simp add: logs_rep_def)
  moreover have "grows A (topic, i) M A'" by (auto simp: A'_def grows_def split: option.splits)
  ultimately show ?thesis using run opt pl by auto
qed

section \<open>Appending and reading through the topic manager\<close>

lemma append_partition:
  assumes "logs_rep (tm, d) A" "part_log tm topic i = Some log" "in_memory rs"
    and "on_partition topic i (CommitLog_Append rs) (tm, d) = (r, (tm', d'))"
  shows "\<exists>A'. logs_rep (tm', d') A' \<and> tmg_options tm' = tmg_options tm \<and>
    grows A (topic, i) (case r of Inl _ \<Rightarrow> [] | Inr a \<Rightarrow> [(ar_base_offset a, rs)]) A' \<and>
    (\<exists>log'. part_log tm' topic i = Some log')"
proof -
  obtain r0 log' d0 where run: "CommitLog_Append rs (log, d) = (r0, (log', d0))" by (metis prod_cases3)
  define M where "M = (case r0 of Inl _ \<Rightarrow> [] | Inr a \<Rightarrow> [(ar_base_offset a, rs)])"
  have step: "\<exists>n'. commit_log_rep (log', d0) b (L @ M) n'" if "commit_log_rep (log, d) b L n" for b L n
  proof (cases r0)
    case (Inl e)
    with clog.append_err [OF that assms(3), of e "(log', d0)"] run show ?thesis by (auto simp: M_def)
  next
    case (Inr a)
    with clog.append_ok [OF that assms(3), of a "(log', d0)"] run show ?thesis by (auto simp: M_def)
  qed
  obtain tm0 A' where "on_partition topic i (CommitLog_Append rs) (tm, d) = (r0, (tm0, d0))" "logs_rep (tm0, d0) A'"
    "grows A (topic, i) M A'" "tmg_options tm0 = tmg_options tm" "\<exists>log'. part_log tm0 topic i = Some log'"
    using on_partition_rep [where M = M, OF assms(1) framed_ops(1) assms(2) run] step by blast
  with assms(4) show ?thesis unfolding M_def by auto
qed

lemma read_partition:
  assumes "logs_rep (tm, d) A" "part_log tm topic i = Some log"
    and "on_partition topic i (CommitLog_Read off m) (tm, d) = (r, (tm', d'))"
  shows "logs_rep (tm', d') A \<and> tmg_options tm' = tmg_options tm \<and>
    (\<forall>v L. r = Inr v \<longrightarrow> A (topic, i) = Some L \<longrightarrow>
       (\<exists>x \<in> set L. holds_offset off x \<and> v = mk_batch (fst x) (snd x)))"
proof -
  obtain r0 log' d0 where run: "CommitLog_Read off m (log, d) = (r0, (log', d0))" by (metis prod_cases3)
  have same: "log' = log" "same_disk d d0" using CommitLog_Read_same [OF run] by simp_all
  have ok: "stdmap_ok (tmg_topics tm)" and tr: "\<And>topic i L. A (topic, i) = Some L \<Longrightarrow> tracked tm d topic i L"
    using assms(1) by (simp_all add: logs_rep_def tm_ok_def)
  from on_partition_eq [of tm topic i log "CommitLog_Read off m" d, OF assms(2) run] ok assms(3) have
    r: "r = r0" "d' = d0" and tm': "tmg_options tm' = tmg_options tm" "stdmap_ok (tmg_topics tm')"
      "part_log tm' = part_log tm" using assms(2) same(1) by (auto simp: fun_eq_iff)
  have "logs_quiet tm d d0" using same(2) by (simp add: logs_quiet_def same_disk_logs)
  from logs_rep_part_log [OF logs_rep_quiet [OF assms(1) this] tm'(3,1,2)]
  have "logs_rep (tm', d') A" by (simp add: r)
  moreover have "\<exists>x \<in> set L. holds_offset off x \<and> v = mk_batch (fst x) (snd x)"
    if "r = Inr v" "A (topic, i) = Some L" for v L
  proof -
    from tr [OF that(2)] assms(2) obtain b n where "commit_log_rep (log, d) b L n" by (auto simp: tracked_def)
    from clog.read_ok [OF this] run that(1) r(1) show ?thesis by blast
  qed
  ultimately show ?thesis using tm' by blast
qed

lemma CommitLog_Flush_rep:
  assumes "log_rep (log, d) b S" "CommitLog_Flush (log, d) = (r, (log', d'))"
  shows "log' = log \<and> log_rep (log, d') b S"
proof -
  let ?o = "cl_options log"
  have segs: "segs_rep ?o d (cl_segments log) (cl_indexes log) S" "\<not> cl_closed log"
    using assms(1) by (simp_all add: log_rep_def)
  have ixs: "\<exists>c. ix_path ix = IndexPath ?o c" if ix: "ix \<in> set (cl_indexes log)" for ix
  proof -
    from ix obtain k where k: "k < length (cl_indexes log)" "ix = cl_indexes log ! k" by (auto simp: in_set_conv_nth)
    with segs_rep_lengths [OF segs(1)] segs_rep_nth [OF segs(1), of k] show ?thesis
      by (cases "S ! k") (auto simp: seg_rep_def)
  qed
  have one: "same_logs ?o d d'" if "for_status Segment_Flush (cl_segments log) d = (r, d')" for d r d'
    using that by (rule for_status_rel)
      (auto simp: Segment_Flush_def intro: same_logs_trans same_disk_logs dest: File_Fsync_same)
  have two: "same_logs ?o d d'" if "for_status Rewrite (cl_indexes log) d = (r, d')" for d r d'
    using that
  proof (rule for_status_rel)
    fix ix d r d' assume "ix \<in> set (cl_indexes log)" "Rewrite ix d = (r, d')"
    with ixs show "same_logs ?o d d'" using Rewrite_same_logs by blast
  qed (auto intro: same_logs_trans same_disk_logs)
  obtain x e where run: "sbind (for_status Segment_Flush (cl_segments log))
      (\<lambda>_. for_status Rewrite (cl_indexes log)) d = (x, e)" by force
  then have "same_logs ?o d e"
    by (cases rule: sbind_casesE) (blast intro: one two same_logs_trans)+
  with segs(2) run assms show ?thesis by (auto simp: CommitLog_Flush_def intro: log_rep_same_logs)
qed

lemma flush_partition:
  assumes "logs_rep (tm, d) A" "part_log tm topic i = Some log"
    and "on_partition topic i CommitLog_Flush (tm, d) = (r, (tm', d'))"
  shows "logs_rep (tm', d') A \<and> tmg_options tm' = tmg_options tm"
proof -
  obtain r0 log' d0 where run: "CommitLog_Flush (log, d) = (r0, (log', d0))" by (metis prod_cases3)
  have step: "\<exists>n'. commit_log_rep (log', d0) b (L @ []) n'" if "commit_log_rep (log, d) b L n" for b L n
    using that CommitLog_Flush_rep [OF _ run] by (auto simp: commit_log_rep_def)
  obtain tm0 A' where "on_partition topic i CommitLog_Flush (tm, d) = (r0, (tm0, d0))" "logs_rep (tm0, d0) A'"
    "grows A (topic, i) [] A'" "tmg_options tm0 = tmg_options tm"
    using on_partition_rep [where M = "[]", OF assms(1) framed_ops(3) assms(2) run] step by blast
  with assms(3) show ?thesis using logs_rep_mono by auto
qed

section \<open>Selection and flushing\<close>

lemma GetPartition_log:
  "GetPartition topic pid tm = Inr p \<Longrightarrow> 0 \<le> pid \<and> part_log tm topic (nat pid) = Some (pt_log p)"
  by (auto simp: GetPartition_def part_log_def split: option.splits if_splits)

lemma SelectPartition_log:
  assumes "stdmap_ok (tmg_topics tm)" "SelectPartition topic requested key tm = (r, tm')"
  shows "part_log tm' = part_log tm" "tmg_options tm' = tmg_options tm" "stdmap_ok (tmg_topics tm')"
    "r = Inr sel \<Longrightarrow> 0 \<le> ps_id sel \<and> part_log tm topic (nat (ps_id sel)) = Some (pt_log (ps_partition sel))"
  using assms
  by (auto simp: SelectPartition_def part_log_def Let_def fun_eq_iff stdm.inv_insert stdm.find_insert
      split: option.splits if_splits)

lemma all_partitions_log:
  assumes "stdmap_ok (tmg_topics tm)" "p \<in> set (all_partitions tm)"
  obtains topic i where "part_log tm topic i = Some (pt_log p)"
proof -
  from assms(2) obtain topic t where "(topic, t) \<in> set (tmg_topics tm)" "p \<in> set (tp_partitions t)"
    by (auto simp: all_partitions_def)
  moreover from this(1) assms(1) have "stdmap_find topic (tmg_topics tm) = Some t"
    by (simp add: stdmap_find_in_set)
  moreover from calculation(2) obtain i where "i < length (tp_partitions t)" "p = tp_partitions t ! i"
    by (auto simp: in_set_conv_nth)
  ultimately show thesis using that [of topic i] by (simp add: part_log_def)
qed

lemma TopicManager_Flush_rep:
  assumes "logs_rep (tm, d) A" "TopicManager_Flush tm d = (r, d')"
  shows "logs_rep (tm, d') A"
proof -
  let ?R = "\<lambda>d d'. logs_rep (tm, d) A \<longrightarrow> logs_rep (tm, d') A"
  have "?R d d'"
  proof (rule for_status_rel [OF assms(2) [unfolded TopicManager_Flush_def]])
    fix p d r d' assume p: "p \<in> set (all_partitions tm)"
      and run: "(let (r, (_, d')) = CommitLog_Flush (pt_log p, d) in (r, d')) = (r, d')"
    show "?R d d'"
    proof
      assume rep: "logs_rep (tm, d) A"
      then have ok: "stdmap_ok (tmg_topics tm)" by (simp add: logs_rep_def tm_ok_def)
      from all_partitions_log [OF ok p] obtain topic i where pl: "part_log tm topic i = Some (pt_log p)" .
      obtain log' where f: "CommitLog_Flush (pt_log p, d) = (r, (log', d'))"
        using run by (auto split: prod.splits)
      have "log' = pt_log p" using rep pl CommitLog_Flush_in [OF f] by (simp add: logs_rep_def tm_ok_def log_in_def)
      with on_partition_eq [of tm topic i "pt_log p" CommitLog_Flush d, OF pl f] ok obtain tm' where
        "on_partition topic i CommitLog_Flush (tm, d) = (r, (tm', d'))" and tm': "part_log tm' = part_log tm"
        "tmg_options tm' = tmg_options tm" using pl by (auto simp: fun_eq_iff)
      with flush_partition [OF rep pl] have "logs_rep (tm', d') A" by blast
      then show "logs_rep (tm, d') A" using ok tm' by (simp add: logs_rep_def tm_ok_def tracked_def)
    qed
  qed auto
  with assms(1) show ?thesis by blast
qed

end
