(* ===== verification/AtomicReplace.thy ===== *)
theory AtomicReplace
  imports TextStream LogFrame
begin

text \<open>
  Writing a text file and renaming a file, as file systems see them, and the two together:
  the way the topic manager and the offset store replace a file so that it holds either
  the old text or the new one, whatever system call fails.
\<close>

section \<open>Streams and renames on the disk\<close>

lemma ofstream_spec:
  assumes "ofstream p out d = (r, d')" "out \<noteq> []"
  shows "same_except p d d'" "r = Written \<Longrightarrow> d_lookup d' p = Some out"
proof -
  obtain x d1 where o: "sys_open p CreateRwTrunc d = (x, d1)" by force
  note o1 = sys_open_cases [OF o]
  have "same_except p d d' \<and> (r = Written \<longrightarrow> d_lookup d' p = Some out)"
  proof (cases x)
    case (Inl e)
    with assms o o1 show ?thesis by (auto simp: ofstream_def)
  next
    case (Inr fd)
    obtain y d2 where w: "WriteAll p out 0 0 d1 = (y, d2)" by force
    have "d_content d1 p = []" using o1 Inr by simp
    with WriteAll_spec [OF w, of "[]"] have "same_except p d1 d2"
      "y = Inr () \<Longrightarrow> d_content d2 p = out" by (auto simp: overwrite_def)
    moreover have "d_content d2 p = out \<Longrightarrow> d_lookup d2 p = Some out"
      using assms(2) by (auto simp: d_content_lookup split: option.splits)
    ultimately show ?thesis using assms(1) o o1 Inr w
      by (auto simp: ofstream_def split: sum.splits intro: same_except_trans)
  qed
  then show "same_except p d d'" "r = Written \<Longrightarrow> d_lookup d' p = Some out" by blast+
qed

lemma d_lookup_rename:
  "d_lookup (d\<lparr>d_files := AList.update q c (AList.delete p (d_files d))\<rparr>) = (d_lookup d)(p := None, q \<mapsto> c)"
  by (simp add: d_lookup_def update_conv' delete_conv' fun_eq_iff)

lemma sys_rename_spec:
  assumes "sys_rename p q d = (r, d')"
  shows "(case r of Inl e \<Rightarrow> same_disk d d'
    | Inr _ \<Rightarrow> \<exists>c. d_lookup d p = Some c \<and> d_lookup d' = (d_lookup d)(p := None, q \<mapsto> c))"
proof -
  obtain x d1 where n: "next_ret d = (x, d1)" by force
  have s: "same_disk d d1" "d_lookup d1 = d_lookup d" using next_ret_same [OF n] by (simp_all add: same_disk_def)
  show ?thesis
    using assms n s d_lookup_rename [where d = d1]
    by (auto simp: sys_rename_def d_lookup_def split: sysret.splits option.splits if_splits)
qed

section \<open>Write to a temporary file, then rename\<close>

lemma replace_file:
  assumes c: "create_directories dir d = (x, d1)" and o: "ofstream tmp text d1 = (w, d2)"
    and n: "sys_rename tmp p d2 = (y, d3)" and neq: "text \<noteq> []" "tmp \<noteq> p"
    and d': "d' = (if x \<noteq> Inr () then d1 else if w \<noteq> Written then d2 else d3)"
  shows "\<forall>q. q \<noteq> tmp \<and> q \<noteq> p \<longrightarrow> d_lookup d' q = d_lookup d q"
    "d_lookup d' p = (if x = Inr () \<and> w = Written \<and> y = Inr () then Some text else d_lookup d p)"
proof -
  have d1: "d_lookup d1 = d_lookup d" using create_directories_files [OF c] .
  have d2: "\<And>q. q \<noteq> tmp \<Longrightarrow> d_lookup d2 q = d_lookup d q" "w = Written \<Longrightarrow> d_lookup d2 tmp = Some text"
    using ofstream_spec [OF o neq(1)] d1 by (auto simp: same_except_def)
  have d3: "(\<forall>q. q \<noteq> tmp \<and> q \<noteq> p \<longrightarrow> d_lookup d3 q = d_lookup d q) \<and>
      d_lookup d3 p = (if y = Inr () then Some text else d_lookup d p)" if "w = Written"
  proof (cases y)
    case (Inl e)
    with sys_rename_spec [OF n] d2 neq show ?thesis by (auto simp: same_disk_def)
  next
    case (Inr u)
    with sys_rename_spec [OF n] d2 neq that show ?thesis by auto
  qed
  show "\<forall>q. q \<noteq> tmp \<and> q \<noteq> p \<longrightarrow> d_lookup d' q = d_lookup d q"
    using d' d1 d2 d3 by auto
  show "d_lookup d' p = (if x = Inr () \<and> w = Written \<and> y = Inr () then Some text else d_lookup d p)"
    using d' d1 d2(1) [of p] d3 neq(2) by auto
qed

end
