(* ===== verification/TopicCreation.thy ===== *)
theory TopicCreation
  imports TopicLogs AtomicReplace
begin

text \<open>
  Creating a topic: it opens logs only in the directories of the new topic, replaces the
  metadata file atomically, and leaves every existing partition as it is.
\<close>

section \<open>The metadata file\<close>

definition meta_paths :: "TopicManager \<Rightarrow> path set" where
  "meta_paths tm = {MetadataPath (tmg_options tm), MetadataTempPath (tmg_options tm)}"

lemma meta_paths_neq: "MetadataPath opts \<noteq> MetadataTempPath opts"
  by (simp add: MetadataPath_def MetadataTempPath_def)

lemma metadata_text_nonempty [simp]: "metadata_text ms \<noteq> []"
  by (simp add: metadata_text_def kTopicMetadataMagic_def)

lemma PersistMetadataLocked_spec:
  assumes "PersistMetadataLocked tm d = (r, d')"
  shows "\<forall>p. p \<notin> meta_paths tm \<longrightarrow> d_lookup d' p = d_lookup d p"
    "d_lookup d' (MetadataPath (tmg_options tm)) =
       (if r = Inr () then Some (metadata_text (topic_metadata tm))
        else d_lookup d (MetadataPath (tmg_options tm)))"
proof -
  let ?o = "tmg_options tm"
  obtain x d1 where c: "create_directories (tmo_data_dir ?o) d = (x, d1)" by force
  obtain w d2 where o: "ofstream (MetadataTempPath ?o) (metadata_text (topic_metadata tm)) d1 = (w, d2)" by force
  obtain y d3 where n: "sys_rename (MetadataTempPath ?o) (MetadataPath ?o) d2 = (y, d3)" by force
  have r: "d' = (if x \<noteq> Inr () then d1 else if w \<noteq> Written then d2 else d3)"
    "r = Inr () \<longleftrightarrow> x = Inr () \<and> w = Written \<and> y = Inr ()"
    using assms c o n
    by (auto simp: PersistMetadataLocked_def Let_def split: sum.splits ofstream_result.splits)
  note spec = replace_file [OF c o n metadata_text_nonempty meta_paths_neq [symmetric] r(1)]
  from spec(1) show "\<forall>p. p \<notin> meta_paths tm \<longrightarrow> d_lookup d' p = d_lookup d p" by (simp add: meta_paths_def)
  from spec(2) show "d_lookup d' (MetadataPath ?o) =
      (if r = Inr () then Some (metadata_text (topic_metadata tm)) else d_lookup d (MetadataPath ?o))"
    by (simp add: r(2))
qed

section \<open>Opening the partitions\<close>

definition in_topic :: "TopicManagerOptions \<Rightarrow> TopicName \<Rightarrow> path \<Rightarrow> bool" where
  "in_topic opts topic p \<longleftrightarrow> (\<exists>pid. in_dir (PartitionPath opts topic pid) p)"

lemma open_partitions_spec:
  assumes "open_partitions opts topic is d = (r, d')"
  shows "(\<forall>p. \<not> in_topic opts topic p \<longrightarrow> d_lookup d' p = d_lookup d p) \<and>
    (\<forall>ps. r = Inr ps \<longrightarrow> length ps = length is \<and> (\<forall>k < length is.
       log_in (pt_log (ps ! k)) \<and>
       clo_data_dir (cl_options (pt_log (ps ! k))) = PartitionPath opts topic (to_partition_id (is ! k))))"
  using assms
proof (induction "is" arbitrary: d r d')
  case (Cons i "is")
  let ?o = "log_options opts topic (to_partition_id i)"
  obtain x d1 where o: "CommitLog_Open ?o d = (x, d1)" by force
  obtain y d2 where rest: "open_partitions opts topic is d1 = (y, d2)" by force
  have dir: "clo_data_dir ?o = PartitionPath opts topic (to_partition_id i)" by (simp add: log_options_def)
  have o1: "\<forall>p. \<not> in_topic opts topic p \<longrightarrow> d_lookup d1 p = d_lookup d p"
    "\<And>log. x = Inr log \<Longrightarrow> log_in log \<and> clo_data_dir (cl_options log) = PartitionPath opts topic (to_partition_id i)"
    using CommitLog_Open_in [OF o] dir by (auto simp: only_in_def in_topic_def)
  note IH = Cons.IH [OF rest]
  show ?case
  proof (cases x)
    case (Inl e)
    with Cons.prems o o1 show ?thesis by (auto simp: to_partition_id_def Let_def)
  next
    case (Inr log)
    show ?thesis
    proof (cases y)
      case (Inl e)
      with Cons.prems o o1 Inr rest IH show ?thesis by (auto simp: to_partition_id_def Let_def)
    next
      case y: (Inr ps)
      have "r = Inr (\<lparr>pt_id = to_partition_id i, pt_log = log\<rparr> # ps)" "d' = d2"
        using Cons.prems o Inr rest y by (auto simp: to_partition_id_def Let_def)
      then show ?thesis using o1 IH Inr y by (auto simp: nth_Cons less_Suc_eq_0_disj split: nat.splits)
    qed
  qed
qed simp

lemma OpenTopic_spec:
  assumes "OpenTopic opts topic pc d = (r, d')"
  shows "\<forall>p. \<not> in_topic opts topic p \<longrightarrow> d_lookup d' p = d_lookup d p"
    "r = Inr t \<Longrightarrow> tp_name t = topic \<and> length (tp_partitions t) = unat pc \<and>
      (\<forall>k < unat pc. log_in (pt_log (tp_partitions t ! k)) \<and>
         clo_data_dir (cl_options (pt_log (tp_partitions t ! k))) = PartitionPath opts topic (to_partition_id k))"
  using assms open_partitions_spec [of opts topic "[0..<unat pc]" d]
  by (auto simp: OpenTopic_def split: sum.splits prod.splits)

section \<open>CreateTopic\<close>

lemma meta_not_in_topic: "p \<in> meta_paths tm \<Longrightarrow> \<not> in_topic (tmg_options tm) topic p"
  by (auto simp: meta_paths_def in_topic_def in_dir_def MetadataPath_def MetadataTempPath_def
      PartitionPath_def)

text \<open>A change outside the directories of a topic's siblings is not seen by their logs.\<close>

lemma logs_quiet_outside:
  assumes "tm_ok tm" "stdmap_find topic (tmg_topics tm) = None"
    and "\<forall>p. p \<notin> meta_paths tm \<and> \<not> in_topic (tmg_options tm) topic p \<longrightarrow> d_lookup d' p = d_lookup d p"
  shows "logs_quiet tm d d'"
  unfolding logs_quiet_def same_logs_def
proof (intro allI impI)
  fix t i log n
  assume pl: "part_log tm t i = Some log"
  let ?p = "SegmentPath (cl_options log) n"
  have dir: "clo_data_dir (cl_options log) = PartitionPath (tmg_options tm) t (to_partition_id i)"
    using assms(1) pl by (simp add: tm_ok_def)
  have "t \<noteq> topic" using pl assms(2) by (auto simp: part_log_def)
  then have "\<not> in_topic (tmg_options tm) topic ?p"
    by (auto simp: in_topic_def in_dir_def SegmentPath_def dir PartitionPath_def butlast_append)
  moreover have "?p \<notin> meta_paths tm"
    by (auto simp: meta_paths_def SegmentPath_def dir PartitionPath_def MetadataPath_def MetadataTempPath_def)
  ultimately show "d_content d' ?p = d_content d ?p" using assms(3) by (simp add: d_content_lookup)
qed

lemma stdmap_erase_emplace:
  assumes "stdmap_ok m" "stdmap_find k m = None"
  shows "stdmap_find k' (stdmap_erase k (stdmap_emplace k v m)) = stdmap_find k' m"
  using assms by (simp add: stdm.find_erase stdmap_ok_emplace stdmap_find_emplace)

definition metadata_synced :: "TopicManager \<Rightarrow> Disk \<Rightarrow> bool" where
  "metadata_synced tm d \<longleftrightarrow>
     (case d_lookup d (MetadataPath (tmg_options tm)) of
        None \<Rightarrow> tmg_topics tm = []
      | Some text \<Rightarrow> text = metadata_text (topic_metadata tm))"

lemma stdmap_erase_emplace_eq:
  "stdmap_ok m \<Longrightarrow> stdmap_find k m = None \<Longrightarrow> stdmap_erase k (stdmap_emplace k v m) = m"
proof -
  assume ok: "stdmap_ok m" and none: "stdmap_find k m = None"
  have "k \<notin> fst ` set m \<Longrightarrow> filter (\<lambda>e. fst e \<noteq> k) (stdmap_insert k v m) = m"
    by (induction k v m rule: stdmap_insert.induct) (auto simp: filter_id_conv)
  with none show ?thesis by (simp add: stdmap_erase_def stdmap_emplace_def stdmap_find_def map_of_eq_None_iff)
qed

lemma CreateTopic_spec:
  assumes ok: "tm_ok tm" and run: "CreateTopic topic pc (tm, d) = (r, (tm', d'))"
  shows "tm_ok tm' \<and> logs_quiet tm d d' \<and> tmg_options tm' = tmg_options tm \<and>
    (\<forall>t i log. part_log tm t i = Some log \<longrightarrow> part_log tm' t i = Some log) \<and>
    (\<forall>e. r = Inl e \<longrightarrow> tm' = tm) \<and> (metadata_synced tm d \<longrightarrow> metadata_synced tm' d')"
proof -
  let ?o = "tmg_options tm"
  have same: ?thesis if "tm' = tm" "d' = d"
    using that ok by (simp add: logs_quiet_def same_disk_logs)
  consider "tm' = tm" "d' = d" | "stdmap_find topic (tmg_topics tm) = None"
      "Status_ok (ValidateTopicName topic)" "pc \<noteq> 0"
    using run by (fastforce simp: CreateTopic_def Let_def split: if_splits option.splits)
  then show ?thesis
  proof cases
    case 1
    then show ?thesis by (rule same)
  next
    case new: 2
    obtain x d1 where o: "OpenTopic ?o topic pc d = (x, d1)" by force
    note o1 = OpenTopic_spec [OF o]
    have smok: "stdmap_ok (tmg_topics tm)" using ok by (simp add: tm_ok_def)
    have meta1: "d_lookup d1 (MetadataPath ?o) = d_lookup d (MetadataPath ?o)"
      using o1(1) meta_not_in_topic [of "MetadataPath ?o" tm topic] by (simp add: meta_paths_def)
    show ?thesis
    proof (cases x)
      case (Inl e)
      then have "tm' = tm" "d' = d1" using run new o by (auto simp: CreateTopic_def)
      then show ?thesis using ok logs_quiet_outside [OF ok new(1)] o1(1) meta1 by (simp add: metadata_synced_def)
    next
      case (Inr t)
      let ?tm = "tm\<lparr>tmg_topics := stdmap_emplace topic t (tmg_topics tm)\<rparr>"
      obtain y d2 where p: "PersistMetadataLocked ?tm d1 = (y, d2)" by force
      note p1 = PersistMetadataLocked_spec [OF p]
      have mp: "meta_paths ?tm = meta_paths tm" by (simp add: meta_paths_def)
      have quiet: "logs_quiet tm d d2"
        by (rule logs_quiet_outside [OF ok new(1)]) (use o1(1) p1(1) mp in auto)
      show ?thesis
      proof (cases y)
        case (Inl e)
        then have "tm' = tm" "d' = d2"
          using run new o Inr p stdmap_erase_emplace_eq [OF smok new(1)] by (auto simp: CreateTopic_def)
        then show ?thesis using ok quiet meta1 p1(2) Inl by (simp add: metadata_synced_def)
      next
        case y: (Inr u)
        then have tm': "tm' = ?tm" "d' = d2" "r = Inr ()" using run new o Inr p by (auto simp: CreateTopic_def)
        have find: "stdmap_find k (tmg_topics ?tm) = (if k = topic then Some t else stdmap_find k (tmg_topics tm))" for k
          using smok new(1) by (simp add: stdmap_find_emplace)
        have u32: "unat pc \<le> u32_max" using unsigned_less [of pc, where ?'a = nat] by simp
        have part: "log_in log \<and> i \<le> u32_max \<and>
            clo_data_dir (cl_options log) = PartitionPath (tmg_options ?tm) t' (to_partition_id i)"
          if pl: "part_log ?tm t' i = Some log" for t' i log
        proof (cases "t' = topic")
          case True
          with pl find o1(2) [OF Inr] u32 show ?thesis by (auto simp: part_log_def split: if_splits)
        next
          case False
          with pl find have "part_log tm t' i = Some log" by (simp add: part_log_def)
          with ok show ?thesis by (simp add: tm_ok_def)
        qed
        have "stdmap_ok (tmg_topics ?tm)" using smok by (simp add: stdmap_ok_emplace)
        with part have "tm_ok ?tm" unfolding tm_ok_def by blast
        moreover have "part_log ?tm t' i = Some log" if "part_log tm t' i = Some log" for t' i log
          using that find new(1) by (auto simp: part_log_def split: if_splits)
        moreover have "metadata_synced ?tm d2" using p1(2) y by (simp add: metadata_synced_def)
        ultimately show ?thesis using quiet tm' by simp
      qed
    qed
  qed
qed

lemma CreateTopic_adds:
  assumes "tm_ok tm" "CreateTopic topic n (tm, d) = (r, (tm', d'))" "r = Inr u"
  shows "\<exists>t. stdmap_find topic (tmg_topics tm') = Some t \<and> length (tp_partitions t) = unat n"
proof (cases "stdmap_find topic (tmg_topics tm)")
  case (Some t)
  with assms(2,3) show ?thesis by (auto simp: CreateTopic_def Let_def split: if_splits)
next
  case None
  obtain x d1 where o: "OpenTopic (tmg_options tm) topic n d = (x, d1)" by force
  with assms(2,3) None obtain t where t: "x = Inr t"
    "tm' = tm\<lparr>tmg_topics := stdmap_emplace topic t (tmg_topics tm)\<rparr>"
    by (cases x) (auto simp: CreateTopic_def Let_def split: if_splits sum.splits prod.splits)
  have "stdmap_ok (tmg_topics tm)" using assms(1) by (simp add: tm_ok_def)
  with OpenTopic_spec(2) [OF o t(1)] t(2) None show ?thesis by (simp add: stdmap_find_emplace)
qed

lemma CreateTopic_rep:
  assumes "logs_rep (tm, d) A" "CreateTopic topic pc (tm, d) = (r, (tm', d'))"
  shows "logs_rep (tm', d') A \<and> tmg_options tm' = tmg_options tm"
proof -
  have ok: "tm_ok tm" using assms(1) by (simp add: logs_rep_def)
  note c = CreateTopic_spec [OF ok assms(2)]
  have "logs_rep (tm, d') A" using logs_rep_quiet [OF assms(1)] c by blast
  then show ?thesis using c unfolding logs_rep_def tracked_def prod.case Let_def by blast
qed

end
