(* ===== verification/TextRoundtrip.thy ===== *)
theory TextRoundtrip
  imports OffsetStore TopicManager
begin

text \<open>
  The text files of the broker read back what was written: the list of topics, the names
  of the offset files and the offset in each of them.
\<close>

section \<open>Words, numbers and lines\<close>

definition spaceless :: "string \<Rightarrow> bool" where
  "spaceless s \<longleftrightarrow> s \<noteq> [] \<and> (\<forall>c \<in> set s. \<not> is_space c)"

lemma name_char_not_space: "name_char c \<Longrightarrow> \<not> is_space c"
  by (auto simp: name_char_def isalnum_def is_space_def Let_def)

lemma spaceless_safe_name:
  assumes "Status_ok (ValidateSafeName s field)"
  shows "spaceless s"
proof -
  let ?name = "if field = ''topic'' then strip_internal s else s"
  from assms have n: "?name \<noteq> []" "list_all name_char ?name"
    by (auto simp: ValidateSafeName_def Let_def split: if_splits)
  then have sp: "spaceless ?name" using name_char_not_space by (auto simp: spaceless_def list_all_iff)
  have pre: "\<forall>c \<in> set kRetryTopicPrefix. \<not> is_space c" "\<forall>c \<in> set kDlqTopicPrefix. \<not> is_space c"
    by (simp_all add: kRetryTopicPrefix_def kDlqTopicPrefix_def is_space_def)
  show ?thesis
  proof (cases "field = ''topic''")
    case True
    with sp have t: "spaceless (strip_internal s)" by simp
    show ?thesis
    proof (cases s rule: strip_internal_parts)
      case 1
      with t show ?thesis by simp
    next
      case 2
      have "spaceless (kRetryTopicPrefix @ strip_internal s)" using t pre by (auto simp: spaceless_def)
      then show ?thesis unfolding 2 [symmetric] .
    next
      case 3
      have "spaceless (kDlqTopicPrefix @ strip_internal s)" using t pre by (auto simp: spaceless_def)
      then show ?thesis unfolding 3 [symmetric] .
    qed
  qed (use sp in simp)
qed

lemmas spaceless_topic = spaceless_safe_name [of _ "''topic''", unfolded ValidateSafeName_topic]

lemma takeWhile_stop: "\<forall>c \<in> set xs. P c \<Longrightarrow> (ys = [] \<or> \<not> P (hd ys)) \<Longrightarrow>
    takeWhile P (xs @ ys) = xs \<and> dropWhile P (xs @ ys) = ys"
  by (induction xs) (cases ys; auto)+

lemma dropWhile_spaceless: "spaceless w \<Longrightarrow> dropWhile is_space (w @ s) = w @ s"
  by (cases w) (auto simp: spaceless_def)

lemma read_word_spaceless:
  assumes "spaceless w" "rest = [] \<or> is_space (hd rest)"
  shows "read_word (w @ rest, True) = Some (w, (rest, True))"
proof -
  have "takeWhile (\<lambda>c. \<not> is_space c) (w @ rest) = w \<and> dropWhile (\<lambda>c. \<not> is_space c) (w @ rest) = rest"
    by (rule takeWhile_stop) (use assms in \<open>auto simp: spaceless_def\<close>)
  with assms(1) show ?thesis by (simp add: read_word_def dropWhile_spaceless) (simp add: spaceless_def)
qed

lemma read_word_skip: "is_space c \<Longrightarrow> read_word (c # s, ok) = read_word (s, ok)"
  by (simp add: read_word_def)

lemma read_word_end [simp]: "read_word ([], ok) = None"
  by (simp add: read_word_def)

lemma spaces [simp]: "is_space (CHR '' '')" "is_space (CHR 0x0A)"
  by (simp_all add: is_space_def)

lemma digit_string: "c \<in> set (nat_to_string n) \<Longrightarrow> is_digit c \<and> \<not> is_space c \<and> c \<noteq> CHR ''-'' \<and> c \<noteq> CHR ''+'' \<and> c \<noteq> CHR 0x0A"
proof -
  assume "c \<in> set (nat_to_string n)"
  from set_nat_to_string [OF this] obtain d where d: "d < 10" "c = digit_char d" by blast
  then have c: "of_char c = (48 + d :: nat)" by (simp add: digit_char_def)
  have "c \<noteq> c'" if "of_char c' < (48 :: nat)" for c' using c that by auto
  with c d(1) show ?thesis by (simp add: is_digit_def is_space_def)
qed

lemma read_decimal_nat:
  assumes "rest = [] \<or> \<not> is_digit (hd rest)" "int n \<le> limit"
  shows "read_decimal limit limit' (CHR '' '' # nat_to_string n @ rest, True) = Some (False, int n, (rest, True))"
proof -
  let ?s = "nat_to_string n"
  have ne: "?s \<noteq> []" by simp
  then have hd: "\<not> is_space (hd ?s)" "hd ?s \<noteq> CHR ''-''" "hd ?s \<noteq> CHR ''+''"
    using digit_string [OF hd_in_set [OF ne]] by auto
  have drop: "dropWhile is_space (CHR '' '' # ?s @ rest) = ?s @ rest"
    using hd ne by (cases "?s") auto
  have "takeWhile is_digit (?s @ rest) = ?s \<and> dropWhile is_digit (?s @ rest) = rest"
    by (rule takeWhile_stop) (use assms(1) digit_string in auto)
  then show ?thesis unfolding read_decimal_def drop prod.case Let_def
    using hd ne assms(2) by (simp add: parse_digits_nat_to_string)
qed

lemma read_u64_nat:
  assumes "rest = [] \<or> \<not> is_digit (hd rest)" "n \<le> u64_max"
  shows "read_u64 (CHR '' '' # nat_to_string n @ rest, True) = Some (n, (rest, True))"
  using assms by (simp add: read_u64_def read_decimal_nat)

lemma read_i64_nat:
  assumes "rest = [] \<or> \<not> is_digit (hd rest)" "int n \<le> i64_max"
  shows "read_i64 (CHR '' '' # nat_to_string n @ rest, True) = Some (int n, (rest, True))"
  using assms by (simp add: read_i64_def read_decimal_nat)

lemma getline_line: "CHR 0x0A \<notin> set l \<Longrightarrow> getline (l @ CHR 0x0A # rest, ok) = Some (l, (rest, ok))"
proof -
  assume l: "CHR 0x0A \<notin> set l"
  have "takeWhile (\<lambda>c. c \<noteq> CHR 0x0A) (l @ CHR 0x0A # rest) = l \<and>
      dropWhile (\<lambda>c. c \<noteq> CHR 0x0A) (l @ CHR 0x0A # rest) = CHR 0x0A # rest"
    by (rule takeWhile_stop) (use l in auto)
  then show ?thesis by (simp add: getline_def)
qed

lemma stream_lines_concat:
  "\<forall>l \<in> set ls. CHR 0x0A \<notin> set l \<Longrightarrow> stream_lines (concat (map (\<lambda>l. l @ [CHR 0x0A]) ls), True) = ls"
proof (induction ls)
  case Nil
  then show ?case by (subst stream_lines.simps) (simp add: getline_def)
next
  case (Cons l ls)
  then show ?case by (subst stream_lines.simps) (simp add: getline_line)
qed

section \<open>The list of topics\<close>

definition metadata_line :: "TopicMetadata \<Rightarrow> string" where
  "metadata_line t = tm_topic t @ '' '' @ nat_to_string (unat (tm_partition_count t))"

lemma parse_metadata_line_line:
  assumes "Status_ok (ValidateTopicName (tm_topic t))"
  shows "parse_metadata_line (metadata_line t) = Some (tm_topic t, unat (tm_partition_count t))"
proof -
  note sp = spaceless_topic [OF assms]
  have "unat (tm_partition_count t) \<le> u64_max"
    using unsigned_less [of "tm_partition_count t", where ?'a = nat] by simp
  with read_word_spaceless [OF sp, of "'' '' @ nat_to_string (unat (tm_partition_count t))"]
    read_u64_nat [of "[]" "unat (tm_partition_count t)"]
  show ?thesis by (simp add: parse_metadata_line_def metadata_line_def)
qed

lemma metadata_text_lines:
  assumes "\<forall>t \<in> set ms. Status_ok (ValidateTopicName (tm_topic t))"
  shows "\<exists>rest. getline (metadata_text ms, True) = Some (kTopicMetadataMagic, (rest, True)) \<and>
    stream_lines (rest, True) = map metadata_line ms"
proof -
  let ?rest = "concat (map (\<lambda>l. l @ [CHR 0x0A]) (map metadata_line ms))"
  have "metadata_text ms = kTopicMetadataMagic @ CHR 0x0A # ?rest"
    by (simp add: metadata_text_def metadata_line_def comp_def)
  then have "getline (metadata_text ms, True) = Some (kTopicMetadataMagic, (?rest, True))"
    using getline_line [of kTopicMetadataMagic ?rest] by (simp add: kTopicMetadataMagic_def)
  moreover have "\<forall>l \<in> set (map metadata_line ms). CHR 0x0A \<notin> set l"
    using assms ValidateTopicName_safe(3) digit_string by (fastforce simp: metadata_line_def)
  ultimately show ?thesis using stream_lines_concat by blast
qed

section \<open>Offset files\<close>

lemma decimal_of_nonneg: "0 \<le> i \<Longrightarrow> to_string i = nat_to_string (nat i)"
  by (simp add: to_string_def)

lemma load_offset_text_roundtrip:
  assumes "Status_ok (ValidateSafeName g ''group_id'')" "Status_ok (ValidateSafeName t ''topic'')"
    "0 \<le> p" "p \<le> i32_max" "0 \<le> off" "off \<le> i64_max"
  shows "load_offset_text g t p (offset_text (g, t, p) off, True) = Inr ((g, t, p), off)"
proof -
  note sp = spaceless_safe_name [OF assms(1)] spaceless_safe_name [OF assms(2)]
  let ?n = "CHR 0x0A" and ?b = "CHR '' ''"
  have line: "getline (offset_text (g, t, p) off, True) =
      Some (kOffsetMetadataMagic, (g @ ?b # t @ ?b # nat_to_string (nat p) @ ?b # nat_to_string (nat off) @ [?n], True))"
    using getline_line [of kOffsetMetadataMagic] assms
    by (simp add: offset_text_def decimal_of_nonneg kOffsetMetadataMagic_def)
  have "parse_offset_body (g @ ?b # t @ ?b # nat_to_string (nat p) @ ?b # nat_to_string (nat off) @ [?n], True) =
      Some (g, t, p, off)"
    using read_word_spaceless [OF sp(1), of "?b # t @ ?b # nat_to_string (nat p) @ ?b # nat_to_string (nat off) @ [?n]"]
      read_word_spaceless [OF sp(2), of "?b # nat_to_string (nat p) @ ?b # nat_to_string (nat off) @ [?n]"]
      read_i64_nat [of "?b # nat_to_string (nat off) @ [?n]" "nat p"] read_i64_nat [of "[?n]" "nat off"] assms
    by (simp add: parse_offset_body_def read_word_skip is_digit_def)
  with line assms show ?thesis by (simp add: load_offset_text_def)
qed

lemma ParseOffsetFilename_roundtrip:
  assumes "Status_ok (ValidateSafeName t ''topic'')" "0 \<le> p" "p \<le> i32_max"
  shows "ParseOffsetFilename (last (OffsetPath os g t p)) = Some (t, p)"
proof -
  let ?d = "nat_to_string (nat p)" and ?stem = "t @ CHR ''-'' # nat_to_string (nat p)"
  have ne: "t \<noteq> []" using spaceless_safe_name [OF assms(1)] by (simp add: spaceless_def)
  have "dot_split (?stem @ CHR ''.'' # ''offset'') = Some (?stem, CHR ''.'' # ''offset'')"
    by (rule dot_split_append) (use ne in simp_all)
  then have name: "path_extension (last (OffsetPath os g t p)) = ''.offset''"
    "path_stem (last (OffsetPath os g t p)) = ?stem"
    using assms(2) by (simp_all add: OffsetPath_def decimal_of_nonneg path_extension_def path_stem_def)
  have "takeWhile (\<lambda>c. c \<noteq> CHR ''-'') (rev ?d @ CHR ''-'' # rev t) = rev ?d \<and>
      dropWhile (\<lambda>c. c \<noteq> CHR ''-'') (rev ?d @ CHR ''-'' # rev t) = CHR ''-'' # rev t"
    by (rule takeWhile_stop) (use digit_string in auto)
  moreover have "parse_digits i32_max ?d 0 = Some p"
    using parse_digits_nat_to_string [of "nat p" i32_max] assms by simp
  ultimately show ?thesis using ne by (simp add: ParseOffsetFilename_def name)
qed

end
