(* ===== verification/TopicRestart.thy ===== *)
theory TopicRestart
  imports TopicCreation TextRoundtrip
begin

text \<open>
  The metadata file always lists the topics the manager has: every operation keeps this,
  failed ones too, and a manager that is loaded from the disk has the same topics with the
  same numbers of partitions.
\<close>

section \<open>Names and partition counts\<close>

definition topic_counts :: "TopicManager \<Rightarrow> (TopicName \<times> nat) list" where
  "topic_counts tm = map (\<lambda>(name, t). (name, length (tp_partitions t))) (tmg_topics tm)"

definition counts_ok :: "(TopicName \<times> nat) list \<Rightarrow> bool" where
  "counts_ok cs \<longleftrightarrow> stdmap_ok cs \<and>
     (\<forall>(name, c) \<in> set cs. Status_ok (ValidateTopicName name) \<and> 0 < c \<and> c \<le> u32_max)"

definition topics_synced :: "TopicManager \<times> Disk \<Rightarrow> bool" where
  "topics_synced st \<longleftrightarrow> metadata_synced (fst st) (snd st) \<and> counts_ok (topic_counts (fst st))"

lemma stdmap_ok_counts: "stdmap_ok (topic_counts tm) \<longleftrightarrow> stdmap_ok (tmg_topics tm)"
  by (simp add: stdmap_ok_def topic_counts_def comp_def case_prod_unfold)

lemma topic_metadata_counts:
  assumes "stdmap_ok (tmg_topics tm)"
  shows "topic_metadata tm = map (\<lambda>(name, c). \<lparr>tm_topic = name, tm_partition_count = word_of_nat c\<rparr>) (topic_counts tm)"
proof -
  have "sorted (map fst (tmg_topics tm))" using assms by (simp add: stdmap_ok_def strict_sorted_iff)
  then show ?thesis
    by (simp add: topic_metadata_def topic_counts_def sort_key_id_if_sorted comp_def case_prod_unfold)
qed

lemma topics_synced_same:
  assumes "topics_synced (tm, d)" "stdmap_ok (tmg_topics tm)" "stdmap_ok (tmg_topics tm')"
    "topic_counts tm' = topic_counts tm" "tmg_options tm' = tmg_options tm"
    "d_lookup d' (MetadataPath (tmg_options tm)) = d_lookup d (MetadataPath (tmg_options tm))"
  shows "topics_synced (tm', d')"
proof -
  have "tmg_topics tm' = [] \<longleftrightarrow> tmg_topics tm = []"
    using assms(4) by (metis (no_types) map_is_Nil_conv topic_counts_def)
  moreover have "topic_metadata tm' = topic_metadata tm"
    using assms(2-4) by (simp add: topic_metadata_counts)
  ultimately show ?thesis using assms
    by (auto simp: topics_synced_def metadata_synced_def split: option.splits)
qed

section \<open>Operations keep the file\<close>

lemma topic_counts_insert:
  assumes "stdmap_ok (tmg_topics tm)" "stdmap_find topic (tmg_topics tm) = Some t"
    "length (tp_partitions t') = length (tp_partitions t)"
  shows "topic_counts (tm\<lparr>tmg_topics := stdmap_insert topic t' (tmg_topics tm)\<rparr>) = topic_counts tm"
  using map_stdmap_insert_same [OF assms(1,2), of "length \<circ> tp_partitions" t'] assms(3)
  by (simp add: topic_counts_def)

lemma metadata_not_in_partition: "\<not> in_dir (PartitionPath opts topic i) (MetadataPath opts)"
  by (simp add: in_dir_def MetadataPath_def PartitionPath_def)

lemma on_partition_synced:
  assumes ok: "tm_ok tm" and "framed f" "part_log tm topic i = Some log"
    "on_partition topic i f (tm, d) = (r, (tm', d'))" "topics_synced (tm, d)"
  shows "topics_synced (tm', d')"
proof -
  obtain r0 log' d0 where f: "f (log, d) = (r0, (log', d0))" by (metis prod_cases3)
  have m: "stdmap_ok (tmg_topics tm)" using ok by (simp add: tm_ok_def)
  from assms(3) obtain t where t: "stdmap_find topic (tmg_topics tm) = Some t" "i < length (tp_partitions t)"
    "log = pt_log (tp_partitions t ! i)" by (auto simp: part_log_def split: option.splits if_splits)
  have tm': "d' = d0" "tm' = tm\<lparr>tmg_topics := stdmap_insert topic
      (t\<lparr>tp_partitions := (tp_partitions t)[i := (tp_partitions t ! i)\<lparr>pt_log := log'\<rparr>]\<rparr>) (tmg_topics tm)\<rparr>"
    using assms(4) t f by (simp_all add: on_partition_def)
  have "log_in log" "clo_data_dir (cl_options log) = PartitionPath (tmg_options tm) topic (to_partition_id i)"
    using ok assms(3) by (simp_all add: tm_ok_def)
  with assms(2) f have "only_in (PartitionPath (tmg_options tm) topic (to_partition_id i)) d d0"
    by (force simp: framed_def)
  then have "d_lookup d' (MetadataPath (tmg_options tm)) = d_lookup d (MetadataPath (tmg_options tm))"
    using metadata_not_in_partition tm'(1) by (simp add: only_in_def)
  with topics_synced_same [OF assms(5) m] topic_counts_insert [OF m t(1)] tm'(2) m show ?thesis
    by (simp add: stdm.inv_insert)
qed

lemma SelectPartition_counts:
  assumes "stdmap_ok (tmg_topics tm)" "SelectPartition topic requested key tm = (r, tm')"
  shows "topic_counts tm' = topic_counts tm"
  using assms topic_counts_insert [OF assms(1), of topic]
  by (auto simp: SelectPartition_def Let_def split: option.splits if_splits)

lemma CreateTopic_counts:
  assumes "CreateTopic topic pc (tm, d) = (r, (tm', d'))" "tm_ok tm" "counts_ok (topic_counts tm)"
  shows "counts_ok (topic_counts tm')"
proof (cases "tm' = tm")
  case False
  have m: "stdmap_ok (tmg_topics tm)" using assms(2) by (simp add: tm_ok_def)
  obtain x d1 where o: "OpenTopic (tmg_options tm) topic pc d = (x, d1)" by force
  have "stdmap_find topic (tmg_topics tm) = None \<and> Status_ok (ValidateTopicName topic) \<and> pc \<noteq> 0 \<and>
      (\<exists>t. x = Inr t \<and> tm' = tm\<lparr>tmg_topics := stdmap_insert topic t (tmg_topics tm)\<rparr>)"
    using assms(1) False o CreateTopic_spec [OF assms(2,1)]
    by (cases x) (auto simp: CreateTopic_def Let_def stdmap_emplace_def split: if_splits option.splits sum.splits prod.splits)
  then obtain t where t: "x = Inr t" "Status_ok (ValidateTopicName topic)" "pc \<noteq> 0"
    "tm' = tm\<lparr>tmg_topics := stdmap_insert topic t (tmg_topics tm)\<rparr>" by blast
  have len: "0 < length (tp_partitions t) \<and> length (tp_partitions t) \<le> u32_max"
    using OpenTopic_spec(2) [OF o t(1)] unsigned_less [of pc, where ?'a = nat] unat_gt_0 [of pc] t(3) by simp
  have "set (topic_counts tm') \<subseteq> insert (topic, length (tp_partitions t)) (set (topic_counts tm))"
    using set_stdmap_insert_subset [of topic t "tmg_topics tm"] by (force simp: topic_counts_def t(4))
  moreover have "stdmap_ok (topic_counts tm')" using m by (simp add: stdmap_ok_counts t(4) stdm.inv_insert)
  ultimately show ?thesis using assms(3) t(2) len by (fastforce simp: counts_ok_def)
qed (use assms in simp)

lemma CreateTopic_synced:
  assumes "CreateTopic topic pc (tm, d) = (r, (tm', d'))" "tm_ok tm" "topics_synced (tm, d)"
  shows "topics_synced (tm', d')"
  using assms CreateTopic_counts [OF assms(1,2)] CreateTopic_spec [OF assms(2,1)]
  by (simp add: topics_synced_def)

section \<open>Loading\<close>

lemma stream_read_spec:
  "stream_read p data d = ((s, ok), d') \<Longrightarrow> data = take (length data) (d_content d p) \<Longrightarrow>
   same_disk d d' \<and> (ok \<longrightarrow> s = d_content d p)"
proof (induction p data d arbitrary: s ok d' rule: stream_read.induct)
  case (1 p data d)
  let ?c = "d_content d p"
  show ?case
  proof (cases "length data < length ?c")
    case False
    then have "data = ?c" using 1(4) by (metis linorder_not_less take_all)
    with False 1(3) show ?thesis by (subst (asm) stream_read.simps) auto
  next
    case True
    obtain x d1 where rd: "sys_pread p (length ?c - length data) (length data) d = (x, d1)" by force
    note cs = sys_pread_cases [OF rd]
    then have same: "same_disk d d1" "d_content d1 = d_content d" by (simp_all add: same_disk_content)
    show ?thesis
    proof (cases x)
      case (Inl e)
      with True rd 1(3) have "if e = EINTR then stream_read p data d1 = ((s, ok), d') else \<not> ok \<and> d' = d1"
        by (subst (asm) stream_read.simps) (auto split: if_splits)
      then show ?thesis
        using 1(1) [OF True rd [symmetric] Inl] 1(4) same by (auto simp: same_disk_def split: if_splits)
    next
      case (Inr bs)
      have "drop (length data) ?c \<noteq> []" using True by simp
      with cs Inr have bs: "bs \<noteq> []" "\<exists>m. bs = take m (drop (length data) ?c)" by auto
      have pre: "data @ bs = take (length (data @ bs)) (d_content d1 p)" unfolding same(2)
        using bs(2) 1(4) by (metis append_take_drop_id length_append take_add append_eq_conv_conj take_take)
      from bs(1) True rd Inr 1(3) have "stream_read p (data @ bs) d1 = ((s, ok), d')"
        by (subst (asm) stream_read.simps) auto
      from 1(2) [OF True rd [symmetric] Inr bs(1) this pre] same show ?thesis by (simp add: same_disk_def)
    qed
  qed
qed

lemma ifstream_spec:
  assumes "ifstream p d = (Some (s, True), d')"
  shows "s = d_content d p"
proof -
  obtain x d1 where o: "sys_open p ReadOnly d = (x, d1)" by force
  obtain s' ok d2 where r: "stream_read p [] d1 = ((s', ok), d2)" by (cases "stream_read p [] d1") force
  from assms o r sys_open_cases [OF o] stream_read_spec [OF r] show ?thesis
    by (auto simp: ifstream_def split: sum.splits)
qed

lemma getline_flag:
  assumes "getline (s, ok) = Some (l, input)"
  shows "snd input = ok"
proof (cases "dropWhile (\<lambda>c. c \<noteq> CHR 0x0A) s")
  case Nil
  from assms have "(if s \<noteq> [] \<and> ok then Some (takeWhile (\<lambda>c. c \<noteq> CHR 0x0A) s, ([], ok)) else None) = Some (l, input)"
    unfolding getline_def prod.case Let_def Nil list.case .
  then show ?thesis by (cases "s \<noteq> [] \<and> ok") auto
next
  case (Cons c cs)
  with assms show ?thesis unfolding getline_def by force
qed

lemma sys_exists_spec:
  assumes "sys_exists p d = (r, d')"
  shows "same_disk d d'" "r = Inr False \<Longrightarrow> d_lookup d' p = None"
proof -
  obtain y n where n: "next_ret d = (y, n)" by force
  with assms next_ret_same [OF n] show "same_disk d d'" by (auto simp: sys_exists_def split: sysret.splits)
  assume "r = Inr False"
  with assms n have "p \<notin> fst ` set (d_files d')" by (auto simp: sys_exists_def split: sysret.splits)
  then show "d_lookup d' p = None" by (simp add: d_lookup_def map_of_eq_None_iff)
qed

lemma load_lines_counts:
  assumes "load_lines opts n (map metadata_line ms) loaded d = (Inr loaded', d')" "stdmap_ok loaded"
    "\<forall>t \<in> set ms. Status_ok (ValidateTopicName (tm_topic t))" "distinct (map tm_topic ms)"
  shows "stdmap_ok loaded' \<and> (\<forall>k. map_option (length \<circ> tp_partitions) (stdmap_find k loaded') =
    (case map_of (map (\<lambda>t. (tm_topic t, unat (tm_partition_count t))) ms) k of
       None \<Rightarrow> map_option (length \<circ> tp_partitions) (stdmap_find k loaded) | Some c \<Rightarrow> Some c))"
  using assms
proof (induction ms arbitrary: n loaded d)
  case (Cons t ms)
  have "metadata_line t \<noteq> []" by (simp add: metadata_line_def)
  moreover have "parse_metadata_line (metadata_line t) = Some (tm_topic t, unat (tm_partition_count t))"
    using Cons.prems(3) by (simp add: parse_metadata_line_line)
  moreover obtain x d1 where o: "OpenTopic opts (tm_topic t) (tm_partition_count t) d = (x, d1)" by force
  ultimately have new: "stdmap_find (tm_topic t) loaded = None"
    and op: "\<exists>top. x = Inr top \<and>
      load_lines opts (Suc n) (map metadata_line ms) (stdmap_emplace (tm_topic t) top loaded) d1 = (Inr loaded', d')"
    using Cons.prems(1) by (auto simp: Let_def split: if_splits sum.splits)
  from op obtain top where top: "x = Inr top"
    "load_lines opts (Suc n) (map metadata_line ms) (stdmap_emplace (tm_topic t) top loaded) d1 = (Inr loaded', d')"
    by blast
  have "length (tp_partitions top) = unat (tm_partition_count t)" using OpenTopic_spec(2) [OF o top(1)] by simp
  moreover have "map_of (map (\<lambda>t. (tm_topic t, unat (tm_partition_count t))) ms) (tm_topic t) = None"
    using Cons.prems(4) by (force simp: map_of_eq_None_iff)
  ultimately show ?case
    using Cons.IH [OF top(2)] Cons.prems(2-4) new
    by (auto simp: stdmap_ok_emplace stdmap_find_emplace split: option.splits)
qed simp

lemma stdmap_eqI:
  assumes "stdmap_ok a" "stdmap_ok b" "map_of a = map_of b"
  shows "a = b"
proof -
  have d: "distinct (map fst a)" "distinct (map fst b)" using assms(1,2) by (simp_all add: stdmap_ok_distinct)
  then have "x \<in> set a \<longleftrightarrow> x \<in> set b" for x
    using map_of_eq_Some_iff [of a "fst x" "snd x"] map_of_eq_Some_iff [of b "fst x" "snd x"] assms(3) by simp
  then have "set a = set b" by blast
  moreover have "inj_on fst (set a \<union> set b)" using calculation d(1) by (simp add: distinct_map)
  ultimately show ?thesis
    using assms(1,2) d map_sorted_distinct_set_unique [of fst a b] by (simp add: stdmap_ok_def strict_sorted_iff)
qed

lemma Load_same_topics:
  assumes "topics_synced (tm, d)" "tm_ok tm" "tmg_options tm0 = tmg_options tm" "tmg_topics tm0 = []"
    "TopicManager_Load (tm0, d) = (Inr (), (tm', d'))"
  shows "topic_counts tm' = topic_counts tm"
proof -
  let ?o = "tmg_options tm" and ?ms = "topic_metadata tm"
  have ok: "stdmap_ok (tmg_topics tm)" "counts_ok (topic_counts tm)" using assms(1,2)
    by (simp_all add: tm_ok_def topics_synced_def)
  obtain x d1 where c: "create_directories (tmo_data_dir ?o) d = (x, d1)" by force
  obtain e d2 where ex: "sys_exists (MetadataPath ?o) d1 = (e, d2)" by force
  have e: "d_lookup d2 = d_lookup d" "e = Inr False \<Longrightarrow> d_lookup d (MetadataPath ?o) = None"
    using create_directories_files [OF c] sys_exists_spec [OF ex] by (simp_all add: same_disk_def)
  obtain b where b: "e = Inr b" using assms(3,5) c ex
    by (cases x; cases e) (auto simp: TopicManager_Load_def Let_def)
  show ?thesis
  proof (cases b)
    case False
    with assms(3,5) c ex b have "tm' = tm0" by (cases x) (auto simp: TopicManager_Load_def Let_def)
    moreover from e(2) b False assms(1) have "tmg_topics tm = []"
      by (simp add: topics_synced_def metadata_synced_def)
    ultimately show ?thesis using assms(4) by (simp add: topic_counts_def)
  next
    case True
    from True assms(3,5) c ex b obtain s input d3 d4 line loaded where
      fs: "ifstream (MetadataPath ?o) d2 = (Some s, d3)" "getline s = Some (line, input)" "snd input"
      and ld: "load_lines ?o 1 (stream_lines input) [] d3 = (Inr loaded, d4)" "tm' = tm0\<lparr>tmg_topics := loaded\<rparr>"
      by (cases x) (auto simp: TopicManager_Load_def Let_def split: option.splits sum.splits if_splits prod.splits)
    obtain content where s: "s = (content, True)" using fs(2,3) getline_flag by (cases s) fastforce
    with ifstream_spec [of _ d2 content d3] fs(1) e(1) have "content = d_content d (MetadataPath ?o)"
      by (simp add: d_content_lookup)
    then have content: "content = metadata_text ?ms"
      using assms(1) fs(2) s
      by (auto simp: topics_synced_def metadata_synced_def d_content_lookup getline_def split: option.splits)
    have names: "\<forall>t \<in> set ?ms. Status_ok (ValidateTopicName (tm_topic t))" "distinct (map tm_topic ?ms)"
      using ok stdmap_ok_distinct [of "topic_counts tm"]
      by (auto simp: counts_ok_def topic_metadata_counts comp_def case_prod_unfold)
    from metadata_text_lines [OF names(1)] fs(2) s content have "stream_lines input = map metadata_line ?ms" by auto
    from load_lines_counts [OF ld(1) [unfolded this] stdmap_ok_Nil names]
    have "stdmap_ok loaded" and look: "\<And>k. map_option (length \<circ> tp_partitions) (stdmap_find k loaded) =
        map_of (map (\<lambda>t. (tm_topic t, unat (tm_partition_count t))) ?ms) k"
      by (auto simp: stdm.find_empty split: option.splits)
    have "map (\<lambda>t. (tm_topic t, unat (tm_partition_count t))) ?ms = topic_counts tm"
      unfolding topic_metadata_counts [OF ok(1)] using ok(2)
      by (auto simp: counts_ok_def comp_def intro!: map_idI)
    with look have "map_of (topic_counts tm') = map_of (topic_counts tm)"
      by (auto simp: topic_counts_def ld(2) fun_eq_iff stdmap_find_def map_of_map comp_def)
    then show ?thesis using ok(1) \<open>stdmap_ok loaded\<close> ld(2)
      by (intro stdmap_eqI) (simp_all add: stdmap_ok_counts)
  qed
qed

section \<open>Logs and metadata together\<close>

definition topics_rep :: "TopicManager \<times> Disk \<Rightarrow> (TopicName \<times> nat \<rightharpoonup> batches) \<Rightarrow> bool" where
  "topics_rep st A \<longleftrightarrow> logs_rep st A \<and> topics_synced st"

lemma topics_rep_ok:
  assumes "topics_rep (tm, d) A"
  shows "logs_rep (tm, d) A" "topics_synced (tm, d)" "tm_ok tm" "stdmap_ok (tmg_topics tm)"
  using assms by (simp_all add: topics_rep_def logs_rep_def tm_ok_def)

lemma topics_rep_append:
  assumes "topics_rep (tm, d) A" "part_log tm topic i = Some log" "in_memory rs"
    and run: "on_partition topic i (CommitLog_Append rs) (tm, d) = (r, (tm', d'))"
  shows "\<exists>A' log'. topics_rep (tm', d') A' \<and> part_log tm' topic i = Some log' \<and>
    grows A (topic, i) (case r of Inl _ \<Rightarrow> [] | Inr a \<Rightarrow> [(ar_base_offset a, rs)]) A'"
  using append_partition [OF topics_rep_ok(1) [OF assms(1)] assms(2-4)]
    on_partition_synced [OF topics_rep_ok(3) [OF assms(1)] framed_ops(1) assms(2) run topics_rep_ok(2) [OF assms(1)]]
  unfolding topics_rep_def by blast

lemma topics_rep_read:
  assumes "topics_rep (tm, d) A" "part_log tm topic i = Some log"
    and run: "on_partition topic i (CommitLog_Read off m) (tm, d) = (r, (tm', d'))"
  shows "topics_rep (tm', d') A \<and> (\<forall>v L. r = Inr v \<longrightarrow> A (topic, i) = Some L \<longrightarrow>
    (\<exists>x \<in> set L. holds_offset off x \<and> v = mk_batch (fst x) (snd x)))"
  using read_partition [OF topics_rep_ok(1) [OF assms(1)] assms(2,3)]
    on_partition_synced [OF topics_rep_ok(3) [OF assms(1)] framed_ops(2) assms(2) run topics_rep_ok(2) [OF assms(1)]]
  unfolding topics_rep_def by blast

lemma topics_rep_flush:
  assumes "topics_rep (tm, d) A" "part_log tm topic i = Some log"
    and run: "on_partition topic i CommitLog_Flush (tm, d) = (r, (tm', d'))"
  shows "topics_rep (tm', d') A"
  using flush_partition [OF topics_rep_ok(1) [OF assms(1)] assms(2,3)]
    on_partition_synced [OF topics_rep_ok(3) [OF assms(1)] framed_ops(3) assms(2) run topics_rep_ok(2) [OF assms(1)]]
  unfolding topics_rep_def by blast

lemma topics_rep_create:
  assumes "topics_rep (tm, d) A" "CreateTopic topic pc (tm, d) = (r, (tm', d'))"
  shows "topics_rep (tm', d') A"
  using CreateTopic_rep [OF topics_rep_ok(1) [OF assms(1)] assms(2)]
    CreateTopic_synced [OF assms(2) topics_rep_ok(3,2) [OF assms(1)]]
  unfolding topics_rep_def by blast

lemma topics_rep_select:
  assumes "topics_rep (tm, d) A" "SelectPartition topic requested key tm = (r, tm')"
  shows "topics_rep (tm', d) A"
proof -
  note ok = topics_rep_ok [OF assms(1)]
  note s = SelectPartition_log [OF ok(4) assms(2)]
  show ?thesis unfolding topics_rep_def
    using logs_rep_part_log [OF ok(1) s(1-3)]
      topics_synced_same [OF ok(2,4) s(3) SelectPartition_counts [OF ok(4) assms(2)] s(2) refl] by blast
qed

lemma topics_rep_disk:
  assumes "topics_rep (tm, d) A" "logs_quiet tm d d'"
    "d_lookup d' (MetadataPath (tmg_options tm)) = d_lookup d (MetadataPath (tmg_options tm))"
  shows "topics_rep (tm, d') A"
proof -
  note ok = topics_rep_ok [OF assms(1)]
  show ?thesis unfolding topics_rep_def
    using logs_rep_quiet [OF ok(1) assms(2)] topics_synced_same [OF ok(2,4,4) refl refl assms(3)] by blast
qed

lemma TopicManager_Flush_metadata:
  assumes "tm_ok tm" "TopicManager_Flush tm d = (r, d')"
  shows "d_lookup d' (MetadataPath (tmg_options tm)) = d_lookup d (MetadataPath (tmg_options tm))"
proof (rule for_status_rel [OF assms(2) [unfolded TopicManager_Flush_def]])
  fix p d r d' assume p: "p \<in> set (all_partitions tm)"
    and run: "(let (r, (_, d')) = CommitLog_Flush (pt_log p, d) in (r, d')) = (r, d')"
  from all_partitions_log [OF _ p] assms(1) obtain topic i where pl: "part_log tm topic i = Some (pt_log p)"
    by (auto simp: tm_ok_def)
  obtain log' where f: "CommitLog_Flush (pt_log p, d) = (r, (log', d'))" using run by (auto split: prod.splits)
  have "log_in (pt_log p)"
    "clo_data_dir (cl_options (pt_log p)) = PartitionPath (tmg_options tm) topic (to_partition_id i)"
    using assms(1) pl by (simp_all add: tm_ok_def)
  with framed_ops(3) f have "only_in (PartitionPath (tmg_options tm) topic (to_partition_id i)) d d'"
    by (force simp: framed_def)
  then show "d_lookup d' (MetadataPath (tmg_options tm)) = d_lookup d (MetadataPath (tmg_options tm))"
    using metadata_not_in_partition by (simp add: only_in_def)
qed auto

lemma topics_rep_flush_all:
  assumes "topics_rep (tm, d) A" "TopicManager_Flush tm d = (r, d')"
  shows "topics_rep (tm, d') A"
proof -
  note ok = topics_rep_ok [OF assms(1)]
  show ?thesis unfolding topics_rep_def
    using TopicManager_Flush_rep [OF ok(1) assms(2)]
      topics_synced_same [OF ok(2,4,4) refl refl TopicManager_Flush_metadata [OF ok(3) assms(2)]] by blast
qed

end
