(* ===== verification/GroupInvariant.thy ===== *)
theory GroupInvariant
  imports GroupCoordinator
begin

text \<open>
  What the group coordinator guarantees. The assignment of a group is compared with an
  arithmetic reference, intervals of the natural numbers; the invariant of the coordinator
  is kept by every operation and by the scanner, and from it follow the exclusive ownership
  of partitions, the freshness of generated member ids and the meaning of a generation.
\<close>

section \<open>The shares\<close>

definition share_start :: "nat \<Rightarrow> nat \<Rightarrow> nat \<Rightarrow> nat" where
  "share_start partition_count member_count k =
     k * (partition_count div member_count) + min k (partition_count mod member_count)"

lemma share_start_Suc:
  "share_start p n (Suc k) = share_start p n k + p div n + (if k < p mod n then 1 else 0)"
  by (auto simp: share_start_def)

lemma share_start_0 [simp]: "share_start p n 0 = 0"
  by (simp add: share_start_def)

lemma share_start_end: "0 < n \<Longrightarrow> share_start p n n = p"
  by (simp add: share_start_def min_absorb2 order_less_imp_le)

lemma share_start_le: "k \<le> n \<Longrightarrow> 0 < n \<Longrightarrow> share_start p n k \<le> p"
proof -
  assume "k \<le> n" "0 < n"
  then have "k * (p div n) \<le> n * (p div n)" "min k (p mod n) \<le> p mod n" by simp_all
  then have "share_start p n k \<le> n * (p div n) + p mod n" unfolding share_start_def by (rule add_mono)
  then show ?thesis by simp
qed

lemma concat_upt_pieces:
  "(\<And>k. k < n \<Longrightarrow> s k \<le> s (Suc k)) \<Longrightarrow> s 0 = (0::nat) \<Longrightarrow>
   concat (map (\<lambda>k. [s k..<s (Suc k)]) [0..<n]) = [0..<s n]"
proof (induction n)
  case (Suc n)
  then have "concat (map (\<lambda>k. [s k..<s (Suc k)]) [0..<Suc n]) = [0..<s n] @ [s n..<s (Suc n)]" by simp
  also have "\<dots> = [0..<s (Suc n)]" using Suc.prems(1) [of n] upt_add_eq_append [of 0 "s n"] by (metis lessI le0 le_add_diff_inverse)
  finally show ?case .
qed simp

lemma member_share_eq:
  assumes "k < n" "n \<le> u32_max"
  shows "member_share p n k =
    map (\<lambda>i. sint (word_of_nat i :: u32)) [share_start (unat p) n k..<share_start (unat p) n (Suc k)]"
proof -
  let ?n = "word_of_nat n :: u32" and ?k = "word_of_nat k :: u32"
  let ?base = "p div ?n" and ?extra = "p mod ?n"
  let ?count = "?base + (if ?k < ?extra then 1 else 0)" and ?start = "?k * ?base + min ?k ?extra"
  have un: "unat ?n = n" "unat ?k = k" using assms by simp_all
  have base: "unat ?base = unat p div n" and extra: "unat ?extra = unat p mod n"
    by (simp_all add: unat_div unat_mod un)
  have "unat p < 2 ^ LENGTH(32)" by (rule unsigned_less)
  then have p: "unat p \<le> u32_max" by simp
  have lt: "?k < ?extra \<longleftrightarrow> k < unat p mod n" by (simp add: word_less_nat_alt un extra)
  have start_le: "share_start (unat p) n k \<le> unat p" using assms(1) by (simp add: share_start_le)
  have "share_start (unat p) n (Suc k) \<le> unat p" using assms(1) by (intro share_start_le) simp_all
  then have len: "share_start (unat p) n k + unat p div n + (if k < unat p mod n then 1 else 0) \<le> u32_max"
    using p by (simp only: share_start_Suc)
  have "word_of_nat (share_start (unat p) n k) = ?start"
  proof -
    have "min ?k ?extra = word_of_nat (min k (unat p mod n))"
    proof (cases "?k < ?extra")
      case True
      with lt show ?thesis by (simp add: min_absorb1 order_less_imp_le)
    next
      case False
      with lt have "min k (unat p mod n) = unat ?extra" by (simp add: extra)
      moreover from False have "min ?k ?extra = ?extra" by (simp add: min_absorb2)
      ultimately show ?thesis by simp
    qed
    moreover have "?base = word_of_nat (unat p div n)" by (simp flip: base)
    ultimately show ?thesis by (simp add: share_start_def)
  qed
  moreover have "unat ?count = unat p div n + (if k < unat p mod n then 1 else 0)"
  proof -
    have "?count = word_of_nat (unat p div n + (if k < unat p mod n then 1 else 0))"
      using lt by (simp flip: base)
    then show ?thesis using len by (simp del: of_nat_add)
  qed
  ultimately have "member_share p n k =
      map (\<lambda>i. sint (word_of_nat (share_start (unat p) n k + i) :: u32))
        [0..<unat p div n + (if k < unat p mod n then 1 else 0)]"
    by (simp add: member_share_def Let_def)
  also have "\<dots> = map (\<lambda>i. sint (word_of_nat i :: u32))
      [share_start (unat p) n k..<share_start (unat p) n (Suc k)]"
    by (rule nth_equalityI) (simp_all add: share_start_Suc)
  finally show ?thesis .
qed

text \<open>Together the shares are all partitions in order, each once, as long as partition ids do
  not become negative; and no two shares differ by more than one in size.\<close>

lemma sint_partition_id: "i < 2 ^ 31 \<Longrightarrow> sint (word_of_nat i :: u32) = int i"
  using sint_word_of_int_i32 [of "int i"] by (simp add: is_i32_def)

lemma concat_member_share:
  assumes "0 < n" "n \<le> u32_max" "unat p \<le> 2 ^ 31"
  shows "concat (map (member_share p n) [0..<n]) = map int [0..<unat p]"
proof -
  let ?s = "share_start (unat p) n"
  have "concat (map (member_share p n) [0..<n]) =
      concat (map (\<lambda>k. map (\<lambda>i. sint (word_of_nat i :: u32)) [?s k..<?s (Suc k)]) [0..<n])"
    using assms by (intro arg_cong [where f = concat] map_cong refl) (simp add: member_share_eq)
  also have "\<dots> = map (\<lambda>i. sint (word_of_nat i :: u32)) (concat (map (\<lambda>k. [?s k..<?s (Suc k)]) [0..<n]))"
    by (simp add: map_concat comp_def)
  also have "concat (map (\<lambda>k. [?s k..<?s (Suc k)]) [0..<n]) = [0..<unat p]"
    using assms by (subst concat_upt_pieces) (simp_all add: share_start_Suc share_start_end)
  also have "map (\<lambda>i. sint (word_of_nat i :: u32)) [0..<unat p] = map int [0..<unat p]"
    using assms(3) by (intro map_cong refl sint_partition_id) auto
  finally show ?thesis .
qed

lemma length_member_share:
  "k < n \<Longrightarrow> n \<le> u32_max \<Longrightarrow>
   length (member_share p n k) = unat p div n + (if k < unat p mod n then 1 else 0)"
  by (simp add: member_share_eq share_start_Suc)

section \<open>The view of a group that its members have\<close>

definition members_view :: "GroupState \<Rightarrow> (string \<times> PartitionAssignment) list" where
  "members_view g = map (\<lambda>(k, m). (k, ms_assignment m)) (gs_members g)"

definition group_assigned :: "GroupState \<Rightarrow> bool" where
  "group_assigned g \<longleftrightarrow>
     gs_leader_id g = (case members_view g of [] \<Rightarrow> [] | e # _ \<Rightarrow> fst e) \<and>
     map snd (members_view g) =
       map (\<lambda>k. \<lparr>pa_topic = gs_topic g,
                 pa_partition_ids = member_share (gs_partition_count g) (length (members_view g)) k\<rparr>)
           [0..<length (members_view g)]"

lemma length_members_view [simp]: "length (members_view g) = length (gs_members g)"
  by (simp add: members_view_def)

lemma members_view_Nil [simp]: "members_view g = [] \<longleftrightarrow> gs_members g = []"
  by (simp add: members_view_def)

lemma map_fst_members_view: "map fst (members_view g) = map fst (gs_members g)"
  by (simp add: members_view_def case_prod_unfold)

lemma AssignLocked_frame [simp]:
  "gs_group_id (AssignLocked g) = gs_group_id g" "gs_topic (AssignLocked g) = gs_topic g"
  "gs_partition_count (AssignLocked g) = gs_partition_count g"
  "gs_generation_id (AssignLocked g) = gs_generation_id g"
  "gs_next_member_sequence (AssignLocked g) = gs_next_member_sequence g"
  by (simp_all add: AssignLocked_def Let_def)

lemma AssignLocked_members:
  "map (\<lambda>(k, m). (k, ms_member_id m)) (gs_members (AssignLocked g)) =
   map (\<lambda>(k, m). (k, ms_member_id m)) (gs_members g)"
proof -
  have "map (\<lambda>(i, (k, m)). (k, ms_member_id m)) (enumerate 0 (gs_members g)) =
      map (\<lambda>(k, m). (k, ms_member_id m)) (map snd (enumerate 0 (gs_members g)))"
    by (simp only: map_map comp_def case_prod_unfold)
  then show ?thesis
    by (simp add: AssignLocked_def Let_def comp_def case_prod_unfold)
qed

lemma AssignLocked_keys [simp]: "map fst (gs_members (AssignLocked g)) = map fst (gs_members g)"
  using arg_cong [OF AssignLocked_members, of "map fst" g] by (simp add: comp_def case_prod_unfold)

lemma stdmap_ok_AssignLocked [simp]: "stdmap_ok (gs_members (AssignLocked g)) = stdmap_ok (gs_members g)"
  by (simp add: stdmap_ok_def)

lemma AssignLocked_Nil [simp]: "gs_members (AssignLocked g) = [] \<longleftrightarrow> gs_members g = []"
  using AssignLocked_keys [of g] by (metis map_is_Nil_conv)

lemma AssignLocked_assigned: "group_assigned (AssignLocked g)"
proof (cases "gs_members g = []")
  case True
  then show ?thesis by (simp add: group_assigned_def AssignLocked_def members_view_def)
next
  case False
  let ?n = "length (gs_members g)"
  have len: "length (gs_members (AssignLocked g)) = ?n"
    using AssignLocked_keys [of g] by (metis length_map)
  have "map snd (members_view (AssignLocked g)) =
      map (\<lambda>k. \<lparr>pa_topic = gs_topic g, pa_partition_ids = member_share (gs_partition_count g) ?n k\<rparr>)
        [0..<?n]"
    using False
    by (intro nth_equalityI)
      (simp_all add: members_view_def AssignLocked_def Let_def nth_enumerate_eq case_prod_unfold)
  moreover have "gs_leader_id (AssignLocked g) = fst (hd (members_view (AssignLocked g)))"
  proof -
    have "fst (hd (members_view (AssignLocked g))) = hd (map fst (members_view (AssignLocked g)))"
      using False by (simp add: hd_map)
    also have "\<dots> = fst (hd (gs_members g))" using False by (simp add: map_fst_members_view hd_map)
    finally show ?thesis using False by (simp add: AssignLocked_def Let_def)
  qed
  ultimately show ?thesis using False len
    by (auto simp: group_assigned_def neq_Nil_conv split: list.splits)
qed

section \<open>The invariant\<close>

text \<open>Up to the last generation a group is assigned, its members are exactly those named by the
  sequence so far, and it is empty only before its first generation. In the last
  generation a failing \<^verbatim>\<open>JoinGroup\<close> or \<^verbatim>\<open>LeaveGroup\<close> may have changed the members without an
  assignment, and nothing is claimed about them.\<close>

definition member_name :: "nat \<Rightarrow> string" where
  "member_name s = ''member-'' @ nat_to_string s"

definition settled :: "GroupState \<Rightarrow> bool" where
  "settled g \<longleftrightarrow> group_assigned g \<and>
     unat (gs_next_member_sequence g) \<le> nat (gs_generation_id g) + 1 \<and>
     (\<forall>k \<in> set (map fst (gs_members g)). \<exists>s < unat (gs_next_member_sequence g). k = member_name s) \<and>
     (gs_members g = [] \<longleftrightarrow> gs_generation_id g = 0)"

definition group_inv :: "string \<Rightarrow> GroupState \<Rightarrow> bool" where
  "group_inv gid g \<longleftrightarrow> gs_group_id g = gid \<and> stdmap_ok (gs_members g) \<and>
     0 \<le> gs_generation_id g \<and> gs_generation_id g \<le> i32_max \<and> gs_partition_count g \<noteq> 0 \<and>
     (gs_generation_id g < i32_max \<longrightarrow> settled g)"

definition gc_inv :: "GroupCoordinator \<Rightarrow> bool" where
  "gc_inv gc \<longleftrightarrow> stdmap_ok (gc_groups gc) \<and> stdm.values_all group_inv (gc_groups gc)"

text \<open>What a step may do to a group that exists before and after it: the generation only grows,
  and while it stays the same so do the leader and every assignment.\<close>

definition group_evolves :: "GroupState \<Rightarrow> GroupState \<Rightarrow> bool" where
  "group_evolves g g' \<longleftrightarrow> gs_topic g' = gs_topic g \<and> gs_partition_count g' = gs_partition_count g \<and>
     gs_generation_id g \<le> gs_generation_id g' \<and>
     (gs_generation_id g' = gs_generation_id g \<and> gs_generation_id g < i32_max \<longrightarrow>
        members_view g' = members_view g \<and> gs_leader_id g' = gs_leader_id g)"

definition gc_evolves :: "GroupCoordinator \<Rightarrow> GroupCoordinator \<Rightarrow> bool" where
  "gc_evolves gc gc' \<longleftrightarrow> (\<forall>gid g g'. stdmap_find gid (gc_groups gc) = Some g \<longrightarrow>
     stdmap_find gid (gc_groups gc') = Some g' \<longrightarrow> group_evolves g g')"

definition good_step :: "GroupCoordinator \<Rightarrow> GroupCoordinator \<Rightarrow> bool" where
  "good_step gc gc' \<longleftrightarrow> gc_inv gc' \<and> gc_evolves gc gc'"

lemma group_evolves_refl [simp]: "group_evolves g g"
  by (simp add: group_evolves_def)

lemma gc_invD: "gc_inv gc \<Longrightarrow> stdmap_find gid (gc_groups gc) = Some g \<Longrightarrow> group_inv gid g"
  unfolding gc_inv_def by (blast dest: stdm.values_allD)

lemma good_step_refl: "gc_inv gc \<Longrightarrow> good_step gc gc"
  by (auto simp: good_step_def gc_evolves_def)

lemma good_step_groups:
  "good_step gc gc' \<Longrightarrow> gc_groups gc'' = gc_groups gc' \<Longrightarrow> good_step gc gc''"
  by (simp add: good_step_def gc_evolves_def gc_inv_def)

lemma good_step_set_group:
  assumes "gc_inv gc" "group_inv gid g'"
    and "\<And>g. stdmap_find gid (gc_groups gc) = Some g \<Longrightarrow> group_evolves g g'"
  shows "good_step gc (set_group gid g' gc)"
  using assms
  by (auto simp: good_step_def gc_evolves_def gc_inv_def set_group_def stdm.inv_insert
      stdm.values_all_insert stdm.find_insert)

lemma good_step_update:
  "gc_inv gc \<Longrightarrow> stdmap_find gid (gc_groups gc) = Some g \<Longrightarrow> group_inv gid g' \<Longrightarrow>
   group_evolves g g' \<Longrightarrow> good_step gc (set_group gid g' gc)"
  by (rule good_step_set_group) simp_all

lemma good_step_erase:
  assumes "gc_inv gc"
  shows "good_step gc (gc\<lparr>gc_groups := stdmap_erase gid (gc_groups gc)\<rparr>)"
  using assms
  by (auto simp: good_step_def gc_evolves_def gc_inv_def stdm.inv_erase stdm.values_all_erase
      stdm.find_erase split: if_splits)

lemma set_group_twice: "gc_inv gc \<Longrightarrow> set_group gid g' (set_group gid g gc) = set_group gid g' gc"
proof -
  have "stdmap_insert k v (stdmap_insert k v' m) = stdmap_insert k v m" for k :: string and v v' and m :: "(string, GroupState) std_map"
    by (induction k v' m rule: stdmap_insert.induct) auto
  then show ?thesis by (simp add: set_group_def)
qed

text \<open>A new heartbeat time changes nothing that a member sees.\<close>

lemma heartbeat_view:
  assumes "stdmap_ok (gs_members g)" "stdmap_find k (gs_members g) = Some m"
  shows "members_view (g\<lparr>gs_members := stdmap_insert k (m\<lparr>ms_last_heartbeat := t\<rparr>) (gs_members g)\<rparr>) =
    members_view g"
  using assms by (simp add: members_view_def map_stdmap_insert_same [where f = ms_assignment])

lemma settled_view:
  assumes "members_view g' = members_view g" "gs_leader_id g' = gs_leader_id g"
    "gs_topic g' = gs_topic g" "gs_partition_count g' = gs_partition_count g"
    "gs_generation_id g' = gs_generation_id g"
    "gs_next_member_sequence g' = gs_next_member_sequence g"
  shows "settled g' = settled g"
proof -
  have "map fst (gs_members g') = map fst (gs_members g)"
    using assms(1) by (metis map_fst_members_view)
  moreover from this have "gs_members g' = [] \<longleftrightarrow> gs_members g = []" by (metis map_is_Nil_conv)
  ultimately show ?thesis using assms by (simp add: settled_def group_assigned_def)
qed

lemma heartbeat_group:
  fixes t :: int
  assumes "group_inv gid g" "stdmap_find k (gs_members g) = Some m"
  defines "g' \<equiv> g\<lparr>gs_members := stdmap_insert k (m\<lparr>ms_last_heartbeat := t\<rparr>) (gs_members g)\<rparr>"
  shows "group_inv gid g'" "group_evolves g g'"
proof -
  have ok: "stdmap_ok (gs_members g)" using assms(1) by (simp add: group_inv_def)
  have view: "members_view g' = members_view g"
    unfolding g'_def using ok assms(2) by (rule heartbeat_view)
  have same: "gs_leader_id g' = gs_leader_id g" "gs_topic g' = gs_topic g"
    "gs_partition_count g' = gs_partition_count g" "gs_generation_id g' = gs_generation_id g"
    "gs_next_member_sequence g' = gs_next_member_sequence g" "gs_group_id g' = gs_group_id g"
    by (simp_all add: g'_def)
  have "stdmap_ok (gs_members g')" using ok by (simp add: g'_def stdm.inv_insert)
  then show "group_inv gid g'" using assms(1) same settled_view [OF view same(1-5)]
    by (simp add: group_inv_def)
  show "group_evolves g g'" using view same by (simp add: group_evolves_def)
qed

section \<open>Every operation keeps it\<close>

lemma group_inv_assign:
  assumes "gs_group_id g = gid" "stdmap_ok (gs_members g)" "gs_members g \<noteq> []"
    "0 < gs_generation_id g" "gs_generation_id g \<le> i32_max" "gs_partition_count g \<noteq> 0"
    and "gs_generation_id g < i32_max \<Longrightarrow>
      unat (gs_next_member_sequence g) \<le> nat (gs_generation_id g) + 1 \<and>
      (\<forall>k \<in> set (map fst (gs_members g)). \<exists>s < unat (gs_next_member_sequence g). k = member_name s)"
  shows "group_inv gid (AssignLocked g)"
  using assms by (simp add: group_inv_def settled_def AssignLocked_assigned del: set_map)

lemma fresh_group_inv:
  "partition_count \<noteq> 0 \<Longrightarrow> group_inv gid \<lparr>gs_group_id = gid, gs_topic = t,
     gs_partition_count = partition_count, gs_generation_id = 0, gs_next_member_sequence = 1,
     gs_leader_id = [], gs_members = []\<rparr>"
  by (simp add: group_inv_def settled_def group_assigned_def members_view_def stdmap_ok_Nil)

lemma nat_to_string_inj: "nat_to_string m = nat_to_string n \<Longrightarrow> m = n"
proof -
  assume eq: "nat_to_string m = nat_to_string n"
  have "parse_digits (int (m + n)) (nat_to_string m) 0 = Some (int m)"
    by (rule parse_digits_nat_to_string) simp
  moreover have "parse_digits (int (m + n)) (nat_to_string n) 0 = Some (int n)"
    by (rule parse_digits_nat_to_string) simp
  ultimately show "m = n" unfolding eq by (metis of_nat_eq_iff option.inject)
qed

lemma next_member_fresh:
  assumes "group_inv gid g" "gs_generation_id g < i32_max"
  shows "stdmap_find (member_name (unat (gs_next_member_sequence g))) (gs_members g) = None"
proof (rule ccontr)
  assume "\<not> ?thesis"
  then have "member_name (unat (gs_next_member_sequence g)) \<in> fst ` set (gs_members g)"
    by (simp add: stdmap_find_def map_of_eq_None_iff)
  then obtain s where "s < unat (gs_next_member_sequence g)"
      "member_name (unat (gs_next_member_sequence g)) = member_name s"
    using assms by (auto simp: group_inv_def settled_def)
  then show False by (auto simp: member_name_def dest: nat_to_string_inj)
qed

definition with_member :: "int \<Rightarrow> string \<Rightarrow> GroupState \<Rightarrow> GroupState" where
  "with_member now topic g =
     (let member_id = member_name (unat (gs_next_member_sequence g))
      in g\<lparr>gs_next_member_sequence := gs_next_member_sequence g + 1,
           gs_members := stdmap_emplace member_id
             \<lparr>ms_member_id = member_id, ms_last_heartbeat = now,
              ms_assignment = \<lparr>pa_topic = topic, pa_partition_ids = []\<rparr>\<rparr> (gs_members g)\<rparr>)"

lemma with_member_frame [simp]:
  "gs_group_id (with_member now topic g) = gs_group_id g" "gs_topic (with_member now topic g) = gs_topic g"
  "gs_partition_count (with_member now topic g) = gs_partition_count g"
  "gs_generation_id (with_member now topic g) = gs_generation_id g"
  "gs_next_member_sequence (with_member now topic g) = gs_next_member_sequence g + 1"
  by (simp_all add: with_member_def Let_def)

lemma stdmap_insert_not_Nil [simp]: "stdmap_insert k v m \<noteq> []"
  by (cases "(k, v, m)" rule: stdmap_insert.cases) simp_all

lemma with_member_last:
  "group_inv gid g \<Longrightarrow> gs_generation_id g = i32_max \<Longrightarrow> group_inv gid (with_member now topic g)"
  by (simp add: group_inv_def with_member_def Let_def stdmap_ok_emplace)

lemma with_member_keys:
  assumes "group_inv gid g" "gs_generation_id g < i32_max"
  shows "set (map fst (gs_members (with_member now topic g))) =
    insert (member_name (unat (gs_next_member_sequence g))) (set (map fst (gs_members g)))"
    "gs_members (with_member now topic g) \<noteq> []"
  using next_member_fresh [OF assms]
  by (simp_all add: with_member_def Let_def stdmap_emplace_def set_stdmap_insert)

lemma rebalance_with_member:
  fixes now :: int and topic :: string
  assumes g: "group_inv gid g" "gs_generation_id g < i32_max"
  defines "g' \<equiv> with_member now topic g"
  shows "group_inv gid (AssignLocked (g'\<lparr>gs_generation_id := gs_generation_id g' + 1\<rparr>))"
proof (rule group_inv_assign)
  have set: "settled g" "0 \<le> gs_generation_id g" using g by (simp_all add: group_inv_def)
  let ?n = "unat (gs_next_member_sequence g)"
  have "?n \<le> nat (gs_generation_id g) + 1" using set(1) by (simp add: settled_def)
  also have "\<dots> < u32_max" using g(2) by simp
  finally have "?n < u32_max" .
  then have suc: "unat (gs_next_member_sequence g + 1) = Suc ?n" by (simp add: unat_word_ariths)
  have keys: "\<forall>k \<in> set (map fst (gs_members g')). \<exists>s < Suc ?n. k = member_name s"
    using set with_member_keys(1) [OF g] less_SucI unfolding g'_def settled_def by blast
  show "unat (gs_next_member_sequence (g'\<lparr>gs_generation_id := gs_generation_id g' + 1\<rparr>))
      \<le> nat (gs_generation_id (g'\<lparr>gs_generation_id := gs_generation_id g' + 1\<rparr>)) + 1 \<and>
    (\<forall>k \<in> set (map fst (gs_members (g'\<lparr>gs_generation_id := gs_generation_id g' + 1\<rparr>))).
      \<exists>s < unat (gs_next_member_sequence (g'\<lparr>gs_generation_id := gs_generation_id g' + 1\<rparr>)). k = member_name s)"
    using set keys by (simp add: g'_def suc settled_def nat_add_distrib)
  show "stdmap_ok (gs_members (g'\<lparr>gs_generation_id := gs_generation_id g' + 1\<rparr>))"
    using g by (simp add: g'_def with_member_def Let_def group_inv_def stdmap_ok_emplace)
qed (use g with_member_keys(2) [OF g] in \<open>simp_all add: g'_def group_inv_def\<close>)

text \<open>The group that \<^verbatim>\<open>try_emplace\<close> yields in \<^verbatim>\<open>JoinGroup\<close>, and what \<^verbatim>\<open>JoinGroup\<close> does, case by
  case.\<close>

definition joined_group :: "JoinGroupRequest \<Rightarrow> u32 \<Rightarrow> GroupCoordinator \<Rightarrow> GroupState" where
  "joined_group request partition_count gc =
     (case stdmap_find (jgq_group_id request) (gc_groups gc) of
        Some g \<Rightarrow> g
      | None \<Rightarrow> \<lparr>gs_group_id = jgq_group_id request, gs_topic = jgq_topic request,
                 gs_partition_count = partition_count, gs_generation_id = 0,
                 gs_next_member_sequence = 1, gs_leader_id = [], gs_members = []\<rparr>)"

lemma joined_group_inv:
  "gc_inv gc \<Longrightarrow> partition_count \<noteq> 0 \<Longrightarrow>
   group_inv (jgq_group_id request) (joined_group request partition_count gc)"
  by (auto simp: joined_group_def fresh_group_inv dest: gc_invD split: option.splits)

lemma joined_group_evolves:
  "stdmap_find (jgq_group_id request) (gc_groups gc) = Some g \<Longrightarrow>
   group_evolves (joined_group request partition_count gc) g' \<Longrightarrow> group_evolves g g'"
  by (simp add: joined_group_def)

lemma JoinGroup_casesE:
  assumes inv: "gc_inv gc" and join: "JoinGroup now request partition_count gc = (r, gc')"
  defines "gid \<equiv> jgq_group_id request" and "g \<equiv> joined_group request partition_count gc"
  obtains (rejected) e where "r = Inl e" "gc' = gc"
  | (pinned) e where "r = Inl e" "partition_count \<noteq> 0" "gc' = set_group gid g gc"
  | (overflow) e where "r = Inl e" "partition_count \<noteq> 0" "jgq_member_id request = []"
      "gs_generation_id g = i32_max" "gc' = set_group gid (with_member now (jgq_topic request) g) gc"
  | (fresh) g' where "partition_count \<noteq> 0" "jgq_member_id request = []" "gs_generation_id g < i32_max"
      "g' = AssignLocked ((with_member now (jgq_topic request) g)\<lparr>gs_generation_id := gs_generation_id g + 1\<rparr>)"
      "r = Inr \<lparr>jgs_group_id = gid, jgs_member_id = member_name (unat (gs_next_member_sequence g)),
                jgs_generation_id = gs_generation_id g', jgs_leader_id = gs_leader_id g'\<rparr>"
      "gc' = set_group gid g' gc"
  | (rejoin) m where "partition_count \<noteq> 0" "jgq_member_id request \<noteq> []" "stdmap_find (jgq_member_id request) (gs_members g) = Some m"
      "r = Inr \<lparr>jgs_group_id = gid, jgs_member_id = jgq_member_id request,
                jgs_generation_id = gs_generation_id g, jgs_leader_id = gs_leader_id g\<rparr>"
      "gc' = set_group gid (g\<lparr>gs_members := stdmap_insert (jgq_member_id request)
               (m\<lparr>ms_last_heartbeat := now\<rparr>) (gs_members g)\<rparr>) gc"
proof (cases "Status_ok (ValidateGroupId (jgq_group_id request)) \<and>
    (jgq_member_id request \<noteq> [] \<longrightarrow> Status_ok (ValidateMemberId (jgq_member_id request))) \<and>
    Status_ok (ValidateTopic (jgq_topic request)) \<and> partition_count \<noteq> 0")
  case False
  then show ?thesis using join rejected by (auto simp: JoinGroup_def Let_def split: if_splits)
next
  case valid: True
  then have ginv: "group_inv gid g" unfolding gid_def g_def using inv by (intro joined_group_inv) simp_all
  have le: "gs_generation_id g \<le> i32_max" using ginv by (simp add: group_inv_def)
  have nonzero: "gs_generation_id g \<noteq> 0" if "stdmap_find k (gs_members g) = Some m" for k m
    using ginv that by (auto simp: group_inv_def settled_def stdmap_find_def)
  have body: "JoinGroup now request partition_count gc = (r, gc')" by (fact join)
  show ?thesis
  proof (cases "jgq_member_id request = []")
    case True
    with valid body le show ?thesis
      using pinned overflow fresh set_group_twice [OF inv]
      by (auto simp: JoinGroup_def Let_def with_member_def member_name_def gid_def g_def joined_group_def
          split: if_splits option.splits)
  next
    case False
    with valid body show ?thesis
      using pinned rejoin nonzero set_group_twice [OF inv]
      by (auto simp: JoinGroup_def Let_def gid_def g_def joined_group_def
          split: if_splits option.splits)
  qed
qed

lemma JoinGroup_good:
  assumes "gc_inv gc" shows "good_step gc (snd (JoinGroup now request partition_count gc))"
proof -
  let ?g = "joined_group request partition_count gc" and ?gid = "jgq_group_id request"
  obtain r gc' where join: "JoinGroup now request partition_count gc = (r, gc')" by force
  have inv: "group_inv ?gid ?g" if "partition_count \<noteq> 0" using assms that by (rule joined_group_inv)
  have set: "good_step gc (set_group ?gid g' gc)" if "group_inv ?gid g'" "group_evolves ?g g'" for g'
    using assms that by (blast intro: good_step_set_group joined_group_evolves)
  from assms join have "good_step gc gc'"
  proof (cases rule: JoinGroup_casesE)
    case rejected
    with assms show ?thesis by (simp add: good_step_refl)
  next
    case pinned
    with set inv show ?thesis by simp
  next
    case overflow
    with set inv show ?thesis by (simp add: with_member_last group_evolves_def)
  next
    case fresh
    then show ?thesis
      using set inv rebalance_with_member [of ?gid ?g now "jgq_topic request"]
      by (simp add: group_evolves_def)
  next
    case (rejoin m)
    with set inv heartbeat_group [of ?gid ?g "jgq_member_id request" m now] show ?thesis by simp
  qed
  with join show ?thesis by simp
qed

lemma touch_member_casesE:
  assumes "touch_member now gid mid gen gc = (r, gc')"
  obtains e where "r = Inl e" "gc' = gc"
  | g m where "stdmap_find gid (gc_groups gc) = Some g" "stdmap_find mid (gs_members g) = Some m"
      "gs_generation_id g = gen" "r = Inr (g, m)"
      "gc' = set_group gid (g\<lparr>gs_members := stdmap_insert mid (m\<lparr>ms_last_heartbeat := now\<rparr>)
               (gs_members g)\<rparr>) gc"
proof -
  note touch = assms [unfolded touch_member_def Let_def]
  show thesis
  proof (cases "\<exists>g m. stdmap_find gid (gc_groups gc) = Some g \<and> stdmap_find mid (gs_members g) = Some m \<and>
      gs_generation_id g = gen")
    case True
    with touch that show thesis by (force split: if_split_asm)
  next
    case False
    with touch that(1) show thesis by (auto split: if_split_asm option.split_asm)
  qed
qed

lemma touch_member_good:
  assumes "gc_inv gc" shows "good_step gc (snd (touch_member now gid mid gen gc))"
proof -
  obtain r gc' where touch: "touch_member now gid mid gen gc = (r, gc')" by force
  then have "good_step gc gc'"
  proof (cases rule: touch_member_casesE)
    case 1
    with assms show ?thesis by (simp add: good_step_refl)
  next
    case (2 g m)
    then show ?thesis
      using assms heartbeat_group [OF gc_invD [OF assms], of gid g mid m now]
      by (simp add: good_step_update)
  qed
  with touch show ?thesis by simp
qed

lemma SyncGroup_good: "gc_inv gc \<Longrightarrow> good_step gc (snd (SyncGroup now request gc))"
  using touch_member_good [of gc now "sgq_group_id request" "sgq_member_id request" "sgq_generation_id request"]
  by (auto simp: SyncGroup_def sbind_def split: prod.splits sum.splits)

lemma Heartbeat_good: "gc_inv gc \<Longrightarrow> good_step gc (snd (Heartbeat now request gc))"
  using touch_member_good [of gc now "hbq_group_id request" "hbq_member_id request" "hbq_generation_id request"]
  by (auto simp: Heartbeat_def sbind_def split: prod.splits sum.splits)

text \<open>Fewer members, in a new generation or in the last one.\<close>

lemma rebalance_fewer:
  assumes g: "group_inv gid g" and ms: "set ms \<subseteq> set (gs_members g)" "stdmap_ok ms" "ms \<noteq> []"
    and gen: "gen = gs_generation_id g + 1 \<or> gen = i32_max \<and> gs_generation_id g = i32_max"
      "gen \<le> i32_max"
  shows "group_inv gid (AssignLocked (g\<lparr>gs_members := ms, gs_generation_id := gen\<rparr>))"
    "group_evolves g (AssignLocked (g\<lparr>gs_members := ms, gs_generation_id := gen\<rparr>))"
proof -
  have "0 \<le> gs_generation_id g" using g by (simp add: group_inv_def)
  moreover have "gen < i32_max \<Longrightarrow> settled g" using g gen by (auto simp: group_inv_def)
  ultimately show "group_inv gid (AssignLocked (g\<lparr>gs_members := ms, gs_generation_id := gen\<rparr>))"
    using g ms gen by (intro group_inv_assign) (auto simp: group_inv_def settled_def)
  show "group_evolves g (AssignLocked (g\<lparr>gs_members := ms, gs_generation_id := gen\<rparr>))"
    using gen(1) by (elim disjE conjE) (simp_all add: group_evolves_def)
qed

lemma LeaveGroup_good:
  assumes "gc_inv gc" shows "good_step gc (snd (LeaveGroup request gc))"
proof -
  let ?gid = "lgq_group_id request" and ?mid = "lgq_member_id request"
  have id: "good_step gc gc" using assms by (rule good_step_refl)
  have erase: "good_step gc (gc\<lparr>gc_groups := stdmap_erase ?gid (gc_groups gc)\<rparr>)"
    using assms by (rule good_step_erase)
  have set: "good_step gc (set_group ?gid g' gc)"
    if "stdmap_find ?gid (gc_groups gc) = Some g"
      "gs_generation_id g = i32_max \<and> g' = g\<lparr>gs_members := stdmap_erase ?mid (gs_members g)\<rparr> \<or>
       gs_generation_id g \<noteq> i32_max \<and> stdmap_erase ?mid (gs_members g) \<noteq> [] \<and>
       g' = AssignLocked (g\<lparr>gs_members := stdmap_erase ?mid (gs_members g),
         gs_generation_id := gs_generation_id g + 1\<rparr>)" for g g'
  proof -
    have g: "group_inv ?gid g" using assms that(1) by (rule gc_invD)
    have ok: "stdmap_ok (stdmap_erase ?mid (gs_members g))" "gs_generation_id g \<le> i32_max"
      "set (stdmap_erase ?mid (gs_members g)) \<subseteq> set (gs_members g)"
      using g by (auto simp: group_inv_def stdm.inv_erase stdmap_erase_def stdmap_ok_filter)
    from that(2) have "group_inv ?gid g' \<and> group_evolves g g'"
    proof (elim disjE conjE)
      assume "gs_generation_id g = i32_max" "g' = g\<lparr>gs_members := stdmap_erase ?mid (gs_members g)\<rparr>"
      with g ok(1) show ?thesis by (simp add: group_inv_def group_evolves_def)
    next
      assume "gs_generation_id g \<noteq> i32_max" "stdmap_erase ?mid (gs_members g) \<noteq> []"
        "g' = AssignLocked (g\<lparr>gs_members := stdmap_erase ?mid (gs_members g),
         gs_generation_id := gs_generation_id g + 1\<rparr>)"
      with rebalance_fewer [OF g ok(3,1), of "gs_generation_id g + 1"] ok(2) show ?thesis by simp
    qed
    with assms that(1) show ?thesis by (simp add: good_step_update)
  qed
  show ?thesis
    using id erase set by (auto simp: LeaveGroup_def Let_def split: option.splits)
qed

lemma expire_group_good:
  assumes g: "group_inv gid g" and "expire_group timeout now g = Some g'"
  shows "group_inv gid g'" "group_evolves g g'"
proof -
  let ?alive = "filter (\<lambda>(_, member). \<not> now - ms_last_heartbeat member > timeout * 1000000) (gs_members g)"
  have ok: "set ?alive \<subseteq> set (gs_members g)" "stdmap_ok ?alive"
    "gs_generation_id g \<le> i32_max" using g by (auto simp: group_inv_def stdmap_ok_filter)
  have same: "g\<lparr>gs_members := ?alive\<rparr> = g" if "length ?alive = length (gs_members g)"
    using filter_id_conv that by (metis (no_types, lifting) length_filter_less less_irrefl GroupState.surjective GroupState.update_convs(7))
  show "group_inv gid g'" "group_evolves g g'"
  proof -
    let ?gen = "if gs_generation_id g < i32_max then gs_generation_id g + 1 else i32_max"
    have last: "g\<lparr>gs_members := ?alive, gs_generation_id := i32_max\<rparr> = g\<lparr>gs_members := ?alive\<rparr>"
      if "gs_generation_id g = i32_max" using that by (cases g) simp
    consider "g' = g" | "?alive \<noteq> []" "g' = AssignLocked (g\<lparr>gs_members := ?alive, gs_generation_id := ?gen\<rparr>)"
    proof (cases "length ?alive = length (gs_members g)")
      case True
      with assms(2) same that(1) show thesis by (simp add: expire_group_def Let_def)
    next
      case False
      then have new: "?alive \<noteq> []" "g' = AssignLocked (if gs_generation_id g < i32_max
          then g\<lparr>gs_members := ?alive, gs_generation_id := gs_generation_id g + 1\<rparr> else g\<lparr>gs_members := ?alive\<rparr>)"
        using assms(2) by (simp_all add: expire_group_def Let_def split: if_split_asm)
      show thesis
      proof (cases "gs_generation_id g < i32_max")
        case True
        with new that(2) show thesis by simp
      next
        case False
        with ok(3) have "gs_generation_id g = i32_max" by simp
        from False new that(2) show thesis by (simp only: if_False last [OF \<open>gs_generation_id g = i32_max\<close>] simp_thms)
      qed
    qed
    then have "group_inv gid g' \<and> group_evolves g g'"
    proof cases
      case 1
      with g show ?thesis by simp
    next
      case 2
      have "?gen = gs_generation_id g + 1 \<or> ?gen = i32_max \<and> gs_generation_id g = i32_max" "?gen \<le> i32_max"
        using ok(3) by auto
      from rebalance_fewer [OF g ok(1,2) 2(1) this] show ?thesis unfolding 2(2) by blast
    qed
    then show "group_inv gid g'" "group_evolves g g'" by blast+
  qed
qed

lemma ExpireTimedOutMembers_good:
  assumes "gc_inv gc" shows "good_step gc (ExpireTimedOutMembers now gc)"
proof -
  have ok: "stdmap_ok (gc_groups gc)" using assms by (simp add: gc_inv_def)
  show ?thesis using ok
    by (auto simp: good_step_def gc_inv_def gc_evolves_def ExpireTimedOutMembers_def
        stdmap_ok_filter_map stdm.values_all_def stdmap_find_filter_map bind_eq_Some_conv
        intro: expire_group_good [OF gc_invD [OF assms]])
qed

lemma RunTimeoutScanner_good:
  assumes "gc_inv gc" shows "good_step gc (RunTimeoutScanner now gc)"
  using assms
  by (auto simp: RunTimeoutScanner_def split: scanner_state.splits
      intro: good_step_groups [OF good_step_refl] good_step_groups [OF ExpireTimedOutMembers_good])

section \<open>Runs of the coordinator\<close>

text \<open>A run interleaves client requests with turns of the scanner thread in any order and at any
  readings of the clock.\<close>

inductive gc_step :: "GroupCoordinator \<Rightarrow> GroupCoordinator \<Rightarrow> bool" where
  join: "gc_step gc (snd (JoinGroup now jreq partition_count gc))"
| sync: "gc_step gc (snd (SyncGroup now sreq gc))"
| heartbeat: "gc_step gc (snd (Heartbeat now hreq gc))"
| leave: "gc_step gc (snd (LeaveGroup lreq gc))"
| scan: "gc_step gc (RunTimeoutScanner now gc)"
| start: "gc_step gc (snd (GroupCoordinator_Start gc))"
| close: "gc_step gc (snd (GroupCoordinator_Close gc))"

inductive gc_reachable :: "int \<Rightarrow> GroupCoordinator \<Rightarrow> bool" for timeout where
  init: "gc_reachable timeout (mk_GroupCoordinator timeout)"
| step: "gc_reachable timeout gc \<Longrightarrow> gc_step gc gc' \<Longrightarrow> gc_reachable timeout gc'"

lemma gc_step_good: "gc_step gc gc' \<Longrightarrow> gc_inv gc \<Longrightarrow> good_step gc gc'"
proof (induction rule: gc_step.induct)
  case (start gc)
  then show ?case
    by (auto simp: GroupCoordinator_Start_def intro: good_step_refl good_step_groups [OF good_step_refl])
next
  case (close gc)
  then show ?case
    by (auto simp: GroupCoordinator_Close_def intro: good_step_refl good_step_groups [OF good_step_refl])
qed (rule JoinGroup_good SyncGroup_good Heartbeat_good LeaveGroup_good RunTimeoutScanner_good, assumption)+

lemma gc_reachable_inv: "gc_reachable timeout gc \<Longrightarrow> gc_inv gc"
proof (induction rule: gc_reachable.induct)
  case init
  show ?case by (simp add: gc_inv_def mk_GroupCoordinator_def stdm.inv_empty stdm.values_all_empty)
next
  case (step gc gc')
  then show ?case using gc_step_good by (auto simp: good_step_def)
qed

section \<open>Ownership of partitions\<close>

definition owned :: "GroupState \<Rightarrow> PartitionId list" where
  "owned g = concat (map (\<lambda>(_, a). pa_partition_ids a) (members_view g))"

lemma group_assigned_ids:
  assumes "group_assigned g"
  shows "map (\<lambda>(_, a). pa_partition_ids a) (members_view g) =
    map (member_share (gs_partition_count g) (length (gs_members g))) [0..<length (gs_members g)]"
proof -
  have "map (\<lambda>(_, a). pa_partition_ids a) (members_view g) = map pa_partition_ids (map snd (members_view g))"
    by (simp add: comp_def case_prod_unfold)
  also have "map snd (members_view g) = map (\<lambda>k. \<lparr>pa_topic = gs_topic g,
      pa_partition_ids = member_share (gs_partition_count g) (length (gs_members g)) k\<rparr>)
        [0..<length (gs_members g)]"
    using assms by (simp add: group_assigned_def)
  finally show ?thesis by (simp add: comp_def)
qed

lemma owned_all:
  assumes "group_inv gid g" "gs_generation_id g < i32_max" "gs_members g \<noteq> []"
    "length (gs_members g) \<le> u32_max" "unat (gs_partition_count g) \<le> 2 ^ 31"
  shows "owned g = map int [0..<unat (gs_partition_count g)]"
proof -
  have "group_assigned g" using assms(1,2) by (simp add: group_inv_def settled_def)
  then show ?thesis using assms(3-5) unfolding owned_def group_assigned_ids [OF \<open>group_assigned g\<close>]
    by (simp add: concat_member_share)
qed

lemma distinct_concat_disjoint:
  "distinct (concat xss) \<Longrightarrow> i < length xss \<Longrightarrow> j < length xss \<Longrightarrow> i \<noteq> j \<Longrightarrow>
   set (xss ! i) \<inter> set (xss ! j) = {}"
proof (induction xss arbitrary: i j)
  case (Cons xs xss)
  have "set xs \<inter> set (xss ! k) = {}" if "k < length xss" for k
    using Cons.prems(1) that by (auto dest: nth_mem)
  with Cons show ?case by (cases i; cases j) auto
qed simp

lemma owned_disjoint:
  assumes g: "group_inv gid g" "gs_generation_id g < i32_max"
    "length (gs_members g) \<le> u32_max" "unat (gs_partition_count g) \<le> 2 ^ 31"
    and mem: "stdmap_find a (gs_members g) = Some ma" "stdmap_find b (gs_members g) = Some mb" "a \<noteq> b"
  shows "set (pa_partition_ids (ms_assignment ma)) \<inter> set (pa_partition_ids (ms_assignment mb)) = {}"
proof -
  let ?ids = "map (\<lambda>(_, a). pa_partition_ids a) (members_view g)"
  have ok: "stdmap_ok (gs_members g)" using g(1) by (simp add: group_inv_def)
  have nth: "\<exists>i < length ?ids. ?ids ! i = pa_partition_ids (ms_assignment m) \<and> fst (gs_members g ! i) = k"
    if "stdmap_find k (gs_members g) = Some m" for k m
  proof -
    from that ok have "(k, m) \<in> set (gs_members g)" by (simp add: stdmap_find_in_set)
    then show ?thesis by (auto simp: in_set_conv_nth members_view_def case_prod_unfold)
  qed
  have "gs_members g \<noteq> []" using mem(1) by (auto simp: stdmap_find_def)
  then have "owned g = map int [0..<unat (gs_partition_count g)]" using g by (intro owned_all) simp_all
  then have "distinct (concat ?ids)" by (simp add: owned_def distinct_map flip: owned_def)
  then show ?thesis using nth [OF mem(1)] nth [OF mem(2)] mem(3) distinct_concat_disjoint by metis
qed

section \<open>Results of single calls\<close>

lemma SyncGroup_InrE:
  assumes "SyncGroup now request gc = (Inr response, gc')"
  obtains g m where "stdmap_find (sgq_group_id request) (gc_groups gc) = Some g"
    "stdmap_find (sgq_member_id request) (gs_members g) = Some m"
    "sgs_assignment response = ms_assignment m"
    "gc' = set_group (sgq_group_id request) (g\<lparr>gs_members := stdmap_insert (sgq_member_id request)
       (m\<lparr>ms_last_heartbeat := now\<rparr>) (gs_members g)\<rparr>) gc"
proof -
  from assms obtain g m where t: "touch_member now (sgq_group_id request) (sgq_member_id request)
      (sgq_generation_id request) gc = (Inr (g, m), gc')" and r: "sgs_assignment response = ms_assignment m"
    by (auto simp: SyncGroup_def elim!: sbind_InrE)
  from t show thesis by (cases rule: touch_member_casesE) (use that r in auto)
qed

lemma AssignLocked_find:
  "stdmap_find k (gs_members (AssignLocked g)) = None \<longleftrightarrow> stdmap_find k (gs_members g) = None"
  using AssignLocked_keys [of g] by (simp add: stdmap_find_def map_of_eq_None_iff flip: set_map)

lemma JoinGroup_fresh_member:
  assumes "gc_inv gc" "jgq_member_id request = []"
    and "fst (JoinGroup now request partition_count gc) = Inr response"
  shows "\<exists>g'. stdmap_find (jgq_group_id request)
           (gc_groups (snd (JoinGroup now request partition_count gc))) = Some g' \<and>
         stdmap_find (jgs_member_id response) (gs_members g') \<noteq> None \<and>
         gs_generation_id g' = jgs_generation_id response \<and> 0 < gs_generation_id g' \<and>
         (case stdmap_find (jgq_group_id request) (gc_groups gc) of
            None \<Rightarrow> gs_generation_id g' = 1
          | Some g \<Rightarrow> stdmap_find (jgs_member_id response) (gs_members g) = None \<and>
              gs_generation_id g' = gs_generation_id g + 1)"
proof -
  let ?g = "joined_group request partition_count gc"
  obtain gc' where join: "JoinGroup now request partition_count gc = (Inr response, gc')"
    using assms(3) by (metis prod.collapse)
  have ok: "stdmap_ok (gc_groups gc)" using assms(1) by (simp add: gc_inv_def)
  from assms(1) join show ?thesis
  proof (cases rule: JoinGroup_casesE)
    case (fresh g')
    have g: "group_inv (jgq_group_id request) ?g" using assms(1) fresh(1) by (rule joined_group_inv)
    have new: "stdmap_find (jgs_member_id response) (gs_members ?g) = None"
      using next_member_fresh [OF g fresh(3)] fresh(5) by simp
    have "stdmap_find (jgs_member_id response) (gs_members (with_member now (jgq_topic request) ?g)) \<noteq> None"
      using with_member_keys(1) [OF g fresh(3), of now "jgq_topic request"] fresh(5)
      by (simp add: stdmap_find_def map_of_eq_None_iff)
    then have "stdmap_find (jgs_member_id response) (gs_members g') \<noteq> None"
      by (simp add: fresh(4) AssignLocked_find del: not_None_eq)
    moreover have "gs_generation_id g' = gs_generation_id ?g + 1" "0 \<le> gs_generation_id ?g"
      using fresh(4) g by (simp_all add: group_inv_def)
    moreover have "stdmap_find (jgq_group_id request) (gc_groups gc') = Some g'"
      using fresh(6) ok by (simp add: set_group_def stdm.find_insert)
    ultimately show ?thesis using join fresh(5) new
      by (auto simp: joined_group_def split: option.splits)
  next
    case (rejoin m)
    with assms(2) show ?thesis by simp
  qed simp_all
qed

text \<open>The members after a pass of the scanner.\<close>

lemma expire_group_members:
  assumes "gs_members g \<noteq> []"
  shows "case expire_group timeout now g of
      None \<Rightarrow> filter (\<lambda>(_, m). now - ms_last_heartbeat m \<le> timeout * 1000000) (gs_members g) = []
    | Some g' \<Rightarrow> filter (\<lambda>(_, m). now - ms_last_heartbeat m \<le> timeout * 1000000) (gs_members g) \<noteq> [] \<and>
        map fst (gs_members g') =
          map fst (filter (\<lambda>(_, m). now - ms_last_heartbeat m \<le> timeout * 1000000) (gs_members g))"
  using assms by (auto simp: expire_group_def Let_def not_less)

end
