(* ===== verification/BrokerLogs.thy ===== *)
theory BrokerLogs
  imports BrokerService TopicRestart GroupInvariant
begin

text \<open>
  The broker as a state machine: a step handles a request, or is a turn of the flusher, of
  the group scanner or of the retry thread. No step takes a batch away from the log of any
  partition or changes one, whatever the request and whatever the system calls do, so that
  a batch a producer was told about is what every later fetch of its offsets returns.
\<close>

section \<open>Files of the offset store and records of the retry topics\<close>

lemma offset_text_nonempty [simp]: "offset_text k off \<noteq> []"
  by (auto simp: offset_text_def kOffsetMetadataMagic_def split: prod.splits)

lemma OffsetTempPath_neq: "OffsetTempPath os g t p \<noteq> OffsetPath os g t p"
  by (simp add: OffsetPath_def OffsetTempPath_def)

lemma PersistLocked_spec:
  assumes "PersistLocked os (g, t, p) off d = (r, d')"
  shows "\<forall>q. q \<noteq> OffsetTempPath os g t p \<and> q \<noteq> OffsetPath os g t p \<longrightarrow> d_lookup d' q = d_lookup d q"
    "d_lookup d' (OffsetPath os g t p) =
       (if r = Inr () then Some (offset_text (g, t, p) off) else d_lookup d (OffsetPath os g t p))"
proof -
  obtain x d1 where c: "create_directories (GroupPath os g) d = (x, d1)" by force
  obtain w d2 where o: "ofstream (OffsetTempPath os g t p) (offset_text (g, t, p) off) d1 = (w, d2)" by force
  obtain y d3 where n: "sys_rename (OffsetTempPath os g t p) (OffsetPath os g t p) d2 = (y, d3)" by force
  have r: "d' = (if x \<noteq> Inr () then d1 else if w \<noteq> Written then d2 else d3)"
    "r = Inr () \<longleftrightarrow> x = Inr () \<and> w = Written \<and> y = Inr ()"
    using assms c o n by (auto simp: PersistLocked_def Let_def split: sum.splits ofstream_result.splits)
  note spec = replace_file [OF c o n offset_text_nonempty OffsetTempPath_neq r(1)]
  from spec(1) show "\<forall>q. q \<noteq> OffsetTempPath os g t p \<and> q \<noteq> OffsetPath os g t p \<longrightarrow>
      d_lookup d' q = d_lookup d q" .
  from spec(2) show "d_lookup d' (OffsetPath os g t p) =
      (if r = Inr () then Some (offset_text (g, t, p) off) else d_lookup d (OffsetPath os g t p))"
    by (simp add: r(2))
qed

lemma Commit_cases:
  assumes "Commit g t p off (os, d) = (r, (os', d'))"
  shows "(\<exists>e. r = Inl e) \<and> os' = os \<and> d' = d \<or>
    (Status_ok (ValidateSafeName g ''group_id'') \<and> Status_ok (ValidateSafeName t ''topic'') \<and> 0 \<le> p \<and> 0 \<le> off \<and>
     PersistLocked os (g, t, p) off d = (r, d') \<and>
     os' = (if r = Inr () then os\<lparr>os_offsets := stdmap_insert (g, t, p) off (os_offsets os)\<rparr> else os))"
  using assms by (auto simp: Commit_def Let_def split: if_splits prod.splits sum.splits)

text \<open>The name of an offset file and of its temporary file ends in another letter than that of a segment.\<close>

lemma offset_path_not_segment:
  "SegmentPath opts n \<noteq> OffsetPath os g t p" "SegmentPath opts n \<noteq> OffsetTempPath os g t p"
proof -
  have ends: "last (last (SegmentPath opts n)) = CHR ''g''"
    "last (last (OffsetPath os g t p)) = CHR ''t''" "last (last (OffsetTempPath os g t p)) = CHR ''p''"
    by (simp_all add: SegmentPath_def OffsetPath_def OffsetTempPath_def)
  then show "SegmentPath opts n \<noteq> OffsetPath os g t p" "SegmentPath opts n \<noteq> OffsetTempPath os g t p" by force+
qed

lemma Commit_quiet:
  assumes "Commit g t p off (os, d) = (r, (os', d'))"
  shows "logs_quiet tm d d'"
proof -
  have "d_content d' (SegmentPath opts n) = d_content d (SegmentPath opts n)" for opts n
    using Commit_cases [OF assms] PersistLocked_spec(1) [of os g t p off d r d'] offset_path_not_segment
    by (auto simp: d_content_lookup)
  then show ?thesis by (simp add: logs_quiet_def same_logs_def)
qed

lemma Commit_metadata:
  assumes "Commit g t p off (os, d) = (r, (os', d'))"
  shows "d_lookup d' (MetadataPath opts) = d_lookup d (MetadataPath opts)"
proof -
  have ends: "last (last (MetadataPath opts)) = CHR ''a''"
    "last (last (OffsetPath os g t p)) = CHR ''t''" "last (last (OffsetTempPath os g t p)) = CHR ''p''"
    by (simp_all add: MetadataPath_def OffsetPath_def OffsetTempPath_def)
  then have "MetadataPath opts \<noteq> OffsetPath os g t p" "MetadataPath opts \<noteq> OffsetTempPath os g t p" by force+
  with Commit_cases [OF assms] PersistLocked_spec(1) [of os g t p off d r d'] show ?thesis by auto
qed

lemma EncodeRetryRecord_in_memory:
  assumes "EncodeRetryRecord r = Inr stored"
  shows "in_memory [stored]" "batch_ok [stored]"
    "rec_key stored = prc_key r" "length (rec_value stored) \<le> kMaxFrameBytes + 5"
proof -
  from assms obtain bytes where enc: "EncodeResponse (retry_envelope r) = Inr bytes"
    and stored: "stored = \<lparr>rec_timestamp = prc_timestamp r, rec_key = prc_key r,
      rec_value = kEnvelopeMagic @ bytes, rec_crc32 = 0\<rparr>"
    by (auto simp: EncodeRetryRecord_def rbind_Inr_iff split: if_splits option.splits)
  have b: "length bytes \<le> kMaxFrameBytes \<and> (\<exists>success. EncodeResponseBody (retry_envelope r) = Inr success)"
    by (rule EncodeResponse_InrE [OF enc])
      (auto simp: retry_envelope_def frame_bytes_def kMaxFrameBytes_def kFrameHeaderBytes_def)
  then have "length (prc_key r) \<le> u32_max"
    by (auto simp: retry_envelope_def EncodeResponseBody_def EncodeFetchResponseBody_def Let_def
        AppendFetchRecord_Inr_iff rbind_Inr_iff split: if_splits)
  with b show "in_memory [stored]" "batch_ok [stored]" "rec_key stored = prc_key r"
      "length (rec_value stored) \<le> kMaxFrameBytes + 5"
    by (simp_all add: in_memory_def batch_ok_def batch_fits_def record_fits_def payload_bytes_def stored
        kMaxFrameBytes_def kEnvelopeMagic_def kRecordBatchHeaderBytes_def EncodedRecordSize_def kRecordHeaderBytes_def)
qed

section \<open>Handlers and the logs\<close>

definition tops :: "broker \<Rightarrow> TopicManager \<times> Disk" where
  "tops st = (bs_topics (fst st), snd st)"

definition succeeded :: "ResponseEnvelope \<Rightarrow> bool" where
  "succeeded resp \<longleftrightarrow> er_error_code (rse_error resp) = pkNone"

definition log_step :: "broker \<Rightarrow> broker \<Rightarrow> bool" where
  "log_step st st' \<longleftrightarrow> (\<forall>A. topics_rep (tops st) A \<longrightarrow> (\<exists>A'. topics_rep (tops st') A' \<and> extends A A'))"

lemma log_step_refl [simp]: "log_step st st"
  unfolding log_step_def using extends_refl by blast

lemma log_step_trans [trans]: "log_step a b \<Longrightarrow> log_step b c \<Longrightarrow> log_step a c"
  unfolding log_step_def using extends_trans by blast

lemma log_step_keeps: "(\<And>A. topics_rep (tops st) A \<Longrightarrow> topics_rep (tops st') A) \<Longrightarrow> log_step st st'"
  unfolding log_step_def using extends_refl by blast

lemma log_step_tops: "tops st' = tops st \<Longrightarrow> log_step st st'"
  unfolding log_step_def using extends_refl by metis

lemma tops_simps [simp]:
  "tops (bs\<lparr>bs_topics := tm\<rparr>, d) = (tm, d)" "tops (bs\<lparr>bs_groups := gc\<rparr>, d) = tops (bs, d)"
  "tops (bs\<lparr>bs_retries := rs\<rparr>, d) = tops (bs, d)" "tops (bs\<lparr>bs_flusher := fl\<rparr>, d) = tops (bs, d)"
  "tops (bs\<lparr>bs_offsets := os\<rparr>, d) = (bs_topics bs, d)"
  by (simp_all add: tops_def)

lemma with_topics_iff:
  "with_topics f st = (r, st') \<longleftrightarrow> (\<exists>tm d. f (tops st) = (r, (tm, d)) \<and> st' = ((fst st)\<lparr>bs_topics := tm\<rparr>, d))"
  by (auto simp: with_topics_def tops_def split: prod.splits)

lemma succeeded_simps [simp]:
  "succeeded (MakeSuccess env body)" "rse_body (MakeSuccess env body) = body"
  "succeeded (MakeError env code m) \<longleftrightarrow> code = pkNone" "InvalidOrInternal e \<noteq> pkNone"
  by (simp_all add: succeeded_def MakeSuccess_def MakeError_def InvalidOrInternal_def)

lemma sync_flush_step:
  assumes "topics_rep (tops st) A" "part_log (bs_topics (fst st)) topic i = Some log"
    "sync_flush topic i st = (r, st')"
  shows "topics_rep (tops st') A"
proof (cases "sc_flush_policy (bso_storage (bs_options (fst st))) = kSync")
  case True
  with assms(3) obtain tm d where "on_partition topic i CommitLog_Flush (tops st) = (r, (tm, d))"
    "st' = ((fst st)\<lparr>bs_topics := tm\<rparr>, d)" by (auto simp: sync_flush_def with_topics_iff)
  with topics_rep_flush [OF assms(1) [unfolded tops_def] assms(2)] show ?thesis by (simp add: tops_def)
qed (use assms in \<open>simp add: sync_flush_def\<close>)

text \<open>An append and the flush after it.\<close>

lemma append_step:
  assumes "topics_rep (tops st) A" "part_log (bs_topics (fst st)) topic i = Some log" "in_memory rs"
    "with_topics (on_partition topic i (CommitLog_Append rs)) st = (r, st')"
  shows "\<exists>A' log'. topics_rep (tops st') A' \<and> part_log (bs_topics (fst st')) topic i = Some log' \<and>
    grows A (topic, i) (case r of Inl _ \<Rightarrow> [] | Inr a \<Rightarrow> [(ar_base_offset a, rs)]) A'"
proof -
  from assms(4) obtain tm d where "on_partition topic i (CommitLog_Append rs) (tops st) = (r, (tm, d))"
    "st' = ((fst st)\<lparr>bs_topics := tm\<rparr>, d)" by (auto simp: with_topics_iff)
  with topics_rep_append [OF assms(1) [unfolded tops_def] assms(2,3)] show ?thesis
    by (simp add: tops_def)
qed

lemma HandleProduce_spec:
  assumes rep: "topics_rep (tops st) A" and mem: "in_memory (map ToStorageRecord (prq_records q))"
    and run: "HandleProduce env q st = (resp, st')"
  shows "\<exists>A'. topics_rep (tops st') A' \<and> extends A A' \<and>
    (succeeded resp \<longrightarrow> (\<exists>p. rse_body resp = RspProduce p \<and> 0 \<le> prs_partition_id p \<and>
       grows A (prq_topic q, nat (prs_partition_id p))
         [(prs_base_offset p, map ToStorageRecord (prq_records q))] A'))"
proof (cases "IsInternalTopic (prq_topic q) \<or> prq_records q = []")
  case True
  with run have "st' = st" "\<not> succeeded resp" by (auto simp: HandleProduce_def split: if_splits)
  with rep extends_refl show ?thesis by auto
next
  case False
  obtain r tm where sel: "SelectPartition (prq_topic q) (prq_partition_id q)
      (prc_key (hd (prq_records q))) (bs_topics (fst st)) = (r, tm)" by force
  let ?st1 = "((fst st)\<lparr>bs_topics := tm\<rparr>, snd st)"
  note s = SelectPartition_log [OF topics_rep_ok(4) [OF rep [unfolded tops_def]] sel]
  have rep1: "topics_rep (tops ?st1) A" using topics_rep_select [OF rep [unfolded tops_def] sel] by simp
  show ?thesis
  proof (cases r)
    case (Inl e)
    with run False sel have "resp = MakeError env pkTopicNotFound (st_message e)" "st' = ?st1"
      by (auto simp: HandleProduce_def)
    with rep1 extends_refl show ?thesis by auto
  next
    case (Inr sl)
    let ?i = "nat (ps_id sl)" and ?rs = "map ToStorageRecord (prq_records q)"
    from s(1) s(4) [OF Inr] have pl: "0 \<le> ps_id sl" "part_log (bs_topics (fst ?st1)) (prq_topic q) ?i = Some (pt_log (ps_partition sl))"
      by simp_all
    obtain x st2 where ap: "with_topics (on_partition (prq_topic q) ?i (CommitLog_Append ?rs)) ?st1 = (x, st2)"
      by (rule prod.exhaust)
    from append_step [OF rep1 pl(2) mem ap] obtain A' log' where A': "topics_rep (tops st2) A'"
      "part_log (bs_topics (fst st2)) (prq_topic q) ?i = Some log'"
      "grows A (prq_topic q, ?i) (case x of Inl _ \<Rightarrow> [] | Inr a \<Rightarrow> [(ar_base_offset a, ?rs)]) A'" by blast
    obtain y st3 where fl: "sync_flush (prq_topic q) ?i st2 = (y, st3)" by (rule prod.exhaust)
    note rep3 = sync_flush_step [OF A'(1,2) fl]
    note ext = grows_extends [OF A'(3)]
    show ?thesis
    proof (cases x)
      case (Inl e)
      with run False sel Inr ap have "resp = MakeError env (InvalidOrInternal e) (st_message e)" "st' = st2"
        by (auto simp: HandleProduce_def Let_def)
      with A'(1) ext show ?thesis by auto
    next
      case x: (Inr a)
      show ?thesis
      proof (cases y)
        case (Inl e)
        with run False sel Inr ap x fl have "resp = MakeError env pkInternal (st_message e)" "st' = st3"
          by (auto simp: HandleProduce_def Let_def)
        with rep3 ext show ?thesis by auto
      next
        case y: (Inr u)
        with run False sel Inr ap x fl have "st' = st3" "succeeded resp"
          "\<exists>n. rse_body resp = RspProduce \<lparr>prs_partition_id = ps_id sl,
             prs_base_offset = ar_base_offset a, prs_record_count = n\<rparr>"
          by (auto simp: HandleProduce_def Let_def)
        with A'(3) x pl(1) rep3 ext show ?thesis by auto
      qed
    qed
  qed
qed

lemma read_step:
  assumes "topics_rep (tops st) A" "part_log (bs_topics (fst st)) topic i = Some log"
    "with_topics (on_partition topic i (CommitLog_Read off m)) st = (r, st')"
  shows "topics_rep (tops st') A \<and> (\<forall>v L. r = Inr v \<longrightarrow> A (topic, i) = Some L \<longrightarrow>
    (\<exists>x \<in> set L. holds_offset off x \<and> v = mk_batch (fst x) (snd x)))"
proof -
  from assms(3) obtain tm d where "on_partition topic i (CommitLog_Read off m) (tops st) = (r, (tm, d))"
    "st' = ((fst st)\<lparr>bs_topics := tm\<rparr>, d)" by (auto simp: with_topics_iff)
  with topics_rep_read [OF assms(1) [unfolded tops_def] assms(2)] show ?thesis by (simp add: tops_def)
qed

lemma fetch_records_plain: "fetch_records False version m rs = Inr (map ToProtocolRecord rs)"
  by (induction rs) simp_all

lemma tracked_end:
  assumes "logs_rep (tm, d) A" "A (topic, i) = Some L" "part_log tm topic i = Some log"
  shows "\<exists>b. dense b L (cl_next_offset log)"
proof -
  from assms have "tracked tm d topic i L" by (simp add: logs_rep_def)
  with assms(3) obtain b n where "commit_log_rep (log, d) b L n" by (auto simp: tracked_def)
  with clog.rep_dense [OF this] show ?thesis by (auto simp: commit_log_rep_def)
qed

lemma HandleFetch_casesE:
  assumes run: "HandleFetch env q st = (resp, st')"
  obtains (error) "st' = st" "\<not> succeeded resp"
  | (empty) part where "GetPartition (frq_topic q) (frq_partition_id q) (bs_topics (fst st)) = Inr part"
      "st' = st" "IsInternalTopic (frq_topic q) \<or> cl_next_offset (pt_log part) \<le> frq_offset q"
  | (read) part m r where "GetPartition (frq_topic q) (frq_partition_id q) (bs_topics (fst st)) = Inr part"
      "with_topics (on_partition (frq_topic q) (nat (frq_partition_id q)) (CommitLog_Read (frq_offset q) m)) st = (r, st')"
      "IsInternalTopic (frq_topic q) \<or> \<not> succeeded resp \<or> (\<exists>v f. r = Inr v \<and> rse_body resp = RspFetch f \<and>
         frs_base_offset f = rb_base_offset v \<and> frs_records f = map ToProtocolRecord (rb_records v))"
proof (cases "GetPartition (frq_topic q) (frq_partition_id q) (bs_topics (fst st))")
  case (Inl e)
  then show thesis using that(1) run by (auto simp: HandleFetch_def split: if_splits)
next
  case (Inr part)
  let ?internal = "IsInternalTopic (frq_topic q)"
  obtain r st1 where rd: "with_topics (on_partition (frq_topic q) (nat (frq_partition_id q))
      (CommitLog_Read (frq_offset q)
         (if ?internal then kMaxRetryBatchBytes else unat (frq_max_bytes q)))) st = (r, st1)"
    by (rule prod.exhaust)
  have "\<not> ?internal \<Longrightarrow> \<not> IsRetryTopic (frq_topic q)" by (simp add: IsInternalTopic_def)
  with run Inr rd that show thesis
    by (cases r; cases ?internal)
      (auto simp: HandleFetch_def Let_def fetch_records_plain split: if_splits sum.splits)
qed

text \<open>A fetch changes no log. When it succeeds on a user topic, below the end of the log, it
  returns the batch that holds the offset.\<close>

lemma HandleFetch_keeps:
  assumes rep: "topics_rep (tops st) A" and run: "HandleFetch env q st = (resp, st')"
  shows "topics_rep (tops st') A"
  using run
proof (cases rule: HandleFetch_casesE)
  case (read part m r)
  with read_step [OF rep _ read(2)] GetPartition_log show ?thesis by blast
qed (use rep in simp_all)

lemma HandleFetch_batch:
  assumes rep: "topics_rep (tops st) A" and run: "HandleFetch env q st = (resp, st')"
    and h: "succeeded resp" "\<not> IsInternalTopic (frq_topic q)"
      "A (frq_topic q, nat (frq_partition_id q)) = Some L" "x \<in> set L" "holds_offset (frq_offset q) x"
  shows "\<exists>f. rse_body resp = RspFetch f \<and> frs_base_offset f = fst x \<and>
    frs_records f = map (ToProtocolRecord \<circ> stamp_crc) (snd x)"
  using run
proof (cases rule: HandleFetch_casesE)
  case error
  with h(1) show ?thesis by simp
next
  case (empty part)
  then have "part_log (bs_topics (fst st)) (frq_topic q) (nat (frq_partition_id q)) = Some (pt_log part)"
    using GetPartition_log by blast
  from tracked_end [OF topics_rep_ok(1) [OF rep [unfolded tops_def]] h(3) this] obtain b where "dense b L (cl_next_offset (pt_log part))" ..
  from clog.dense_bounds [OF this] h(2,4,5) empty(3) show ?thesis by (fastforce simp: holds_offset_def)
next
  case (read part m r)
  then have pl: "part_log (bs_topics (fst st)) (frq_topic q) (nat (frq_partition_id q)) = Some (pt_log part)"
    using GetPartition_log by blast
  from read(3) h(1,2) obtain v f where v: "r = Inr v" "rse_body resp = RspFetch f"
    "frs_base_offset f = rb_base_offset v" "frs_records f = map ToProtocolRecord (rb_records v)" by blast
  with read_step [OF rep pl read(2)] h(3) obtain y where
    y: "y \<in> set L" "holds_offset (frq_offset q) y" "v = mk_batch (fst y) (snd y)" by blast
  from tracked_end [OF topics_rep_ok(1) [OF rep [unfolded tops_def]] h(3) pl] obtain b where "dense b L (cl_next_offset (pt_log part))" ..
  from clog.dense_unique [OF this y(1) h(4) y(2) h(5)] v y(3) show ?thesis by (simp add: mk_batch_def)
qed

lemma create_topic_step:
  assumes "topics_rep (tops st) A" "with_topics (CreateTopic topic n) st = (r, st')"
  shows "topics_rep (tops st') A"
  using assms topics_rep_create by (fastforce simp: with_topics_iff tops_def)

lemma HandleCreateTopic_step: "log_step st (snd (HandleCreateTopic env q st))"
proof -
  obtain r st' where c: "with_topics (CreateTopic (ctq_topic q) (ctq_partition_count q)) st = (r, st')"
    by (rule prod.exhaust)
  have "log_step st st'" by (rule log_step_keeps) (rule create_topic_step [OF _ c])
  with c show ?thesis by (cases r) (simp_all add: HandleCreateTopic_def)
qed

lemma HandleCommitOffset_step: "log_step st (snd (HandleCommitOffset env q st))"
proof -
  obtain r os d where c: "Commit (coq_group_id q) (coq_topic q) (coq_partition_id q) (coq_offset q)
      (bs_offsets (fst st), snd st) = (r, (os, d))" by (metis prod_cases3)
  have "log_step st ((fst st)\<lparr>bs_offsets := os\<rparr>, d)"
    by (rule log_step_keeps) (simp add: tops_def topics_rep_disk Commit_quiet [OF c] Commit_metadata [OF c])
  with c show ?thesis by (cases r) (simp_all add: HandleCommitOffset_def split: sum.split)
qed

lemma group_reply_tops: "tops (snd (group_reply env body f st)) = tops st"
  by (simp add: group_reply_def split: prod.split)

lemma nack_store_step:
  assumes mem: "in_memory [encoded]"
  shows "log_step st (snd (nack_store clock env q dead retry encoded st))"
proof (cases "GetMetadata (rm_original_topic retry) (bs_topics (fst st))")
  case (Inr ms)
  define t where "t = (if dead then kDlqTopicPrefix else kRetryTopicPrefix) @ rm_original_topic retry"
  let ?i = "nat (nkq_partition_id q)"
  obtain r st1 where c: "with_topics (CreateTopic t (tm_partition_count (hd ms))) st = (r, st1)"
    by (rule prod.exhaust)
  have s1: "log_step st st1" by (rule log_step_keeps) (rule create_topic_step [OF _ c])
  obtain x bs2 d2 where ap: "with_topics (on_partition t ?i (CommitLog_Append [encoded])) st1 = (x, (bs2, d2))"
    by (metis prod_cases3)
  show ?thesis
  proof (cases "r = Inr () \<and> (\<exists>part. GetPartition t (nkq_partition_id q) (bs_topics (fst st1)) = Inr part)")
    case False
    then have "snd (nack_store clock env q dead retry encoded st) = st1"
      using Inr c by (cases r) (auto simp: nack_store_def t_def [symmetric] Let_def split: sum.split)
    with s1 show ?thesis by simp
  next
    case True
    then obtain part where part: "GetPartition t (nkq_partition_id q) (bs_topics (fst st1)) = Inr part" by blast
    from GetPartition_log [OF this] have pl: "part_log (bs_topics (fst st1)) t ?i = Some (pt_log part)" by blast
    define bs3 where "bs3 (a :: AppendResult) = (if dead then bs2 else bs2\<lparr>bs_retries := Schedule (RetryNowMs (ck_system_later clock))
        t (nkq_partition_id q) (ar_base_offset a) (rm_next_visible_time retry) (bs_retries bs2)\<rparr>)"
      for a
    have res: "snd (nack_store clock env q dead retry encoded st) =
        (case x of Inl _ \<Rightarrow> (bs2, d2) | Inr a \<Rightarrow> snd (sync_flush t ?i (bs3 a, d2)))"
      using Inr c True part ap
      by (cases r; cases x) (auto simp: nack_store_def t_def [symmetric] Let_def bs3_def split: sum.split prod.split)
    have tops3: "tops (bs3 a, d2) = tops (bs2, d2)" for a by (simp add: bs3_def)
    have "log_step st1 (snd (nack_store clock env q dead retry encoded st))"
      unfolding log_step_def
    proof (intro allI impI)
      fix A assume "topics_rep (tops st1) A"
      from append_step [OF this pl mem ap] obtain A' log' where A': "topics_rep (tops (bs2, d2)) A'" 
        "grows A (t, ?i) (case x of Inl _ \<Rightarrow> [] | Inr a \<Rightarrow> [(ar_base_offset a, [encoded])]) A'"
        "part_log (bs_topics bs2) t ?i = Some log'" unfolding fst_conv by blast
      have "topics_rep (tops (snd (sync_flush t ?i (bs3 a, d2)))) A'" for a
      proof -
        obtain y st3 where fl: "sync_flush t ?i (bs3 a, d2) = (y, st3)" by (rule prod.exhaust)
        have "bs_topics (bs3 a) = bs_topics bs2" by (simp add: bs3_def)
        with A'(1,3) tops3 sync_flush_step [OF _ _ fl] show ?thesis by (simp add: fl)
      qed
      with A'(1) grows_extends [OF A'(2)] show "\<exists>A'. topics_rep (tops (snd (nack_store clock env q dead retry encoded st))) A' \<and> extends A A'"
        unfolding res by (cases x) (simp_all, blast+)
    qed
    with s1 show ?thesis by (rule log_step_trans)
  qed
qed (simp add: nack_store_def)

lemma HandleNack_step: "log_step st (snd (HandleNack clock env q st))"
proof (cases "GetPartition (nkq_topic q) (nkq_partition_id q) (bs_topics (fst st))")
  case (Inl e)
  then show ?thesis by (simp add: HandleNack_def)
next
  case (Inr part)
  obtain r st1 where rd: "with_topics (on_partition (nkq_topic q) (nat (nkq_partition_id q))
      (CommitLog_Read (nkq_offset q) kMaxRetryBatchBytes)) st = (r, st1)" by (rule prod.exhaust)
  have "part_log (bs_topics (fst st)) (nkq_topic q) (nat (nkq_partition_id q)) = Some (pt_log part)"
    using GetPartition_log [OF Inr] by blast
  from read_step [OF _ this rd] have s1: "log_step st st1" unfolding log_step_def using extends_refl by blast
  have "log_step st (snd (nack_store clock env q dead retry encoded st1))" if "EncodeRetryRecord rc = Inr encoded"
    for dead retry rc encoded
    using nack_store_step [OF EncodeRetryRecord_in_memory(1) [OF that]] log_step_trans [OF s1] by blast
  with s1 Inr rd show ?thesis by (simp add: HandleNack_def Let_def split: sum.split prod.split)
qed

section \<open>The broker as a state machine\<close>

definition request_fits :: "RequestEnvelope \<Rightarrow> bool" where
  "request_fits request =
     (case rqe_body request of
        ReqProduce q \<Rightarrow> in_memory (map ToStorageRecord (prq_records q))
      | _ \<Rightarrow> True)"

inductive broker_step :: "broker \<Rightarrow> broker \<Rightarrow> bool" where
  handle: "request_fits request \<Longrightarrow> broker_step st (snd (Handle clock request st))"
| flusher: "broker_step st (RunAsyncFlusher st)"
| scanner: "broker_step (bs, d) (bs\<lparr>bs_groups := RunTimeoutScanner now (bs_groups bs)\<rparr>, d)"
| retries: "broker_step (bs, d) (bs\<lparr>bs_retries := RetryScheduler_Run now' (bs_retries bs)\<rparr>, d)"

lemma HandleProduce_step:
  assumes "in_memory (map ToStorageRecord (prq_records q))"
  shows "log_step st (snd (HandleProduce env q st))"
  unfolding log_step_def using HandleProduce_spec [OF _ assms] by (metis prod.exhaust_sel)

lemma HandleFetch_step: "log_step st (snd (HandleFetch env q st))"
  unfolding log_step_def using HandleFetch_keeps extends_refl by (metis prod.exhaust_sel)

lemma HandleMetadata_step: "snd (HandleMetadata env q st) = st"
  by (simp add: HandleMetadata_def split: sum.split)

lemma HandleFetchCommittedOffset_step: "snd (HandleFetchCommittedOffset env q st) = st"
  by (simp add: HandleFetchCommittedOffset_def split: sum.split)

lemma group_handlers_tops:
  "tops (snd (HandleJoinGroup clock env jq st)) = tops st"
  "tops (snd (HandleSyncGroup clock env sq st)) = tops st"
  "tops (snd (HandleHeartbeat clock env hq st)) = tops st"
  "tops (snd (HandleLeaveGroup env lq st)) = tops st"
  by (simp_all add: HandleJoinGroup_def HandleSyncGroup_def HandleHeartbeat_def HandleLeaveGroup_def
      group_reply_tops split: sum.split list.split)

lemmas handler_steps = HandleCreateTopic_step HandleCommitOffset_step HandleNack_step HandleFetch_step
  HandleProduce_step HandleMetadata_step HandleFetchCommittedOffset_step
  group_handlers_tops [THEN log_step_tops]

lemma Handle_step:
  assumes "request_fits request"
  shows "log_step st (snd (Handle clock request st))"
  using assms
  by (cases "rqe_api_key request"; cases "rqe_body request")
    (simp_all add: Handle_def wrong_body_type_def request_fits_def handler_steps)

lemma broker_step_logs: "broker_step st st' \<Longrightarrow> log_step st st'"
proof (induction rule: broker_step.induct)
  case (handle request st clock)
  then show ?case by (rule Handle_step)
next
  case (flusher st)
  obtain bs d where st: "st = (bs, d)" by (rule prod.exhaust)
  have "log_step (bs, d) (bs\<lparr>bs_flusher := fl\<rparr>, snd (TopicManager_Flush (bs_topics bs) d))" for fl
    by (rule log_step_keeps) (simp add: tops_def topics_rep_flush_all [OF _ surjective_pairing])
  then show ?case by (auto simp: RunAsyncFlusher_def st log_step_tops split: flusher_state.split)
qed (simp_all add: log_step_tops)

lemma broker_steps_logs: "broker_step\<^sup>*\<^sup>* st st' \<Longrightarrow> log_step st st'"
  by (induction rule: rtranclp_induct) (blast intro: log_step_trans broker_step_logs log_step_refl)+

lemma ToProtocolRecord_stamp: "ToProtocolRecord (stamp_crc (ToStorageRecord r)) = r\<lparr>prc_retry := None\<rparr>"
  by (simp add: ToProtocolRecord_def ToStorageRecord_def stamp_crc_def)

text \<open>A manager loaded from the disk of a running broker, which a crash can leave at any moment, has
  the broker's topics.\<close>

lemma restart_topics:
  assumes "topics_rep (tops st) A" "broker_step\<^sup>*\<^sup>* st (bs, d)"
    "TopicManager_Load (mk_TopicManager (tmg_options (bs_topics bs)), d) = (Inr (), (tm', d'))"
  shows "topic_counts tm' = topic_counts (bs_topics bs)"
proof -
  from broker_steps_logs [OF assms(2)] assms(1) obtain A' where "topics_rep (bs_topics bs, d) A'"
    by (auto simp: log_step_def tops_def)
  from Load_same_topics [OF topics_rep_ok(2,3) [OF this] _ _ assms(3)] show ?thesis
    by (simp add: mk_TopicManager_def)
qed

text \<open>What a producer was told about is what every later fetch returns.\<close>

lemma produced_batch_fetched:
  assumes rep: "topics_rep (tops st) A" and mem: "in_memory (map ToStorageRecord (prq_records q))"
    and prod: "HandleProduce env q st = (resp, st1)" "succeeded resp" "rse_body resp = RspProduce p"
    and dom: "A (prq_topic q, nat (prs_partition_id p)) \<noteq> None"
    and run: "broker_step\<^sup>*\<^sup>* st1 st2"
    and off: "prs_base_offset p \<le> off" "off < prs_base_offset p + int (length (prq_records q))"
    and fetch: "HandleFetch env' \<lparr>frq_topic = prq_topic q, frq_partition_id = prs_partition_id p,
        frq_offset = off, frq_max_bytes = max_bytes\<rparr> st2 = (resp', st3)" "succeeded resp'"
  shows "\<exists>f. rse_body resp' = RspFetch f \<and> frs_base_offset f = prs_base_offset p \<and>
    frs_records f = map (\<lambda>r. r\<lparr>prc_retry := None\<rparr>) (prq_records q)"
proof -
  let ?x = "(prs_base_offset p, map ToStorageRecord (prq_records q))" and ?k = "(prq_topic q, nat (prs_partition_id p))"
  from HandleProduce_spec [OF rep mem prod(1)] prod(2,3) obtain A1 where
    A1: "topics_rep (tops st1) A1" "grows A ?k [?x] A1" by auto
  from dom obtain L where "A ?k = Some L" by blast
  from growsD [OF A1(2) this] have "A1 ?k = Some (L @ [?x])" by simp
  moreover from broker_steps_logs [OF run] A1(1) obtain A2 where
    A2: "topics_rep (tops st2) A2" "extends A1 A2" by (auto simp: log_step_def)
  ultimately obtain M where M: "A2 ?k = Some ((L @ [?x]) @ M)" unfolding extends_def by blast
  have "\<not> IsInternalTopic (prq_topic q)"
    using prod(1,2) by (auto simp: HandleProduce_def split: if_splits)
  moreover have "holds_offset off ?x" using off by (simp add: holds_offset_def)
  ultimately have "\<exists>f. rse_body resp' = RspFetch f \<and> frs_base_offset f = fst ?x \<and>
      frs_records f = map (ToProtocolRecord \<circ> stamp_crc) (snd ?x)"
    using M by (intro HandleFetch_batch [OF A2(1) fetch, of "(L @ [?x]) @ M"]) simp_all
  then show ?thesis by (simp add: ToProtocolRecord_stamp comp_def)
qed

end
