(* ===== verification/RetryVisibility.thy ===== *)
theory RetryVisibility
  imports RetryScheduler
begin

text \<open>
  The retry scheduler refines sets of offsets: the state of a partition stands for the set
  of offsets whose time has come, a task adds one offset to it in any order, and the
  visible end is the least offset that is missing.
\<close>

section \<open>One partition\<close>

definition vis_ok :: "Visibility \<Rightarrow> bool" where
  "vis_ok v \<longleftrightarrow> 0 \<le> vs_end v \<and> distinct (vs_ready v) \<and> (\<forall>r \<in> set (vs_ready v). vs_end v < r)"

definition due_offsets :: "Visibility \<Rightarrow> Offset set" where
  "due_offsets v = {0..<vs_end v} \<union> set (vs_ready v)"

lemma advance_spec:
  assumes "distinct ready" "advance e ready = (e', ready')"
  shows "e \<le> e' \<and> {e..<e'} \<subseteq> set ready \<and> e' \<notin> set ready' \<and>
    set ready' = set ready - {e..<e'} \<and> distinct ready'"
  using assms
proof (induction e ready arbitrary: e' ready' rule: advance.induct)
  case (1 e ready)
  show ?case
  proof (cases "e \<in> set ready")
    case False
    with 1 show ?thesis by (subst (asm) (2) advance.simps) auto
  next
    case True
    have d: "distinct (remove1 e ready)" "set (remove1 e ready) = set ready - {e}"
      using "1.prems"(1) by simp_all
    have "advance (e + 1) (remove1 e ready) = (e', ready')"
      using "1.prems"(2) True by (subst (asm) advance.simps) simp
    from "1.IH" [OF True d(1) this] have
      IH: "e + 1 \<le> e'" "{e + 1..<e'} \<subseteq> set ready - {e}" "e' \<notin> set ready'"
        "set ready' = set ready - {e} - {e + 1..<e'}" "distinct ready'" unfolding d(2) by blast+
    have "{e..<e'} = insert e {e + 1..<e'}" using IH(1) by auto
    with IH True show ?thesis by auto
  qed
qed

lemma show_task_spec:
  assumes "vis_ok v" "0 \<le> rt_offset t"
  shows "vis_ok (show_task t v)" "due_offsets (show_task t v) = insert (rt_offset t) (due_offsets v)"
proof -
  let ?o = "rt_offset t"
  define R where "R = (if ?o \<ge> vs_end v then insort_insert ?o (vs_ready v) else vs_ready v)"
  obtain e' R' where adv: "advance (vs_end v) R = (e', R')" by force
  have R: "distinct R" "set R = (if ?o \<ge> vs_end v then insert ?o (set (vs_ready v)) else set (vs_ready v))"
    using assms(1) by (auto simp: R_def vis_ok_def distinct_insort_insert set_insort_insert)
  have eq: "show_task t v = \<lparr>vs_end = e', vs_ready = R'\<rparr>"
    using adv by (simp add: show_task_def Let_def flip: R_def)
  note a = advance_spec [OF R(1) adv]
  have ge: "\<forall>r \<in> set R. vs_end v \<le> r" using assms(1) R(2) by (auto simp: vis_ok_def)
  have "\<forall>r \<in> set R'. e' < r"
  proof
    fix r assume "r \<in> set R'"
    with a ge have "vs_end v \<le> r" "r \<notin> {vs_end v..<e'}" "r \<noteq> e'" by auto
    then show "e' < r" by auto
  qed
  with a assms show "vis_ok (show_task t v)" by (auto simp: eq vis_ok_def)
  have "{0..<e'} = {0..<vs_end v} \<union> {vs_end v..<e'}" using a assms(1) by (auto simp: vis_ok_def)
  then have "{0..<e'} \<union> set R' = {0..<vs_end v} \<union> set R" using a by blast
  also have "\<dots> = insert ?o (due_offsets v)" using R(2) assms(2) by (auto simp: due_offsets_def)
  finally show "due_offsets (show_task t v) = insert ?o (due_offsets v)"
    by (simp add: eq due_offsets_def)
qed

text \<open>The visible end is the least offset that is not due.\<close>

lemma vs_end_least:
  assumes "vis_ok v" "0 \<le> off"
  shows "off < vs_end v \<longleftrightarrow> {0..off} \<subseteq> due_offsets v"
proof
  assume "off < vs_end v"
  then show "{0..off} \<subseteq> due_offsets v" by (auto simp: due_offsets_def)
next
  assume all: "{0..off} \<subseteq> due_offsets v"
  show "off < vs_end v"
  proof (rule ccontr)
    assume "\<not> off < vs_end v"
    with assms(1) have "vs_end v \<in> {0..off}" by (simp add: vis_ok_def)
    with all have "vs_end v \<in> due_offsets v" by blast
    with assms(1) show False by (auto simp: due_offsets_def vis_ok_def)
  qed
qed

section \<open>The scheduler\<close>

definition task_key :: "RetryTask \<Rightarrow> TopicName \<times> PartitionId" where
  "task_key t = (rt_topic t, rt_partition t)"

definition due_at :: "RetryScheduler \<Rightarrow> TopicName \<times> PartitionId \<Rightarrow> Offset set" where
  "due_at rs key = due_offsets (visibility_of (rs_visibility rs) key)"

definition rs_inv :: "RetryScheduler \<Rightarrow> bool" where
  "rs_inv rs \<longleftrightarrow> sorted (map rt_time (rs_tasks rs)) \<and> (\<forall>t \<in> set (rs_tasks rs). 0 \<le> rt_offset t) \<and>
     stdmap_ok (rs_visibility rs) \<and> (\<forall>key. vis_ok (visibility_of (rs_visibility rs) key))"

lemma visibility_of_insert:
  "stdmap_ok vis \<Longrightarrow> visibility_of (stdmap_insert key v vis) key' = (if key' = key then v else visibility_of vis key')"
  by (simp add: visibility_of_def stdm.find_insert)

lemma VisibleEnd_eq: "VisibleEnd topic p rs = vs_end (visibility_of (rs_visibility rs) (topic, p))"
  by (simp add: VisibleEnd_def visibility_of_def mk_Visibility_def split: option.splits)

lemma make_due_spec:
  assumes "sorted (map rt_time tasks)" "\<forall>t \<in> set tasks. 0 \<le> rt_offset t" "stdmap_ok vis"
    "\<forall>key. vis_ok (visibility_of vis key)" "make_due now tasks vis = (tasks', vis')"
  shows "tasks' = filter (\<lambda>t. now < rt_time t) tasks \<and> stdmap_ok vis' \<and>
    (\<forall>key. vis_ok (visibility_of vis' key) \<and>
       due_offsets (visibility_of vis' key) = due_offsets (visibility_of vis key) \<union>
         {rt_offset t | t. t \<in> set tasks \<and> task_key t = key \<and> rt_time t \<le> now})"
  using assms
proof (induction now tasks vis rule: make_due.induct)
  case (2 now task tasks vis)
  show ?case
  proof (cases "rt_time task \<le> now")
    case False
    then have later: "\<forall>t \<in> set (task # tasks). now < rt_time t" using "2.prems"(1) by auto
    then have all: "filter (\<lambda>t. now < rt_time t) (task # tasks) = task # tasks" by simp
    have none: "{rt_offset t | t. t \<in> set (task # tasks) \<and> task_key t = key \<and> rt_time t \<le> now} = {}" for key
      using later by (auto simp: not_le [symmetric])
    have "tasks' = task # tasks" "vis' = vis" using "2.prems"(5) False by simp_all
    with "2.prems"(3,4) show ?thesis by (simp only: all none Un_empty_right simp_thms)
  next
    case True
    let ?key = "(rt_topic task, rt_partition task)"
    let ?vis = "stdmap_insert ?key (show_task task (visibility_of vis ?key)) vis"
    have ok: "stdmap_ok ?vis" using "2.prems"(3) by (rule stdm.inv_insert)
    have st: "vis_ok (show_task task (visibility_of vis ?key))"
      "due_offsets (show_task task (visibility_of vis ?key)) =
       insert (rt_offset task) (due_offsets (visibility_of vis ?key))"
      using "2.prems"(2,4) by (simp_all add: show_task_spec)
    have "\<forall>key. vis_ok (visibility_of ?vis key)"
      using st "2.prems"(3,4) by (simp add: visibility_of_insert)
    moreover have "make_due now tasks ?vis = (tasks', vis')" using "2.prems"(5) True by (simp add: Let_def)
    ultimately have IH: "tasks' = filter (\<lambda>t. now < rt_time t) tasks" "stdmap_ok vis'"
      "\<And>key. vis_ok (visibility_of vis' key)"
      "\<And>key. due_offsets (visibility_of vis' key) = due_offsets (visibility_of ?vis key) \<union>
         {rt_offset t | t. t \<in> set tasks \<and> task_key t = key \<and> rt_time t \<le> now}"
      using "2.IH" [OF True refl _ _ ok] "2.prems"(1,2) by auto
    have "due_offsets (visibility_of ?vis key) = due_offsets (visibility_of vis key) \<union>
        {rt_offset t | t. t = task \<and> task_key t = key}" for key
      using st(2) "2.prems"(3) by (auto simp: visibility_of_insert task_key_def)
    with IH True show ?thesis by (auto simp: not_less)
  qed
qed auto

lemma MakeDueVisible_spec:
  fixes now :: u64
  assumes "rs_inv rs"
  defines "rs' \<equiv> MakeDueVisibleLocked now rs"
  shows "rs_inv rs'" "rs_tasks rs' = filter (\<lambda>t. now < rt_time t) (rs_tasks rs)"
    "due_at rs' key = due_at rs key \<union>
       {rt_offset t | t. t \<in> set (rs_tasks rs) \<and> task_key t = key \<and> rt_time t \<le> now}"
proof -
  obtain tasks vis where run: "make_due now (rs_tasks rs) (rs_visibility rs) = (tasks, vis)" by force
  have rs': "rs' = rs\<lparr>rs_tasks := tasks, rs_visibility := vis\<rparr>"
    by (simp add: rs'_def MakeDueVisibleLocked_def run)
  note spec = make_due_spec [OF _ _ _ _ run]
  show "rs_inv rs'" "rs_tasks rs' = filter (\<lambda>t. now < rt_time t) (rs_tasks rs)"
    "due_at rs' key = due_at rs key \<union>
       {rt_offset t | t. t \<in> set (rs_tasks rs) \<and> task_key t = key \<and> rt_time t \<le> now}"
    using assms(1) spec
    by (auto simp: rs' rs_inv_def due_at_def sorted_filter simp del: split_paired_All)
qed

section \<open>Runs\<close>

text \<open>A history of the scheduler: what was scheduled and the readings of the clock so far.\<close>

datatype retry_op = OpSchedule u64 TopicName PartitionId Offset u64 | OpRun u64

fun retry_step :: "retry_op \<Rightarrow> RetryScheduler \<Rightarrow> RetryScheduler" where
  "retry_step (OpSchedule now topic p off time) rs = Schedule now topic p off time rs"
| "retry_step (OpRun now) rs = RetryScheduler_Run now rs"

fun op_now :: "retry_op \<Rightarrow> u64" where
  "op_now (OpSchedule now _ _ _ _) = now"
| "op_now (OpRun now) = now"

fun op_ok :: "retry_op \<Rightarrow> bool" where
  "op_ok (OpSchedule _ _ _ off _) \<longleftrightarrow> 0 \<le> off"
| "op_ok (OpRun _) \<longleftrightarrow> True"

definition scheduled :: "retry_op list \<Rightarrow> RetryTask set" where
  "scheduled ops = {\<lparr>rt_topic = topic, rt_partition = p, rt_offset = off, rt_time = time\<rparr> |
     now topic p off time. OpSchedule now topic p off time \<in> set ops}"

text \<open>The tasks whose time some reading of the clock, at their scheduling or later, has reached.\<close>

definition released :: "retry_op list \<Rightarrow> RetryTask set" where
  "released ops = {t. \<exists>pre op post. ops = pre @ op # post \<and> t \<in> scheduled (pre @ [op]) \<and>
     rt_time t \<le> op_now op}"

definition retry_exec :: "retry_op list \<Rightarrow> RetryScheduler" where
  "retry_exec ops = fold retry_step ops (mk_RetryScheduler\<lparr>rs_running := True\<rparr>)"

lemma scheduled_snoc:
  "scheduled (ops @ [op]) = scheduled ops \<union> scheduled [op]"
  by (auto simp: scheduled_def)

lemma released_snoc:
  "released (ops @ [op]) = released ops \<union> {t \<in> scheduled (ops @ [op]). rt_time t \<le> op_now op}"
proof (intro set_eqI iffI)
  fix t assume "t \<in> released (ops @ [op])"
  then obtain pre op' post where p: "ops @ [op] = pre @ op' # post" "t \<in> scheduled (pre @ [op'])"
    "rt_time t \<le> op_now op'" by (auto simp: released_def)
  then show "t \<in> released ops \<union> {t \<in> scheduled (ops @ [op]). rt_time t \<le> op_now op}"
    by (cases post rule: rev_cases) (auto simp: released_def)
next
  fix t assume "t \<in> released ops \<union> {t \<in> scheduled (ops @ [op]). rt_time t \<le> op_now op}"
  then show "t \<in> released (ops @ [op])" by (auto simp: released_def) blast
qed

lemma push_task_inv:
  "rs_inv rs \<Longrightarrow> 0 \<le> rt_offset t \<Longrightarrow> rs_inv (rs\<lparr>rs_tasks := push_task t (rs_tasks rs)\<rparr>)"
  by (auto simp: rs_inv_def push_task_def sorted_insort_key set_insort_key)

lemma retry_step_flags: "rs_running (retry_step op rs) = rs_running rs \<and> rs_stopped (retry_step op rs) = rs_stopped rs"
  by (cases op) (simp_all add: Schedule_def RetryScheduler_Run_def MakeDueVisibleLocked_def split: prod.splits)

lemma retry_step_spec:
  assumes "rs_inv rs" "op_ok op" "rs_running rs" "\<not> rs_stopped rs"
  shows "rs_inv (retry_step op rs)"
    "set (rs_tasks (retry_step op rs)) =
       {t \<in> set (rs_tasks rs) \<union> scheduled [op]. op_now op < rt_time t}"
    "due_at (retry_step op rs) key = due_at rs key \<union>
       {rt_offset t | t. t \<in> set (rs_tasks rs) \<union> scheduled [op] \<and> task_key t = key \<and> rt_time t \<le> op_now op}"
proof -
  define rs0 where "rs0 = (case op of OpSchedule now topic p off time \<Rightarrow>
      rs\<lparr>rs_tasks := push_task \<lparr>rt_topic = topic, rt_partition = p, rt_offset = off, rt_time = time\<rparr>
        (rs_tasks rs)\<rparr> | OpRun now \<Rightarrow> rs)"
  have inv: "rs_inv rs0" using assms(1,2) by (cases op) (simp_all add: rs0_def push_task_inv)
  have tasks: "set (rs_tasks rs0) = set (rs_tasks rs) \<union> scheduled [op]"
    by (cases op) (auto simp: rs0_def scheduled_def push_task_def set_insort_key)
  have due: "due_at rs0 key = due_at rs key"
    by (cases op) (simp_all add: rs0_def due_at_def)
  have step: "retry_step op rs = MakeDueVisibleLocked (op_now op) rs0"
    using assms(3,4) by (cases op) (simp_all add: rs0_def Schedule_def RetryScheduler_Run_def)
  show "rs_inv (retry_step op rs)"
    "set (rs_tasks (retry_step op rs)) = {t \<in> set (rs_tasks rs) \<union> scheduled [op]. op_now op < rt_time t}"
    "due_at (retry_step op rs) key = due_at rs key \<union>
       {rt_offset t | t. t \<in> set (rs_tasks rs) \<union> scheduled [op] \<and> task_key t = key \<and> rt_time t \<le> op_now op}"
    unfolding step tasks [symmetric] due [symmetric] using MakeDueVisible_spec [OF inv] by auto
qed

lemma retry_exec_spec:
  assumes "list_all op_ok ops"
  shows "rs_inv (retry_exec ops) \<and> rs_running (retry_exec ops) \<and> \<not> rs_stopped (retry_exec ops) \<and>
    scheduled ops = released ops \<union> set (rs_tasks (retry_exec ops)) \<and>
    (\<forall>key. due_at (retry_exec ops) key = {rt_offset t | t. t \<in> released ops \<and> task_key t = key})"
  using assms
proof (induction ops rule: rev_induct)
  case Nil
  show ?case
    by (simp add: retry_exec_def mk_RetryScheduler_def rs_inv_def scheduled_def released_def due_at_def
        stdmap_ok_Nil visibility_of_def stdmap_find_def mk_Visibility_def vis_ok_def due_offsets_def)
next
  case (snoc op ops)
  then have ok: "list_all op_ok ops" "op_ok op" by simp_all
  let ?rs = "retry_exec ops"
  from snoc.IH [OF ok(1)] have IH: "rs_inv ?rs" "rs_running ?rs" "\<not> rs_stopped ?rs"
    "scheduled ops = released ops \<union> set (rs_tasks ?rs)"
    "\<And>key. due_at ?rs key = {rt_offset t | t. t \<in> released ops \<and> task_key t = key}" by auto
  have ex: "retry_exec (ops @ [op]) = retry_step op ?rs" by (simp add: retry_exec_def)
  note step = retry_step_spec [OF IH(1) ok(2) IH(2,3)]
  have rel: "released (ops @ [op]) = released ops \<union>
      {t \<in> set (rs_tasks ?rs) \<union> scheduled [op]. rt_time t \<le> op_now op}"
    using IH(4) by (auto simp: released_snoc scheduled_snoc)
  show ?case
    unfolding ex using step IH(2,3) retry_step_flags [of op ?rs]
    by (auto simp: rel scheduled_snoc IH(4,5))
qed

lemma VisibleEnd_released:
  assumes "list_all op_ok ops" "0 \<le> off"
  shows "off < VisibleEnd topic p (retry_exec ops) \<longleftrightarrow>
    {0..off} \<subseteq> rt_offset ` {t \<in> released ops. task_key t = (topic, p)}"
proof -
  from retry_exec_spec [OF assms(1)] have inv: "rs_inv (retry_exec ops)"
    and due: "due_at (retry_exec ops) (topic, p) = {rt_offset t | t. t \<in> released ops \<and> task_key t = (topic, p)}"
    by blast+
  have img: "{rt_offset t | t. t \<in> released ops \<and> task_key t = (topic, p)} =
      rt_offset ` {t \<in> released ops. task_key t = (topic, p)}" by blast
  from inv have "vis_ok (visibility_of (rs_visibility (retry_exec ops)) (topic, p))"
    by (simp add: rs_inv_def)
  from vs_end_least [OF this assms(2)] show ?thesis
    unfolding VisibleEnd_eq using due img by (simp add: due_at_def)
qed

text \<open>The thread never sleeps past the next task or for more than a second, and waits without a
  limit only when nothing is scheduled.\<close>

lemma run_delay_bound:
  "case run_delay now rs of
     None \<Rightarrow> rs_tasks rs = []
   | Some delay \<Rightarrow> unat delay \<le> 1000 \<and> rs_tasks rs \<noteq> [] \<and>
       unat now + unat delay \<le> max (unat now) (unat (rt_time (hd (rs_tasks rs))))"
proof (cases "rs_tasks rs")
  case (Cons t ts)
  have "unat (rt_time t - now) = unat (rt_time t) - unat now" if "now < rt_time t"
    using that by (simp add: unat_sub order_less_imp_le)
  then show ?thesis using Cons
    by (auto simp: run_delay_def min_def word_le_nat_alt word_less_nat_alt)
qed (simp add: run_delay_def)

end
