(* ===== verification/BrokerFacts.thy ===== *)
theory BrokerFacts
  imports BrokerLogs RetryVisibility
begin

text \<open>
  What the broker promises its clients beside the logs: the form of every reply, committed
  offsets, the life of a retried record, and the group coordinator behind its handlers.
\<close>

section \<open>The form of replies\<close>

definition body_key :: "ResponseBody \<Rightarrow> ApiKey" where
  "body_key body = (case body of
     RspNack _ \<Rightarrow> kNack | RspProduce _ \<Rightarrow> kProduce | RspFetch _ \<Rightarrow> kFetch | RspMetadata _ \<Rightarrow> kMetadata
   | RspCreateTopic _ \<Rightarrow> kCreateTopic | RspCommitOffset _ \<Rightarrow> kCommitOffset
   | RspFetchCommittedOffset _ \<Rightarrow> kFetchCommittedOffset | RspJoinGroup _ \<Rightarrow> kJoinGroup
   | RspSyncGroup _ \<Rightarrow> kSyncGroup | RspHeartbeat _ \<Rightarrow> kHeartbeat | RspLeaveGroup _ \<Rightarrow> kLeaveGroup)"

text \<open>A reply to a request: its api key, its id, a version the client can read, and, on success, the
  body that belongs to the key.\<close>

definition reply_to :: "RequestEnvelope \<Rightarrow> ApiKey \<Rightarrow> ResponseEnvelope \<Rightarrow> bool" where
  "reply_to q key resp \<longleftrightarrow>
     rse_request_id resp = rqe_request_id q \<and> rse_api_key resp = rqe_api_key q \<and>
     rse_version resp = reply_version q \<and> (succeeded resp \<longrightarrow> body_key (rse_body resp) = key)"

lemma reply_to_simps [simp]:
  "reply_to q key (MakeError q code message) \<longleftrightarrow> (code = pkNone \<longrightarrow> kProduce = key)"
  "reply_to q key (MakeSuccess q body) \<longleftrightarrow> body_key body = key"
  by (auto simp: reply_to_def MakeError_def MakeSuccess_def succeeded_def body_key_def EmptyResponseBodyFor_def)

lemma error_body: "rse_body (MakeError q code message) \<noteq> RspNack n"
  by (simp add: MakeError_def EmptyResponseBodyFor_def)

lemma body_key_simps [simp]:
  "body_key (RspNack a) = kNack" "body_key (RspProduce b) = kProduce" "body_key (RspFetch c) = kFetch"
  "body_key (RspMetadata d) = kMetadata" "body_key (RspCreateTopic e) = kCreateTopic"
  "body_key (RspCommitOffset f) = kCommitOffset" "body_key (RspFetchCommittedOffset g) = kFetchCommittedOffset"
  "body_key (RspJoinGroup h) = kJoinGroup" "body_key (RspSyncGroup i) = kSyncGroup"
  "body_key (RspHeartbeat j) = kHeartbeat" "body_key (RspLeaveGroup k) = kLeaveGroup"
  by (simp_all add: body_key_def)

lemma GroupErrorCode_not_none [simp]: "GroupErrorCode e \<noteq> pkNone"
  by (simp add: GroupErrorCode_def)

lemma fetch_records_error: "fetch_records internal version m rs = Inl (code, message) \<Longrightarrow> code \<noteq> pkNone"
  by (induction rs) (auto split: if_splits sum.splits)

lemma reply_Produce: "reply_to env kProduce (fst (HandleProduce env q st))"
  by (auto simp: HandleProduce_def Let_def split: sum.split prod.split)

lemma reply_Fetch: "reply_to env kFetch (fst (HandleFetch env q st))"
  by (auto simp: HandleFetch_def Let_def dest!: fetch_records_error split: sum.split prod.split)

lemma reply_group: "(\<And>v. body_key (body v) = key) \<Longrightarrow> reply_to env key (fst (group_reply env body f st))"
  by (auto simp: group_reply_def split: sum.split prod.split)

lemma reply_nack_store: "reply_to env kNack (fst (nack_store clock env q dead retry encoded st))"
  by (auto simp: nack_store_def Let_def split: sum.split prod.split)

lemma reply_Nack: "reply_to env kNack (fst (HandleNack clock env q st))"
  by (auto simp: HandleNack_def Let_def reply_nack_store split: sum.split prod.split)

lemma reply_others:
  "reply_to env kMetadata (fst (HandleMetadata env mq st))"
  "reply_to env kCreateTopic (fst (HandleCreateTopic env cq st))"
  "reply_to env kCommitOffset (fst (HandleCommitOffset env oq st))"
  "reply_to env kFetchCommittedOffset (fst (HandleFetchCommittedOffset env fq st))"
  "reply_to env kJoinGroup (fst (HandleJoinGroup clock env jq st))"
  "reply_to env kSyncGroup (fst (HandleSyncGroup clock env sq st))"
  "reply_to env kHeartbeat (fst (HandleHeartbeat clock env hq st))"
  "reply_to env kLeaveGroup (fst (HandleLeaveGroup env lq st))"
  by (auto simp: HandleMetadata_def HandleCreateTopic_def HandleCommitOffset_def HandleFetchCommittedOffset_def
      HandleJoinGroup_def HandleSyncGroup_def HandleHeartbeat_def HandleLeaveGroup_def reply_group
      split: sum.split prod.split list.split)

lemmas replies = reply_Produce reply_Fetch reply_Nack reply_others

lemma Handle_reply: "reply_to request (rqe_api_key request) (fst (Handle clock request st))"
proof (cases "SupportedProtocolVersion (rqe_version request)")
  case True
  then show ?thesis
    by (cases "rqe_api_key request"; cases "rqe_body request")
      (simp_all add: Handle_def wrong_body_type_def replies)
qed (simp add: Handle_def)

section \<open>Committed offsets\<close>

lemma commit_fetch:
  assumes "HandleCommitOffset env q st = (resp, st')" "succeeded resp" "stdmap_ok (os_offsets (bs_offsets (fst st)))"
  shows "Fetch (coq_group_id q) (coq_topic q) (coq_partition_id q) (bs_offsets (fst st')) = Inr (Some (coq_offset q))"
    "\<And>k. k \<noteq> (coq_group_id q, coq_topic q, coq_partition_id q) \<Longrightarrow>
      stdmap_find k (os_offsets (bs_offsets (fst st'))) = stdmap_find k (os_offsets (bs_offsets (fst st)))"
    "d_lookup (snd st') (OffsetPath (bs_offsets (fst st)) (coq_group_id q) (coq_topic q) (coq_partition_id q)) =
      Some (offset_text (coq_group_id q, coq_topic q, coq_partition_id q) (coq_offset q))"
    "Status_ok (ValidateSafeName (coq_group_id q) ''group_id'')" "Status_ok (ValidateSafeName (coq_topic q) ''topic'')"
    "0 \<le> coq_partition_id q" "0 \<le> coq_offset q"
    "\<exists>part. GetPartition (coq_topic q) (coq_partition_id q) (bs_topics (fst st)) = Inr part \<and>
      coq_offset q \<le> cl_next_offset (pt_log part)"
proof -
  obtain r os d where c: "Commit (coq_group_id q) (coq_topic q) (coq_partition_id q) (coq_offset q)
      (bs_offsets (fst st), snd st) = (r, (os, d))" by (metis prod_cases3)
  from assms(1,2) c have st': "st' = ((fst st)\<lparr>bs_offsets := os\<rparr>, d)" "r = Inr ()"
    and part: "\<exists>part. GetPartition (coq_topic q) (coq_partition_id q) (bs_topics (fst st)) = Inr part \<and>
      coq_offset q \<le> cl_next_offset (pt_log part)"
    by (auto simp: HandleCommitOffset_def split: if_splits sum.splits)
  from Commit_cases [OF c] st'(2) have v: "Status_ok (ValidateSafeName (coq_group_id q) ''group_id'')"
    "Status_ok (ValidateSafeName (coq_topic q) ''topic'')" "0 \<le> coq_partition_id q" "0 \<le> coq_offset q"
    and p: "PersistLocked (bs_offsets (fst st)) (coq_group_id q, coq_topic q, coq_partition_id q) (coq_offset q) (snd st) = (Inr (), d)"
    and os: "os = (bs_offsets (fst st))\<lparr>os_offsets := stdmap_insert (coq_group_id q, coq_topic q, coq_partition_id q)
      (coq_offset q) (os_offsets (bs_offsets (fst st)))\<rparr>" by auto
  show "Fetch (coq_group_id q) (coq_topic q) (coq_partition_id q) (bs_offsets (fst st')) = Inr (Some (coq_offset q))"
    using v by (simp add: Fetch_def st' os stdm.find_insert [OF assms(3)])
  show "\<And>k. k \<noteq> (coq_group_id q, coq_topic q, coq_partition_id q) \<Longrightarrow>
      stdmap_find k (os_offsets (bs_offsets (fst st'))) = stdmap_find k (os_offsets (bs_offsets (fst st)))"
    by (simp add: st' os stdm.find_insert [OF assms(3)])
  show "d_lookup (snd st') (OffsetPath (bs_offsets (fst st)) (coq_group_id q) (coq_topic q) (coq_partition_id q)) =
      Some (offset_text (coq_group_id q, coq_topic q, coq_partition_id q) (coq_offset q))"
    using PersistLocked_spec(2) [OF p] by (simp add: st')
  show "Status_ok (ValidateSafeName (coq_group_id q) ''group_id'')" "Status_ok (ValidateSafeName (coq_topic q) ''topic'')"
    "0 \<le> coq_partition_id q" "0 \<le> coq_offset q" by (fact v)+
  show "\<exists>part. GetPartition (coq_topic q) (coq_partition_id q) (bs_topics (fst st)) = Inr part \<and>
      coq_offset q \<le> cl_next_offset (pt_log part)" by (fact part)
qed

section \<open>Retries\<close>

text \<open>The reply to a nack: the record moves to the retry topic of its original topic, or to its
  dead-letter topic once its retries are used up.\<close>

lemma nack_store_reply:
  assumes "nack_store clock env q dead retry encoded st = (resp, st')" "succeeded resp"
  shows "\<exists>off. rse_body resp = RspNack
    \<lparr>nks_topic = (if dead then kDlqTopicPrefix else kRetryTopicPrefix) @ rm_original_topic retry,
     nks_partition_id = nkq_partition_id q, nks_offset = off, nks_retry = retry, nks_dead_letter = dead\<rparr>"
  using assms by (auto simp: nack_store_def Let_def split: sum.splits prod.splits)

lemma next_retry_count:
  assumes "next_retry now options reason retry = (dead, retry')" "rm_retry_count retry \<noteq> 0xFFFFFFFF"
  shows "unat (rm_retry_count retry') = unat (rm_retry_count retry) + 1"
    "dead \<longleftrightarrow> unat (ro_max_retries options) < unat (rm_retry_count retry')"
    "rm_original_topic retry' = rm_original_topic retry" "rm_original_partition retry' = rm_original_partition retry"
    "rm_original_offset retry' = rm_original_offset retry" "rm_failure_reason retry' = reason"
    "rm_next_visible_time retry' = (if dead then 0 else now + word_of_int (ro_delay options))"
proof -
  have "rm_retry_count retry + 1 \<noteq> 0"
  proof
    assume "rm_retry_count retry + 1 = 0"
    then have "rm_retry_count retry = - 1" by (metis add.commute add_eq_0_iff)
    with assms(2) show False by simp
  qed
  then have "unat (rm_retry_count retry + 1) = Suc (unat (rm_retry_count retry))"
    by (metis unatSuc add.commute)
  then show "unat (rm_retry_count retry') = unat (rm_retry_count retry) + 1"
    "dead \<longleftrightarrow> unat (ro_max_retries options) < unat (rm_retry_count retry')"
    using assms(1) by (auto simp: next_retry_def Let_def word_less_nat_alt)
qed (use assms(1) in \<open>auto simp: next_retry_def Let_def\<close>)

lemma nack_source_count: "nack_source q stored = Inr (rc, retry) \<Longrightarrow> rm_retry_count retry \<noteq> 0xFFFFFFFF"
  by (auto simp: nack_source_def Let_def split: if_splits sum.splits)

lemma HandleNack_reply:
  assumes "HandleNack clock env q st = (resp, st')" "succeeded resp"
  obtains stored rc retry n where "nack_source q stored = Inr (rc, retry)" "\<not> IsDlqTopic (nkq_topic q)"
    "rse_body resp = RspNack n"
    "next_retry (RetryNowMs (ck_system clock)) (bso_retry (bs_options (fst st))) (nkq_reason q) retry =
       (nks_dead_letter n, nks_retry n)"
    "nks_topic n = (if nks_dead_letter n then kDlqTopicPrefix else kRetryTopicPrefix) @ rm_original_topic (nks_retry n)"
    "nks_partition_id n = nkq_partition_id q"
proof -
  let ?rd = "with_topics (on_partition (nkq_topic q) (nat (nkq_partition_id q))
      (CommitLog_Read (nkq_offset q) kMaxRetryBatchBytes)) st"
  obtain r st1 where rd: "?rd = (r, st1)" by (rule prod.exhaust)
  then have opts: "bs_options (fst st1) = bs_options (fst st)" by (auto simp: with_topics_iff)
  from assms rd obtain stored rc retry dead retry' encoded where
    src: "nack_source q stored = Inr (rc, retry)" "\<not> IsDlqTopic (nkq_topic q)"
    and nx: "next_retry (RetryNowMs (ck_system clock)) (bso_retry (bs_options (fst st1))) (nkq_reason q) retry = (dead, retry')"
    and store: "nack_store clock env q dead retry' encoded st1 = (resp, st')"
    by (auto simp: HandleNack_def Let_def split: if_splits sum.splits prod.splits)
  from nack_store_reply [OF store assms(2)] src nx opts that show thesis by auto
qed

lemma nack_error_body:
  assumes "\<not> succeeded (fst (HandleNack clock env q st))"
  shows "rse_body (fst (HandleNack clock env q st)) \<noteq> RspNack n"
proof -
  have store: "rse_body (fst (nack_store clock env q dead retry encoded st)) \<noteq> RspNack n"
    if "\<not> succeeded (fst (nack_store clock env q dead retry encoded st))" for dead retry encoded st
    using that by (auto simp: nack_store_def Let_def case_prod_unfold error_body split: sum.splits)
  from assms show ?thesis
    by (auto simp: HandleNack_def Let_def case_prod_unfold error_body store split: sum.splits if_splits)
qed

text \<open>A fetch from a retry topic returns records only below the end of what is visible there.\<close>

lemma retry_fetch_visible:
  assumes "HandleFetch env q st = (resp, st')" "succeeded resp" "rse_body resp = RspFetch f" "frs_records f \<noteq> []"
    "IsRetryTopic (frq_topic q)"
  shows "0 \<le> frq_offset q \<and> frq_offset q < VisibleEnd (frq_topic q) (frq_partition_id q) (bs_retries (fst st))"
  using assms by (auto simp: HandleFetch_def Let_def split: if_splits sum.splits prod.splits)

section \<open>Groups behind the handlers\<close>

lemma with_topics_groups [simp]: "bs_groups (fst (snd (with_topics f st))) = bs_groups (fst st)"
  by (simp add: with_topics_def split: prod.split)

lemma sync_flush_groups [simp]: "bs_groups (fst (snd (sync_flush t i st))) = bs_groups (fst st)"
  by (simp add: sync_flush_def)

lemma HandleProduce_groups: "bs_groups (fst (snd (HandleProduce env q st))) = bs_groups (fst st)"
  by (auto simp: HandleProduce_def Let_def case_prod_unfold split: sum.split)

lemma HandleFetch_groups: "bs_groups (fst (snd (HandleFetch env q st))) = bs_groups (fst st)"
  by (auto simp: HandleFetch_def Let_def case_prod_unfold split: sum.split)

lemma HandleCreateTopic_groups: "bs_groups (fst (snd (HandleCreateTopic env q st))) = bs_groups (fst st)"
  by (auto simp: HandleCreateTopic_def case_prod_unfold split: sum.split)

lemma HandleCommitOffset_groups: "bs_groups (fst (snd (HandleCommitOffset env q st))) = bs_groups (fst st)"
  by (auto simp: HandleCommitOffset_def split: sum.split prod.split)

lemma nack_store_groups: "bs_groups (fst (snd (nack_store clock env q dead retry encoded st))) = bs_groups (fst st)"
  by (auto simp: nack_store_def Let_def case_prod_unfold split: sum.split)

lemma HandleNack_groups: "bs_groups (fst (snd (HandleNack clock env q st))) = bs_groups (fst st)"
  by (auto simp: HandleNack_def Let_def nack_store_groups case_prod_unfold split: sum.split)

lemmas groups_kept = HandleProduce_groups HandleFetch_groups HandleCreateTopic_groups HandleCommitOffset_groups
  HandleNack_groups HandleMetadata_step HandleFetchCommittedOffset_step

lemma group_reply_groups:
  "bs_groups (fst (snd (group_reply env body f st))) = snd (f (bs_groups (fst st)))"
  by (simp add: group_reply_def split: prod.split)

lemma group_handlers_step:
  "bs_groups (fst (snd (HandleJoinGroup clock env jq st))) = bs_groups (fst st) \<or>
    gc_step (bs_groups (fst st)) (bs_groups (fst (snd (HandleJoinGroup clock env jq st))))"
  "gc_step (bs_groups (fst st)) (bs_groups (fst (snd (HandleSyncGroup clock env sq st))))"
  "gc_step (bs_groups (fst st)) (bs_groups (fst (snd (HandleHeartbeat clock env hq st))))"
  "gc_step (bs_groups (fst st)) (bs_groups (fst (snd (HandleLeaveGroup env lq st))))"
  by (auto simp: HandleJoinGroup_def HandleSyncGroup_def HandleHeartbeat_def HandleLeaveGroup_def
      group_reply_groups intro: gc_step.intros split: sum.split list.split)

lemma Handle_groups:
  "bs_groups (fst (snd (Handle clock request st))) = bs_groups (fst st) \<or>
   gc_step (bs_groups (fst st)) (bs_groups (fst (snd (Handle clock request st))))"
  by (cases "rqe_api_key request"; cases "rqe_body request")
    (simp_all add: Handle_def wrong_body_type_def groups_kept group_handlers_step)

lemma broker_step_groups:
  "broker_step st st' \<Longrightarrow> bs_groups (fst st') = bs_groups (fst st) \<or> gc_step (bs_groups (fst st)) (bs_groups (fst st'))"
proof (induction rule: broker_step.induct)
  case (handle request st clock)
  show ?case by (rule Handle_groups)
next
  case (flusher st)
  show ?case by (cases st) (auto simp: RunAsyncFlusher_def split: flusher_state.split)
qed (auto intro: gc_step.scan)

lemma broker_groups_reachable:
  assumes "broker_step\<^sup>*\<^sup>* st st'" "gc_reachable timeout (bs_groups (fst st))"
  shows "gc_reachable timeout (bs_groups (fst st'))"
  using assms
proof (induction rule: rtranclp_induct)
  case (step st1 st2)
  then show ?case using broker_step_groups [OF step(2)] by (auto intro: gc_reachable.step)
qed

end
