(* ===== verification/CommitLog_Recovery.thy ===== *)
theory CommitLog_Recovery
  imports CommitLog_Refines
begin

text \<open>
  Opening a commit log on the files that an earlier run left behind. The files hold the
  batches of an abstract log, the last one possibly followed by a proper prefix of one
  more batch: the state after a crash in the middle of an append. \<^verbatim>\<open>Open\<close> then
  rebuilds exactly that abstract log and cuts the torn tail off, in the strict recovery
  mode as well as in the default one.
\<close>

section \<open>System calls without faults\<close>

definition disk_ready :: "CommitLogOptions \<Rightarrow> Disk \<Rightarrow> bool" where
  "disk_ready opts d \<longleftrightarrow> d_script d = [] \<and> clo_data_dir opts \<in> set (d_dirs d) \<and>
     (\<forall>n. SegmentPath opts n \<notin> set (d_dirs d) \<and> IndexPath opts n \<notin> set (d_dirs d))"

lemma butlast_paths [simp]:
  "butlast (SegmentPath opts n) = clo_data_dir opts" "butlast (IndexPath opts n) = clo_data_dir opts"
  by (simp_all add: SegmentPath_def IndexPath_def)

lemma disk_ready_dirs:
  "disk_ready opts d \<Longrightarrow> d_dirs d' = d_dirs d \<Longrightarrow> d_script d' = [] \<Longrightarrow> disk_ready opts d'"
  by (simp add: disk_ready_def)

lemma File_Open_ok:
  assumes "d_script d = []" "butlast p \<in> set (d_dirs d)"
    and "flags = ReadOnly \<Longrightarrow> d_lookup d p \<noteq> None" "flags \<noteq> ReadOnly \<Longrightarrow> p \<notin> set (d_dirs d)"
  obtains f d' where "File_Open p flags d = (Inr f, d')" "d_script d' = []"
proof -
  have "\<exists>f d'. File_Open p flags d = (Inr f, d') \<and> d_script d' = []"
    using assms by (auto simp: File_Open_def sys_open_def Let_def d_lookup_def split: option.splits)
  with that show thesis by blast
qed

lemma same_except_dirs: "same_except p d d' \<Longrightarrow> d_dirs d' = d_dirs d"
  by (simp add: same_except_def)

lemma Rewrite_ok:
  assumes "d_script d = []" "butlast (ix_path ix) \<in> set (d_dirs d)" "ix_path ix \<notin> set (d_dirs d)"
  obtains d' where "Rewrite ix d = (Inr (), d')" "d_script d' = []"
proof -
  from File_Open_ok [OF assms(1,2), of CreateRwTrunc] assms(3) obtain f d1 where
    o: "File_Open (ix_path ix) CreateRwTrunc d = (Inr f, d1)" "d_script d1 = []" by blast
  from File_Open_spec(3) [OF o(1) refl] have f: "File_is_open f" by simp
  let ?d2 = "if index_bytes (ix_entries ix) = [] then d1
    else d_write (f_path f) (overwrite (d_content d1 (f_path f)) 0 (index_bytes (ix_entries ix))) d1"
  have "File_PWrite f (index_bytes (ix_entries ix)) 0 d1 = (Inr (), ?d2)"
    using f o(2) by (simp add: File_PWrite_def WriteAll_ok)
  moreover have "d_script ?d2 = []" using o(2) by simp
  moreover from this have "File_Fsync f ?d2 = (Inr (), ?d2)" using f by (simp add: File_Fsync_def)
  ultimately show thesis
    using o that by (simp add: Rewrite_def index_bytes_def File_destroy_script)
qed

lemma Segment_Open_ok:
  assumes "disk_ready opts d" "0 \<le> base"
  obtains s d' where "Segment_Open (SegmentPath opts b) base d = (Inr s, d')" "d_script d' = []"
proof -
  from assms(1) obtain f d1 where
    o: "File_Open (SegmentPath opts b) CreateRw d = (Inr f, d1)" "d_script d1 = []"
    by (rule_tac File_Open_ok [of d "SegmentPath opts b" CreateRw]) (auto simp: disk_ready_def)
  from File_Open_spec(3) [OF o(1) refl] have f: "File_is_open f" by simp
  with o assms(2) that show thesis by (simp add: Segment_Open_def File_Size_def)
qed

section \<open>The scan of one segment\<close>

text \<open>What the scan does at the first position that holds no whole batch.\<close>

definition tail_cut ::
  "CommitLogOptions \<Rightarrow> bool \<Rightarrow> Segment \<Rightarrow> nat \<Rightarrow> byte list \<Rightarrow> Disk \<Rightarrow> bool" where
  "tail_cut opts active s pos tail d \<longleftrightarrow> tail = [] \<or>
     (\<exists>e d'. Segment_Read s pos (length tail) d = (Inl e, d) \<and>
        tail_check (clo_strict_recovery opts) active s pos (length tail) e d = (Inr (), d') \<and>
        same_disk d d' \<and> d_script d' = [])"

lemma Segment_Read_write_position [simp]:
  "Segment_Read (s\<lparr>sg_write_position := n\<rparr>) pos m d = Segment_Read s pos m d"
  by (simp add: Segment_Read_def cong: prod.case_cong sum.case_cong if_cong)

lemma recover_loop_scan:
  assumes "d_script d = []" "seg_open s"
    and "d_content d (sg_path s) = seg_bytes base (As @ Cs) @ tail"
    and "length (seg_bytes base (As @ Cs) @ tail) = file_size" "file_size \<le> u64_max"
    and "list_all batch_ok (As @ Cs)" "0 \<le> base" "seg_next base (As @ Cs) \<le> i64_max"
    and "index_ok ix" "ix_base_offset ix = base"
    and "\<And>e. e \<in> set (ix_entries ix) \<Longrightarrow> entry_at base As e"
    and "tail_cut opts active s (length (seg_bytes base (As @ Cs))) tail d"
  shows "\<exists>ix' d'.
    recover_loop opts active s file_size (length (seg_bytes base As)) (seg_next base As) ix d =
      (Inr (length (seg_bytes base (As @ Cs)), seg_next base (As @ Cs)), (ix', d')) \<and>
    same_disk d d' \<and> d_script d' = [] \<and> index_ok ix' \<and> ix_base_offset ix' = base \<and>
    ix_path ix' = ix_path ix \<and> (\<forall>e \<in> set (ix_entries ix'). entry_at base (As @ Cs) e)"
  using assms
proof (induction Cs arbitrary: As ix)
  case Nil
  note unf = recover_loop.simps [of opts active s file_size "length (seg_bytes base As)"
      "seg_next base As" ix d]
  show ?case
  proof (cases "tail = []")
    case True
    with Nil.prems(1,4,9,10,11) show ?thesis by (subst unf) simp
  next
    case False
    with Nil.prems(12) obtain e d' where
      "Segment_Read s (length (seg_bytes base As)) (length tail) d = (Inl e, d)"
      "tail_check (clo_strict_recovery opts) active s (length (seg_bytes base As)) (length tail) e d =
         (Inr (), d')" "same_disk d d'" "d_script d' = []"
      by (auto simp: tail_cut_def)
    with False Nil.prems(4,5,9,10,11) show ?thesis by (subst unf) auto
  qed
next
  case (Cons rs Cs)
  let ?b = "seg_next base As" and ?pos = "length (seg_bytes base As)"
  have ok: "list_all batch_ok As" "batch_ok rs" using Cons.prems(6) by simp_all
  have b: "0 \<le> ?b" "is_i64 ?b"
    using Cons.prems(7,8) seg_next_ge [of base As] seg_next_ge [of "?b + int (length rs)" Cs]
    by (simp_all add: is_i64_def)
  let ?rest = "seg_bytes (?b + int (length rs)) Cs @ tail"
  have content: "d_content d (sg_path s) = seg_bytes base As @ batch_bytes ?b rs @ ?rest"
    using Cons.prems(3) by simp
  have fs: "file_size = ?pos + length (batch_bytes ?b rs) + length ?rest"
    using Cons.prems(4) by simp
  have "Segment_Read s ?pos (file_size - ?pos) d = (Inr (mk_batch ?b rs), d)"
  proof -
    have "seg_holds d (s\<lparr>sg_write_position := file_size\<rparr>) (seg_bytes base As @ batch_bytes ?b rs @ ?rest)"
      using content fs Cons.prems(2) by (simp add: seg_holds_def seg_open_def)
    from Segment_Read_ok [OF Cons.prems(1) this b, of "file_size - ?pos"] ok(2) fs
    show ?thesis by (simp add: batch_ok_def)
  qed
  moreover obtain ix' where ma: "MaybeAppend ?b ?pos ix = (Inr (), ix')" "index_ok ix'"
    "ix_base_offset ix' = base" "ix_path ix' = ix_path ix"
    "\<And>e. e \<in> set (ix_entries ix') \<Longrightarrow> entry_at base (As @ [rs]) e"
    using MaybeAppend_next [OF Cons.prems(9,10,11) ok(1), of rs] by metis
  moreover have "rb_base_offset (mk_batch ?b rs) = ?b"
    "sint (rb_record_count (mk_batch ?b rs)) = int (length rs)"
    using ok(2) by (simp_all add: mk_batch_def batch_ok_def)
  moreover have "?pos < file_size" "\<not> u64_max < file_size - ?pos"
    using fs Cons.prems(5) by (simp_all add: kRecordBatchHeaderBytes_def)
  ultimately have "recover_loop opts active s file_size ?pos ?b ix d =
      recover_loop opts active s file_size (length (seg_bytes base (As @ [rs])))
        (seg_next base (As @ [rs])) ix' d"
    by (subst recover_loop.simps)
      (simp add: unat_batch_bytes_mk_batch [OF ok(2)] del: length_batch_bytes)
  with Cons.IH [of "As @ [rs]" ix'] Cons.prems ma show ?case by simp
qed

text \<open>The tail a crash leaves in the active segment: a proper prefix of the next batch.\<close>

definition torn_tail :: "int \<Rightarrow> byte list \<Rightarrow> bool" where
  "torn_tail next tail \<longleftrightarrow>
     (\<exists>rs k. batch_fits rs \<and> k < length (batch_bytes next rs) \<and> tail = take k (batch_bytes next rs))"

lemma torn_tail_Nil [simp]: "batch_fits rs \<Longrightarrow> torn_tail next []"
  unfolding torn_tail_def by (intro exI [of _ rs] exI [of _ 0]) (simp add: kRecordBatchHeaderBytes_def)

lemma tail_cut_torn:
  assumes "d_script d = []" "seg_open s" "d_content d (sg_path s) = data @ tail"
    and "torn_tail next tail" "butlast (sg_path s) \<in> set (d_dirs d)" "d_lookup d (sg_path s) \<noteq> None"
  shows "tail_cut opts True s (length data) tail d"
proof (cases "tail = []")
  case True
  then show ?thesis by (simp add: tail_cut_def)
next
  case False
  from assms(4) obtain rs k where rs: "batch_fits rs" "k < length (batch_bytes next rs)"
    "tail = take k (batch_bytes next rs)" by (auto simp: torn_tail_def)
  then have k: "length tail = k" by simp
  from Segment_Read_torn [OF assms(1,2) assms(3) [unfolded rs(3)] rs(1,2)] obtain e where
    e: "Segment_Read s (length data) k d = (Inl e, d)" "st_code e \<noteq> kIoError" by blast
  have "\<exists>d'. tail_check (clo_strict_recovery opts) True s (length data) k e d = (Inr (), d') \<and>
      same_disk d d' \<and> d_script d' = []"
  proof (cases "clo_strict_recovery opts \<and> kRecordBatchHeaderBytes \<le> k")
    case False
    with e(2) assms(1) show ?thesis by (auto simp: tail_check_def)
  next
    case True
    from File_Open_ok [OF assms(1,5), of ReadOnly] assms(6) obtain f d1 where
      o: "File_Open (sg_path s) ReadOnly d = (Inr f, d1)" "d_script d1 = []" by blast
    from File_Open_spec [OF o(1)] have f: "f_path f = sg_path s" "File_is_open f"
      "d_content d1 (sg_path s) = data @ tail" and "same_except (sg_path s) d d1"
      using assms(3) by auto
    have same: "same_disk d d1"
      using o(1) assms(1) by (auto simp: File_Open_def sys_open_def same_disk_def Let_def split: if_splits option.splits)
    let ?h = "take kRecordBatchHeaderBytes tail"
    have rd: "File_PRead f kRecordBatchHeaderBytes (length data) d1 = (Inr ?h, d1)"
      using File_PRead_ok [OF o(2) f(2)] by (simp add: f)
    have hl: "length ?h = kRecordBatchHeaderBytes" using True k by simp
    have "PeekRecordBatchBytes ?h = PeekRecordBatchBytes (batch_bytes next rs)"
      using True rs(3) PeekRecordBatchBytes_take [of k "batch_bytes next rs"]
        PeekRecordBatchBytes_take [of kRecordBatchHeaderBytes tail] by simp
    then have pk: "PeekRecordBatchBytes ?h =
        Inr (word_of_nat (kRecordBatchHeaderBytes + length (payload_bytes rs)))"
      using PeekRecordBatchBytes_batch_bytes [OF rs(1), of "next" "[]"] by simp
    have "\<not> unat (word_of_nat (kRecordBatchHeaderBytes + length (payload_bytes rs)) :: u64) \<le> k"
      using rs(2) unat_batch_length [OF rs(1)] by (simp del: of_nat_add unat_of_nat_u64)
    with True e(2) o rd hl pk same show ?thesis
      by (auto simp: tail_check_def File_destroy_script simp del: of_nat_add unat_of_nat_u64 length_take
          intro: same_disk_trans File_destroy_same)
  qed
  with e(1) k show ?thesis by (auto simp: tail_cut_def)
qed

lemma RecoverSegment_spec:
  assumes rdy: "disk_ready opts d" and op: "seg_open s" "sg_path s = SegmentPath opts base"
      "sg_base_offset s = base" "sg_write_position s = length (seg_bytes base Bs @ tail)"
    and c: "d_content d (SegmentPath opts base) = seg_bytes base Bs @ tail"
    and ok: "length (seg_bytes base Bs @ tail) \<le> nat i64_max" "list_all batch_ok Bs" "0 \<le> base"
      "seg_next base Bs \<le> i64_max"
    and cut: "tail_cut opts active s (length (seg_bytes base Bs)) tail d"
  shows "\<exists>s' ix' d'.
    RecoverSegment opts active (s, mk_OffsetIndex (IndexPath opts base) base iv, d) =
      (Inr (seg_next base Bs), (s', ix', d')) \<and>
    seg_rep opts d' (s', ix') (base, Bs) \<and> disk_ready opts d' \<and>
    d_content d' (SegmentPath opts base) = seg_bytes base Bs \<and>
    (\<forall>p. p \<noteq> SegmentPath opts base \<and> p \<noteq> IndexPath opts base \<longrightarrow> d_lookup d' p = d_lookup d p)"
proof -
  let ?p = "SegmentPath opts base" and ?q = "IndexPath opts base"
  let ?data = "seg_bytes base Bs" and ?n = "sg_write_position s"
  let ?ix = "mk_OffsetIndex ?q base iv"
  have script: "d_script d = []" using rdy by (simp add: disk_ready_def)
  have ix0: "index_ok (OffsetIndex_Clear ?ix)" "ix_base_offset (OffsetIndex_Clear ?ix) = base"
    "\<And>e. e \<in> set (ix_entries (OffsetIndex_Clear ?ix)) \<Longrightarrow> entry_at base [] e"
    "ix_path (OffsetIndex_Clear ?ix) = ?q"
    using ok(3) by (simp_all add: OffsetIndex_Clear_def mk_OffsetIndex_def index_ok_def)
  have "?n \<le> u64_max" using ok(1) op(4) by simp
  from recover_loop_scan [of d s base "[]" Bs tail ?n "OffsetIndex_Clear ?ix" opts active]
    script op c this ok(2-4) ix0 cut
  obtain ix1 d1 where l: "recover_loop opts active s ?n 0 base (OffsetIndex_Clear ?ix) d =
      (Inr (length ?data, seg_next base Bs), (ix1, d1))"
    and d1: "same_disk d d1" "d_script d1 = []" and ix1: "index_ok ix1" "ix_base_offset ix1 = base"
      "ix_path ix1 = ?q" "\<forall>e \<in> set (ix_entries ix1). entry_at base Bs e"
    by auto
  define d2 where "d2 = (if tail = [] then d1 else d_write ?p ?data d1)"
  let ?s2 = "s\<lparr>sg_write_position := length ?data\<rparr>"
  have cut2: "(if length ?data \<noteq> ?n then Segment_Truncate (length ?data) (s, d1)
      else (Inr (), (s, d1))) = (Inr (), (?s2, d2))"
  proof (cases "tail = []")
    case True
    with op(4) show ?thesis by (simp add: d2_def)
  next
    case False
    have "set_size (length ?data) (?data @ tail) = ?data" by (simp add: set_size_def)
    moreover have "int (length ?data) \<le> i64_max" using ok(1) by simp
    ultimately show ?thesis
      using False op c d1 same_disk_content [OF d1(1)]
      by (simp add: Segment_Truncate_def File_Truncate_def seg_open_def d2_def)
  qed
  have d2: "d_script d2 = []" "d_dirs d2 = d_dirs d" "d_content d2 ?p = ?data"
    "\<forall>q. q \<noteq> ?p \<longrightarrow> d_lookup d2 q = d_lookup d q"
    using d1 c same_disk_content [OF d1(1)] by (auto simp: d2_def same_disk_def)
  from Rewrite_ok [of d2 ix1] rdy d2(1,2) ix1(3) obtain d3 where
    rw: "Rewrite ix1 d2 = (Inr (), d3)" "d_script d3 = []" by (auto simp: disk_ready_def)
  note ex = Rewrite_spec(1) [OF rw(1), unfolded ix1(3)]
  have rdy3: "disk_ready opts d3"
    using rdy d2(2) rw(2) same_except_dirs [OF ex] by (auto intro: disk_ready_dirs)
  have c3: "d_content d3 ?p = ?data" using same_except_content [OF ex, of ?p] d2(3) by simp
  have h: "seg_holds d3 ?s2 ?data" using op(1,2) c3 by (simp add: seg_holds_def seg_open_def)
  have rep: "seg_rep opts d3 (?s2, ix1) (base, Bs)"
    using h op ok(2) ix1 by (simp add: seg_rep_def)
  have "RecoverSegment opts active (s, ?ix, d) = (Inr (seg_next base Bs), (?s2, ix1, d3))"
    using l cut2 rw(1) op(3) by (simp add: RecoverSegment_def)
  moreover have "\<forall>q. q \<noteq> ?p \<and> q \<noteq> ?q \<longrightarrow> d_lookup d3 q = d_lookup d q"
    using ex d2(4) by (simp add: same_except_def)
  ultimately show ?thesis using rep rdy3 c3 by blast
qed

section \<open>The scan of all segments\<close>

text \<open>The files of an abstract log: each segment's batches, then, in the last segment only,
  the torn tail.\<close>

definition seg_file_ok ::
  "CommitLogOptions \<Rightarrow> Disk \<Rightarrow> int \<Rightarrow> byte list \<Rightarrow> int \<times> Record list list \<Rightarrow> bool" where
  "seg_file_ok opts d active tail x \<longleftrightarrow> (let (base, Bs) = x in
     d_content d (SegmentPath opts base) =
       seg_bytes base Bs @ (if base = active then tail else []) \<and>
     length (d_content d (SegmentPath opts base)) \<le> nat i64_max \<and>
     list_all batch_ok Bs \<and> 0 \<le> base \<and> seg_next base Bs \<le> i64_max \<and>
     (base = active \<longrightarrow> torn_tail (seg_next base Bs) tail))"

lemma seg_file_ok_base: "seg_file_ok opts d act tail x \<Longrightarrow> 0 \<le> fst x \<and> is_i64 (fst x)"
  using seg_next_ge [of "fst x" "snd x"]
  by (auto simp: seg_file_ok_def is_i64_def split: prod.splits)

lemma seg_file_ok_content:
  "seg_file_ok opts d act tail x \<Longrightarrow>
   d_content d' (SegmentPath opts (fst x)) = d_content d (SegmentPath opts (fst x)) \<Longrightarrow>
   seg_file_ok opts d' act tail x"
  by (auto simp: seg_file_ok_def split: prod.splits)

abbreviation log_name :: "CommitLogOptions \<Rightarrow> int \<times> Record list list \<Rightarrow> int \<times> path" where
  "log_name opts x \<equiv> (fst x, SegmentPath opts (fst x))"

abbreviation seg_end :: "int \<times> Record list list \<Rightarrow> int" where
  "seg_end x \<equiv> seg_next (fst x) (snd x)"

text \<open>One round of the loop of \<^verbatim>\<open>LoadOrCreateSegments\<close>.\<close>

lemma load_step:
  assumes rdy: "disk_ready opts d" and ok: "seg_file_ok opts d act tail x"
    and act: "0 \<le> act" "is_i64 act" and o: "cl_options cl = opts"
  shows "\<exists>s ix d'.
    load_segments (SegmentPath opts act) (log_name opts x # logs) (cl, d) =
      load_segments (SegmentPath opts act) logs
        (cl\<lparr>cl_next_offset := max (cl_next_offset cl) (seg_end x),
            cl_segments := cl_segments cl @ [s], cl_indexes := cl_indexes cl @ [ix]\<rparr>, d') \<and>
    seg_rep opts d' (s, ix) x \<and> disk_ready opts d' \<and>
    (\<forall>n. 0 \<le> n \<and> is_i64 n \<and> n \<noteq> fst x \<longrightarrow>
       d_content d' (SegmentPath opts n) = d_content d (SegmentPath opts n))"
proof -
  obtain base Bs where x: "x = (base, Bs)" by (cases x)
  let ?p = "SegmentPath opts base" and ?t = "if base = act then tail else []"
  from ok x have f: "d_content d ?p = seg_bytes base Bs @ ?t" "length (seg_bytes base Bs @ ?t) \<le> nat i64_max"
    "list_all batch_ok Bs" "0 \<le> base" "seg_next base Bs \<le> i64_max"
    "base = act \<longrightarrow> torn_tail (seg_next base Bs) tail"
    by (auto simp: seg_file_ok_def)
  have base: "is_i64 base" using seg_file_ok_base [OF ok] x by simp
  from Segment_Open_ok [OF rdy f(4)] obtain s d1 where
    op: "Segment_Open ?p base d = (Inr s, d1)" "d_script d1 = []" by blast
  from Segment_Open_spec [OF op(1)] have s: "sg_path s = ?p" "sg_base_offset s = base"
    "seg_holds d1 s (seg_bytes base Bs @ ?t)" "d_lookup d1 ?p \<noteq> None"
    "d_content d1 ?p = seg_bytes base Bs @ ?t" and ex: "same_except ?p d d1"
    using f(1) by auto
  have rdy1: "disk_ready opts d1"
    using rdy op(2) same_except_dirs [OF ex] by (auto intro: disk_ready_dirs)
  have so: "seg_open s" "sg_write_position s = length (seg_bytes base Bs @ ?t)"
    using s(3) by (simp_all add: seg_holds_def)
  have last: "(?p = SegmentPath opts act) = (base = act)"
    using SegmentPath_inj [of opts base act] f(4) base act by blast
  have cut: "tail_cut opts (base = act) s (length (seg_bytes base Bs)) ?t d1"
  proof (cases "base = act")
    case True
    with f(6) s(1,4,5) rdy1 have "tail_cut opts True s (length (seg_bytes base Bs)) tail d1"
      by (intro tail_cut_torn [OF op(2) so(1), of _ _ "seg_next base Bs"]) (auto simp: disk_ready_def)
    with True show ?thesis by simp
  next
    case False
    then show ?thesis by (simp add: tail_cut_def)
  qed
  from RecoverSegment_spec [OF rdy1 so(1) s(1,2) so(2) s(5) f(2-5) cut] obtain s' ix' d2 where
    rec: "RecoverSegment opts (base = act)
        (s, mk_OffsetIndex (IndexPath opts base) base (clo_index_interval_bytes opts), d1) =
      (Inr (seg_next base Bs), (s', ix', d2))"
    and rep: "seg_rep opts d2 (s', ix') (base, Bs)" "disk_ready opts d2"
    and frame: "\<forall>p. p \<noteq> ?p \<and> p \<noteq> IndexPath opts base \<longrightarrow> d_lookup d2 p = d_lookup d1 p" by blast
  have "d_content d2 (SegmentPath opts n) = d_content d (SegmentPath opts n)"
    if "0 \<le> n \<and> is_i64 n \<and> n \<noteq> base" for n
  proof -
    have ne: "SegmentPath opts n \<noteq> ?p" using SegmentPath_inj [of opts n base] that f(4) base by blast
    then have "d_lookup d2 (SegmentPath opts n) = d_lookup d1 (SegmentPath opts n)"
      using frame by simp
    with same_except_content [OF ex ne] show ?thesis by (simp add: d_content_lookup)
  qed
  with op(1) rec rep x o last show ?thesis
    by (intro exI [of _ s'] exI [of _ ix'] exI [of _ d2]) (simp add: Let_def)
qed

lemma load_segments_spec:
  assumes "disk_ready opts d" "cl_options cl = opts"
    and "segs_rep opts d (cl_segments cl) (cl_indexes cl) T"
    and "distinct (map fst (T @ U))" "\<forall>x \<in> set T. 0 \<le> fst x \<and> is_i64 (fst x)"
    and "\<forall>x \<in> set U. seg_file_ok opts d act tail x" "0 \<le> act" "is_i64 act"
  shows "\<exists>cl' d'.
    load_segments (SegmentPath opts act) (map (log_name opts) U) (cl, d) = (Inr (), (cl', d')) \<and>
    segs_rep opts d' (cl_segments cl') (cl_indexes cl') (T @ U) \<and> disk_ready opts d' \<and>
    cl_options cl' = opts \<and>
    cl_next_offset cl' = foldl (\<lambda>m x. max m (seg_end x)) (cl_next_offset cl) U \<and>
    (\<forall>n. 0 \<le> n \<and> is_i64 n \<and> n \<notin> fst ` set U \<longrightarrow>
       d_content d' (SegmentPath opts n) = d_content d (SegmentPath opts n))"
  using assms
proof (induction U arbitrary: cl d T)
  case Nil
  then show ?case by auto
next
  case (Cons x U)
  have ok: "seg_file_ok opts d act tail x" using Cons.prems(6) by simp
  from load_step [OF Cons.prems(1) ok Cons.prems(7,8,2), of "map (log_name opts) U"]
  obtain s ix d1 where
    st: "load_segments (SegmentPath opts act) (map (log_name opts) (x # U)) (cl, d) =
      load_segments (SegmentPath opts act) (map (log_name opts) U)
        (cl\<lparr>cl_next_offset := max (cl_next_offset cl) (seg_end x),
            cl_segments := cl_segments cl @ [s], cl_indexes := cl_indexes cl @ [ix]\<rparr>, d1)"
    and new: "seg_rep opts d1 (s, ix) x" "disk_ready opts d1"
    and frame: "\<And>n. 0 \<le> n \<Longrightarrow> is_i64 n \<Longrightarrow> n \<noteq> fst x \<Longrightarrow>
       d_content d1 (SegmentPath opts n) = d_content d (SegmentPath opts n)"
    by auto
  have xs: "\<And>y. y \<in> set T \<union> set U \<Longrightarrow> fst y \<noteq> fst x" using Cons.prems(4) by (force simp: image_iff)
  have T1: "segs_rep opts d1 (cl_segments cl) (cl_indexes cl) T"
    using xs Cons.prems(5) by (intro segs_rep_content [OF Cons.prems(3)] frame) auto
  have U1: "\<forall>y \<in> set U. seg_file_ok opts d1 act tail y"
  proof
    fix y assume y: "y \<in> set U"
    then have oky: "seg_file_ok opts d act tail y" using Cons.prems(6) by simp
    show "seg_file_ok opts d1 act tail y"
      using xs [of y] y seg_file_ok_base [OF oky]
      by (intro seg_file_ok_content [OF oky] frame) auto
  qed
  from Cons.IH [OF new(2), of "cl\<lparr>cl_next_offset := max (cl_next_offset cl) (seg_end x),
            cl_segments := cl_segments cl @ [s], cl_indexes := cl_indexes cl @ [ix]\<rparr>" "T @ [x]"]
    T1 U1 new Cons.prems(2,4,5,7,8) seg_file_ok_base [OF ok]
  obtain cl' d' where
    "load_segments (SegmentPath opts act) (map (log_name opts) (x # U)) (cl, d) = (Inr (), (cl', d'))"
    "segs_rep opts d' (cl_segments cl') (cl_indexes cl') (T @ x # U)" "disk_ready opts d'"
    "cl_options cl' = opts"
    "cl_next_offset cl' = foldl (\<lambda>m x. max m (seg_end x)) (cl_next_offset cl) (x # U)"
    and fr: "\<And>n. 0 \<le> n \<Longrightarrow> is_i64 n \<Longrightarrow> n \<notin> fst ` set U \<Longrightarrow>
       d_content d' (SegmentPath opts n) = d_content d1 (SegmentPath opts n)"
    unfolding st by (auto simp: segs_rep_snoc)
  moreover have "d_content d' (SegmentPath opts n) = d_content d (SegmentPath opts n)"
    if "0 \<le> n \<and> is_i64 n \<and> n \<notin> fst ` set (x # U)" for n
    using that fr [of n] frame [of n] by simp
  ultimately show ?case by blast
qed

lemma foldl_max_chain:
  "chain b S e \<Longrightarrow> m \<le> b \<Longrightarrow> S \<noteq> [] \<Longrightarrow> foldl (\<lambda>m x. max m (seg_end x)) m S = e"
proof (induction b S e arbitrary: m rule: chain.induct)
  case (2 b base Bs S e)
  then show ?case
    using seg_next_ge [of base Bs] by (cases "S = []") (auto simp: max_def)
qed simp

section \<open>Opening the log\<close>

definition is_log_file :: "CommitLogOptions \<Rightarrow> path \<Rightarrow> bool" where
  "is_log_file opts p \<longleftrightarrow> p \<noteq> [] \<and> butlast p = clo_data_dir opts \<and>
     path_extension (last p) = ''.log'' \<and> ParseBaseOffset p \<noteq> None"

lemma is_log_file_SegmentPath: "0 \<le> n \<Longrightarrow> is_i64 n \<Longrightarrow> is_log_file opts (SegmentPath opts n)"
  by (simp add: is_log_file_def ParseBaseOffset_SegmentPath extension_SegmentPath)
    (simp add: SegmentPath_def)

lemma list_logs_eq:
  assumes dist: "distinct (map fst (d_files d))"
    and files: "{p \<in> fst ` set (d_files d). is_log_file opts p} = SegmentPath opts ` fst ` set S"
    and bases: "\<forall>x \<in> set S. 0 \<le> fst x \<and> is_i64 (fst x)" and "sorted_wrt (<) (map fst S)"
  shows "list_logs opts d = map (log_name opts) S"
proof -
  let ?f = "\<lambda>p. if is_log_file opts p then map_option (\<lambda>b. (b, p)) (ParseBaseOffset p) else None"
  let ?L = "List.map_filter ?f (map fst (d_files d))"
  have eq: "list_logs opts d = sort_key fst ?L"
    unfolding list_logs_def
    by (intro arg_cong [where f = "\<lambda>f. sort_key fst (List.map_filter f (map fst (d_files d)))"])
      (auto simp: is_log_file_def fun_eq_iff)
  have "?L = map (\<lambda>p. (the (ParseBaseOffset p), p)) (filter (is_log_file opts) (map fst (d_files d)))"
    unfolding List.map_filter_def
    by (intro map_cong filter_cong) (auto simp: is_log_file_def)
  moreover have "set (filter (is_log_file opts) (map fst (d_files d))) = SegmentPath opts ` fst ` set S"
    using files by auto
  ultimately have L: "set ?L = log_name opts ` set S" "distinct ?L"
    using bases dist
    by (force simp: ParseBaseOffset_SegmentPath image_image intro!: image_cong,
        simp add: distinct_map inj_on_def)
  have inj: "inj_on fst (set ?L)" unfolding L(1) by (auto simp: inj_on_def)
  have srt: "sorted (map fst S)" "distinct (map fst S)"
    using assms(4) strict_sorted_iff by blast+
  show ?thesis
    unfolding eq
  proof (rule map_sorted_distinct_set_unique [of fst])
    show "inj_on fst (set (sort_key fst ?L) \<union> set (map (log_name opts) S))"
      using inj L(1) by simp
    show "sorted (map fst (sort_key fst ?L))" "distinct (map fst (sort_key fst ?L))"
      using inj L(2) by (simp_all add: distinct_map)
    show "sorted (map fst (map (log_name opts) S))" "distinct (map fst (map (log_name opts) S))"
      using srt by (simp_all add: comp_def)
    show "set (sort_key fst ?L) = set (map (log_name opts) S)" using L(1) by simp
  qed
qed

lemma chain_sorted:
  assumes "chain b S e" "\<forall>x \<in> set S. list_all batch_ok (snd x)"
  shows "sorted_wrt (<) (map fst S)"
  using assms
proof (induction b S e rule: chain.induct)
  case (2 b base Bs S e)
  have "base < fst x" if "x \<in> set S" for x
    using chain_bases [of "seg_next base Bs" S e x] 2 that seg_next_less [of Bs base] by force
  with 2 show ?case by auto
qed simp

lemma create_directories_ok:
  assumes "d_script d = []" "\<forall>q \<in> set (path_prefixes p). d_lookup d q = None"
  shows "create_directories p d =
    (Inr (), d\<lparr>d_dirs := d_dirs d @ filter (\<lambda>q. q \<notin> set (d_dirs d)) (path_prefixes p)\<rparr>)"
  using assms by (auto simp: create_directories_def d_lookup_def map_of_eq_None_iff)

text \<open>The state of the disk before the open: no faults ahead, no file where the data directory
  or one of its parents should be and no directory where a segment or an index file should
  be.\<close>

definition disk_clean :: "CommitLogOptions \<Rightarrow> Disk \<Rightarrow> bool" where
  "disk_clean opts d \<longleftrightarrow> d_script d = [] \<and> distinct (map fst (d_files d)) \<and>
     (\<forall>q \<in> set (path_prefixes (clo_data_dir opts)). d_lookup d q = None) \<and>
     (\<forall>n. SegmentPath opts n \<notin> set (d_dirs d) \<and> IndexPath opts n \<notin> set (d_dirs d))"

lemma create_directories_clean:
  assumes "disk_clean opts d" "clo_data_dir opts \<noteq> []"
  obtains d' where "create_directories (clo_data_dir opts) d = (Inr (), d')" "disk_ready opts d'"
    "d_files d' = d_files d"
proof -
  let ?dir = "clo_data_dir opts"
  let ?new = "filter (\<lambda>q. q \<notin> set (d_dirs d)) (path_prefixes ?dir)"
  let ?d = "d\<lparr>d_dirs := d_dirs d @ ?new\<rparr>"
  have len: "q \<in> set (path_prefixes ?dir) \<Longrightarrow> length q \<le> length ?dir" for q
    by (auto simp: path_prefixes_def)
  have "length (SegmentPath opts n) = Suc (length ?dir)" "length (IndexPath opts n) = Suc (length ?dir)" for n
    by (simp_all add: SegmentPath_def IndexPath_def)
  then have "SegmentPath opts n \<notin> set (path_prefixes ?dir)" "IndexPath opts n \<notin> set (path_prefixes ?dir)" for n
    using len by (metis not_less_eq_eq order_refl)+
  moreover have "?dir \<in> set (path_prefixes ?dir)"
    using assms(2) by (auto simp: path_prefixes_def Suc_le_eq intro: image_eqI [of _ _ "length ?dir"])
  ultimately have "disk_ready opts ?d" using assms(1) by (auto simp: disk_ready_def disk_clean_def)
  moreover have "create_directories ?dir d = (Inr (), ?d)"
    using assms(1) by (intro create_directories_ok) (auto simp: disk_clean_def)
  ultimately show thesis using that by simp
qed

lemma paths_interval [simp]:
  "SegmentPath (opts\<lparr>clo_index_interval_bytes := n\<rparr>) = SegmentPath opts"
  "IndexPath (opts\<lparr>clo_index_interval_bytes := n\<rparr>) = IndexPath opts"
  by (simp_all add: SegmentPath_def IndexPath_def fun_eq_iff)

lemma opts_interval [simp]:
  "disk_clean (opts\<lparr>clo_index_interval_bytes := n\<rparr>) = disk_clean opts"
  "seg_file_ok (opts\<lparr>clo_index_interval_bytes := n\<rparr>) = seg_file_ok opts"
  "is_log_file (opts\<lparr>clo_index_interval_bytes := n\<rparr>) = is_log_file opts"
  by (simp_all add: disk_clean_def seg_file_ok_def is_log_file_def fun_eq_iff)

lemma LoadOrCreateSegments_spec:
  assumes rdy: "disk_ready opts d" and dist: "distinct (map fst (d_files d))"
    and files: "{p \<in> fst ` set (d_files d). is_log_file opts p} = SegmentPath opts ` fst ` set S"
    and S: "S \<noteq> []" "0 \<le> first" "chain first S next"
    and ok: "\<forall>x \<in> set S. seg_file_ok opts d (fst (last S)) tail x"
  shows "\<exists>cl d'. LoadOrCreateSegments (mk_CommitLog opts, d) = (Inr (), (cl, d')) \<and>
    log_rep (cl\<lparr>cl_closed := False\<rparr>, d') first S \<and> cl_next_offset cl = next"
proof -
  let ?act = "fst (last S)"
  have bases: "\<forall>x \<in> set S. 0 \<le> fst x \<and> is_i64 (fst x)" using ok seg_file_ok_base by blast
  have act: "0 \<le> ?act" "is_i64 ?act" using bases S(1) by auto
  have bok: "\<forall>x \<in> set S. list_all batch_ok (snd x)" using ok by (auto simp: seg_file_ok_def)
  note srt = chain_sorted [OF S(3) bok]
  have logs: "list_logs opts d = map (log_name opts) S"
    by (rule list_logs_eq [OF dist files bases srt])
  have "distinct (map fst S)" using srt strict_sorted_iff by blast
  then have dst: "distinct (map fst ([] @ S))" by simp
  have mk: "cl_options (mk_CommitLog opts) = opts" "cl_next_offset (mk_CommitLog opts) = 0"
    "segs_rep opts d (cl_segments (mk_CommitLog opts)) (cl_indexes (mk_CommitLog opts)) []"
    by (simp_all add: mk_CommitLog_def)
  have "\<forall>x \<in> set []. 0 \<le> fst x \<and> is_i64 (fst x)" by simp
  note spec = load_segments_spec [OF rdy mk(1,3) dst this ok act, unfolded append_Nil mk(2)]
  then obtain cl d' where ld:
    "load_segments (SegmentPath opts ?act) (map (log_name opts) S) (mk_CommitLog opts, d) =
       (Inr (), (cl, d'))"
    and cl: "segs_rep opts d' (cl_segments cl) (cl_indexes cl) S" "disk_ready opts d'"
      "cl_options cl = opts" "cl_next_offset cl = foldl (\<lambda>m x. max m (seg_end x)) 0 S"
    and frame: "\<forall>n. 0 \<le> n \<and> is_i64 n \<and> n \<notin> fst ` set S \<longrightarrow>
      d_content d' (SegmentPath opts n) = d_content d (SegmentPath opts n)"
    by (elim exE conjE)
  have nxt: "cl_next_offset cl = next" using cl(4) foldl_max_chain [OF S(3,2,1)] by simp
  obtain T base Bs where T: "S = T @ [(base, Bs)]" using S(1) by (cases S rule: rev_cases) auto
  have last: "next = seg_next base Bs" "next \<le> i64_max" "first \<le> next"
    using S(3) T ok chain_mono [OF S(3)] by (auto simp: chain_snoc seg_file_ok_def)
  have "no_later_files opts d' ?act next"
    unfolding no_later_files_def
  proof (intro allI impI)
    fix n assume n: "next \<le> n \<and> n \<le> i64_max \<and> n \<noteq> ?act"
    with S(2) last(3) have nn: "0 \<le> n" "is_i64 n" by (simp_all add: is_i64_def)
    have new: "n \<notin> fst ` set S"
    proof
      assume "n \<in> fst ` set S"
      then obtain x where x: "x \<in> set S" "n = fst x" by blast
      with n T have "x \<in> set T" by auto
      then have "fst x < base" using srt T by (auto simp: sorted_wrt_append)
      moreover have "base \<le> next" using last(1) seg_next_ge by simp
      ultimately show False using n x by simp
    qed
    have "SegmentPath opts n \<notin> fst ` set (d_files d)"
    proof
      assume "SegmentPath opts n \<in> fst ` set (d_files d)"
      with is_log_file_SegmentPath [OF nn, of opts]
      have "SegmentPath opts n \<in> {p \<in> fst ` set (d_files d). is_log_file opts p}" by simp
      then obtain x where x: "x \<in> set S" "SegmentPath opts n = SegmentPath opts (fst x)"
        unfolding files by blast
      with bases nn have "n = fst x" by (intro SegmentPath_inj) auto
      with x(1) new show False by simp
    qed
    then have "map_of (d_files d) (SegmentPath opts n) = None" by (simp add: map_of_eq_None_iff)
    then have "d_content d (SegmentPath opts n) = []" by (simp add: d_content_def)
    with frame nn new show "d_content d' (SegmentPath opts n) = []" by simp
  qed
  with S cl nxt last(2) have "log_rep (cl\<lparr>cl_closed := False\<rparr>, d') first S"
    by (simp add: log_rep_def)
  moreover have "LoadOrCreateSegments (mk_CommitLog opts, d) = (Inr (), (cl, d'))"
  proof -
    have "cl_segments cl \<noteq> []" using segs_rep_lengths [OF cl(1)] S(1) by auto
    moreover have "snd (last (map (log_name opts) S)) = SegmentPath opts ?act"
      using S(1) by (simp add: last_map)
    ultimately show ?thesis
      using S(1) logs ld by (simp add: LoadOrCreateSegments_def mk_CommitLog_def)
  qed
  ultimately show ?thesis using nxt by blast
qed

lemma CommitLog_Open_recovers:
  assumes opts: "clo_data_dir opts \<noteq> []" "kRecordBatchHeaderBytes \<le> clo_segment_bytes opts"
    and d: "disk_clean opts d"
      "{p \<in> fst ` set (d_files d). is_log_file opts p} = SegmentPath opts ` fst ` set S"
    and S: "S \<noteq> []" "0 \<le> first" "chain first S next"
      "\<forall>x \<in> set S. seg_file_ok opts d (fst (last S)) tail x"
  shows "\<exists>cl d'. CommitLog_Open opts d = (Inr cl, d') \<and> log_rep (cl, d') first S \<and>
    cl_next_offset cl = next"
proof -
  define o' where "o' = (if clo_index_interval_bytes opts = 0
    then opts\<lparr>clo_index_interval_bytes := 1\<rparr> else opts)"
  have o': "clo_data_dir o' = clo_data_dir opts" "SegmentPath o' = SegmentPath opts"
    "disk_clean o' = disk_clean opts" "seg_file_ok o' = seg_file_ok opts"
    "is_log_file o' = is_log_file opts" by (simp_all add: o'_def)
  from create_directories_clean [of o' d] d(1) opts(1) o' obtain d1 where
    cd: "create_directories (clo_data_dir o') d = (Inr (), d1)" "disk_ready o' d1"
    "d_files d1 = d_files d" by auto
  have "\<forall>x \<in> set S. seg_file_ok o' d1 (fst (last S)) tail x"
    using S(4) o'(4) cd(3) by (auto simp: d_content_def intro: seg_file_ok_content)
  with LoadOrCreateSegments_spec [OF cd(2) _ _ S(1-3), of tail] d o' cd(3) obtain cl d2 where
    "LoadOrCreateSegments (mk_CommitLog o', d1) = (Inr (), (cl, d2))"
    "log_rep (cl\<lparr>cl_closed := False\<rparr>, d2) first S" "cl_next_offset cl = next"
    by (auto simp: disk_clean_def)
  with cd(1) opts show ?thesis
    unfolding CommitLog_Open_def o'_def [symmetric]
    by (intro exI [of _ "cl\<lparr>cl_closed := False\<rparr>"] exI [of _ d2]) simp
qed

end
