(* ===== verification/CommitLog_Live.thy ===== *)
theory CommitLog_Live
  imports CommitLog_Recovery
begin

text \<open>
  The refinement theorems of the commit log allow an operation to fail. This theory shows
  that it does not when the system calls succeed: every append of records that fit is
  acknowledged, and every offset the log has can be read by a caller whose limit the
  batches respect.
\<close>

section \<open>Append\<close>

lemma Segment_Append_ok:
  assumes "d_script d = []" "seg_holds d s data" "0 \<le> base" "batch_fits rs"
  obtains s' d' where "Segment_Append (mk_batch base rs) (s, d) = (Inr (length data), (s', d'))"
    "d_script d' = []" "d_dirs d' = d_dirs d"
proof -
  have "batch_bytes base rs \<noteq> []"
    by (simp add: length_0_conv [symmetric] kRecordBatchHeaderBytes_def del: length_0_conv)
  with assms(2) that show thesis
    by (simp add: Segment_Append_def EncodeRecordBatch_mk_batch [OF assms(3,4)] seg_holds_def
        seg_open_def File_PWrite_ok [OF assms(1)] assms(1) Let_def)
qed

lemma append_to_last_ok:
  assumes rep: "log_rep (cl, d) first S" and ok: "batch_ok rs" and script: "d_script d = []"
  obtains a cl' d' where "append_to_last (mk_batch (cl_next_offset cl) rs) (cl, d) = (Inr a, (cl', d'))"
    "d_script d' = []" "d_dirs d' = d_dirs d"
proof -
  let ?o = "cl_options cl" and ?n = "cl_next_offset cl"
  from rep have inv: "S \<noteq> []" "0 \<le> first" "chain first S ?n"
    "segs_rep ?o d (cl_segments cl) (cl_indexes cl) S" by (simp_all add: log_rep_def)
  from segs_rep_snocE [OF inv(4,1)] obtain ss s ixs ix T base Bs where
    cl: "cl_segments cl = ss @ [s]" "cl_indexes cl = ixs @ [ix]" "S = T @ [(base, Bs)]"
    and act: "seg_rep ?o d (s, ix) (base, Bs)" .
  have n: "?n = seg_next base Bs" "0 \<le> base" "0 \<le> ?n"
    using inv(2,3) cl(3) seg_next_ge [of base Bs] chain_mono [of first T base] by (auto simp: chain_snoc)
  from act have h: "seg_holds d s (seg_bytes base Bs)" by (simp add: seg_rep_def)
  from ok have "batch_fits rs" by (simp add: batch_ok_def)
  from Segment_Append_ok [OF script h n(3) this] obtain s' d' where
    ap: "Segment_Append (mk_batch ?n rs) (s, d) = (Inr (length (seg_bytes base Bs)), (s', d'))"
    and d': "d_script d' = []" "d_dirs d' = d_dirs d" .
  from seg_rep_append [OF act n(2) ok ap [unfolded n(1)]] obtain ix' where
    "MaybeAppend (seg_next base Bs) (length (seg_bytes base Bs)) ix = (Inr (), ix')" .
  moreover have "rb_base_offset (mk_batch ?n rs) = seg_next base Bs" by (simp add: mk_batch_def n(1))
  ultimately show thesis using that ap cl d' by (simp add: append_to_last_def Let_def)
qed

lemma RollSegment_ok:
  assumes "disk_ready (cl_options cl) d" "0 \<le> base"
  obtains cl' d' where "RollSegment base (cl, d) = (Inr (), (cl', d'))" "d_script d' = []"
    "d_dirs d' = d_dirs d"
proof -
  let ?o = "cl_options cl" and ?ix = "mk_OffsetIndex (IndexPath (cl_options cl) base) base
    (clo_index_interval_bytes (cl_options cl))"
  from Segment_Open_ok [OF assms] obtain s d1 where
    op: "Segment_Open (SegmentPath ?o base) base d = (Inr s, d1)" "d_script d1 = []" by blast
  from Segment_Open_spec [OF op(1)] have d1: "d_dirs d1 = d_dirs d" by (auto dest: same_except_dirs)
  from Rewrite_ok [OF op(2), of ?ix] assms(1) d1 obtain d2 where
    rw: "Rewrite ?ix d1 = (Inr (), d2)" "d_script d2 = []"
    by (auto simp: disk_ready_def mk_OffsetIndex_def)
  have "d_dirs d2 = d_dirs d" using same_except_dirs [OF Rewrite_spec(1) [OF rw(1)]] d1 by simp
  with op rw that show thesis by (simp add: RollSegment_def)
qed

lemma CommitLog_Append_ok:
  assumes rep: "log_rep (cl, d) first S" and rdy: "disk_ready (cl_options cl) d"
    and ok: "batch_ok rs" "in_memory rs" and fit: "int (length rs) \<le> i64_max - cl_next_offset cl"
  obtains a cl' d' where "CommitLog_Append rs (cl, d) = (Inr a, (cl', d'))"
    "disk_ready (cl_options cl') d'"
proof -
  let ?n = "cl_next_offset cl" and ?b = "mk_batch (cl_next_offset cl) rs"
  have script: "d_script d = []" using rdy by (simp add: disk_ready_def)
  have opened: "\<not> cl_closed cl" and n: "0 \<le> ?n"
    using rep chain_mono [of first S ?n] by (auto simp: log_rep_def)
  have mk: "MakeRecordBatch ?n rs = Inr ?b" using MakeRecordBatch_fits [OF n] ok by (simp add: batch_ok_def)
  have ne: "rs \<noteq> []" using ok by (auto simp: batch_ok_def batch_fits_def)
  have base: "rb_base_offset ?b = ?n" by (simp add: mk_batch_def)
  let ?roll = "0 < sg_write_position (last (cl_segments cl)) \<and>
    clo_segment_bytes (cl_options cl) <
      sg_write_position (last (cl_segments cl)) + unat (rb_batch_bytes ?b)"
  have run: "CommitLog_Append rs (cl, d) =
      (if ?roll then sbind (RollSegment ?n) (\<lambda>_. append_to_last ?b) (cl, d)
       else append_to_last ?b (cl, d))"
    using opened ne fit mk base by (simp add: CommitLog_Append_def Let_def)
  have "\<exists>a cl' d'. CommitLog_Append rs (cl, d) = (Inr a, (cl', d')) \<and> d_script d' = [] \<and>
      d_dirs d' = d_dirs d"
  proof (cases ?roll)
    case False
    from append_to_last_ok [OF rep ok(1) script] obtain a cl' d' where
      "append_to_last ?b (cl, d) = (Inr a, (cl', d'))" "d_script d' = []" "d_dirs d' = d_dirs d" .
    with run False show ?thesis by auto
  next
    case True
    from RollSegment_ok [OF rdy n] obtain cl1 d1 where
      roll: "RollSegment ?n (cl, d) = (Inr (), (cl1, d1))" "d_script d1 = []" "d_dirs d1 = d_dirs d" .
    from RollSegment_spec [OF rep _ roll(1)] True obtain S1 where
      rep1: "log_rep (cl1, d1) first S1" "cl_next_offset cl1 = ?n" by auto
    from append_to_last_ok [OF rep1(1) ok(1) roll(2), unfolded rep1(2)] obtain a cl' d' where
      "append_to_last ?b (cl1, d1) = (Inr a, (cl', d'))" "d_script d' = []" "d_dirs d' = d_dirs d1" .
    with run True roll show ?thesis by auto
  qed
  then obtain a cl' d' where res: "CommitLog_Append rs (cl, d) = (Inr a, (cl', d'))"
    "d_script d' = []" "d_dirs d' = d_dirs d" by blast
  from CommitLog_Append_refines [OF rep ok(2) res(1)] have "cl_options cl' = cl_options cl" by auto
  with res that rdy show thesis by (auto intro: disk_ready_dirs)
qed

section \<open>Read\<close>

lemma read_loop_ok:
  assumes "d_script d = []" "seg_holds d s (pre @ seg_bytes b Bs)" "list_all batch_ok Bs" "0 \<le> b"
    and "seg_next b Bs \<le> i64_max" "b \<le> offset" "offset < seg_next b Bs"
    and "\<forall>(c, rs) \<in> set (batches_from b Bs). c \<le> offset \<longrightarrow> length (batch_bytes c rs) \<le> max_bytes"
  shows "\<exists>v. read_loop s offset max_bytes (length pre) d = (Inr v, d)"
  using assms
proof (induction Bs arbitrary: pre b)
  case Nil
  then show ?case by simp
next
  case (Cons rs Bs)
  let ?bs = "batch_bytes b rs" and ?n = "b + int (length rs)"
  from Cons.prems(3) have ok: "batch_ok rs" "list_all batch_ok Bs" by simp_all
  have h: "seg_holds d s (pre @ ?bs @ seg_bytes ?n Bs)" using Cons.prems(2) by simp
  have b: "is_i64 b" using Cons.prems(4,5) seg_next_ge [of ?n Bs] by (simp add: is_i64_def)
  have "length ?bs \<le> max_bytes" using Cons.prems(6,8) by simp
  with Segment_Read_ok [OF Cons.prems(1) h Cons.prems(4) b] ok(1)
  have rd: "Segment_Read s (length pre) max_bytes d = (Inr (mk_batch b rs), d)"
    by (simp add: batch_ok_def)
  have less: "length pre < sg_write_position s"
    using h by (simp add: seg_holds_def kRecordBatchHeaderBytes_def)
  note has = BatchContainsOffset_mk_batch [OF Cons.prems(4) ok(1), of offset]
  show ?case
  proof (cases "holds_offset offset (b, rs)")
    case True
    with less rd has show ?thesis by (subst read_loop.simps) simp
  next
    case False
    with Cons.prems(6) have "?n \<le> offset" by (auto simp: holds_offset_def)
    with Cons.IH [OF Cons.prems(1), of "pre @ ?bs" ?n] ok(2) h Cons.prems(4,5,7,8)
    have "\<exists>v. read_loop s offset max_bytes (length (pre @ ?bs)) d = (Inr v, d)" by simp
    with less rd has False unat_batch_bytes_mk_batch [OF ok(1), of b] show ?thesis
      by (subst read_loop.simps) (simp del: length_batch_bytes)
  qed
qed

lemma CommitLog_Read_ok:
  assumes rep: "log_rep (cl, d) first S" and script: "d_script d = []"
    and off: "first \<le> offset" "offset < cl_next_offset cl"
    and small: "\<forall>(c, rs) \<in> set (log_batches S). c \<le> offset \<longrightarrow> length (batch_bytes c rs) \<le> max_bytes"
  shows "\<exists>v. CommitLog_Read offset max_bytes (cl, d) = (Inr v, (cl, d))"
proof -
  let ?o = "cl_options cl" and ?n = "cl_next_offset cl"
  from rep have inv: "\<not> cl_closed cl" "S \<noteq> []" "0 \<le> first" "chain first S ?n" "?n \<le> i64_max"
    "segs_rep ?o d (cl_segments cl) (cl_indexes cl) S"
    by (simp_all add: log_rep_def)
  from FindSegmentIndex_spec [OF inv(6,4) off inv(2)] obtain i base Bs where
    find: "FindSegmentIndex cl offset = Inr i" "i < length S" "S ! i = (base, Bs)"
    and o: "base \<le> offset" "offset < seg_next base Bs" .
  let ?s = "cl_segments cl ! i" and ?ix = "cl_indexes cl ! i"
  have mem: "(base, Bs) \<in> set S" using find(2,3) by (metis nth_mem)
  have "first \<le> base" "seg_next base Bs \<le> ?n"
    using chain_bases [OF inv(4) _ mem] segs_rep_batch_ok [OF inv(6)] by auto
  with inv(3,5) have bounds: "0 \<le> base" "seg_next base Bs \<le> i64_max" by simp_all
  from segs_rep_nth [OF inv(6) find(2)] find(3) have sr: "seg_rep ?o d (?s, ?ix) (base, Bs)" by simp
  from FindFloor_boundary [OF sr o(1)] obtain As Cs where A: "Bs = As @ Cs"
    "floor_position ?ix offset = length (seg_bytes base As)" "seg_next base As \<le> offset" .
  from sr have h: "seg_holds d ?s (seg_bytes base Bs)" and bs: "list_all batch_ok Bs"
    by (simp_all add: seg_rep_def)
  have "set (batches_from (seg_next base As) Cs) \<subseteq> set (log_batches S)"
    using mem A(1) by (force simp: log_batches_def)
  with small have "\<forall>(c, rs) \<in> set (batches_from (seg_next base As) Cs).
      c \<le> offset \<longrightarrow> length (batch_bytes c rs) \<le> max_bytes" by blast
  moreover have "0 \<le> seg_next base As" using bounds(1) seg_next_ge [of base As] by simp
  ultimately obtain v where
    "read_loop ?s offset max_bytes (length (seg_bytes base As)) d = (Inr v, d)"
    using read_loop_ok [OF script, of ?s "seg_bytes base As" "seg_next base As" Cs offset max_bytes]
      h bs bounds o A by auto
  with A(2) off inv(1,3) find(1) show ?thesis by (simp add: CommitLog_Read_scan)
qed

end
