(* ===== verification/BrokerLive.thy ===== *)
theory BrokerLive
  imports BrokerLogs CommitLog_Live
begin

text \<open>
  Progress of the two requests that carry records: when the system calls succeed, a produce
  request with records that fit the log is accepted, and a fetch of an offset the log holds
  returns records.
\<close>

lemma on_partition_run:
  assumes "part_log tm topic i = Some log" "f (log, d) = (r, (log', d'))" "stdmap_ok (tmg_topics tm)"
  obtains tm' where "on_partition topic i f (tm, d) = (r, (tm', d'))" "part_log tm' topic i = Some log'"
    "stdmap_ok (tmg_topics tm')"
  using on_partition_eq [OF assms(1), of f d r log' d'] assms(2,3) by auto

lemma HandleProduce_ok:
  assumes req: "\<not> IsInternalTopic (prq_topic q)" "prq_records q \<noteq> []"
    and sel: "SelectPartition (prq_topic q) (prq_partition_id q) (prc_key (hd (prq_records q))) (bs_topics bs) =
      (Inr selection, tm)"
    and policy: "sc_flush_policy (bso_storage (bs_options bs)) \<noteq> kSync"
    and topics: "stdmap_ok (tmg_topics (bs_topics bs))"
    and log: "part_log (bs_topics bs) (prq_topic q) (nat (ps_id selection)) = Some log"
    and append: "CommitLog_Append (map ToStorageRecord (prq_records q)) (log, d) = (Inr a, (log', d'))"
  obtains tm' where "HandleProduce env q (bs, d) =
      (MakeSuccess env (RspProduce \<lparr>prs_partition_id = ps_id selection, prs_base_offset = ar_base_offset a,
         prs_record_count = word_of_nat (length (prq_records q))\<rparr>), (bs\<lparr>bs_topics := tm'\<rparr>, d'))"
    "part_log tm' (prq_topic q) (nat (ps_id selection)) = Some log'" "stdmap_ok (tmg_topics tm')"
proof -
  note s = SelectPartition_log [OF topics sel]
  from log s(1) have "part_log tm (prq_topic q) (nat (ps_id selection)) = Some log" by simp
  from on_partition_run [where f = "CommitLog_Append (map ToStorageRecord (prq_records q))", OF this append s(3)]
  obtain tm' where
    run: "on_partition (prq_topic q) (nat (ps_id selection)) (CommitLog_Append (map ToStorageRecord (prq_records q)))
      (tm, d) = (Inr a, (tm', d'))" "part_log tm' (prq_topic q) (nat (ps_id selection)) = Some log'"
      "stdmap_ok (tmg_topics tm')" .
  have "with_topics (on_partition (prq_topic q) (nat (ps_id selection))
      (CommitLog_Append (map ToStorageRecord (prq_records q)))) (bs\<lparr>bs_topics := tm\<rparr>, d) =
      (Inr a, (bs\<lparr>bs_topics := tm'\<rparr>, d'))" using run(1) by (simp add: with_topics_def)
  with req sel policy run(2,3) that show thesis by (auto simp: HandleProduce_def sync_flush_def Let_def)
qed

lemma HandleFetch_ok:
  assumes part: "GetPartition (frq_topic q) (frq_partition_id q) (bs_topics bs) = Inr part"
    and user: "\<not> IsInternalTopic (frq_topic q)" and max: "frq_max_bytes q \<noteq> 0"
    and off: "0 \<le> frq_offset q" "frq_offset q < cl_next_offset (pt_log part)"
    and read: "CommitLog_Read (frq_offset q) (unat (frq_max_bytes q)) (pt_log part, d) = (Inr v, (log', d'))"
    and topics: "stdmap_ok (tmg_topics (bs_topics bs))"
  shows "succeeded (fst (HandleFetch env q (bs, d)))"
proof -
  have pl: "part_log (bs_topics bs) (frq_topic q) (nat (frq_partition_id q)) = Some (pt_log part)"
    using GetPartition_log [OF part] by blast
  from on_partition_run [where f = "CommitLog_Read (frq_offset q) (unat (frq_max_bytes q))", OF pl read topics]
  obtain tm' where
    "on_partition (frq_topic q) (nat (frq_partition_id q)) (CommitLog_Read (frq_offset q) (unat (frq_max_bytes q)))
      (bs_topics bs, d) = (Inr v, (tm', d'))" by blast
  then have "with_topics (on_partition (frq_topic q) (nat (frq_partition_id q))
      (CommitLog_Read (frq_offset q) (unat (frq_max_bytes q)))) (bs, d) = (Inr v, (bs\<lparr>bs_topics := tm'\<rparr>, d'))"
    by (simp add: with_topics_def)
  with part user max off show ?thesis
    by (simp add: HandleFetch_def Let_def fetch_records_plain IsInternalTopic_def)
qed

lemma HandleFetch_retry_ok:
  assumes part: "GetPartition (frq_topic q) (frq_partition_id q) (bs_topics bs) = Inr part"
    and retry: "IsRetryTopic (frq_topic q)" and max: "frq_max_bytes q \<noteq> 0"
    and off: "0 \<le> frq_offset q" "frq_offset q \<le> cl_next_offset (pt_log part)"
      "frq_offset q < VisibleEnd (frq_topic q) (frq_partition_id q) (bs_retries bs)"
    and read: "CommitLog_Read (frq_offset q) kMaxRetryBatchBytes (pt_log part, d) = (Inr v, (log', d'))"
    and recs: "fetch_records True (rqe_version env) (unat (frq_max_bytes q)) (rb_records v) = Inr rs"
    and topics: "stdmap_ok (tmg_topics (bs_topics bs))"
  shows "fst (HandleFetch env q (bs, d)) = MakeSuccess env (RspFetch
    \<lparr>frs_base_offset = rb_base_offset v,
     frs_high_watermark = VisibleEnd (frq_topic q) (frq_partition_id q) (bs_retries bs), frs_records = rs\<rparr>)"
proof -
  have pl: "part_log (bs_topics bs) (frq_topic q) (nat (frq_partition_id q)) = Some (pt_log part)"
    using GetPartition_log [OF part] by blast
  from on_partition_run [where f = "CommitLog_Read (frq_offset q) kMaxRetryBatchBytes", OF pl read topics]
  obtain tm' where "on_partition (frq_topic q) (nat (frq_partition_id q))
      (CommitLog_Read (frq_offset q) kMaxRetryBatchBytes) (bs_topics bs, d) = (Inr v, (tm', d'))" by blast
  then have "with_topics (on_partition (frq_topic q) (nat (frq_partition_id q))
      (CommitLog_Read (frq_offset q) kMaxRetryBatchBytes)) (bs, d) = (Inr v, (bs\<lparr>bs_topics := tm'\<rparr>, d'))"
    by (simp add: with_topics_def)
  with part retry max off recs show ?thesis by (simp add: HandleFetch_def Let_def IsInternalTopic_def)
qed

text \<open>A produce request and a fetch of the offset it was given.\<close>

lemma produce_then_fetch:
  assumes rep: "log_rep (log, d) first S" and rdy: "disk_ready (cl_options log) d"
    and rs: "batch_ok (map ToStorageRecord (prq_records q))" "in_memory (map ToStorageRecord (prq_records q))"
    and fit: "int (length (prq_records q)) \<le> i64_max - cl_next_offset log"
    and req: "\<not> IsInternalTopic (prq_topic q)"
    and sel: "SelectPartition (prq_topic q) (prq_partition_id q) (prc_key (hd (prq_records q))) (bs_topics bs) =
      (Inr selection, tm)"
    and policy: "sc_flush_policy (bso_storage (bs_options bs)) \<noteq> kSync"
    and topics: "stdmap_ok (tmg_topics (bs_topics bs))"
    and log: "part_log (bs_topics bs) (prq_topic q) (nat (ps_id selection)) = Some log"
    and small: "\<forall>(c, rs) \<in> set (log_batches S). length (batch_bytes c rs) \<le> unat max_bytes"
      "length (batch_bytes (cl_next_offset log) (map ToStorageRecord (prq_records q))) \<le> unat max_bytes"
  shows "\<exists>n. fst (HandleProduce env q (bs, d)) =
      MakeSuccess env (RspProduce \<lparr>prs_partition_id = ps_id selection, prs_base_offset = cl_next_offset log, prs_record_count = n\<rparr>)"
    "succeeded (fst (HandleFetch env' \<lparr>frq_topic = prq_topic q, frq_partition_id = ps_id selection,
       frq_offset = cl_next_offset log, frq_max_bytes = max_bytes\<rparr> (snd (HandleProduce env q (bs, d)))))"
proof -
  let ?rs = "map ToStorageRecord (prq_records q)" and ?i = "nat (ps_id selection)" and ?n = "cl_next_offset log"
  obtain a log' d' where ap: "CommitLog_Append ?rs (log, d) = (Inr a, (log', d'))" "disk_ready (cl_options log') d'"
    using CommitLog_Append_ok [OF rep rdy rs] fit by auto
  from CommitLog_Append_refines [OF rep rs(2) ap(1)] obtain S' where S': "log_rep (log', d') first S'"
    "log_batches S' = log_batches S @ [(?n, ?rs)]" "cl_next_offset log' = ?n + int (length ?rs)" "ar_base_offset a = ?n"
    by auto
  have ne: "prq_records q \<noteq> []" using rs(1) by (auto simp: batch_ok_def batch_fits_def)
  from HandleProduce_ok [OF req ne sel policy topics log ap(1)] obtain tm' where
    hp: "HandleProduce env q (bs, d) =
      (MakeSuccess env (RspProduce \<lparr>prs_partition_id = ps_id selection, prs_base_offset = ?n,
         prs_record_count = word_of_nat (length (prq_records q))\<rparr>), (bs\<lparr>bs_topics := tm'\<rparr>, d'))"
    and pl: "part_log tm' (prq_topic q) ?i = Some log'" and ok: "stdmap_ok (tmg_topics tm')" unfolding S'(4) by blast
  then show "\<exists>n. fst (HandleProduce env q (bs, d)) =
      MakeSuccess env (RspProduce \<lparr>prs_partition_id = ps_id selection, prs_base_offset = ?n, prs_record_count = n\<rparr>)"
    by auto
  have bounds: "first \<le> ?n" "0 \<le> first" using rep chain_mono [of first S ?n] by (auto simp: log_rep_def)
  have "0 \<le> ps_id selection" using SelectPartition_log(4) [OF topics sel] by blast
  with pl have part: "\<exists>part. GetPartition (prq_topic q) (ps_id selection) tm' = Inr part \<and> pt_log part = log'"
    by (auto simp: GetPartition_def part_log_def split: option.splits if_splits)
  then obtain part where part: "GetPartition (prq_topic q) (ps_id selection) tm' = Inr part" "pt_log part = log'" by blast
  have "\<exists>v. CommitLog_Read ?n (unat max_bytes) (log', d') = (Inr v, (log', d'))"
    by (rule CommitLog_Read_ok [OF S'(1)])
      (use ap(2) bounds(1) S'(2,3) ne small in \<open>auto simp: disk_ready_def\<close>)
  then obtain v where "CommitLog_Read ?n (unat max_bytes) (log', d') = (Inr v, (log', d'))" ..
  moreover have "max_bytes \<noteq> 0" using small(2) by (auto simp: kRecordBatchHeaderBytes_def)
  ultimately show "succeeded (fst (HandleFetch env' \<lparr>frq_topic = prq_topic q, frq_partition_id = ps_id selection,
       frq_offset = ?n, frq_max_bytes = max_bytes\<rparr> (snd (HandleProduce env q (bs, d)))))"
    unfolding hp snd_conv using part req bounds S'(3) ne ok
    by (intro HandleFetch_ok [where part = part]) auto
qed

end
