(* ===== verification/Routing.thy ===== *)
theory Routing
  imports TopicLogs
begin

text \<open>
  The choice of a partition: records with a key go where the hash of the key points,
  records without one go round. The hash is another interpretation of \<open>byte_hash\<close>: keys
  of the same length that differ in one byte have different hashes.
\<close>

section \<open>The hash of a key\<close>

lemma fnv_prime_inverse: "kFnvPrime * 0xCE965057AFF6957B = 1"
  by (simp add: kFnvPrime_def)

interpretation fnv: byte_hash fnv_step
proof
  have inj: "a = b" if "a * kFnvPrime = b * kFnvPrime" for a b
  proof -
    have "a * kFnvPrime * 0xCE965057AFF6957B = b * kFnvPrime * 0xCE965057AFF6957B" by (simp only: that)
    then show ?thesis by (simp only: mult.assoc fnv_prime_inverse mult_1_right)
  qed
  fix s s' :: u64 and b b' :: byte
  show "s = s'" if "fnv_step s b = fnv_step s' b"
  proof -
    from inj [OF that [unfolded fnv_step_def]] have "s XOR from_byte b = s' XOR from_byte b" .
    then show ?thesis by simp
  qed
  show "b = b'" if "fnv_step s b = fnv_step s b'"
  proof -
    from inj [OF that [unfolded fnv_step_def]] have "(from_byte b :: u64) = from_byte b'" by simp
    then show ?thesis by (rule from_byte_inj [rotated]) simp
  qed
qed

section \<open>Partitions\<close>

lemma to_partition_id_small: "n < 2147483648 \<Longrightarrow> to_partition_id n = int n"
  by (simp add: to_partition_id_def signed_of_nat signed_take_bit_int_eq_self)

text \<open>Partition counts that the type of partition ids can number.\<close>

definition numbered :: "Topic \<Rightarrow> bool" where
  "numbered t \<longleftrightarrow> tp_partitions t \<noteq> [] \<and> length (tp_partitions t) \<le> 2147483648"

lemma select_keyed:
  assumes "stdmap_find topic (tmg_topics tm) = Some t" "numbered t" "key \<noteq> []"
  shows "SelectPartition topic kInvalidPartitionId key tm =
    (Inr \<lparr>ps_id = int (unat (StableHash key) mod length (tp_partitions t)),
          ps_partition = tp_partitions t ! (unat (StableHash key) mod length (tp_partitions t))\<rparr>, tm)"
proof -
  have lt: "unat (StableHash key) mod length (tp_partitions t) < length (tp_partitions t)"
    using assms(2) by (simp add: numbered_def)
  then have "to_partition_id (unat (StableHash key) mod length (tp_partitions t)) =
      int (unat (StableHash key) mod length (tp_partitions t))"
    using assms(2) by (intro to_partition_id_small) (simp add: numbered_def del: mod_less_divisor)
  with assms lt show ?thesis by (simp add: SelectPartition_def numbered_def Let_def not_le)
qed

lemma select_unkeyed:
  assumes "stdmap_ok (tmg_topics tm)" "stdmap_find topic (tmg_topics tm) = Some t" "numbered t"
  shows "\<exists>tm'. SelectPartition topic kInvalidPartitionId [] tm =
    (Inr \<lparr>ps_id = int (unat (tp_next_partition t) mod length (tp_partitions t)),
          ps_partition = tp_partitions t ! (unat (tp_next_partition t) mod length (tp_partitions t))\<rparr>, tm') \<and>
    stdmap_ok (tmg_topics tm') \<and>
    stdmap_find topic (tmg_topics tm') = Some (t\<lparr>tp_next_partition := tp_next_partition t + 1\<rparr>)"
proof -
  have lt: "unat (tp_next_partition t) mod length (tp_partitions t) < length (tp_partitions t)"
    using assms(3) by (simp add: numbered_def)
  then have "to_partition_id (unat (tp_next_partition t) mod length (tp_partitions t)) =
      int (unat (tp_next_partition t) mod length (tp_partitions t))"
    using assms(3) by (intro to_partition_id_small) (simp add: numbered_def del: mod_less_divisor)
  with assms lt show ?thesis
    by (simp add: SelectPartition_def numbered_def Let_def not_le stdm.inv_insert stdm.find_insert)
qed

text \<open>The partitions of a run of records without a key.\<close>

fun rotation :: "nat \<Rightarrow> TopicName \<Rightarrow> TopicManager \<Rightarrow> PartitionId list" where
  "rotation 0 topic tm = []"
| "rotation (Suc k) topic tm =
     (case SelectPartition topic kInvalidPartitionId [] tm of
        (Inl _, tm') \<Rightarrow> rotation k topic tm'
      | (Inr selection, tm') \<Rightarrow> ps_id selection # rotation k topic tm')"

lemma rotation_eq:
  assumes "stdmap_ok (tmg_topics tm)" "stdmap_find topic (tmg_topics tm) = Some t" "numbered t"
    "unat (tp_next_partition t) + k \<le> u32_max"
  shows "rotation k topic tm =
    map (\<lambda>j. int ((unat (tp_next_partition t) + j) mod length (tp_partitions t))) [0..<k]"
  using assms
proof (induction k arbitrary: tm t)
  case (Suc k)
  from select_unkeyed [OF Suc.prems(1-3)] obtain tm' where
    sel: "SelectPartition topic kInvalidPartitionId [] tm =
      (Inr \<lparr>ps_id = int (unat (tp_next_partition t) mod length (tp_partitions t)),
            ps_partition = tp_partitions t ! (unat (tp_next_partition t) mod length (tp_partitions t))\<rparr>, tm')"
    and tm': "stdmap_ok (tmg_topics tm')"
      "stdmap_find topic (tmg_topics tm') = Some (t\<lparr>tp_next_partition := tp_next_partition t + 1\<rparr>)" by blast
  have suc: "unat (tp_next_partition t + 1) = Suc (unat (tp_next_partition t))"
    using Suc.prems(4) by (simp add: unat_word_ariths)
  from Suc.IH [OF tm'] Suc.prems(3,4) suc
  show ?case by (simp add: sel numbered_def upt_conv_Cons del: upt_Suc) (simp add: map_Suc_upt [symmetric] comp_def del: upt_Suc)
qed simp

lemma mod_window_bij:
  assumes "0 < n"
  shows "(\<lambda>j. (s + j) mod n) ` {0..<n} = {0..<(n::nat)}" "inj_on (\<lambda>j. (s + j) mod n) {0..<n}"
proof -
  show inj: "inj_on (\<lambda>j. (s + j) mod n) {0..<n}"
  proof (rule inj_onI)
    fix a b assume "a \<in> {0..<n}" "b \<in> {0..<n}" "(s + a) mod n = (s + b) mod n"
    then show "a = b" by (simp add: nat_mod_eq_iff) (metis add_left_cancel mod_less mod_mult_self2)
  qed
  have "(\<lambda>j. (s + j) mod n) ` {0..<n} \<subseteq> {0..<n}" using assms by auto
  then show "(\<lambda>j. (s + j) mod n) ` {0..<n} = {0..<n}"
    using inj by (simp add: card_image card_subset_eq)
qed

lemma rotation_covers:
  assumes "stdmap_ok (tmg_topics tm)" "stdmap_find topic (tmg_topics tm) = Some t" "numbered t"
    "unat (tp_next_partition t) + length (tp_partitions t) \<le> u32_max"
  shows "distinct (rotation (length (tp_partitions t)) topic tm) \<and>
    set (rotation (length (tp_partitions t)) topic tm) = int ` {0..<length (tp_partitions t)}"
proof -
  let ?n = "length (tp_partitions t)" and ?s = "unat (tp_next_partition t)"
  have "0 < ?n" using assms(3) by (simp add: numbered_def)
  note b = mod_window_bij [OF this, of ?s]
  have eq: "rotation ?n topic tm = map int (map (\<lambda>j. (?s + j) mod ?n) [0..<?n])"
    using rotation_eq [OF assms] by (simp add: comp_def)
  have "distinct (map (\<lambda>j. (?s + j) mod ?n) [0..<?n])" using b(2) by (simp add: distinct_map)
  then have "distinct (rotation ?n topic tm)" unfolding eq by (subst distinct_map) simp
  moreover have "set (rotation ?n topic tm) = int ` {0..<?n}" unfolding eq using b(1) by (simp only: set_map set_upt)
  ultimately show ?thesis by blast
qed

end
