(* ===== verification/Examples.thy ===== *)
theory Examples
  imports CommitLog_Live LogInterface Codec
begin

text \<open>
  Concrete states and messages at which the properties of the root theory are applied: a
  log that was just created, the files a crash left behind, and two request frames.
\<close>

definition demo_opts :: CommitLogOptions where
  "demo_opts = \<lparr>clo_data_dir = [''d''], clo_segment_bytes = 64, clo_index_interval_bytes = 1,
     clo_strict_recovery = True\<rparr>"

definition demo_record :: Record where
  "demo_record = \<lparr>rec_timestamp = 7, rec_key = ''k'', rec_value = ''v'', rec_crc32 = 0\<rparr>"

text \<open>A new log, and a disk whose next system calls are interrupted, cut short and refused.\<close>

definition demo_disk :: Disk where
  "demo_disk = \<lparr>d_files = [], d_dirs = [[''d'']], d_next_fd = 4,
     d_script = [Intr, Part 5, Fail ''No space left on device'']\<rparr>"

definition demo_log :: CommitLog where
  "demo_log =
     \<lparr>cl_options = demo_opts,
      cl_segments = [\<lparr>sg_path = SegmentPath demo_opts 0, sg_base_offset = 0, sg_write_position = 0,
        sg_file = \<lparr>f_fd = 3, f_path = SegmentPath demo_opts 0\<rparr>, sg_closed = False\<rparr>],
      cl_indexes = [mk_OffsetIndex (IndexPath demo_opts 0) 0 1],
      cl_next_offset = 0, cl_closed = False\<rparr>"

lemma log_rep_demo: "d_files d = [] \<Longrightarrow> log_rep (demo_log, d) 0 [(0, [])]"
  by (simp add: log_rep_def demo_log_def segs_rep_def seg_rep_def seg_holds_def seg_open_def
      File_is_open_def mk_OffsetIndex_def index_ok_def no_later_files_def d_content_def)

lemma demo_batch: "batch_ok [demo_record]" "in_memory [demo_record]"
  by (simp_all add: batch_ok_def batch_fits_def in_memory_def record_fits_def demo_record_def
      EncodedRecordSize_def kRecordHeaderBytes_def kRecordBatchHeaderBytes_def)

text \<open>The same log on a disk without faults; a second append rolls to a new segment.\<close>

definition ready_disk :: Disk where
  "ready_disk = \<lparr>d_files = [], d_dirs = [[''d'']], d_next_fd = 4, d_script = []\<rparr>"

lemma ready_disk_ok: "disk_ready demo_opts ready_disk" "log_rep (demo_log, ready_disk) 0 [(0, [])]"
proof -
  have "length (SegmentPath demo_opts n) = 2" "length (IndexPath demo_opts n) = 2" for n
    by (simp_all add: SegmentPath_def IndexPath_def demo_opts_def)
  then have "SegmentPath demo_opts n \<noteq> [''d'']" "IndexPath demo_opts n \<noteq> [''d'']" for n
    by (metis length_Cons list.size(3) n_not_Suc_n numeral_2_eq_2)+
  then show "disk_ready demo_opts ready_disk"
    by (simp add: disk_ready_def ready_disk_def) (simp add: demo_opts_def)
  show "log_rep (demo_log, ready_disk) 0 [(0, [])]" by (rule log_rep_demo) (simp add: ready_disk_def)
qed

lemma demo_log_fields: "cl_options demo_log = demo_opts" "cl_next_offset demo_log = 0"
  by (simp_all add: demo_log_def)

text \<open>The files after a crash in the middle of the second append: the first batch, then the
  first half of the header of the second.\<close>

definition crash_disk :: Disk where
  "crash_disk = \<lparr>d_files = [(SegmentPath demo_opts 0,
       batch_bytes 0 [demo_record] @ take 16 (batch_bytes 1 [demo_record]))],
     d_dirs = [], d_next_fd = 3, d_script = []\<rparr>"

definition crash_log :: "(int \<times> Record list list) list" where
  "crash_log = [(0, [[demo_record]])]"

lemma crash_disk_ok:
  "disk_clean demo_opts crash_disk"
  "{p \<in> fst ` set (d_files crash_disk). is_log_file demo_opts p} =
     SegmentPath demo_opts ` fst ` set crash_log"
  "chain 0 crash_log 1"
  "\<forall>x \<in> set crash_log.
     seg_file_ok demo_opts crash_disk (fst (last crash_log)) (take 16 (batch_bytes 1 [demo_record])) x"
proof -
  have len: "length (SegmentPath demo_opts n) = 2" for n by (simp add: SegmentPath_def demo_opts_def)
  then have ne: "[''d''] \<noteq> SegmentPath demo_opts 0" by (metis length_Cons list.size(3) n_not_Suc_n numeral_2_eq_2)
  show "disk_clean demo_opts crash_disk"
    using ne by (simp add: disk_clean_def crash_disk_def d_lookup_def path_prefixes_def demo_opts_def)
  show "{p \<in> fst ` set (d_files crash_disk). is_log_file demo_opts p} =
      SegmentPath demo_opts ` fst ` set crash_log"
    using is_log_file_SegmentPath [of 0 demo_opts]
    by (auto simp: crash_disk_def crash_log_def is_i64_def)
  show "chain 0 crash_log 1" by (simp add: crash_log_def)
  have "torn_tail 1 (take 16 (batch_bytes 1 [demo_record]))"
    unfolding torn_tail_def using demo_batch(1)
    by (intro exI [of _ "[demo_record]"] exI [of _ 16])
      (simp add: batch_ok_def kRecordBatchHeaderBytes_def)
  then show "\<forall>x \<in> set crash_log.
      seg_file_ok demo_opts crash_disk (fst (last crash_log)) (take 16 (batch_bytes 1 [demo_record])) x"
    using demo_batch(1)
    by (simp add: crash_log_def seg_file_ok_def crash_disk_def d_content_def
        kRecordBatchHeaderBytes_def EncodedRecordSize_def kRecordHeaderBytes_def demo_record_def)
qed

text \<open>Two requests.\<close>

definition demo_fetch :: RequestEnvelope where
  "demo_fetch = \<lparr>rqe_api_key = kFetch, rqe_version = 1, rqe_request_id = 42,
     rqe_body = ReqFetch \<lparr>frq_topic = ''t'', frq_partition_id = 0, frq_offset = 5,
       frq_max_bytes = 4096\<rparr>\<rparr>"

definition demo_leave :: RequestEnvelope where
  "demo_leave = \<lparr>rqe_api_key = kLeaveGroup, rqe_version = 2, rqe_request_id = 43,
     rqe_body = ReqLeaveGroup \<lparr>lgq_group_id = ''g'', lgq_member_id = ''m''\<rparr>\<rparr>"

lemma demo_requests_encode:
  "\<exists>f. EncodeRequest demo_fetch = Inr f" "\<exists>f. EncodeRequest demo_leave = Inr f"
  "request_typed (rqe_body demo_fetch)" "request_typed (rqe_body demo_leave)"
  by (simp_all add: EncodeRequest_Inr_iff demo_fetch_def demo_leave_def EncodeRequestBody_def
      EncodeFetchBody_def EncodeLeaveGroupBody_def AppendString_def Let_def AppendBigEndian_def
      AppendPartitionId_def SupportedProtocolVersion_def kProtocolVersion_def
      kRetryProtocolVersion_def kMaxFrameBytes_def kFrameHeaderBytes_def request_typed_def
      is_i32_def is_i64_def)

text \<open>A fetch response of protocol version 2 with one retried record.\<close>

definition demo_response :: ResponseEnvelope where
  "demo_response = \<lparr>rse_api_key = kFetch, rse_version = 2, rse_request_id = 9,
     rse_error = \<lparr>er_error_code = pkNone, er_message = []\<rparr>,
     rse_body = RspFetch \<lparr>frs_base_offset = 5, frs_high_watermark = 6,
       frs_records = [\<lparr>prc_timestamp = 1, prc_key = ''k'', prc_value = ''v'',
         prc_retry = Some \<lparr>rm_retry_count = 1, rm_next_visible_time = 10, rm_original_topic = ''t'',
           rm_failure_reason = ''r'', rm_original_partition = 0, rm_original_offset = 5\<rparr>\<rparr>]\<rparr>\<rparr>"

lemma demo_response_encodes:
  "\<exists>f. EncodeResponse demo_response = Inr f" "response_typed (rse_body demo_response)"
  by (simp_all add: EncodeResponse_def demo_response_def EncodeResponseBody_def
      EncodeFetchResponseBody_def AppendFetchRecord_def AppendProtocolRecord_def
      AppendRetryMetadata_def AppendString_def Let_def AppendBigEndian_def AppendPartitionId_def
      AppendFrameHeader_def AppendBytes_def SupportedProtocolVersion_def kProtocolVersion_def
      kRetryProtocolVersion_def kMaxFrameBytes_def kFrameHeaderBytes_def response_typed_def
      record_typed_def retry_typed_def is_i32_def is_i64_def)

end
