(* ===== verification/GroupExamples.thy ===== *)
theory GroupExamples
  imports GroupInvariant
begin

text \<open>
  Concrete runs of the group coordinator: two consumers that join one group on a topic of
  three partitions, and a group whose only member leaves and is replaced.
\<close>

definition demo_join :: JoinGroupRequest where
  "demo_join = \<lparr>jgq_group_id = ''g'', jgq_member_id = [], jgq_topic = ''t''\<rparr>"

definition demo_gc1 :: GroupCoordinator where
  "demo_gc1 = snd (JoinGroup 0 demo_join 3 (mk_GroupCoordinator 10000))"

definition demo_gc2 :: GroupCoordinator where
  "demo_gc2 = snd (JoinGroup 1 demo_join 3 demo_gc1)"

definition demo_sync :: "string \<Rightarrow> SyncGroupRequest" where
  "demo_sync member_id =
     \<lparr>sgq_group_id = ''g'', sgq_member_id = member_id, sgq_generation_id = 2\<rparr>"

definition demo_group2 :: GroupState where
  "demo_group2 = \<lparr>gs_group_id = ''g'', gs_topic = ''t'', gs_partition_count = 3, gs_generation_id = 2,
     gs_next_member_sequence = 3, gs_leader_id = ''member-1'',
     gs_members =
       [(''member-1'', \<lparr>ms_member_id = ''member-1'', ms_last_heartbeat = 0,
           ms_assignment = \<lparr>pa_topic = ''t'', pa_partition_ids = [0, 1]\<rparr>\<rparr>),
        (''member-2'', \<lparr>ms_member_id = ''member-2'', ms_last_heartbeat = 1,
           ms_assignment = \<lparr>pa_topic = ''t'', pa_partition_ids = [2]\<rparr>\<rparr>)]\<rparr>"

lemma demo_gc1_eq: "gc_groups demo_gc1 = [(''g'', \<lparr>gs_group_id = ''g'', gs_topic = ''t'', gs_partition_count = 3, gs_generation_id = 1,
     gs_next_member_sequence = 2, gs_leader_id = ''member-1'',
     gs_members =
       [(''member-1'', \<lparr>ms_member_id = ''member-1'', ms_last_heartbeat = 0,
           ms_assignment = \<lparr>pa_topic = ''t'', pa_partition_ids = [0, 1, 2]\<rparr>\<rparr>)]\<rparr>)]"
  by code_simp

lemma demo_gc2_eq: "gc_groups demo_gc2 = [(''g'', demo_group2)]"
  by code_simp

lemma demo_gc2_find: "stdmap_find ''g'' (gc_groups demo_gc2) = Some demo_group2"
  by (simp add: demo_gc2_eq stdmap_find_def)

lemma demo_gc1_reachable: "gc_reachable 10000 demo_gc1"
  unfolding demo_gc1_def by (rule gc_reachable.step [OF gc_reachable.init gc_step.join])

lemma demo_gc2_reachable: "gc_reachable 10000 demo_gc2"
  unfolding demo_gc2_def by (rule gc_reachable.step [OF demo_gc1_reachable gc_step.join])

definition demo_synced1 :: SyncGroupResponse where
  "demo_synced1 = \<lparr>sgs_group_id = ''g'', sgs_member_id = ''member-1'', sgs_generation_id = 2,
     sgs_assignment = \<lparr>pa_topic = ''t'', pa_partition_ids = [0, 1]\<rparr>\<rparr>"

definition demo_synced2 :: SyncGroupResponse where
  "demo_synced2 = \<lparr>sgs_group_id = ''g'', sgs_member_id = ''member-2'', sgs_generation_id = 2,
     sgs_assignment = \<lparr>pa_topic = ''t'', pa_partition_ids = [2]\<rparr>\<rparr>"

lemma demo_syncs:
  "fst (SyncGroup 2 (demo_sync ''member-1'') demo_gc2) = Inr demo_synced1"
  "fst (SyncGroup 3 (demo_sync ''member-2'') (snd (SyncGroup 2 (demo_sync ''member-1'') demo_gc2))) =
   Inr demo_synced2"
  "\<exists>g'. stdmap_find ''g'' (gc_groups (snd (SyncGroup 2 (demo_sync ''member-1'') demo_gc2))) = Some g'"
proof -
  show "fst (SyncGroup 2 (demo_sync ''member-1'') demo_gc2) = Inr demo_synced1" by code_simp
  show "fst (SyncGroup 3 (demo_sync ''member-2'') (snd (SyncGroup 2 (demo_sync ''member-1'') demo_gc2))) =
    Inr demo_synced2" by code_simp
  have "stdmap_find ''g'' (gc_groups (snd (SyncGroup 2 (demo_sync ''member-1'') demo_gc2))) \<noteq> None"
    by code_simp
  then show "\<exists>g'. stdmap_find ''g'' (gc_groups (snd (SyncGroup 2 (demo_sync ''member-1'') demo_gc2))) = Some g'"
    by blast
qed

lemma demo_second_join: "\<exists>response. fst (JoinGroup 1 demo_join 3 demo_gc1) = Inr response"
proof -
  have "fst (JoinGroup 1 demo_join 3 demo_gc1) = Inr \<lparr>jgs_group_id = ''g'', jgs_member_id = ''member-2'',
      jgs_generation_id = 2, jgs_leader_id = ''member-1''\<rparr>" by code_simp
  then show ?thesis by blast
qed

lemma demo_gc2_timeout: "gc_session_timeout demo_gc2 = 10000"
  by code_simp

text \<open>The same group after its only member was silent for longer than the session timeout and the
  scanner ran.\<close>

definition demo_expired :: GroupCoordinator where
  "demo_expired = RunTimeoutScanner 20000000000 (RunTimeoutScanner 20000000000
     (snd (GroupCoordinator_Start demo_gc1)))"

lemma demo_expired_reachable: "gc_reachable 10000 demo_expired"
  unfolding demo_expired_def
  by (intro gc_reachable.step [OF _ gc_step.scan] gc_reachable.step [OF _ gc_step.start]
      demo_gc1_reachable)

end
