(* ===== verification/BrokerExamples.thy ===== *)
theory BrokerExamples
  imports BrokerFacts BrokerLive Routing Examples GroupExamples
begin

text \<open>
  Concrete states of the broker at which the properties of the root theory are applied: a
  broker with one topic of one partition, as it is after the topic was created.
\<close>

definition demo_options :: BrokerServiceOptions where
  "demo_options =
     \<lparr>bso_storage = \<lparr>sc_data_dir = [''d''], sc_segment_bytes = 1024, sc_flush_policy = kAsync, sc_flush_interval = 1000\<rparr>,
      bso_consumer = \<lparr>cc_session_timeout = 10000, cc_rebalance_timeout = 30000\<rparr>,
      bso_retry = \<lparr>ro_delay = 1000, ro_max_retries = 2\<rparr>\<rparr>"

definition demo_tm_options :: TopicManagerOptions where
  "demo_tm_options = \<lparr>tmo_data_dir = [''d''], tmo_segment_bytes = 1024, tmo_index_interval_bytes = 4096\<rparr>"

definition demo_t0 :: CommitLogOptions where
  "demo_t0 = log_options demo_tm_options ''t'' 0"

definition demo_t0_log :: CommitLog where
  "demo_t0_log =
     \<lparr>cl_options = demo_t0,
      cl_segments = [\<lparr>sg_path = SegmentPath demo_t0 0, sg_base_offset = 0, sg_write_position = 0,
        sg_file = \<lparr>f_fd = 3, f_path = SegmentPath demo_t0 0\<rparr>, sg_closed = False\<rparr>],
      cl_indexes = [mk_OffsetIndex (IndexPath demo_t0 0) 0 4096],
      cl_next_offset = 0, cl_closed = False\<rparr>"

definition demo_tm :: TopicManager where
  "demo_tm = \<lparr>tmg_options = demo_tm_options,
     tmg_topics = [(''t'', \<lparr>tp_name = ''t'', tp_partitions = [\<lparr>pt_id = 0, pt_log = demo_t0_log\<rparr>],
       tp_next_partition = 0\<rparr>)]\<rparr>"

definition demo_bs :: BrokerService where
  "demo_bs = (mk_BrokerService demo_options)\<lparr>bs_topics := demo_tm\<rparr>"

definition demo_bdisk :: Disk where
  "demo_bdisk = \<lparr>d_files = [([''d'', ''topics.meta''], metadata_text [\<lparr>tm_topic = ''t'', tm_partition_count = 1\<rparr>])],
     d_dirs = [[''d''], [''d'', ''t''], [''d'', ''t'', ''0'']], d_next_fd = 6, d_script = []\<rparr>"

definition demo_batches :: "TopicName \<times> nat \<rightharpoonup> batches" where
  "demo_batches = [(''t'', 0) \<mapsto> []]"

lemma demo_t0_dir: "clo_data_dir demo_t0 = [''d'', ''t'', ''0'']"
  by code_simp

lemma demo_t0_log_rep: "log_rep (demo_t0_log, demo_bdisk) 0 [(0, [])]"
proof -
  have "d_content demo_bdisk (SegmentPath demo_t0 n) = []" for n
    by (simp add: d_content_def demo_bdisk_def SegmentPath_def demo_t0_dir)
  then show ?thesis
    by (simp add: log_rep_def demo_t0_log_def segs_rep_def seg_rep_def seg_holds_def seg_open_def
      File_is_open_def mk_OffsetIndex_def index_ok_def no_later_files_def)
qed

lemma demo_part_log: "part_log demo_tm topic i = (if topic = ''t'' \<and> i = 0 then Some demo_t0_log else None)"
  by (simp add: part_log_def demo_tm_def stdmap_find_def)

lemma demo_tm_ok: "tm_ok demo_tm"
proof -
  have "log_in demo_t0_log"
    by (auto simp: log_in_def paths_in_def seg_in_def in_dir_def demo_t0_log_def demo_t0_dir SegmentPath_def IndexPath_def mk_OffsetIndex_def)
  moreover have "clo_data_dir (cl_options demo_t0_log) = PartitionPath (tmg_options demo_tm) ''t'' (to_partition_id 0)"
    by (simp add: demo_t0_log_def demo_t0_def demo_tm_def log_options_def to_partition_id_def)
  ultimately show ?thesis
    by (auto simp: tm_ok_def demo_part_log) (simp add: demo_tm_def stdmap_ok_def)
qed

lemma demo_rep: "topics_rep (tops (demo_bs, demo_bdisk)) demo_batches"
proof -
  have "logs_rep (demo_tm, demo_bdisk) demo_batches"
    using demo_tm_ok demo_t0_log_rep
    by (auto simp: logs_rep_def tracked_def demo_batches_def demo_part_log commit_log_rep_def log_batches_def
        split: if_splits intro!: exI [of _ "[(0, [])]"])
  moreover have "topics_synced (demo_tm, demo_bdisk)"
    by (simp add: topics_synced_def metadata_synced_def demo_tm_def demo_bdisk_def d_lookup_def
        MetadataPath_def demo_tm_options_def topic_metadata_def counts_ok_def topic_counts_def stdmap_ok_def)
      (simp add: ValidateTopicName_def strip_internal_def IsInternalTopic_def IsRetryTopic_def IsDlqTopic_def starts_with_def
        kRetryTopicPrefix_def kDlqTopicPrefix_def name_char_def isalnum_def)
  ultimately show ?thesis by (simp add: topics_rep_def tops_def demo_bs_def)
qed

section \<open>Produce and fetch\<close>

definition demo_clock :: Clock where
  "demo_clock = \<lparr>ck_steady = 0, ck_system = 5000, ck_system_later = 5001\<rparr>"

definition demo_produce :: ProduceRequest where
  "demo_produce = \<lparr>prq_topic = ''t'', prq_partition_id = 0,
     prq_records = [\<lparr>prc_timestamp = 7, prc_key = ''k'', prc_value = ''v'', prc_retry = None\<rparr>]\<rparr>"

lemma demo_t0_ready: "disk_ready demo_t0 demo_bdisk"
  by (auto simp: disk_ready_def demo_bdisk_def demo_t0_dir SegmentPath_def IndexPath_def)

lemma demo_produce_fits:
  "batch_ok (map ToStorageRecord (prq_records demo_produce))" "in_memory (map ToStorageRecord (prq_records demo_produce))"
  by (simp_all add: batch_ok_def batch_fits_def in_memory_def record_fits_def demo_produce_def ToStorageRecord_def
      EncodedRecordSize_def kRecordHeaderBytes_def kRecordBatchHeaderBytes_def)

lemma demo_select: "SelectPartition (prq_topic demo_produce) (prq_partition_id demo_produce)
    (prc_key (hd (prq_records demo_produce))) (bs_topics demo_bs) =
    (Inr \<lparr>ps_id = 0, ps_partition = \<lparr>pt_id = 0, pt_log = demo_t0_log\<rparr>\<rparr>, demo_tm)"
  by (simp add: SelectPartition_def demo_produce_def demo_bs_def demo_tm_def stdmap_find_def kInvalidPartitionId_def)

lemma demo_user_topic: "\<not> IsInternalTopic (prq_topic demo_produce)"
  by (simp add: demo_produce_def IsInternalTopic_def IsRetryTopic_def IsDlqTopic_def starts_with_def
      kRetryTopicPrefix_def kDlqTopicPrefix_def)

lemma demo_t0_fields: "cl_options demo_t0_log = demo_t0" "cl_next_offset demo_t0_log = 0"
  by (simp_all add: demo_t0_log_def)

lemma demo_settings:
  "prq_topic demo_produce = ''t''" "int (length (prq_records demo_produce)) \<le> i64_max - 0"
  "sc_flush_policy (bso_storage (bs_options demo_bs)) \<noteq> kSync" "stdmap_ok (tmg_topics (bs_topics demo_bs))"
  "part_log (bs_topics demo_bs) (prq_topic demo_produce) 0 = Some demo_t0_log"
  by (simp_all add: demo_produce_def demo_bs_def demo_part_log mk_BrokerService_def demo_options_def)
    (simp_all add: demo_tm_def stdmap_ok_def)

lemma demo_small: "length (batch_bytes 0 (map ToStorageRecord (prq_records demo_produce))) \<le> unat (4096 :: u32)"
  by (simp add: demo_produce_def ToStorageRecord_def EncodedRecordSize_def kRecordHeaderBytes_def kRecordBatchHeaderBytes_def)

lemma demo_produce_fetch:
  "\<exists>n. fst (HandleProduce env demo_produce (demo_bs, demo_bdisk)) =
     MakeSuccess env (RspProduce \<lparr>prs_partition_id = 0, prs_base_offset = 0, prs_record_count = n\<rparr>)"
  "succeeded (fst (HandleFetch env' \<lparr>frq_topic = ''t'', frq_partition_id = 0, frq_offset = 0, frq_max_bytes = 4096\<rparr>
     (snd (HandleProduce env demo_produce (demo_bs, demo_bdisk)))))"
proof -
  note pf = produce_then_fetch [OF demo_t0_log_rep _ demo_produce_fits _ demo_user_topic demo_select demo_settings(3,4),
      unfolded demo_t0_fields]
  show "\<exists>n. fst (HandleProduce env demo_produce (demo_bs, demo_bdisk)) =
      MakeSuccess env (RspProduce \<lparr>prs_partition_id = 0, prs_base_offset = 0, prs_record_count = n\<rparr>)"
    using pf(1) [OF demo_t0_ready demo_settings(2) _ _ demo_small] demo_settings(5) by (simp add: log_batches_def)
  show "succeeded (fst (HandleFetch env' \<lparr>frq_topic = ''t'', frq_partition_id = 0, frq_offset = 0, frq_max_bytes = 4096\<rparr>
      (snd (HandleProduce env demo_produce (demo_bs, demo_bdisk)))))"
    using pf(2) [OF demo_t0_ready demo_settings(2) _ _ demo_small] demo_settings(5)
    by (simp add: log_batches_def demo_settings(1))
qed

section \<open>Restart\<close>

definition demo_t :: TopicMetadata where
  "demo_t = \<lparr>tm_topic = ''t'', tm_partition_count = 1\<rparr>"

lemma demo_load_steps:
  "create_directories [''d''] demo_bdisk = (Inr (), demo_bdisk)"
  "sys_exists [''d'', ''topics.meta''] demo_bdisk = (Inr True, demo_bdisk)"
  "fst (ifstream [''d'', ''topics.meta''] demo_bdisk) = Some (metadata_text [demo_t], True)"
  "case fst (OpenTopic demo_tm_options ''t'' 1 (snd (ifstream [''d'', ''topics.meta''] demo_bdisk))) of
     Inl _ \<Rightarrow> False | Inr _ \<Rightarrow> True"
  "Status_ok (ValidateTopicName ''t'')"
  by code_simp+

lemma demo_load: "fst (TopicManager_Load (mk_TopicManager demo_tm_options, demo_bdisk)) = Inr ()"
proof -
  have valid: "\<forall>t \<in> set [demo_t]. Status_ok (ValidateTopicName (tm_topic t))"
    using demo_load_steps(5) by (simp add: demo_t_def)
  from metadata_text_lines [OF this] obtain rest where
    rest: "getline (metadata_text [demo_t], True) = Some (kTopicMetadataMagic, (rest, True))"
      "stream_lines (rest, True) = [metadata_line demo_t]" by auto
  obtain d1 where fs: "ifstream [''d'', ''topics.meta''] demo_bdisk = (Some (metadata_text [demo_t], True), d1)"
    using demo_load_steps(3) by (metis prod.collapse)
  obtain t d2 where op: "OpenTopic demo_tm_options ''t'' 1 d1 = (Inr t, d2)"
    using demo_load_steps(4) fs by (cases "OpenTopic demo_tm_options ''t'' 1 d1") (auto split: sum.splits)
  have line: "metadata_line demo_t \<noteq> []" "parse_metadata_line (metadata_line demo_t) = Some (''t'', 1)"
    using parse_metadata_line_line [of demo_t] valid by (simp_all add: demo_t_def metadata_line_def)
  have "load_lines demo_tm_options 1 [metadata_line demo_t] [] d1 = (Inr (stdmap_emplace ''t'' t []), d2)"
    using line op demo_load_steps(5) by (simp add: stdmap_find_def)
  with demo_load_steps(1,2) fs rest show ?thesis
    by (simp add: TopicManager_Load_def mk_TopicManager_def demo_tm_options_def MetadataPath_def)
qed

lemma demo_topic:
  "stdmap_find ''t'' (tmg_topics demo_tm) =
     Some \<lparr>tp_name = ''t'', tp_partitions = [\<lparr>pt_id = 0, pt_log = demo_t0_log\<rparr>], tp_next_partition = 0\<rparr>"
  "numbered \<lparr>tp_name = ''t'', tp_partitions = [\<lparr>pt_id = 0, pt_log = demo_t0_log\<rparr>], tp_next_partition = 0\<rparr>"
  by (simp_all add: demo_tm_def stdmap_find_def numbered_def)

section \<open>Other requests\<close>

definition demo_metadata :: RequestEnvelope where
  "demo_metadata = \<lparr>rqe_api_key = kMetadata, rqe_version = 1, rqe_request_id = 44,
     rqe_body = ReqMetadata \<lparr>mrq_topic = ''t''\<rparr>\<rparr>"

lemma demo_metadata_ok: "succeeded (fst (Handle demo_clock demo_metadata (demo_bs, demo_bdisk)))"
  by code_simp

definition demo_commit :: CommitOffsetRequest where
  "demo_commit = \<lparr>coq_group_id = ''g'', coq_topic = ''t'', coq_partition_id = 0, coq_offset = 0\<rparr>"

lemma demo_commit_ok: "succeeded (fst (HandleCommitOffset demo_fetch demo_commit (demo_bs, demo_bdisk)))"
  by code_simp

definition demo_empty_disk :: Disk where
  "demo_empty_disk = \<lparr>d_files = [], d_dirs = [], d_next_fd = 3, d_script = []\<rparr>"

definition demo_retry :: ProtocolRecord where
  "demo_retry = \<lparr>prc_timestamp = 7, prc_key = ''k'', prc_value = ''v'',
     prc_retry = Some \<lparr>rm_retry_count = 1, rm_next_visible_time = 6000, rm_original_topic = ''t'',
       rm_failure_reason = ''r'', rm_original_partition = 0, rm_original_offset = 0\<rparr>\<rparr>"

lemma demo_retry_ok: "\<exists>stored. EncodeRetryRecord demo_retry = Inr stored" "record_typed demo_retry"
  by (simp_all add: EncodeRetryRecord_def EncodeResponse_def retry_envelope_def demo_retry_def EncodeResponseBody_def
      EncodeFetchResponseBody_def AppendFetchRecord_def AppendProtocolRecord_def
      AppendRetryMetadata_def AppendString_def Let_def AppendBigEndian_def AppendPartitionId_def
      AppendFrameHeader_def AppendBytes_def SupportedProtocolVersion_def kProtocolVersion_def
      kRetryProtocolVersion_def kMaxFrameBytes_def kFrameHeaderBytes_def
      record_typed_def retry_typed_def is_i32_def is_i64_def
      IsInternalTopic_def IsRetryTopic_def IsDlqTopic_def starts_with_def kRetryTopicPrefix_def kDlqTopicPrefix_def)

section \<open>A retry topic\<close>

definition demo_ops :: "retry_op list" where
  "demo_ops = [OpSchedule 5001 ''%RETRY%t'' 0 0 6000, OpRun 6001]"

definition demo_retry_fetch :: FetchRequest where
  "demo_retry_fetch = \<lparr>frq_topic = ''%RETRY%t'', frq_partition_id = 0, frq_offset = 0, frq_max_bytes = 4096\<rparr>"

lemma demo_ops_visible: "list_all op_ok demo_ops" "VisibleEnd ''%RETRY%t'' 0 (retry_exec demo_ops) = 1"
  "IsRetryTopic ''%RETRY%t''"
  by code_simp+

text \<open>A broker whose retry topic holds the one record, and whose scheduler has released it.\<close>

lemma demo_retry_state:
  obtains st f where "bs_retries (fst st) = retry_exec demo_ops" "succeeded (fst (HandleFetch demo_fetch demo_retry_fetch st))"
    "rse_body (fst (HandleFetch demo_fetch demo_retry_fetch st)) = RspFetch f" "frs_records f = [demo_retry\<lparr>prc_retry := None\<rparr>]"
proof -
  obtain stored where enc: "EncodeRetryRecord demo_retry = Inr stored" using demo_retry_ok(1) by blast
  note fits = EncodeRetryRecord_in_memory [OF enc]
  from CommitLog_Append_ok [OF demo_t0_log_rep _ fits(2,1), unfolded demo_t0_fields, OF demo_t0_ready]
  obtain a log d where ap: "CommitLog_Append [stored] (demo_t0_log, demo_bdisk) = (Inr a, (log, d))" "disk_ready (cl_options log) d"
    by auto
  from CommitLog_Append_refines [OF demo_t0_log_rep fits(1) ap(1)] obtain S where
    rep: "log_rep (log, d) 0 S" "log_batches S = [(0, [stored])]" "cl_next_offset log = 1"
    by (auto simp: demo_t0_fields log_batches_def)
  have small: "length (batch_bytes 0 [stored]) \<le> kMaxRetryBatchBytes"
    using fits(3,4) by (simp add: kMaxRetryBatchBytes_def kMaxFrameBytes_def EncodedRecordSize_def kRecordHeaderBytes_def
        kRecordBatchHeaderBytes_def demo_retry_def)
  have "\<exists>v. CommitLog_Read 0 kMaxRetryBatchBytes (log, d) = (Inr v, (log, d))"
    by (rule CommitLog_Read_ok [OF rep(1)]) (use ap(2) rep(2,3) small in \<open>auto simp: disk_ready_def\<close>)
  then obtain v where rd: "CommitLog_Read 0 kMaxRetryBatchBytes (log, d) = (Inr v, (log, d))" ..
  from clog.read_ok [of "(log, d)" 0 "[(0, [stored])]" 1, OF _ rd] rep have v: "v = mk_batch 0 [stored]"
    by (force simp: commit_log_rep_def)
  let ?bs = "demo_bs\<lparr>bs_topics := demo_tm\<lparr>tmg_topics := [(''%RETRY%t'', \<lparr>tp_name = ''%RETRY%t'',
      tp_partitions = [\<lparr>pt_id = 0, pt_log = log\<rparr>], tp_next_partition = 0\<rparr>)]\<rparr>, bs_retries := retry_exec demo_ops\<rparr>"
  have "DecodeRetryRecord (stamp_crc stored) = Inr demo_retry"
    unfolding stamp_crc_def by (rule retry_record_roundtrip [OF enc demo_retry_ok(2)])
  then have recs: "fetch_records True (rqe_version demo_fetch) (unat (frq_max_bytes demo_retry_fetch)) (rb_records v) =
      Inr [demo_retry\<lparr>prc_retry := None\<rparr>]"
    by (simp add: v mk_batch_def demo_fetch_def demo_retry_fetch_def kProtocolVersion_def ToStorageRecord_def demo_retry_def
        EncodedRecordSize_def kRecordHeaderBytes_def kRecordBatchHeaderBytes_def)
  have "fst (HandleFetch demo_fetch demo_retry_fetch (?bs, d)) = MakeSuccess demo_fetch (RspFetch
      \<lparr>frs_base_offset = rb_base_offset v, frs_high_watermark = 1, frs_records = [demo_retry\<lparr>prc_retry := None\<rparr>]\<rparr>)"
    using HandleFetch_retry_ok [of demo_retry_fetch ?bs "\<lparr>pt_id = 0, pt_log = log\<rparr>" d v log d demo_fetch, OF _ _ _ _ _ _ _ recs]
      demo_ops_visible rd rep(3)
    by (simp add: demo_retry_fetch_def GetPartition_def stdmap_find_def stdmap_ok_def)
  then show thesis using that [of "(?bs, d)"] by simp
qed

section \<open>A group behind the handlers\<close>

definition demo_create :: RequestEnvelope where
  "demo_create = \<lparr>rqe_api_key = kCreateTopic, rqe_version = 1, rqe_request_id = 1,
     rqe_body = ReqCreateTopic \<lparr>ctq_topic = ''t'', ctq_partition_count = 3\<rparr>\<rparr>"

definition demo_join_request :: RequestEnvelope where
  "demo_join_request = \<lparr>rqe_api_key = kJoinGroup, rqe_version = 1, rqe_request_id = 2, rqe_body = ReqJoinGroup demo_join\<rparr>"

definition demo_created :: broker where
  "demo_created = snd (Handle demo_clock demo_create (mk_BrokerService demo_options, demo_empty_disk))"

definition demo_joined :: broker where
  "demo_joined = snd (Handle demo_clock demo_join_request demo_created)"

lemma demo_joined_run: "broker_step\<^sup>*\<^sup>* (mk_BrokerService demo_options, demo_empty_disk) demo_joined"
proof -
  have "broker_step (mk_BrokerService demo_options, demo_empty_disk) demo_created"
    unfolding demo_created_def by (rule broker_step.handle) (simp add: request_fits_def demo_create_def)
  moreover have "broker_step demo_created demo_joined"
    unfolding demo_joined_def by (rule broker_step.handle) (simp add: request_fits_def demo_join_request_def)
  ultimately show ?thesis by simp
qed

definition demo_group1 :: GroupState where
  "demo_group1 = \<lparr>gs_group_id = ''g'', gs_topic = ''t'', gs_partition_count = 3, gs_generation_id = 1,
     gs_next_member_sequence = 2, gs_leader_id = ''member-1'',
     gs_members = [(''member-1'', \<lparr>ms_member_id = ''member-1'', ms_last_heartbeat = 0,
       ms_assignment = \<lparr>pa_topic = ''t'', pa_partition_ids = [0, 1, 2]\<rparr>\<rparr>)]\<rparr>"

lemma demo_joined_group: "gc_groups (bs_groups (fst demo_joined)) = [(''g'', demo_group1)]"
  by code_simp

end
