(* ===== verification/BrokerProperties.thy ===== *)
theory BrokerProperties
  imports BrokerExamples
begin

text \<open>
  The properties of the broker: what a client of the running broker can rely on, across the
  log, the topics, the committed offsets, the retries and the groups.
\<close>

section \<open>Records\<close>

text \<open>
  C20. End-to-end durability. When \<^verbatim>\<open>HandleProduce\<close> answers with success, then after any further
  steps of the broker (requests of any kind, turns of the flusher, of the group scanner and
  of the retry thread, under any system call outcomes) every successful fetch of one of the
  offsets it gave out returns exactly the records of the request, under the base offset of
  the answer. The tracked partitions are those whose log represents a list of batches.
\<close>

theorem produce_durable:
  assumes "topics_rep (tops st) A" "in_memory (map ToStorageRecord (prq_records q))"
    and "succeeded (fst (HandleProduce env q st))" "rse_body (fst (HandleProduce env q st)) = RspProduce p"
    and "A (prq_topic q, nat (prs_partition_id p)) \<noteq> None"
    and "broker_step\<^sup>*\<^sup>* (snd (HandleProduce env q st)) st'"
    and "prs_base_offset p \<le> off" "off < prs_base_offset p + int (length (prq_records q))"
    and "fetch = \<lparr>frq_topic = prq_topic q, frq_partition_id = prs_partition_id p, frq_offset = off, frq_max_bytes = m\<rparr>"
    and "succeeded (fst (HandleFetch env' fetch st'))"
  shows "\<exists>f. rse_body (fst (HandleFetch env' fetch st')) = RspFetch f \<and> frs_base_offset f = prs_base_offset p \<and>
    frs_records f = map (\<lambda>r. r\<lparr>prc_retry := None\<rparr>) (prq_records q)"
  using produced_batch_fetched [OF assms(1,2) surjective_pairing assms(3-8)] assms(9,10)
  by (metis surjective_pairing)

theorem produce_durable_witness:
  "\<exists>f. rse_body (fst (HandleFetch demo_fetch \<lparr>frq_topic = ''t'', frq_partition_id = 0, frq_offset = 0,
       frq_max_bytes = 4096\<rparr> (snd (HandleProduce demo_fetch demo_produce (demo_bs, demo_bdisk))))) = RspFetch f \<and>
     frs_base_offset f = 0 \<and> frs_records f = prq_records demo_produce"
proof -
  obtain n where p: "fst (HandleProduce demo_fetch demo_produce (demo_bs, demo_bdisk)) =
      MakeSuccess demo_fetch (RspProduce \<lparr>prs_partition_id = 0, prs_base_offset = 0, prs_record_count = n\<rparr>)"
    using demo_produce_fetch(1) by blast
  let ?p = "\<lparr>prs_partition_id = 0, prs_base_offset = 0, prs_record_count = n\<rparr>"
  have "\<exists>f. rse_body (fst (HandleFetch demo_fetch \<lparr>frq_topic = ''t'', frq_partition_id = 0, frq_offset = 0,
       frq_max_bytes = 4096\<rparr> (snd (HandleProduce demo_fetch demo_produce (demo_bs, demo_bdisk))))) = RspFetch f \<and>
      frs_base_offset f = prs_base_offset ?p \<and>
      frs_records f = map (\<lambda>r. r\<lparr>prc_retry := None\<rparr>) (prq_records demo_produce)"
    by (rule produce_durable [OF demo_rep demo_produce_fits(2), where p = ?p and env = demo_fetch])
      (use p demo_produce_fetch(2) in \<open>simp_all add: demo_batches_def\<close>, simp_all add: demo_produce_def)
  then show ?thesis by (simp add: demo_produce_def)
qed



text \<open>
  C22. A restart finds the topics: at any moment of a run, the list of topics that
  \<^verbatim>\<open>TopicManager::Load\<close> reads back from the disk, when it succeeds, is the list of the running
  broker, with the same partition counts, also after failed or interrupted creations.
\<close>

theorem restart_finds_topics:
  assumes "topics_rep (tops st) A" "broker_step\<^sup>*\<^sup>* st (bs, d)"
    and "fst (TopicManager_Load (mk_TopicManager (tmg_options (bs_topics bs)), d)) = Inr ()"
  shows "topic_counts (fst (snd (TopicManager_Load (mk_TopicManager (tmg_options (bs_topics bs)), d)))) =
    topic_counts (bs_topics bs)"
  using restart_topics [OF assms(1,2), of _ "snd (snd (TopicManager_Load (mk_TopicManager (tmg_options (bs_topics bs)), d)))"]
    assms(3) by (metis prod.collapse)

theorem restart_finds_topics_witness:
  "fst (TopicManager_Load (mk_TopicManager demo_tm_options, demo_bdisk)) = Inr () \<and>
   topic_counts (fst (snd (TopicManager_Load (mk_TopicManager demo_tm_options, demo_bdisk)))) = [(''t'', 1)]"
  using restart_finds_topics [OF demo_rep rtranclp.rtrancl_refl] demo_load
  by (simp add: demo_bs_def demo_tm_def topic_counts_def)

text \<open>
  C23. Creating a topic is all or nothing, whatever system call fails: a failed creation leaves
  the table of topics as it was, a successful one adds the topic with the requested number
  of partitions; in both cases the metadata file keeps listing exactly the topics, every
  existing partition keeps its log, and no segment file of it changes.
\<close>

theorem create_topic_atomic:
  assumes "tm_ok tm" "metadata_synced tm d"
  shows "metadata_synced (fst (snd (CreateTopic topic n (tm, d)))) (snd (snd (CreateTopic topic n (tm, d)))) \<and>
    (\<forall>t i. part_log tm t i = None \<or>
       part_log (fst (snd (CreateTopic topic n (tm, d)))) t i = part_log tm t i \<and>
       (\<forall>k. d_content (snd (snd (CreateTopic topic n (tm, d)))) (SegmentPath (cl_options (the (part_log tm t i))) k) =
            d_content d (SegmentPath (cl_options (the (part_log tm t i))) k))) \<and>
    (case fst (CreateTopic topic n (tm, d)) of
       Inl e \<Rightarrow> fst (snd (CreateTopic topic n (tm, d))) = tm
     | Inr _ \<Rightarrow> \<exists>t. stdmap_find topic (tmg_topics (fst (snd (CreateTopic topic n (tm, d))))) = Some t \<and>
         length (tp_partitions t) = unat n)"
proof -
  obtain r tm' d' where run: "CreateTopic topic n (tm, d) = (r, (tm', d'))" by (metis prod_cases3)
  note c = CreateTopic_spec [OF assms(1) run]
  have "\<exists>t. stdmap_find topic (tmg_topics tm') = Some t \<and> length (tp_partitions t) = unat n" if "r = Inr u" for u
    using CreateTopic_adds [OF assms(1) run that] .
  with c assms(2) show ?thesis unfolding run fst_conv snd_conv
    by (auto simp: logs_quiet_def same_logs_def split: sum.split)
qed

theorem create_topic_atomic_witness:
  "metadata_synced (fst (snd (CreateTopic ''u'' 2 (demo_tm, demo_bdisk)))) (snd (snd (CreateTopic ''u'' 2 (demo_tm, demo_bdisk)))) \<and>
   part_log (fst (snd (CreateTopic ''u'' 2 (demo_tm, demo_bdisk)))) ''t'' 0 = Some demo_t0_log"
proof -
  have "metadata_synced demo_tm demo_bdisk"
    using demo_rep by (simp add: topics_rep_def topics_synced_def tops_def demo_bs_def)
  note c = create_topic_atomic [OF demo_tm_ok this, of "''u''" 2]
  show ?thesis using c [THEN conjunct1] c [THEN conjunct2, THEN conjunct1, rule_format, of "''t''" 0]
    by (simp add: demo_part_log)
qed

section \<open>Routing\<close>





section \<open>Replies\<close>

text \<open>
  C26. Every request gets a fitting reply: with its id and its api key, in a protocol version the
  client can read (its own, if the broker supports it), and, unless it carries an error code,
  with the body that belongs to the api key, so that encoding it never meets a wrong body.
\<close>

theorem reply_form:
  "rse_request_id (fst (Handle clock request st)) = rqe_request_id request \<and>
   rse_api_key (fst (Handle clock request st)) = rqe_api_key request \<and>
   rse_version (fst (Handle clock request st)) =
     (if SupportedProtocolVersion (rqe_version request) then rqe_version request else kProtocolVersion) \<and>
   (succeeded (fst (Handle clock request st)) \<longrightarrow>
      body_key (rse_body (fst (Handle clock request st))) = rqe_api_key request)"
  using Handle_reply [of request clock st] by (simp add: reply_to_def reply_version_def)

theorem reply_form_witness:
  "succeeded (fst (Handle demo_clock demo_metadata (demo_bs, demo_bdisk))) \<and>
   body_key (rse_body (fst (Handle demo_clock demo_metadata (demo_bs, demo_bdisk)))) = kMetadata"
  using reply_form [of demo_clock demo_metadata "(demo_bs, demo_bdisk)"] demo_metadata_ok
  by (simp add: demo_metadata_def)

section \<open>Committed offsets\<close>

text \<open>
  C27. A committed offset is kept, in memory and on disk: after a successful
  \<^verbatim>\<open>HandleCommitOffset\<close>, \<^verbatim>\<open>HandleFetchCommittedOffset\<close> returns the offset, no other
  key is affected, and the file that was written has a name and a text from which \<^verbatim>\<open>Load\<close>
  recovers the same key and offset. The offset is not beyond the end of the log.
\<close>

theorem committed_offset_kept:
  assumes "stdmap_ok (os_offsets (bs_offsets (fst st)))" "succeeded (fst (HandleCommitOffset env q st))"
    and "coq_partition_id q \<le> i32_max" "coq_offset q \<le> i64_max"
  defines "st' \<equiv> snd (HandleCommitOffset env q st)"
    and "file \<equiv> OffsetPath (bs_offsets (fst st)) (coq_group_id q) (coq_topic q) (coq_partition_id q)"
    and "key \<equiv> (coq_group_id q, coq_topic q, coq_partition_id q)"
  shows "fst (HandleFetchCommittedOffset env' \<lparr>fcq_group_id = coq_group_id q, fcq_topic = coq_topic q,
        fcq_partition_id = coq_partition_id q\<rparr> st') =
      MakeSuccess env' (RspFetchCommittedOffset \<lparr>fcs_group_id = coq_group_id q, fcs_topic = coq_topic q,
        fcs_partition_id = coq_partition_id q, fcs_committed = True, fcs_offset = coq_offset q\<rparr>) \<and>
    (\<forall>k. stdmap_find k (os_offsets (bs_offsets (fst st'))) =
       (if k = key then Some (coq_offset q) else stdmap_find k (os_offsets (bs_offsets (fst st))))) \<and>
    ParseOffsetFilename (last file) = Some (coq_topic q, coq_partition_id q) \<and>
    load_offset_text (coq_group_id q) (coq_topic q) (coq_partition_id q) (the (d_lookup (snd st') file), True) =
      Inr (key, coq_offset q) \<and>
    (\<exists>part. GetPartition (coq_topic q) (coq_partition_id q) (bs_topics (fst st)) = Inr part \<and>
      coq_offset q \<le> cl_next_offset (pt_log part))"
proof -
  have run: "HandleCommitOffset env q st = (fst (HandleCommitOffset env q st), st')" by (simp add: st'_def)
  note c = commit_fetch [OF run assms(2,1)]
  have topics: "bs_topics (fst st') = bs_topics (fst st)"
    unfolding st'_def by (simp add: HandleCommitOffset_def case_prod_unfold split: sum.split)
  from c(8) topics obtain part where "GetPartition (coq_topic q) (coq_partition_id q) (bs_topics (fst st')) = Inr part" by auto
  with c(1) have "fst (HandleFetchCommittedOffset env' \<lparr>fcq_group_id = coq_group_id q, fcq_topic = coq_topic q,
        fcq_partition_id = coq_partition_id q\<rparr> st') =
      MakeSuccess env' (RspFetchCommittedOffset \<lparr>fcs_group_id = coq_group_id q, fcs_topic = coq_topic q,
        fcs_partition_id = coq_partition_id q, fcs_committed = True, fcs_offset = coq_offset q\<rparr>)"
    by (simp add: HandleFetchCommittedOffset_def)
  moreover have "stdmap_find key (os_offsets (bs_offsets (fst st'))) = Some (coq_offset q)"
    using c(1) by (auto simp: Fetch_def key_def split: if_splits)
  moreover note ParseOffsetFilename_roundtrip [OF c(5,6) assms(3)] load_offset_text_roundtrip [OF c(4-6) assms(3) c(7) assms(4)]
  ultimately show ?thesis using c(2,3,8) unfolding file_def key_def by simp
qed

theorem committed_offset_kept_witness:
  "succeeded (fst (HandleCommitOffset demo_fetch demo_commit (demo_bs, demo_bdisk))) \<and>
   stdmap_find (''g'', ''t'', 0) (os_offsets (bs_offsets (fst (snd (HandleCommitOffset demo_fetch demo_commit
     (demo_bs, demo_bdisk)))))) = Some 0"
proof -
  have "stdmap_ok (os_offsets (bs_offsets (fst (demo_bs, demo_bdisk))))"
    by (simp add: demo_bs_def mk_BrokerService_def mk_OffsetStore_def stdmap_ok_def)
  note c = committed_offset_kept [OF this demo_commit_ok, THEN conjunct2, THEN conjunct1, rule_format]
  from c [of "(''g'', ''t'', 0)"] demo_commit_ok show ?thesis by (simp add: demo_commit_def)
qed

section \<open>Retries\<close>


text \<open>
  C29. The envelope of a retried record keeps it: decoding what \<^verbatim>\<open>EncodeRetryRecord\<close> built,
  with whatever checksum the log added, gives the record and its retry metadata back.
\<close>

theorem retry_envelope_roundtrip:
  assumes "EncodeRetryRecord r = Inr stored" "record_typed r"
  shows "DecodeRetryRecord (stored\<lparr>rec_crc32 := crc\<rparr>) = Inr r"
  using retry_record_roundtrip [OF assms] .

theorem retry_envelope_roundtrip_witness:
  "\<exists>stored. EncodeRetryRecord demo_retry = Inr stored \<and> DecodeRetryRecord (stored\<lparr>rec_crc32 := 9\<rparr>) = Inr demo_retry"
  using retry_envelope_roundtrip [OF _ demo_retry_ok(2)] demo_retry_ok(1) by blast



text \<open>
  The retry thread does not oversleep: it waits without a limit only when nothing is
  scheduled, otherwise at most a second and never past the time of the earliest task.
\<close>

theorem retry_thread_wakes:
  "case run_delay now rs of
     None \<Rightarrow> rs_tasks rs = []
   | Some delay \<Rightarrow> unat delay \<le> 1000 \<and> rs_tasks rs \<noteq> [] \<and>
       unat now + unat delay \<le> max (unat now) (unat (rt_time (hd (rs_tasks rs))))"
  by (rule run_delay_bound)

section \<open>Groups and configuration\<close>





end
