(* ===== verification/Sockets.thy ===== *)
theory Sockets
  imports BaseStatus
begin

text \<open>
  Stream sockets as the server and the client use them. A socket is a script of what the
  coming reads and writes meet, and the bytes it has taken over so far: a read meets bytes
  that have arrived, the end of the stream or an error; a write takes over some number of
  bytes or fails. Past the end of the script a call would block, which a non-blocking
  descriptor and an expired timeout both report as \<^verbatim>\<open>EAGAIN\<close> (\<^verbatim>\<open>EWOULDBLOCK\<close> is the same
  number). Theorems quantify over the script, hence over every pattern of short
  transfers, interrupts and failures. Calls on a closed descriptor, \<open>-1\<close>, fail.
\<close>

datatype sock_errno = SEintr | SEagain | SEtimedout | SErrno string

definition sock_strerror :: "sock_errno \<Rightarrow> string" where
  "sock_strerror e = (case e of SEintr \<Rightarrow> ''Interrupted system call''
     | SEagain \<Rightarrow> ''Resource temporarily unavailable'' | SEtimedout \<Rightarrow> ''Connection timed out''
     | SErrno s \<Rightarrow> s)"

datatype recv_ret = Arrived byte "byte list" | Eof | RecvErr sock_errno

datatype send_ret = Sent nat | SendErr sock_errno

record Socket =
  so_recv :: "recv_ret list"
  so_send :: "send_ret list"
  so_sent :: "byte list"

definition ebadf :: sock_errno where "ebadf = SErrno ''Bad file descriptor''"

text \<open>A read of at most \<open>n\<close> bytes; no bytes is the end of the stream, which stays.\<close>

definition sys_read :: "int \<Rightarrow> nat \<Rightarrow> Socket \<Rightarrow> (sock_errno + byte list) \<times> Socket" where
  "sys_read fd n s =
     (if fd < 0 then (Inl ebadf, s)
      else case so_recv s of
          [] \<Rightarrow> (Inl SEagain, s)
        | Arrived b bs # rs \<Rightarrow>
            (Inr (take n (b # bs)),
             s\<lparr>so_recv := (case drop n (b # bs) of [] \<Rightarrow> rs | b' # bs' \<Rightarrow> Arrived b' bs' # rs)\<rparr>)
        | Eof # rs \<Rightarrow> (Inr [], s)
        | RecvErr e # rs \<Rightarrow> (Inl e, s\<lparr>so_recv := rs\<rparr>))"

definition sys_write :: "int \<Rightarrow> byte list \<Rightarrow> Socket \<Rightarrow> (sock_errno + nat) \<times> Socket" where
  "sys_write fd bs s =
     (if fd < 0 then (Inl ebadf, s)
      else case so_send s of
          [] \<Rightarrow> (Inl SEagain, s)
        | Sent k # rs \<Rightarrow>
            (Inr (min k (length bs)), s\<lparr>so_send := rs, so_sent := so_sent s @ take k bs\<rparr>)
        | SendErr e # rs \<Rightarrow> (Inl e, s\<lparr>so_send := rs\<rparr>))"

section \<open>Progress and effect\<close>

definition recv_size :: "recv_ret \<Rightarrow> nat" where
  "recv_size r = (case r of Arrived b bs \<Rightarrow> Suc (length bs) | _ \<Rightarrow> 1)"

definition recv_left :: "Socket \<Rightarrow> nat" where
  "recv_left s = sum_list (map recv_size (so_recv s))"

text \<open>The bytes that have arrived up to the end of the stream; errors are passed over.\<close>

fun arrived :: "recv_ret list \<Rightarrow> byte list" where
  "arrived [] = []"
| "arrived (Arrived b bs # rs) = b # bs @ arrived rs"
| "arrived (Eof # rs) = []"
| "arrived (RecvErr e # rs) = arrived rs"

lemma sys_read_less:
  "sys_read fd n s = (Inr bs, s') \<Longrightarrow> bs \<noteq> [] \<Longrightarrow> recv_left s' < recv_left s"
  by (cases n) (auto simp: sys_read_def recv_left_def recv_size_def split: list.splits recv_ret.splits if_splits
      dest: arg_cong [of _ _ length])

lemma sys_read_err_less:
  "sys_read fd n s = (Inl e, s') \<Longrightarrow> e \<noteq> SEagain \<Longrightarrow> 0 \<le> fd \<Longrightarrow> recv_left s' < recv_left s"
  by (auto simp: sys_read_def recv_left_def recv_size_def split: list.splits recv_ret.splits)

lemma sys_read_arrived:
  "sys_read fd n s = (Inr bs, s') \<Longrightarrow> bs \<noteq> [] \<Longrightarrow>
   length bs \<le> n \<and> arrived (so_recv s) = bs @ arrived (so_recv s') \<and>
   so_sent s' = so_sent s \<and> so_send s' = so_send s"
  by (auto simp: sys_read_def split: list.splits recv_ret.splits if_splits)
    (metis append_Cons append_take_drop_id append.assoc append_Nil2)+

lemma sys_read_Inl:
  "sys_read fd n s = (Inl e, s') \<Longrightarrow>
   arrived (so_recv s') = arrived (so_recv s) \<and> so_sent s' = so_sent s \<and> so_send s' = so_send s"
  by (auto simp: sys_read_def split: list.splits recv_ret.splits if_splits)

lemma sys_read_closed: "fd < 0 \<Longrightarrow> sys_read fd n s = (Inl ebadf, s)"
  by (simp add: sys_read_def)

lemma sys_write_Inr:
  "sys_write fd bs s = (Inr n, s') \<Longrightarrow>
   n \<le> length bs \<and> so_sent s' = so_sent s @ take n bs \<and> so_recv s' = so_recv s \<and>
   length (so_send s') < length (so_send s)"
  by (auto simp: sys_write_def min_def split: list.splits send_ret.splits if_splits)

lemma sys_write_Inl:
  "sys_write fd bs s = (Inl e, s') \<Longrightarrow>
   so_sent s' = so_sent s \<and> so_recv s' = so_recv s \<and> (e = SEagain \<or> e = ebadf \<or> SendErr e \<in> set (so_send s))"
  by (auto simp: sys_write_def split: list.splits send_ret.splits if_splits)

end
