(* ===== verification/NetBuffer.thy ===== *)
theory NetBuffer
  imports Sockets "HOL-Library.Sublist"
begin

text \<open>
  Models \<^verbatim>\<open>include/logmq/net/buffer.h\<close> and \<^verbatim>\<open>src/net/buffer.cpp\<close>: the output buffer of a
  connection, a vector with a read index that is compacted from time to time. To its clients
  it is a queue of bytes; the locale \<open>byte_queue\<close> states that contract and the buffer is
  shown to meet it.
\<close>

section \<open>The buffer\<close>

record Buffer =
  bf_data :: "byte list"
  bf_reader_index :: nat

definition mk_Buffer :: Buffer where
  "mk_Buffer = \<lparr>bf_data = [], bf_reader_index = 0\<rparr>"

definition readable_bytes :: "Buffer \<Rightarrow> nat" where
  "readable_bytes b = length (bf_data b) - bf_reader_index b"

definition ReadableSpan :: "Buffer \<Rightarrow> byte list" where
  "ReadableSpan b = take (readable_bytes b) (drop (bf_reader_index b) (bf_data b))"

definition Buffer_Append :: "byte list \<Rightarrow> Buffer \<Rightarrow> Buffer" where
  "Buffer_Append data b = b\<lparr>bf_data := bf_data b @ data\<rparr>"

definition Buffer_Clear :: "Buffer \<Rightarrow> Buffer" where
  "Buffer_Clear b = b\<lparr>bf_data := [], bf_reader_index := 0\<rparr>"

definition CompactIfNeeded :: "Buffer \<Rightarrow> Buffer" where
  "CompactIfNeeded b =
     (if bf_reader_index b = 0 then b
      else if bf_reader_index b = length (bf_data b) then Buffer_Clear b
      else if bf_reader_index b > length (bf_data b) div 2
      then b\<lparr>bf_data := drop (bf_reader_index b) (bf_data b), bf_reader_index := 0\<rparr>
      else b)"

definition Consume :: "nat \<Rightarrow> Buffer \<Rightarrow> Buffer" where
  "Consume bytes b =
     CompactIfNeeded (b\<lparr>bf_reader_index := bf_reader_index b + min bytes (readable_bytes b)\<rparr>)"

definition ReadFromFd :: "int \<Rightarrow> nat \<Rightarrow> Buffer \<times> Socket \<Rightarrow> byte list Result \<times> (Buffer \<times> Socket)" where
  "ReadFromFd fd max_bytes st =
     (let (b, s) = st
      in case sys_read fd max_bytes s of
           (Inl e, s') \<Rightarrow>
             (if e = SEagain then Inr [] else Inl (IoError (''read: '' @ sock_strerror e)), (b, s'))
         | (Inr chunk, s') \<Rightarrow>
             if chunk = [] then (Inl (NotFound ''peer closed connection''), (b, s'))
             else (Inr chunk, (Buffer_Append chunk b, s')))"

function WriteToFd :: "int \<Rightarrow> Buffer \<times> Socket \<Rightarrow> unit Result \<times> (Buffer \<times> Socket)" where
  "WriteToFd fd (b, s) =
     (if readable_bytes b > 0
      then (case sys_write fd (ReadableSpan b) s of
              (Inl e, s') \<Rightarrow>
                (if e = SEagain then Inr () else Inl (IoError (''write: '' @ sock_strerror e)), (b, s'))
            | (Inr n, s') \<Rightarrow>
                if n = 0 then (Inr (), (b, s')) else WriteToFd fd (Consume n b, s'))
      else (Inr (), (b, s)))"
  by pat_completeness auto
termination
  by (relation "measure (\<lambda>(_, _, s). length (so_send s))") (auto dest: sys_write_Inr [OF sym])

declare WriteToFd.simps [simp del]

section \<open>The contract\<close>

locale byte_queue =
  fixes inv :: "'q \<Rightarrow> bool" and content :: "'q \<Rightarrow> byte list"
    and push :: "byte list \<Rightarrow> 'q \<Rightarrow> 'q" and pop :: "nat \<Rightarrow> 'q \<Rightarrow> 'q" and reset :: "'q \<Rightarrow> 'q"
  assumes content_push: "inv q \<Longrightarrow> content (push bs q) = content q @ bs"
    and content_pop: "inv q \<Longrightarrow> content (pop n q) = drop n (content q)"
    and content_reset: "content (reset q) = []"
    and inv_push: "inv q \<Longrightarrow> inv (push bs q)"
    and inv_pop: "inv q \<Longrightarrow> inv (pop n q)"
    and inv_reset: "inv (reset q)"
begin

lemma pushes: "inv q \<Longrightarrow> inv (fold push bss q) \<and> content (fold push bss q) = content q @ concat bss"
  by (induction bss arbitrary: q) (simp_all add: content_push inv_push)

lemma pops: "inv q \<Longrightarrow> inv (fold pop ns q) \<and> content (fold pop ns q) = drop (sum_list ns) (content q)"
  by (induction ns arbitrary: q) (simp_all add: content_pop inv_pop add.commute)

text \<open>What went in comes out: the bytes taken so far and the content are the bytes put in.\<close>

lemma taken_then_content: "inv q \<Longrightarrow> take n (content q) @ content (pop n q) = content q"
  by (simp add: content_pop)

lemma pop_after_push: "inv q \<Longrightarrow> content (pop (length (content q)) (push bs q)) = bs"
  by (simp add: content_push content_pop inv_push)

end

text \<open>The invariant of the buffer: the consumed prefix is at most half of the vector, so the
  memory it holds is at most twice what is left to read.\<close>

definition buffer_inv :: "Buffer \<Rightarrow> bool" where
  "buffer_inv b \<longleftrightarrow> 2 * bf_reader_index b \<le> length (bf_data b)"

lemma readable_length: "readable_bytes b = length (ReadableSpan b)"
  by (simp add: readable_bytes_def ReadableSpan_def)

lemma buffer_inv_mk [simp]: "buffer_inv mk_Buffer" "ReadableSpan mk_Buffer = []"
  by (simp_all add: buffer_inv_def mk_Buffer_def ReadableSpan_def)

lemma buffer_inv_half: "buffer_inv b \<Longrightarrow> length (bf_data b) \<le> 2 * readable_bytes b"
  by (simp add: buffer_inv_def readable_bytes_def)

lemma ReadableSpan_drop: "ReadableSpan b = drop (bf_reader_index b) (bf_data b)"
  by (simp add: ReadableSpan_def readable_bytes_def)

lemma CompactIfNeeded_span:
  "drop (bf_reader_index (CompactIfNeeded b)) (bf_data (CompactIfNeeded b)) =
   drop (bf_reader_index b) (bf_data b)"
  by (simp add: CompactIfNeeded_def Buffer_Clear_def)

lemma CompactIfNeeded_inv: "buffer_inv (CompactIfNeeded b)" if "bf_reader_index b \<le> length (bf_data b)"
  using that by (auto simp: CompactIfNeeded_def buffer_inv_def Buffer_Clear_def)

interpretation buf: byte_queue buffer_inv ReadableSpan Buffer_Append Consume Buffer_Clear
proof
  fix q :: Buffer and bs :: "byte list" and n :: nat
  show "ReadableSpan (Buffer_Clear q) = []" "buffer_inv (Buffer_Clear q)"
    by (simp_all add: Buffer_Clear_def ReadableSpan_drop buffer_inv_def)
  assume "buffer_inv q"
  then have le: "bf_reader_index q \<le> length (bf_data q)" by (simp add: buffer_inv_def)
  with \<open>buffer_inv q\<close> show "ReadableSpan (Buffer_Append bs q) = ReadableSpan q @ bs" "buffer_inv (Buffer_Append bs q)"
    by (simp_all add: Buffer_Append_def ReadableSpan_drop buffer_inv_def)
  show "ReadableSpan (Consume n q) = drop n (ReadableSpan q)"
    using le by (simp only: Consume_def CompactIfNeeded_span ReadableSpan_drop readable_bytes_def)
      (simp add: min_def add.commute)
  show "buffer_inv (Consume n q)"
    using le by (simp add: Consume_def CompactIfNeeded_inv readable_bytes_def)
qed

section \<open>Writing to a socket\<close>

text \<open>Whatever the socket does, the bytes that it took over and the bytes still in the buffer
  are the bytes that were in the buffer, in their order.\<close>

lemma WriteToFd_spec:
  assumes "buffer_inv b" and "WriteToFd fd (b, s) = (r, (b', s'))"
  shows "buffer_inv b' \<and> so_recv s' = so_recv s \<and>
    so_sent s' @ ReadableSpan b' = so_sent s @ ReadableSpan b \<and> prefix (so_sent s) (so_sent s')"
  using assms
proof (induction fd "(b, s)" arbitrary: b s rule: WriteToFd.induct)
  case (1 fd b s)
  show ?case
  proof (cases "readable_bytes b > 0")
    case False
    with 1 show ?thesis by (simp add: WriteToFd.simps)
  next
    case True
    obtain w t where w: "sys_write fd (ReadableSpan b) s = (w, t)" by (rule prod.exhaust)
    show ?thesis
    proof (cases w)
      case (Inl e)
      with 1(3) True w 1(2) show ?thesis
        by (auto simp: WriteToFd.simps [of fd b s] dest: sys_write_Inl split: if_splits)
    next
      case (Inr n)
      with w have n: "so_sent t = so_sent s @ take n (ReadableSpan b)" "so_recv t = so_recv s"
        by (auto dest: sys_write_Inr)
      show ?thesis
      proof (cases "n = 0")
        case True
        with 1(2,3) \<open>readable_bytes b > 0\<close> w Inr n show ?thesis by (simp add: WriteToFd.simps [of fd b s])
      next
        case False
        have "WriteToFd fd (Consume n b, t) = (r, (b', s'))"
          using 1(3) True w Inr False by (simp add: WriteToFd.simps [of fd b s])
        from 1(1) [OF True w [symmetric] Inr False buf.inv_pop [OF 1(2)] this] n buf.content_pop [OF 1(2), of n]
        show ?thesis by (auto dest: append_prefixD)
      qed
    qed
  qed
qed

lemma WriteToFd_error:
  assumes "WriteToFd fd (b, s) = (Inl e, st')"
  shows "fd < 0 \<or> (\<exists>e'. SendErr e' \<in> set (so_send s) \<and> e' \<noteq> SEagain)"
  using assms
proof (induction fd "(b, s)" arbitrary: b s rule: WriteToFd.induct)
  case (1 fd b s)
  then show ?case
    by (subst (asm) (2) WriteToFd.simps)
      (fastforce simp: sys_write_def split: if_splits list.splits send_ret.splits)
qed

text \<open>A socket that takes something at every call empties the buffer.\<close>

lemma WriteToFd_drains:
  assumes "buffer_inv b" and "0 \<le> fd" and "\<forall>r \<in> set (so_send s). \<exists>k. r = Sent (Suc k)"
    and "readable_bytes b \<le> length (so_send s)"
  shows "fst (WriteToFd fd (b, s)) = Inr () \<and> ReadableSpan (fst (snd (WriteToFd fd (b, s)))) = []"
  using assms
proof (induction fd "(b, s)" arbitrary: b s rule: WriteToFd.induct)
  case (1 fd b s)
  show ?case
  proof (cases "readable_bytes b > 0")
    case False
    then show ?thesis by (simp add: WriteToFd.simps [of fd b s] readable_length)
  next
    case True
    with 1(5) obtain k rs where send: "so_send s = Sent (Suc k) # rs"
      using 1(4) by (cases "so_send s") auto
    let ?n = "min (Suc k) (length (ReadableSpan b))" and
      ?t = "s\<lparr>so_send := rs, so_sent := so_sent s @ take (Suc k) (ReadableSpan b)\<rparr>"
    have w: "sys_write fd (ReadableSpan b) s = (Inr ?n, ?t)"
      using 1(3) send by (simp add: sys_write_def)
    have n: "?n \<noteq> 0" using True by (simp add: readable_length)
    have "readable_bytes (Consume ?n b) \<le> length rs"
      using 1(5) True by (simp add: readable_length buf.content_pop [OF 1(2)] send)
    with 1(1) [OF True w [symmetric] refl n buf.inv_pop [OF 1(2)] 1(3)] 1(4) send show ?thesis
      by (simp add: WriteToFd.simps [of fd b s] True w n)
  qed
qed

end
