(* ===== verification/WorkerPool.thy ===== *)
theory WorkerPool
  imports LogMQ_Prelude "HOL-Library.Multiset"
begin

text \<open>
  Models \<^verbatim>\<open>include/logmq/net/worker_pool.h\<close> and \<^verbatim>\<open>src/net/worker_pool.cpp\<close>: a bounded queue
  of tasks and the threads that run them, with the condition variable they wait on.

  A step is what one thread does between two points where others can come in: a section
  under the mutex, a notification, or a whole task. A thread that waits is \<open>Blocked\<close> until
  it is notified or wakes up without reason; then it is \<open>Ready\<close> to take the lock and test
  the predicate again. The notification of \<^verbatim>\<open>Submit\<close> and \<^verbatim>\<open>Stop\<close> happens after the mutex has
  been released: until then it is counted in the state. The relation \<open>worker_step\<close> holds the
  steps a pool takes of its own accord, without the wakeups that have no reason, so that
  progress is never owed to one of them.
\<close>

section \<open>The pool\<close>

datatype 'a worker = Blocked | Ready | Running 'a | Exited

record 'a WorkerPool =
  wp_tasks :: "'a list"
  wp_threads :: "'a worker list"
  wp_max_queue_size :: nat
  wp_stopping :: bool
  wp_notify_one :: nat
  wp_notify_all :: bool

definition mk_WorkerPool :: "nat \<Rightarrow> nat \<Rightarrow> 'a WorkerPool" where
  "mk_WorkerPool thread_count max_queue_size =
     \<lparr>wp_tasks = [], wp_threads = replicate (max 1 thread_count) Ready,
      wp_max_queue_size = max 1 max_queue_size, wp_stopping = False,
      wp_notify_one = 0, wp_notify_all = False\<rparr>"

definition Submit :: "'a \<Rightarrow> 'a WorkerPool \<Rightarrow> bool \<times> 'a WorkerPool" where
  "Submit task p =
     (if wp_stopping p \<or> length (wp_tasks p) \<ge> wp_max_queue_size p then (False, p)
      else (True, p\<lparr>wp_tasks := wp_tasks p @ [task], wp_notify_one := wp_notify_one p + 1\<rparr>))"

text \<open>\<^verbatim>\<open>Stop\<close> up to its joins, and when the joins return.\<close>

definition WorkerPool_Stop :: "'a WorkerPool \<Rightarrow> 'a WorkerPool" where
  "WorkerPool_Stop p = (if wp_stopping p then p else p\<lparr>wp_stopping := True, wp_notify_all := True\<rparr>)"

definition joined :: "'a WorkerPool \<Rightarrow> bool" where
  "joined p \<longleftrightarrow> (\<forall>w \<in> set (wp_threads p). w = Exited)"

definition set_thread :: "nat \<Rightarrow> 'a worker \<Rightarrow> 'a WorkerPool \<Rightarrow> 'a WorkerPool" where
  "set_thread i w p = p\<lparr>wp_threads := (wp_threads p)[i := w]\<rparr>"

text \<open>The section of \<^verbatim>\<open>Run\<close> under the lock: the predicate of the wait, the exit and the pop.\<close>

definition Run_locked :: "nat \<Rightarrow> 'a WorkerPool \<Rightarrow> 'a WorkerPool" where
  "Run_locked i p =
     (if \<not> (wp_stopping p \<or> wp_tasks p \<noteq> []) then set_thread i Blocked p
      else if wp_stopping p \<and> wp_tasks p = [] then set_thread i Exited p
      else set_thread i (Running (hd (wp_tasks p))) (p\<lparr>wp_tasks := tl (wp_tasks p)\<rparr>))"

definition wake :: "'a worker \<Rightarrow> 'a worker" where
  "wake w = (if w = Blocked then Ready else w)"

definition wake_all :: "'a WorkerPool \<Rightarrow> 'a WorkerPool" where
  "wake_all p = p\<lparr>wp_threads := map wake (wp_threads p), wp_notify_all := False\<rparr>"

inductive worker_step :: "'a WorkerPool \<Rightarrow> 'a WorkerPool \<Rightarrow> bool" where
  lock: "i < length (wp_threads p) \<Longrightarrow> wp_threads p ! i = Ready \<Longrightarrow> worker_step p (Run_locked i p)"
| finish: "i < length (wp_threads p) \<Longrightarrow> wp_threads p ! i = Running task \<Longrightarrow>
    worker_step p (set_thread i Ready p)"
| notify: "wp_notify_one p = Suc n \<Longrightarrow> i < length (wp_threads p) \<Longrightarrow> wp_threads p ! i = Blocked \<Longrightarrow>
    worker_step p (set_thread i Ready (p\<lparr>wp_notify_one := n\<rparr>))"
| notify_nobody: "wp_notify_one p = Suc n \<Longrightarrow> Blocked \<notin> set (wp_threads p) \<Longrightarrow>
    worker_step p (p\<lparr>wp_notify_one := n\<rparr>)"
| notify_all: "wp_notify_all p \<Longrightarrow> worker_step p (wake_all p)"

text \<open>The runs of a pool, with the tasks it accepted, the tasks its threads took from the queue,
  both in order, and the tasks that are finished.\<close>

inductive pool_run ::
  "'a WorkerPool \<Rightarrow> 'a list \<Rightarrow> 'a list \<Rightarrow> 'a multiset \<Rightarrow> bool" where
  start: "pool_run (mk_WorkerPool thread_count max_queue_size) [] [] {#}"
| submit: "pool_run p acc tak fin \<Longrightarrow> Submit task p = (ok, p') \<Longrightarrow>
    pool_run p' (if ok then acc @ [task] else acc) tak fin"
| stop: "pool_run p acc tak fin \<Longrightarrow> pool_run (WorkerPool_Stop p) acc tak fin"
| lock: "pool_run p acc tak fin \<Longrightarrow> i < length (wp_threads p) \<Longrightarrow> wp_threads p ! i = Ready \<Longrightarrow>
    pool_run (Run_locked i p) acc (tak @ take 1 (wp_tasks p)) fin"
| finish: "pool_run p acc tak fin \<Longrightarrow> i < length (wp_threads p) \<Longrightarrow> wp_threads p ! i = Running task \<Longrightarrow>
    pool_run (set_thread i Ready p) acc tak (add_mset task fin)"
| notify: "pool_run p acc tak fin \<Longrightarrow> wp_notify_one p = Suc n \<Longrightarrow> i < length (wp_threads p) \<Longrightarrow>
    wp_threads p ! i = Blocked \<Longrightarrow> pool_run (set_thread i Ready (p\<lparr>wp_notify_one := n\<rparr>)) acc tak fin"
| notify_nobody: "pool_run p acc tak fin \<Longrightarrow> wp_notify_one p = Suc n \<Longrightarrow> Blocked \<notin> set (wp_threads p) \<Longrightarrow>
    pool_run (p\<lparr>wp_notify_one := n\<rparr>) acc tak fin"
| notify_all: "pool_run p acc tak fin \<Longrightarrow> wp_notify_all p \<Longrightarrow> pool_run (wake_all p) acc tak fin"
| spurious: "pool_run p acc tak fin \<Longrightarrow> i < length (wp_threads p) \<Longrightarrow> wp_threads p ! i = Blocked \<Longrightarrow>
    pool_run (set_thread i Ready p) acc tak fin"

section \<open>Accounting\<close>

definition running :: "'a worker \<Rightarrow> 'a list" where
  "running w = (case w of Running task \<Rightarrow> [task] | _ \<Rightarrow> [])"

definition running_tasks :: "'a WorkerPool \<Rightarrow> 'a multiset" where
  "running_tasks p = mset (concat (map running (wp_threads p)))"

lemma running_simps [simp]:
  "running Blocked = []" "running Ready = []" "running Exited = []" "running (Running task) = [task]"
  "running (wake w) = running w"
  by (simp_all add: running_def wake_def)

lemma concat_map_update:
  "i < length xs \<Longrightarrow>
   mset (concat (map f (xs[i := x]))) + mset (f (xs ! i)) = mset (concat (map f xs)) + mset (f x)"
  by (induction xs arbitrary: i) (auto split: nat.splits simp: ac_simps)

lemma running_set_thread:
  "i < length (wp_threads p) \<Longrightarrow>
   running_tasks (set_thread i w p) + mset (running (wp_threads p ! i)) =
   running_tasks p + mset (running w)"
  by (simp add: running_tasks_def set_thread_def concat_map_update)

lemma running_same [simp]:
  "running_tasks (p\<lparr>wp_tasks := ts\<rparr>) = running_tasks p" "running_tasks (p\<lparr>wp_notify_one := n\<rparr>) = running_tasks p"
  "running_tasks (p\<lparr>wp_stopping := b\<rparr>) = running_tasks p" "running_tasks (p\<lparr>wp_notify_all := b\<rparr>) = running_tasks p"
  "running_tasks (wake_all p) = running_tasks p"
  by (simp_all add: running_tasks_def wake_all_def comp_def)

lemma set_thread_fields [simp]:
  "wp_tasks (set_thread i w p) = wp_tasks p" "wp_max_queue_size (set_thread i w p) = wp_max_queue_size p"
  "wp_stopping (set_thread i w p) = wp_stopping p" "wp_notify_one (set_thread i w p) = wp_notify_one p"
  "wp_notify_all (set_thread i w p) = wp_notify_all p"
  "wp_threads (set_thread i w p) = (wp_threads p)[i := w]"
  by (simp_all add: set_thread_def)

lemma wake_all_fields [simp]:
  "wp_tasks (wake_all p) = wp_tasks p" "wp_max_queue_size (wake_all p) = wp_max_queue_size p"
  "wp_stopping (wake_all p) = wp_stopping p" "wp_notify_one (wake_all p) = wp_notify_one p"
  "wp_notify_all (wake_all p) = False" "wp_threads (wake_all p) = map wake (wp_threads p)"
  by (simp_all add: wake_all_def)

text \<open>What holds of every pool: the queue is within its bound, accepted tasks are taken in
  their order, and a task that was taken is running or finished.\<close>

definition pool_accounts :: "'a WorkerPool \<Rightarrow> 'a list \<Rightarrow> 'a list \<Rightarrow> 'a multiset \<Rightarrow> bool" where
  "pool_accounts p acc tak fin \<longleftrightarrow>
     length (wp_tasks p) \<le> wp_max_queue_size p \<and> 0 < wp_max_queue_size p \<and> wp_threads p \<noteq> [] \<and>
     acc = tak @ wp_tasks p \<and> mset tak = fin + running_tasks p"

lemma pool_run_accounts: "pool_run p acc tak fin \<Longrightarrow> pool_accounts p acc tak fin"
proof (induction rule: pool_run.induct)
  case (start thread_count max_queue_size)
  have "concat (replicate n ([] :: 'a list)) = []" for n by (induction n) simp_all
  then show ?case by (simp add: pool_accounts_def mk_WorkerPool_def running_tasks_def)
next
  case (submit p acc tak fin task ok p')
  then show ?case by (auto simp: pool_accounts_def Submit_def split: if_splits)
next
  case (stop p acc tak fin)
  then show ?case by (simp add: pool_accounts_def WorkerPool_Stop_def)
next
  case (lock p acc tak fin i)
  then show ?case
    using running_set_thread [of i p] running_set_thread [of i "p\<lparr>wp_tasks := tl (wp_tasks p)\<rparr>"]
    by (cases "wp_tasks p") (auto simp: pool_accounts_def Run_locked_def)
next
  case (finish p acc tak fin i task)
  then show ?case using running_set_thread [of i p Ready] by (simp add: pool_accounts_def)
next
  case (notify p acc tak fin n i)
  then show ?case using running_set_thread [of i "p\<lparr>wp_notify_one := n\<rparr>" Ready] by (simp add: pool_accounts_def)
next
  case (spurious p acc tak fin i)
  then show ?case using running_set_thread [of i p Ready] by (simp add: pool_accounts_def)
qed (simp_all add: pool_accounts_def)

section \<open>No wakeup is lost\<close>

text \<open>If there is work, a notification is still to come or a thread is awake; once the pool is
  stopping, no thread stays blocked; a thread exits only when the queue is empty for good.\<close>

definition awake :: "'a worker \<Rightarrow> bool" where
  "awake w \<longleftrightarrow> (case w of Ready \<Rightarrow> True | Running _ \<Rightarrow> True | _ \<Rightarrow> False)"

lemma awake_simps [simp]:
  "\<not> awake Blocked" "awake Ready" "awake (Running task)" "\<not> awake Exited"
  by (simp_all add: awake_def)

definition wakeups_kept :: "'a WorkerPool \<Rightarrow> bool" where
  "wakeups_kept p \<longleftrightarrow>
     (wp_tasks p \<noteq> [] \<longrightarrow> 0 < wp_notify_one p \<or> wp_notify_all p \<or> (\<exists>w \<in> set (wp_threads p). awake w)) \<and>
     (wp_stopping p \<longrightarrow> wp_notify_all p \<or> Blocked \<notin> set (wp_threads p)) \<and>
     (Exited \<in> set (wp_threads p) \<longrightarrow> wp_stopping p \<and> wp_tasks p = [])"

lemma set_update: "i < length xs \<Longrightarrow> x \<in> set (xs[i := x])"
  by (rule set_update_memI)

lemma set_update_other: "y \<in> set (xs[i := x]) \<Longrightarrow> y = x \<or> y \<in> set xs"
  using set_update_subset_insert [of xs i x] by blast

lemma wakeups_kept_awake:
  assumes "i < length (wp_threads p)" "wakeups_kept p" "awake w"
  shows "wakeups_kept (set_thread i w p)"
proof -
  have "w \<noteq> Blocked" "w \<noteq> Exited" using assms(3) by auto
  then have "Blocked \<in> set ((wp_threads p)[i := w]) \<Longrightarrow> Blocked \<in> set (wp_threads p)"
    "Exited \<in> set ((wp_threads p)[i := w]) \<Longrightarrow> Exited \<in> set (wp_threads p)"
    using set_update_other by metis+
  with assms set_update [OF assms(1), of w] show ?thesis unfolding wakeups_kept_def set_thread_fields by metis
qed

lemma wakeups_kept_Submit: "wakeups_kept p \<Longrightarrow> wakeups_kept (snd (Submit task p))"
  by (auto simp: wakeups_kept_def Submit_def)

lemma wakeups_kept_Run_locked:
  assumes "i < length (wp_threads p)" "wakeups_kept p"
  shows "wakeups_kept (Run_locked i p)"
proof (cases "wp_tasks p")
  case Nil
  with assms set_update_other [of _ "wp_threads p" i Blocked] set_update_other [of _ "wp_threads p" i Exited]
  show ?thesis by (auto simp: wakeups_kept_def Run_locked_def)
next
  case (Cons task ts)
  with assms(2) have "Exited \<notin> set (wp_threads p)" by (auto simp: wakeups_kept_def)
  with Cons assms set_update_other [of _ "wp_threads p" i "Running task"] set_update [OF assms(1), of "Running task"]
  show ?thesis by (auto simp: wakeups_kept_def Run_locked_def intro!: bexI [of _ "Running task"])
qed

lemma awake_or: "w \<noteq> Blocked \<Longrightarrow> w \<noteq> Exited \<Longrightarrow> awake w"
  by (cases w) simp_all

lemma somebody_awake:
  "wakeups_kept p \<Longrightarrow> wp_threads p \<noteq> [] \<Longrightarrow> wp_tasks p \<noteq> [] \<Longrightarrow> Blocked \<notin> set (wp_threads p) \<Longrightarrow>
   \<exists>w \<in> set (wp_threads p). awake w"
  by (metis awake_or list.set_sel(1) wakeups_kept_def)

lemma wakeups_kept_wake_all:
  assumes "wakeups_kept p" "wp_threads p \<noteq> []"
  shows "wakeups_kept (wake_all p)"
proof -
  have "Blocked \<notin> set (map wake (wp_threads p))" "Exited \<in> set (map wake (wp_threads p)) \<Longrightarrow> Exited \<in> set (wp_threads p)"
    by (auto simp: wake_def split: if_splits)
  moreover have "\<exists>w \<in> set (map wake (wp_threads p)). awake w" if "wp_tasks p \<noteq> []"
  proof -
    from assms(2) have hd: "hd (wp_threads p) \<in> set (wp_threads p)" by simp
    with that assms(1) have "hd (wp_threads p) \<noteq> Exited" by (auto simp: wakeups_kept_def)
    then have "awake (wake (hd (wp_threads p)))" by (auto simp: wake_def intro: awake_or)
    with hd show ?thesis by auto
  qed
  ultimately show ?thesis using assms(1) by (simp add: wakeups_kept_def)
qed

lemma wakeups_kept_notify:
  assumes "wp_notify_one p = Suc n" "i < length (wp_threads p)" "wakeups_kept p"
  shows "wakeups_kept (set_thread i Ready (p\<lparr>wp_notify_one := n\<rparr>))"
proof -
  have "wakeups_kept (set_thread i Ready p)" using assms by (intro wakeups_kept_awake) simp_all
  moreover have "set_thread i Ready (p\<lparr>wp_notify_one := n\<rparr>) = (set_thread i Ready p)\<lparr>wp_notify_one := n\<rparr>"
    by (simp add: set_thread_def)
  moreover have "Ready \<in> set ((wp_threads p)[i := Ready])" using assms by (simp add: set_update)
  ultimately show ?thesis unfolding wakeups_kept_def using awake_simps(2) by (auto simp del: awake_simps)
qed

lemma wakeups_kept_notify_nobody:
  "wakeups_kept p \<Longrightarrow> wp_threads p \<noteq> [] \<Longrightarrow> Blocked \<notin> set (wp_threads p) \<Longrightarrow> wakeups_kept (p\<lparr>wp_notify_one := n\<rparr>)"
  using somebody_awake [of p] by (auto simp: wakeups_kept_def)

lemma wakeups_kept_mk: "wakeups_kept (mk_WorkerPool thread_count max_queue_size)"
  by (simp add: wakeups_kept_def mk_WorkerPool_def)

lemma wakeups_kept_Stop: "wakeups_kept p \<Longrightarrow> wakeups_kept (WorkerPool_Stop p)"
  by (auto simp: wakeups_kept_def WorkerPool_Stop_def)

lemma pool_run_threads: "pool_run p acc tak fin \<Longrightarrow> wp_threads p \<noteq> []"
  using pool_run_accounts by (auto simp: pool_accounts_def)

lemma pool_run_wakeups: "pool_run p acc tak fin \<Longrightarrow> wakeups_kept p"
proof (induction rule: pool_run.induct)
  case (submit p acc tak fin task ok p')
  then show ?case using wakeups_kept_Submit [of p task] by simp
next
  case (notify p acc tak fin n i)
  then show ?case by (intro wakeups_kept_notify) simp_all
next
  case (notify_nobody p acc tak fin n)
  then show ?case using pool_run_threads [of p] by (intro wakeups_kept_notify_nobody) auto
next
  case (notify_all p acc tak fin)
  then show ?case by (intro wakeups_kept_wake_all pool_run_threads)
next
  case (start thread_count max_queue_size)
  show ?case by (rule wakeups_kept_mk)
next
  case (stop p acc tak fin)
  then show ?case by (intro wakeups_kept_Stop)
qed (simp_all add: wakeups_kept_awake wakeups_kept_Run_locked)

section \<open>Progress and the end of a stopped pool\<close>

lemma awake_steps: "w \<in> set (wp_threads p) \<Longrightarrow> awake w \<Longrightarrow> \<exists>p'. worker_step p p'"
  by (cases w) (auto simp: in_set_conv_nth intro: worker_step.lock worker_step.finish)

lemma kept_progress:
  assumes kept: "wakeups_kept p" and "wp_tasks p \<noteq> [] \<or> wp_stopping p \<and> \<not> joined p"
  shows "\<exists>p'. worker_step p p'"
proof -
  consider "wp_notify_all p" | n where "wp_notify_one p = Suc n" | w where "w \<in> set (wp_threads p)" "awake w"
  proof (cases "wp_tasks p = []")
    case False
    with kept that show ?thesis by (auto simp: wakeups_kept_def gr0_conv_Suc)
  next
    case True
    with assms(2) obtain w where "w \<in> set (wp_threads p)" "w \<noteq> Exited" "wp_stopping p" by (auto simp: joined_def)
    with kept that show ?thesis by (metis awake_or wakeups_kept_def)
  qed
  then show ?thesis
  proof cases
    case (2 n)
    then show ?thesis by (meson in_set_conv_nth worker_step.notify worker_step.notify_nobody)
  qed (auto intro: worker_step.notify_all awake_steps)
qed

lemma pool_progress:
  "pool_run p acc tak fin \<Longrightarrow> wp_tasks p \<noteq> [] \<or> wp_stopping p \<and> \<not> joined p \<Longrightarrow> \<exists>p'. worker_step p p'"
  by (intro kept_progress pool_run_wakeups)

text \<open>How much a stopping pool still has to do. Every step makes it less.\<close>

definition worker_weight :: "'a worker \<Rightarrow> nat" where
  "worker_weight w = (case w of Blocked \<Rightarrow> 2 | Ready \<Rightarrow> 1 | Running _ \<Rightarrow> 2 | Exited \<Rightarrow> 0)"

definition pool_measure :: "'a WorkerPool \<Rightarrow> nat" where
  "pool_measure p =
     4 * length (wp_tasks p) + wp_notify_one p + (if wp_notify_all p then 1 else 0) +
     sum_list (map worker_weight (wp_threads p))"

lemma sum_list_update_eq:
  "i < length xs \<Longrightarrow> sum_list (map f (xs[i := x])) + f (xs ! i) = sum_list (map f xs) + (f x :: nat)"
  by (induction xs arbitrary: i) (auto split: nat.splits)

lemma worker_step_less:
  assumes "worker_step p p'" and "wp_stopping p"
  shows "pool_measure p' < pool_measure p \<and> wp_stopping p'"
  using assms
proof (induction rule: worker_step.induct)
  case (lock i p)
  then show ?case
    using sum_list_update_eq [OF lock(1), of worker_weight Exited]
      sum_list_update_eq [OF lock(1), of worker_weight "Running (hd (wp_tasks p))"]
    by (cases "wp_tasks p") (auto simp: pool_measure_def Run_locked_def worker_weight_def)
next
  case (finish i p task)
  then show ?case using sum_list_update_eq [OF finish(1), of worker_weight Ready]
    by (simp add: pool_measure_def worker_weight_def)
next
  case (notify p n i)
  then show ?case using sum_list_update_eq [OF notify(2), of worker_weight Ready]
    by (simp add: pool_measure_def worker_weight_def)
next
  case (notify_all p)
  have "sum_list (map worker_weight (map wake ws)) \<le> sum_list (map worker_weight ws)" for ws :: "'a worker list"
    by (simp only: map_map, rule sum_list_mono) (auto simp: wake_def worker_weight_def)
  then show ?case using notify_all by (simp add: pool_measure_def le_imp_less_Suc)
qed (simp_all add: pool_measure_def)

text \<open>The same for a pool that takes no new tasks, stopping or not.\<close>

definition worker_work :: "'a worker \<Rightarrow> nat" where
  "worker_work w = (case w of Blocked \<Rightarrow> 0 | Ready \<Rightarrow> 1 | Running _ \<Rightarrow> 2 | Exited \<Rightarrow> 0)"

definition pool_work :: "'a WorkerPool \<Rightarrow> nat" where
  "pool_work p =
     4 * length (wp_tasks p) + 2 * wp_notify_one p + (if wp_notify_all p then Suc (length (wp_threads p)) else 0) +
     sum_list (map worker_work (wp_threads p))"

lemma sum_list_wake: "sum_list (map worker_work (map wake ws)) \<le> sum_list (map worker_work ws) + length ws"
proof (induction ws)
  case (Cons w ws)
  have "worker_work (wake w) \<le> Suc (worker_work w)" by (cases w) (simp_all add: wake_def worker_work_def)
  with Cons show ?case by simp
qed simp

lemma worker_step_work: "worker_step p p' \<Longrightarrow> pool_work p' < pool_work p"
proof (induction rule: worker_step.induct)
  case (lock i p)
  then show ?case
    using sum_list_update_eq [OF lock(1), of worker_work Exited] sum_list_update_eq [OF lock(1), of worker_work Blocked]
      sum_list_update_eq [OF lock(1), of worker_work "Running (hd (wp_tasks p))"]
    by (cases "wp_tasks p") (auto simp: pool_work_def Run_locked_def worker_work_def)
next
  case (finish i p task)
  then show ?case using sum_list_update_eq [OF finish(1), of worker_work Ready] by (simp add: pool_work_def worker_work_def)
next
  case (notify p n i)
  then show ?case using sum_list_update_eq [OF notify(2), of worker_work Ready] by (simp add: pool_work_def worker_work_def)
next
  case (notify_all p)
  then show ?case using sum_list_wake [of "wp_threads p"] by (simp add: pool_work_def)
qed (simp_all add: pool_work_def)

lemma joined_no_running: "joined p \<Longrightarrow> running_tasks p = {#}"
proof -
  assume "joined p"
  then have "map running (wp_threads p) = map (\<lambda>_. []) (wp_threads p)"
    by (auto simp: joined_def)
  then show ?thesis by (simp add: running_tasks_def)
qed

lemma pool_run_joined:
  assumes "pool_run p acc tak fin" and "joined p"
  shows "wp_stopping p \<and> wp_tasks p = [] \<and> tak = acc \<and> fin = mset acc"
proof -
  from pool_run_threads [OF assms(1)] assms(2) have "Exited \<in> set (wp_threads p)"
    by (metis joined_def list.set_sel(1))
  with pool_run_wakeups [OF assms(1)] pool_run_accounts [OF assms(1)] joined_no_running [OF assms(2)]
  show ?thesis by (simp add: wakeups_kept_def pool_accounts_def)
qed

end
