(* ===== verification/Pollers.thy ===== *)
theory Pollers
  imports BaseStatus
begin

text \<open>
  Models \<^verbatim>\<open>include/logmq/net/channel.h\<close>, \<^verbatim>\<open>src/net/channel.cpp\<close> and the two pollers of
  \<^verbatim>\<open>src/net/poll\<close>: what a channel wants to hear of its descriptor, and how the wish is
  registered with \<^verbatim>\<open>epoll\<close> or \<^verbatim>\<open>kqueue\<close>. The kernel's table of interests is part of a
  poller's state, with a script of the failures and the events of the coming calls; past its
  end a change succeeds as far as the table allows and a wait returns without events. The locale \<open>poller\<close> is the contract of the abstract
  class \<^verbatim>\<open>Poller\<close>, and both pollers are shown to meet it.

  A channel is named by a number in place of its address.
\<close>

section \<open>Channels\<close>

record Channel =
  ch_ptr :: nat
  ch_fd :: int
  ch_reading :: bool
  ch_writing :: bool
  ch_removed :: bool
  ch_tied :: bool

definition mk_Channel :: "nat \<Rightarrow> int \<Rightarrow> Channel" where
  "mk_Channel ptr fd =
     \<lparr>ch_ptr = ptr, ch_fd = fd, ch_reading = False, ch_writing = False, ch_removed = False, ch_tied = False\<rparr>"

record PollEvent =
  pe_channel :: "nat option"
  pe_readable :: bool
  pe_writable :: bool
  pe_closed :: bool
  pe_error :: bool

text \<open>\<^verbatim>\<open>HandleEvent\<close> over the callbacks, each present or not; a tied channel whose owner is gone
  does nothing. The owner cannot go away while the callbacks run, because of the lock.\<close>

record 's callbacks =
  cb_read :: "('s \<Rightarrow> 's) option"
  cb_write :: "('s \<Rightarrow> 's) option"
  cb_close :: "('s \<Rightarrow> 's) option"
  cb_error :: "('s \<Rightarrow> 's) option"

definition call :: "bool \<Rightarrow> ('s \<Rightarrow> 's) option \<Rightarrow> 's \<Rightarrow> 's" where
  "call flag callback s = (case callback of Some f \<Rightarrow> if flag then f s else s | None \<Rightarrow> s)"

definition HandleEventWithGuard ::
  "'s callbacks \<Rightarrow> bool \<Rightarrow> bool \<Rightarrow> bool \<Rightarrow> bool \<Rightarrow> 's \<Rightarrow> 's" where
  "HandleEventWithGuard cb readable writable closed error s =
     (let s1 = call error (cb_error cb) s
      in if closed \<and> cb_close cb \<noteq> None then call closed (cb_close cb) s1
         else call writable (cb_write cb) (call readable (cb_read cb) s1))"

definition HandleEvent ::
  "Channel \<Rightarrow> bool \<Rightarrow> 's callbacks \<Rightarrow> bool \<Rightarrow> bool \<Rightarrow> bool \<Rightarrow> bool \<Rightarrow> 's \<Rightarrow> 's" where
  "HandleEvent ch owner_alive cb readable writable closed error s =
     (if ch_tied ch \<and> \<not> owner_alive then s
      else HandleEventWithGuard cb readable writable closed error s)"

section \<open>Epoll\<close>

datatype poll_errno = PEintr | PEnoent | PEexist | PErrno string

definition poll_strerror :: "poll_errno \<Rightarrow> string" where
  "poll_strerror e = (case e of PEintr \<Rightarrow> ''Interrupted system call''
     | PEnoent \<Rightarrow> ''No such file or directory'' | PEexist \<Rightarrow> ''File exists'' | PErrno s \<Rightarrow> s)"

definition EPOLLIN :: u32 where "EPOLLIN = 0x001"
definition EPOLLPRI :: u32 where "EPOLLPRI = 0x002"
definition EPOLLOUT :: u32 where "EPOLLOUT = 0x004"
definition EPOLLERR :: u32 where "EPOLLERR = 0x008"
definition EPOLLHUP :: u32 where "EPOLLHUP = 0x010"
definition EPOLLRDHUP :: u32 where "EPOLLRDHUP = 0x2000"

lemmas epoll_bits = EPOLLIN_def EPOLLPRI_def EPOLLOUT_def EPOLLERR_def EPOLLHUP_def EPOLLRDHUP_def

datatype epoll_op = EPOLL_CTL_ADD | EPOLL_CTL_MOD | EPOLL_CTL_DEL

datatype 'e wait_ret = Events "'e list" | WaitErr poll_errno

record EpollPoller =
  ep_fd :: int
  ep_capacity :: nat
  ep_registered_fds :: "int list"
  ep_interest :: "int \<rightharpoonup> u32 \<times> nat"
  ep_ctl :: "string option list"
  ep_wait :: "(u32 \<times> nat) wait_ret list"

definition kInitialEventCapacity :: nat where "kInitialEventCapacity = 64"

definition mk_EpollPoller :: EpollPoller where
  "mk_EpollPoller =
     \<lparr>ep_fd = -1, ep_capacity = kInitialEventCapacity, ep_registered_fds = [],
      ep_interest = Map.empty, ep_ctl = [], ep_wait = []\<rparr>"

definition EpollError :: "string \<Rightarrow> poll_errno \<Rightarrow> Status" where
  "EpollError operation e = IoError (operation @ '': '' @ poll_strerror e)"

text \<open>The call \<^verbatim>\<open>epoll_ctl\<close>: the next scripted failure, else what the table allows.\<close>

definition epoll_ctl ::
  "epoll_op \<Rightarrow> int \<Rightarrow> u32 \<times> nat \<Rightarrow> EpollPoller \<Rightarrow> (poll_errno + unit) \<times> EpollPoller" where
  "epoll_ctl operation fd event p =
     (let forced = (case ep_ctl p of [] \<Rightarrow> None | r # _ \<Rightarrow> r);
          p = p\<lparr>ep_ctl := tl (ep_ctl p)\<rparr>;
          present = (ep_interest p fd \<noteq> None)
      in case forced of
           Some e \<Rightarrow> (Inl (PErrno e), p)
         | None \<Rightarrow>
             (case operation of
                EPOLL_CTL_ADD \<Rightarrow>
                  if present then (Inl PEexist, p)
                  else (Inr (), p\<lparr>ep_interest := (ep_interest p)(fd \<mapsto> event)\<rparr>)
              | EPOLL_CTL_MOD \<Rightarrow>
                  if present then (Inr (), p\<lparr>ep_interest := (ep_interest p)(fd \<mapsto> event)\<rparr>)
                  else (Inl PEnoent, p)
              | EPOLL_CTL_DEL \<Rightarrow>
                  if present then (Inr (), p\<lparr>ep_interest := (ep_interest p)(fd := None)\<rparr>)
                  else (Inl PEnoent, p)))"

definition EventsForChannel :: "Channel \<Rightarrow> u32" where
  "EventsForChannel ch =
     (if ch_reading ch then EPOLLIN OR EPOLLPRI OR EPOLLRDHUP else 0) OR
     (if ch_writing ch then EPOLLOUT else 0)"

definition Epoll_ToPollEvent :: "u32 \<times> nat \<Rightarrow> PollEvent" where
  "Epoll_ToPollEvent event =
     (let flags = fst event
      in \<lparr>pe_channel = Some (snd event), pe_readable = (flags AND (EPOLLIN OR EPOLLPRI) \<noteq> 0),
          pe_writable = (flags AND EPOLLOUT \<noteq> 0), pe_closed = (flags AND (EPOLLHUP OR EPOLLRDHUP) \<noteq> 0),
          pe_error = (flags AND EPOLLERR \<noteq> 0)\<rparr>)"

text \<open>\<^verbatim>\<open>Init\<close>; the argument is what \<^verbatim>\<open>epoll_create1\<close> returns.\<close>

definition EpollPoller_Init :: "poll_errno + nat \<Rightarrow> EpollPoller \<Rightarrow> unit Result \<times> EpollPoller" where
  "EpollPoller_Init created p =
     (if ep_fd p \<ge> 0 then (Inr (), p)
      else case created of
          Inl e \<Rightarrow> (Inl (EpollError ''epoll_create1'' e), p\<lparr>ep_fd := -1\<rparr>)
        | Inr fd \<Rightarrow> (Inr (), p\<lparr>ep_fd := int fd\<rparr>))"

definition EpollPoller_Poll :: "EpollPoller \<Rightarrow> PollEvent list Result \<times> EpollPoller" where
  "EpollPoller_Poll p =
     (if ep_fd p < 0 then (Inl (Internal ''epoll poller is not initialized''), p)
      else case ep_wait p of
          [] \<Rightarrow> (Inr [], p)
        | WaitErr e # rs \<Rightarrow>
            (if e = PEintr then Inr [] else Inl (EpollError ''epoll_wait'' e), p\<lparr>ep_wait := rs\<rparr>)
        | Events es # rs \<Rightarrow>
            let events = take (ep_capacity p) es;
                rest = (if drop (ep_capacity p) es = [] then rs else Events (drop (ep_capacity p) es) # rs)
            in (Inr (map Epoll_ToPollEvent events),
                p\<lparr>ep_wait := rest,
                  ep_capacity := (if length events = ep_capacity p then ep_capacity p * 2 else ep_capacity p)\<rparr>))"

definition EpollPoller_RemoveChannel :: "Channel option \<Rightarrow> EpollPoller \<Rightarrow> unit Result \<times> EpollPoller" where
  "EpollPoller_RemoveChannel channel p =
     (case channel of
        None \<Rightarrow> (Inl (InvalidArgument ''channel must not be null''), p)
      | Some ch \<Rightarrow>
          if ep_fd p < 0 \<or> ch_fd ch < 0 then (Inr (), p)
          else if ch_fd ch \<notin> set (ep_registered_fds p) then (Inr (), p)
          else
            (case epoll_ctl EPOLL_CTL_DEL (ch_fd ch) (0, 0) p of
               (r, p) \<Rightarrow>
                 (case r of
                    Inl e \<Rightarrow>
                      if e \<noteq> PEnoent then (Inl (EpollError ''epoll_ctl DEL'' e), p)
                      else (Inr (), p\<lparr>ep_registered_fds := removeAll (ch_fd ch) (ep_registered_fds p)\<rparr>)
                  | Inr _ \<Rightarrow>
                      (Inr (), p\<lparr>ep_registered_fds := removeAll (ch_fd ch) (ep_registered_fds p)\<rparr>))))"

definition EpollPoller_UpdateChannel :: "Channel option \<Rightarrow> EpollPoller \<Rightarrow> unit Result \<times> EpollPoller" where
  "EpollPoller_UpdateChannel channel p =
     (case channel of
        None \<Rightarrow> (Inl (InvalidArgument ''channel must not be null''), p)
      | Some ch \<Rightarrow>
          if ep_fd p < 0 then (Inl (Internal ''epoll poller is not initialized''), p)
          else if ch_fd ch < 0 then (Inl (InvalidArgument ''channel fd must be valid''), p)
          else
            let events = EventsForChannel ch;
                registered = (ch_fd ch \<in> set (ep_registered_fds p))
            in if events = 0
               then if \<not> registered then (Inr (), p) else EpollPoller_RemoveChannel channel p
               else
                 (case epoll_ctl (if registered then EPOLL_CTL_MOD else EPOLL_CTL_ADD)
                         (ch_fd ch) (events, ch_ptr ch) p of
                    (Inl e, p) \<Rightarrow>
                      (Inl (EpollError (if registered then ''epoll_ctl MOD'' else ''epoll_ctl ADD'') e), p)
                  | (Inr _, p) \<Rightarrow>
                      (Inr (), if registered then p
                               else p\<lparr>ep_registered_fds := ch_fd ch # ep_registered_fds p\<rparr>)))"

section \<open>Kqueue\<close>

datatype kfilter = EVFILT_READ | EVFILT_WRITE

record KqueuePoller =
  kq_fd :: int
  kq_capacity :: nat
  kq_filters :: "int \<times> kfilter \<rightharpoonup> nat"
  kq_change :: "string option list"
  kq_wait :: "(kfilter \<times> bool \<times> bool \<times> nat) wait_ret list"

definition mk_KqueuePoller :: KqueuePoller where
  "mk_KqueuePoller =
     \<lparr>kq_fd = -1, kq_capacity = kInitialEventCapacity, kq_filters = Map.empty, kq_change = [], kq_wait = []\<rparr>"

definition KqueueError :: "string \<Rightarrow> poll_errno \<Rightarrow> Status" where
  "KqueueError operation e = IoError (operation @ '': '' @ poll_strerror e)"

text \<open>A change: \<open>Some ptr\<close> is \<^verbatim>\<open>EV_ADD | EV_ENABLE\<close> with the channel, \<open>None\<close> is \<^verbatim>\<open>EV_DELETE\<close>.\<close>

definition kevent_change ::
  "int \<Rightarrow> kfilter \<Rightarrow> nat option \<Rightarrow> KqueuePoller \<Rightarrow> (poll_errno + unit) \<times> KqueuePoller" where
  "kevent_change fd kfilter ev p =
     (let forced = (case kq_change p of [] \<Rightarrow> None | r # _ \<Rightarrow> r);
          p = p\<lparr>kq_change := tl (kq_change p)\<rparr>
      in case forced of
           Some e \<Rightarrow> (Inl (PErrno e), p)
         | None \<Rightarrow>
             if ev = None \<and> kq_filters p (fd, kfilter) = None then (Inl PEnoent, p)
             else (Inr (), p\<lparr>kq_filters := (kq_filters p)((fd, kfilter) := ev)\<rparr>))"

definition ApplyEvent ::
  "int \<Rightarrow> kfilter \<Rightarrow> nat option \<Rightarrow> bool \<Rightarrow> KqueuePoller \<Rightarrow> unit Result \<times> KqueuePoller" where
  "ApplyEvent fd kfilter ev ignore_missing p =
     (case kevent_change fd kfilter ev p of
        (Inl e, p) \<Rightarrow>
          if ignore_missing \<and> e = PEnoent then (Inr (), p) else (Inl (KqueueError ''kevent change'' e), p)
      | (Inr _, p) \<Rightarrow> (Inr (), p))"

definition Kqueue_ToPollEvent :: "kfilter \<times> bool \<times> bool \<times> nat \<Rightarrow> PollEvent" where
  "Kqueue_ToPollEvent event =
     (let (kfilter, eof, error, ptr) = event
      in \<lparr>pe_channel = Some ptr, pe_readable = (kfilter = EVFILT_READ),
          pe_writable = (kfilter = EVFILT_WRITE), pe_closed = eof, pe_error = error\<rparr>)"

definition KqueuePoller_Init :: "poll_errno + nat \<Rightarrow> KqueuePoller \<Rightarrow> unit Result \<times> KqueuePoller" where
  "KqueuePoller_Init created p =
     (if kq_fd p \<ge> 0 then (Inr (), p)
      else case created of
          Inl e \<Rightarrow> (Inl (KqueueError ''kqueue'' e), p\<lparr>kq_fd := -1\<rparr>)
        | Inr fd \<Rightarrow> (Inr (), p\<lparr>kq_fd := int fd\<rparr>))"

definition KqueuePoller_Poll :: "KqueuePoller \<Rightarrow> PollEvent list Result \<times> KqueuePoller" where
  "KqueuePoller_Poll p =
     (if kq_fd p < 0 then (Inl (Internal ''kqueue poller is not initialized''), p)
      else case kq_wait p of
          [] \<Rightarrow> (Inr [], p)
        | WaitErr e # rs \<Rightarrow>
            (if e = PEintr then Inr [] else Inl (KqueueError ''kevent wait'' e), p\<lparr>kq_wait := rs\<rparr>)
        | Events es # rs \<Rightarrow>
            let events = take (kq_capacity p) es;
                rest = (if drop (kq_capacity p) es = [] then rs else Events (drop (kq_capacity p) es) # rs)
            in (Inr (map Kqueue_ToPollEvent events),
                p\<lparr>kq_wait := rest,
                  kq_capacity := (if length events = kq_capacity p then kq_capacity p * 2 else kq_capacity p)\<rparr>))"

definition KqueuePoller_UpdateChannel :: "Channel option \<Rightarrow> KqueuePoller \<Rightarrow> unit Result \<times> KqueuePoller" where
  "KqueuePoller_UpdateChannel channel p =
     (case channel of
        None \<Rightarrow> (Inl (InvalidArgument ''channel must not be null''), p)
      | Some ch \<Rightarrow>
          if kq_fd p < 0 then (Inl (Internal ''kqueue poller is not initialized''), p)
          else if ch_fd ch < 0 then (Inl (InvalidArgument ''channel fd must be valid''), p)
          else
            sbind (ApplyEvent (ch_fd ch) EVFILT_READ (if ch_reading ch then Some (ch_ptr ch) else None)
                     (\<not> ch_reading ch))
              (\<lambda>_. ApplyEvent (ch_fd ch) EVFILT_WRITE (if ch_writing ch then Some (ch_ptr ch) else None)
                     (\<not> ch_writing ch)) p)"

definition KqueuePoller_RemoveChannel :: "Channel option \<Rightarrow> KqueuePoller \<Rightarrow> unit Result \<times> KqueuePoller" where
  "KqueuePoller_RemoveChannel channel p =
     (case channel of
        None \<Rightarrow> (Inl (InvalidArgument ''channel must not be null''), p)
      | Some ch \<Rightarrow>
          if kq_fd p < 0 \<or> ch_fd ch < 0 then (Inr (), p)
          else
            sbind (ApplyEvent (ch_fd ch) EVFILT_READ None True)
              (\<lambda>_. ApplyEvent (ch_fd ch) EVFILT_WRITE None True) p)"

section \<open>The contract of a poller\<close>

definition channel_fd :: "Channel option \<Rightarrow> int option" where
  "channel_fd channel = map_option ch_fd channel"

locale poller =
  fixes ready :: "'p \<Rightarrow> bool" and watched :: "'p \<Rightarrow> int \<Rightarrow> bool \<times> bool"
    and update remove :: "Channel option \<Rightarrow> 'p \<Rightarrow> unit Result \<times> 'p"
  assumes update_ok: "ready p \<Longrightarrow> update (Some ch) p = (Inr (), p') \<Longrightarrow>
      ready p' \<and> watched p' = (watched p)(ch_fd ch := (ch_reading ch, ch_writing ch))"
    and update_err: "ready p \<Longrightarrow> update channel p = (Inl e, p') \<Longrightarrow>
      ready p' \<and> (\<forall>fd. Some fd \<noteq> channel_fd channel \<longrightarrow> watched p' fd = watched p fd)"
    and remove_ok: "ready p \<Longrightarrow> 0 \<le> ch_fd ch \<Longrightarrow> remove (Some ch) p = (Inr (), p') \<Longrightarrow>
      ready p' \<and> watched p' = (watched p)(ch_fd ch := (False, False))"
    and remove_closed: "ready p \<Longrightarrow> ch_fd ch < 0 \<Longrightarrow> remove (Some ch) p = (Inr (), p') \<Longrightarrow> p' = p"
    and remove_err: "ready p \<Longrightarrow> remove channel p = (Inl e, p') \<Longrightarrow>
      ready p' \<and> (\<forall>fd. Some fd \<noteq> channel_fd channel \<longrightarrow> watched p' fd = watched p fd)"
begin

lemma update_effect:
  assumes "ready p"
  shows "ready (snd (update (Some ch) p)) \<and>
    (\<forall>fd. fd \<noteq> ch_fd ch \<longrightarrow> watched (snd (update (Some ch) p)) fd = watched p fd)"
proof -
  obtain r p' where run: "update (Some ch) p = (r, p')" by (rule prod.exhaust)
  show ?thesis
  proof (cases r)
    case (Inl e)
    with update_err [OF assms, of "Some ch" e p'] run show ?thesis by (auto simp: channel_fd_def)
  next
    case (Inr u)
    with update_ok [OF assms, of ch p'] run show ?thesis by auto
  qed
qed

lemma remove_effect:
  assumes "ready p"
  shows "ready (snd (remove (Some ch) p)) \<and>
    (\<forall>fd. fd \<noteq> ch_fd ch \<longrightarrow> watched (snd (remove (Some ch) p)) fd = watched p fd)"
proof -
  obtain r p' where run: "remove (Some ch) p = (r, p')" by (rule prod.exhaust)
  show ?thesis
  proof (cases r)
    case (Inl e)
    with remove_err [OF assms, of "Some ch" e p'] run show ?thesis by (auto simp: channel_fd_def)
  next
    case (Inr u)
    with remove_ok [OF assms, of ch p'] remove_closed [OF assms, of ch p'] run assms show ?thesis
      by (cases "0 \<le> ch_fd ch") auto
  qed
qed

text \<open>Two changes in a row: the second decides.\<close>

lemma update_twice:
  "ready p \<Longrightarrow> update (Some ch) p = (Inr (), p') \<Longrightarrow> ch_fd ch' = ch_fd ch \<Longrightarrow> update (Some ch') p' = (Inr (), p'') \<Longrightarrow>
   watched p'' = (watched p)(ch_fd ch := (ch_reading ch', ch_writing ch'))"
  by (metis fun_upd_upd update_ok)

end

definition epoll_ready :: "EpollPoller \<Rightarrow> bool" where
  "epoll_ready p \<longleftrightarrow> 0 \<le> ep_fd p \<and> set (ep_registered_fds p) = dom (ep_interest p)"

definition epoll_watched :: "EpollPoller \<Rightarrow> int \<Rightarrow> bool \<times> bool" where
  "epoll_watched p fd =
     (case ep_interest p fd of None \<Rightarrow> (False, False)
      | Some (events, _) \<Rightarrow> (events AND EPOLLIN \<noteq> 0, events AND EPOLLOUT \<noteq> 0))"

lemma EventsForChannel_bits:
  "EventsForChannel ch = 0 \<longleftrightarrow> \<not> ch_reading ch \<and> \<not> ch_writing ch"
  "EventsForChannel ch AND EPOLLIN \<noteq> 0 \<longleftrightarrow> ch_reading ch"
  "EventsForChannel ch AND EPOLLOUT \<noteq> 0 \<longleftrightarrow> ch_writing ch"
  by (simp_all add: EventsForChannel_def epoll_bits)

lemma epoll_ctl_cases:
  assumes "epoll_ctl operation fd event p = (r, p')"
  shows "ep_fd p' = ep_fd p \<and> ep_registered_fds p' = ep_registered_fds p \<and>
    (r = Inr () \<longrightarrow>
       ep_interest p' = (ep_interest p)(fd := if operation = EPOLL_CTL_DEL then None else Some event) \<and>
       (operation = EPOLL_CTL_ADD \<longleftrightarrow> fd \<notin> dom (ep_interest p))) \<and>
    (r \<noteq> Inr () \<longrightarrow> ep_interest p' = ep_interest p) \<and>
    (r = Inl PEnoent \<longrightarrow> fd \<notin> dom (ep_interest p))"
  using assms by (auto simp: epoll_ctl_def Let_def domIff split: option.splits epoll_op.splits if_splits list.splits)

lemma epoll_RemoveChannel_ok:
  assumes "epoll_ready p" "0 \<le> ch_fd ch" "EpollPoller_RemoveChannel (Some ch) p = (Inr (), p')"
  shows "epoll_ready p' \<and> ep_interest p' = (ep_interest p)(ch_fd ch := None)"
proof (cases "ch_fd ch \<in> set (ep_registered_fds p)")
  case False
  with assms show ?thesis by (auto simp: EpollPoller_RemoveChannel_def epoll_ready_def split: if_splits)
next
  case True
  obtain r p1 where ctl: "epoll_ctl EPOLL_CTL_DEL (ch_fd ch) (0, 0) p = (r, p1)" by (rule prod.exhaust)
  from True assms epoll_ctl_cases [OF ctl] have "r = Inr ()" "p' = p1\<lparr>ep_registered_fds := removeAll (ch_fd ch) (ep_registered_fds p1)\<rparr>"
    by (auto simp: EpollPoller_RemoveChannel_def epoll_ready_def ctl split: sum.splits if_splits)
  with epoll_ctl_cases [OF ctl] assms(1) show ?thesis by (auto simp: epoll_ready_def)
qed

lemma epoll_RemoveChannel_err:
  assumes "epoll_ready p" "EpollPoller_RemoveChannel channel p = (Inl e, p')"
  shows "epoll_ready p' \<and> ep_interest p' = ep_interest p"
  using assms
  by (auto simp: EpollPoller_RemoveChannel_def epoll_ready_def split: if_splits prod.splits sum.splits option.splits
      dest!: epoll_ctl_cases)

lemma epoll_UpdateChannel_ok:
  assumes "epoll_ready p" "EpollPoller_UpdateChannel (Some ch) p = (Inr (), p')"
  shows "epoll_ready p' \<and> 0 \<le> ch_fd ch \<and> ep_interest p' = (ep_interest p)(ch_fd ch :=
    if EventsForChannel ch = 0 then None else Some (EventsForChannel ch, ch_ptr ch))"
proof -
  let ?registered = "ch_fd ch \<in> set (ep_registered_fds p)"
  have fd: "0 \<le> ch_fd ch" using assms by (auto simp: EpollPoller_UpdateChannel_def split: if_splits)
  show ?thesis
  proof (cases "EventsForChannel ch = 0")
    case True
    then show ?thesis using assms fd epoll_RemoveChannel_ok [OF assms(1) fd, of p']
      by (auto simp: EpollPoller_UpdateChannel_def epoll_ready_def split: if_splits)
  next
    case False
    obtain r p1 where ctl: "epoll_ctl (if ?registered then EPOLL_CTL_MOD else EPOLL_CTL_ADD)
        (ch_fd ch) (EventsForChannel ch, ch_ptr ch) p = (r, p1)" by (rule prod.exhaust)
    have "\<not> ep_fd p < 0" using assms(1) by (simp add: epoll_ready_def)
    with False assms(2) fd have "r = Inr ()"
      and p': "p' = (if ?registered then p1 else p1\<lparr>ep_registered_fds := ch_fd ch # ep_registered_fds p1\<rparr>)"
      by (cases r; simp add: EpollPoller_UpdateChannel_def Let_def ctl)+
    with epoll_ctl_cases [OF ctl] assms(1) fd False show ?thesis by (auto simp: epoll_ready_def split: if_splits)
  qed
qed

lemma epoll_UpdateChannel_err:
  assumes "epoll_ready p" "EpollPoller_UpdateChannel channel p = (Inl e, p')"
  shows "epoll_ready p' \<and> ep_interest p' = ep_interest p"
  using assms epoll_RemoveChannel_err [OF assms(1)]
  by (auto simp: EpollPoller_UpdateChannel_def epoll_ready_def Let_def split: if_splits prod.splits sum.splits option.splits
      dest!: epoll_ctl_cases)

interpretation epoll: poller epoll_ready epoll_watched EpollPoller_UpdateChannel EpollPoller_RemoveChannel
proof
  fix p p' :: EpollPoller and ch :: Channel and channel :: "Channel option" and e
  assume r: "epoll_ready p"
  show "epoll_ready p' \<and> epoll_watched p' = (epoll_watched p)(ch_fd ch := (ch_reading ch, ch_writing ch))"
    if "EpollPoller_UpdateChannel (Some ch) p = (Inr (), p')"
    using epoll_UpdateChannel_ok [OF r that] EventsForChannel_bits [of ch] by (auto simp: epoll_watched_def fun_eq_iff)
  show "epoll_ready p' \<and> (\<forall>fd. Some fd \<noteq> channel_fd channel \<longrightarrow> epoll_watched p' fd = epoll_watched p fd)"
    if "EpollPoller_UpdateChannel channel p = (Inl e, p')"
    using epoll_UpdateChannel_err [OF r that] by (simp add: epoll_watched_def)
  show "epoll_ready p' \<and> epoll_watched p' = (epoll_watched p)(ch_fd ch := (False, False))"
    if "0 \<le> ch_fd ch" "EpollPoller_RemoveChannel (Some ch) p = (Inr (), p')"
    using epoll_RemoveChannel_ok [OF r that] by (auto simp: epoll_watched_def fun_eq_iff)
  show "p' = p" if "ch_fd ch < 0" "EpollPoller_RemoveChannel (Some ch) p = (Inr (), p')"
    using that by (simp add: EpollPoller_RemoveChannel_def)
  show "epoll_ready p' \<and> (\<forall>fd. Some fd \<noteq> channel_fd channel \<longrightarrow> epoll_watched p' fd = epoll_watched p fd)"
    if "EpollPoller_RemoveChannel channel p = (Inl e, p')"
    using epoll_RemoveChannel_err [OF r that] by (simp add: epoll_watched_def)
qed

definition kqueue_ready :: "KqueuePoller \<Rightarrow> bool" where
  "kqueue_ready p \<longleftrightarrow> 0 \<le> kq_fd p"

definition kqueue_watched :: "KqueuePoller \<Rightarrow> int \<Rightarrow> bool \<times> bool" where
  "kqueue_watched p fd = (kq_filters p (fd, EVFILT_READ) \<noteq> None, kq_filters p (fd, EVFILT_WRITE) \<noteq> None)"

lemma ApplyEvent_cases:
  assumes "ApplyEvent fd kfilter ev (ev = None) p = (r, p')"
  shows "kq_fd p' = kq_fd p \<and> kq_filters p' = (if r = Inr () then (kq_filters p)((fd, kfilter) := ev) else kq_filters p)"
  using assms by (auto simp: ApplyEvent_def kevent_change_def Let_def fun_eq_iff split: option.splits list.splits if_splits)

lemma ApplyEvent_both:
  assumes "sbind (ApplyEvent fd EVFILT_READ er (er = None)) (\<lambda>_. ApplyEvent fd EVFILT_WRITE ew (ew = None)) p = (r, p')"
  shows "kq_fd p' = kq_fd p \<and>
    (r = Inr () \<longrightarrow> kqueue_watched p' = (kqueue_watched p)(fd := (er \<noteq> None, ew \<noteq> None))) \<and>
    (\<forall>fd'. fd' \<noteq> fd \<longrightarrow> kqueue_watched p' fd' = kqueue_watched p fd')"
proof -
  obtain r1 p1 where a: "ApplyEvent fd EVFILT_READ er (er = None) p = (r1, p1)" by (rule prod.exhaust)
  show ?thesis
  proof (cases r1)
    case (Inl e)
    with assms ApplyEvent_cases [OF a] show ?thesis by (auto simp: sbind_def a kqueue_watched_def)
  next
    case (Inr u)
    with assms a have "ApplyEvent fd EVFILT_WRITE ew (ew = None) p1 = (r, p')" by (simp add: sbind_def)
    from ApplyEvent_cases [OF this] ApplyEvent_cases [OF a] Inr show ?thesis
      by (auto simp: kqueue_watched_def fun_eq_iff split: if_splits)
  qed
qed

lemma kqueue_UpdateChannel_run:
  assumes "kqueue_ready p" "0 \<le> ch_fd ch"
  shows "KqueuePoller_UpdateChannel (Some ch) p =
    (let er = (if ch_reading ch then Some (ch_ptr ch) else None); ew = (if ch_writing ch then Some (ch_ptr ch) else None)
     in sbind (ApplyEvent (ch_fd ch) EVFILT_READ er (er = None))
          (\<lambda>_. ApplyEvent (ch_fd ch) EVFILT_WRITE ew (ew = None)) p)"
  using assms by (simp add: KqueuePoller_UpdateChannel_def kqueue_ready_def Let_def)

lemma kqueue_RemoveChannel_run:
  assumes "kqueue_ready p" "0 \<le> ch_fd ch"
  shows "KqueuePoller_RemoveChannel (Some ch) p =
    sbind (ApplyEvent (ch_fd ch) EVFILT_READ None (None = (None :: nat option)))
      (\<lambda>_. ApplyEvent (ch_fd ch) EVFILT_WRITE None (None = (None :: nat option))) p"
  using assms by (simp add: KqueuePoller_RemoveChannel_def kqueue_ready_def)

interpretation kqueue: poller kqueue_ready kqueue_watched KqueuePoller_UpdateChannel KqueuePoller_RemoveChannel
proof
  fix p p' :: KqueuePoller and ch :: Channel and channel :: "Channel option" and e
  assume r: "kqueue_ready p"
  show "kqueue_ready p' \<and> kqueue_watched p' = (kqueue_watched p)(ch_fd ch := (ch_reading ch, ch_writing ch))"
    if u: "KqueuePoller_UpdateChannel (Some ch) p = (Inr (), p')"
  proof -
    have fd: "0 \<le> ch_fd ch" using r u by (auto simp: KqueuePoller_UpdateChannel_def kqueue_ready_def split: if_splits)
    from ApplyEvent_both [OF u [unfolded kqueue_UpdateChannel_run [OF r fd] Let_def]] r show ?thesis
      by (simp add: kqueue_ready_def)
  qed
  show "kqueue_ready p' \<and> kqueue_watched p' = (kqueue_watched p)(ch_fd ch := (False, False))"
    if fd: "0 \<le> ch_fd ch" and u: "KqueuePoller_RemoveChannel (Some ch) p = (Inr (), p')"
    using ApplyEvent_both [OF u [unfolded kqueue_RemoveChannel_run [OF r fd]]] r by (simp add: kqueue_ready_def)
  show "p' = p" if "ch_fd ch < 0" "KqueuePoller_RemoveChannel (Some ch) p = (Inr (), p')"
    using that by (simp add: KqueuePoller_RemoveChannel_def)
  show "kqueue_ready p' \<and> (\<forall>fd. Some fd \<noteq> channel_fd channel \<longrightarrow> kqueue_watched p' fd = kqueue_watched p fd)"
    if u: "KqueuePoller_UpdateChannel channel p = (Inl e, p')"
  proof (cases "\<exists>ch. channel = Some ch \<and> 0 \<le> ch_fd ch")
    case True
    then obtain ch where ch: "channel = Some ch" "0 \<le> ch_fd ch" by blast
    from ApplyEvent_both [OF u [unfolded ch(1) kqueue_UpdateChannel_run [OF r ch(2)] Let_def]] r ch(1) show ?thesis
      by (simp add: kqueue_ready_def channel_fd_def)
  next
    case False
    with u r show ?thesis by (auto simp: KqueuePoller_UpdateChannel_def kqueue_ready_def split: option.splits if_splits)
  qed
  show "kqueue_ready p' \<and> (\<forall>fd. Some fd \<noteq> channel_fd channel \<longrightarrow> kqueue_watched p' fd = kqueue_watched p fd)"
    if u: "KqueuePoller_RemoveChannel channel p = (Inl e, p')"
  proof (cases "\<exists>ch. channel = Some ch \<and> 0 \<le> ch_fd ch")
    case True
    then obtain ch where ch: "channel = Some ch" "0 \<le> ch_fd ch" by blast
    from ApplyEvent_both [OF u [unfolded ch(1) kqueue_RemoveChannel_run [OF r ch(2)]]] r ch(1) show ?thesis
      by (simp add: kqueue_ready_def channel_fd_def)
  next
    case False
    with u r show ?thesis by (auto simp: KqueuePoller_RemoveChannel_def kqueue_ready_def split: option.splits if_splits)
  qed
qed

end
