(* ===== verification/EventLoop.thy ===== *)
theory EventLoop
  imports Pollers
begin

text \<open>
  Models \<^verbatim>\<open>include/logmq/net/event_loop.h\<close> and \<^verbatim>\<open>src/net/event_loop.cpp\<close> as built for Linux,
  and the methods of \<^verbatim>\<open>Channel\<close> that go through the loop: an event loop waits for events in
  its poller, runs the callbacks of the channels they belong to, and then the functors that
  this and other threads have queued. Queueing a functor wakes the loop up through an
  \<^verbatim>\<open>eventfd\<close>, whose counter is part of the state.
\<close>

section \<open>The loop\<close>

record 'f EventLoop =
  el_poller :: "EpollPoller option"
  el_wakeup_read_fd :: int
  el_wakeup_write_fd :: int
  el_wakeup_channel :: "Channel option"
  el_quit :: bool
  el_thread_id :: nat
  el_pending :: "'f list"
  el_eventfd :: nat

definition mk_EventLoop :: "nat \<Rightarrow> 'f EventLoop" where
  "mk_EventLoop this_thread =
     \<lparr>el_poller = None, el_wakeup_read_fd = -1, el_wakeup_write_fd = -1, el_wakeup_channel = None,
      el_quit = False, el_thread_id = this_thread, el_pending = [], el_eventfd = 0\<rparr>"

definition EventLoop_UpdateChannel :: "Channel option \<Rightarrow> EpollPoller option \<Rightarrow> EpollPoller option" where
  "EventLoop_UpdateChannel channel po =
     (case po of None \<Rightarrow> None
      | Some p \<Rightarrow> Some (if channel = None then p else snd (EpollPoller_UpdateChannel channel p)))"

definition EventLoop_RemoveChannel :: "Channel option \<Rightarrow> EpollPoller option \<Rightarrow> EpollPoller option" where
  "EventLoop_RemoveChannel channel po =
     (case po of None \<Rightarrow> None
      | Some p \<Rightarrow> Some (if channel = None then p else snd (EpollPoller_RemoveChannel channel p)))"

subsection \<open>Channels in a loop\<close>

definition Channel_Update :: "Channel \<times> EpollPoller option \<Rightarrow> Channel \<times> EpollPoller option" where
  "Channel_Update st =
     (let (ch, p) = st in (ch, if ch_removed ch then p else EventLoop_UpdateChannel (Some ch) p))"

definition EnableReading :: "Channel \<times> EpollPoller option \<Rightarrow> Channel \<times> EpollPoller option" where
  "EnableReading st = Channel_Update ((fst st)\<lparr>ch_reading := True\<rparr>, snd st)"

definition EnableWriting :: "Channel \<times> EpollPoller option \<Rightarrow> Channel \<times> EpollPoller option" where
  "EnableWriting st = Channel_Update ((fst st)\<lparr>ch_writing := True\<rparr>, snd st)"

definition DisableWriting :: "Channel \<times> EpollPoller option \<Rightarrow> Channel \<times> EpollPoller option" where
  "DisableWriting st = Channel_Update ((fst st)\<lparr>ch_writing := False\<rparr>, snd st)"

definition DisableAll :: "Channel \<times> EpollPoller option \<Rightarrow> Channel \<times> EpollPoller option" where
  "DisableAll st = Channel_Update ((fst st)\<lparr>ch_reading := False, ch_writing := False\<rparr>, snd st)"

definition Channel_Remove :: "Channel \<times> EpollPoller option \<Rightarrow> Channel \<times> EpollPoller option" where
  "Channel_Remove st =
     (let (ch, p) = st
      in if \<not> ch_removed ch \<and> ch_fd ch \<ge> 0
         then let ch = ch\<lparr>ch_removed := True\<rparr> in (ch, EventLoop_RemoveChannel (Some ch) p)
         else st)"

definition Channel_Tie :: "Channel \<Rightarrow> Channel" where
  "Channel_Tie ch = ch\<lparr>ch_tied := True\<rparr>"

subsection \<open>Start\<close>

text \<open>The arguments \<open>created\<close> and \<open>efd\<close> are what \<^verbatim>\<open>epoll_create1\<close> and \<^verbatim>\<open>eventfd\<close> return; the
  channel for wakeups is number 0.\<close>

definition CreateWakeupFds :: "string + nat \<Rightarrow> (int \<times> int) Result" where
  "CreateWakeupFds efd =
     (case efd of Inl e \<Rightarrow> Inl (IoError (''eventfd: '' @ e)) | Inr fd \<Rightarrow> Inr (int fd, int fd))"

definition EventLoop_Init :: "poll_errno + nat \<Rightarrow> string + nat \<Rightarrow> 'f EventLoop \<Rightarrow> unit Result \<times> 'f EventLoop" where
  "EventLoop_Init created efd el =
     (if el_poller el \<noteq> None then (Inr (), el)
      else
        case EpollPoller_Init created mk_EpollPoller of
          (Inl e, _) \<Rightarrow> (Inl e, el\<lparr>el_poller := None\<rparr>)
        | (Inr _, p) \<Rightarrow>
            (case CreateWakeupFds efd of
               Inl e \<Rightarrow> (Inl e, el\<lparr>el_poller := None\<rparr>)
             | Inr (read_fd, write_fd) \<Rightarrow>
                 let (ch, p) = EnableReading (mk_Channel 0 read_fd, Some p)
                 in (Inr (), el\<lparr>el_poller := p, el_wakeup_read_fd := read_fd, el_wakeup_write_fd := write_fd,
                                el_wakeup_channel := Some ch\<rparr>)))"

subsection \<open>Wakeups\<close>

text \<open>A write of 1 to the \<^verbatim>\<open>eventfd\<close> adds to its counter, and is refused when the counter would
  pass \<^verbatim>\<open>2^64-2\<close>; a read takes the counter and is refused when it is 0.\<close>

definition eventfd_max :: nat where "eventfd_max = 18446744073709551614"

definition eventfd_read :: "'f EventLoop \<Rightarrow> nat option \<times> 'f EventLoop" where
  "eventfd_read el =
     (if el_eventfd el = 0 then (None, el) else (Some (el_eventfd el), el\<lparr>el_eventfd := 0\<rparr>))"

definition Wakeup :: "'f EventLoop \<Rightarrow> 'f EventLoop" where
  "Wakeup el =
     (if el_wakeup_write_fd el < 0 then el
      else if el_eventfd el \<ge> eventfd_max then el
      else el\<lparr>el_eventfd := el_eventfd el + 1\<rparr>)"

function HandleWakeup :: "'f EventLoop \<Rightarrow> 'f EventLoop" where
  "HandleWakeup el =
     (case eventfd_read el of (None, el') \<Rightarrow> el' | (Some n, el') \<Rightarrow> HandleWakeup el')"
  by pat_completeness auto
termination
  by (relation "measure el_eventfd") (auto simp: eventfd_read_def split: if_splits)

declare HandleWakeup.simps [simp del]

text \<open>The locked part of \<^verbatim>\<open>QueueInLoop\<close>, and the store of \<^verbatim>\<open>Quit\<close>. Each is followed by
  \<^verbatim>\<open>Wakeup\<close>, before which other threads may come in.\<close>

definition queue_functor :: "'f \<Rightarrow> 'f EventLoop \<Rightarrow> 'f EventLoop" where
  "queue_functor functor el = el\<lparr>el_pending := el_pending el @ [functor]\<rparr>"

definition QueueInLoop :: "'f \<Rightarrow> 'f EventLoop \<Rightarrow> 'f EventLoop" where
  "QueueInLoop functor el = Wakeup (queue_functor functor el)"

definition set_quit :: "'f EventLoop \<Rightarrow> 'f EventLoop" where
  "set_quit el = el\<lparr>el_quit := True\<rparr>"

definition EventLoop_Quit :: "'f EventLoop \<Rightarrow> 'f EventLoop" where
  "EventLoop_Quit el = Wakeup (set_quit el)"

definition IsInLoopThread :: "nat \<Rightarrow> 'f EventLoop \<Rightarrow> bool" where
  "IsInLoopThread this_thread el \<longleftrightarrow> this_thread = el_thread_id el"

text \<open>\<^verbatim>\<open>RunInLoop\<close> with the functor that is left to call at once, if any.\<close>

definition RunInLoop :: "nat \<Rightarrow> 'f \<Rightarrow> 'f EventLoop \<Rightarrow> 'f option \<times> 'f EventLoop" where
  "RunInLoop this_thread functor el =
     (if IsInLoopThread this_thread el then (Some functor, el) else (None, QueueInLoop functor el))"

subsection \<open>Turns of the loop\<close>

text \<open>Where the thread of a loop is: at the test of \<^verbatim>\<open>quit_\<close>, in \<^verbatim>\<open>Poll\<close>, dispatching events, before
  the swap of \<^verbatim>\<open>DoPendingFunctors\<close>, running the functors it swapped out, and the same two
  once more after the loop. The flag tells the swap after the loop from the one inside.\<close>

datatype 'f loop_phase =
  AtTop | Waiting | Dispatching "PollEvent list" | Swapping bool | RunningBatch bool "'f list" | Ended

definition loop_top :: "'f EventLoop \<Rightarrow> 'f loop_phase" where
  "loop_top el = (if el_quit el \<or> el_poller el = None then Swapping True else Waiting)"

text \<open>The return of \<^verbatim>\<open>Poll\<close>: an error goes back to the top.\<close>

definition loop_polled :: "'f EventLoop \<Rightarrow> 'f loop_phase \<times> 'f EventLoop" where
  "loop_polled el =
     (case el_poller el of
        None \<Rightarrow> (AtTop, el)
      | Some p \<Rightarrow>
          (case EpollPoller_Poll p of
             (Inl e, p') \<Rightarrow> (AtTop, el\<lparr>el_poller := Some p'\<rparr>)
           | (Inr events, p') \<Rightarrow> (Dispatching events, el\<lparr>el_poller := Some p'\<rparr>)))"

definition wakeup_callbacks :: "'f EventLoop callbacks" where
  "wakeup_callbacks = \<lparr>cb_read = Some HandleWakeup, cb_write = None, cb_close = None, cb_error = None\<rparr>"

text \<open>An event of the loop's own channel. Those of other channels run their callbacks, whose
  effect on the loop is to queue functors.\<close>

definition own_event :: "PollEvent \<Rightarrow> 'f EventLoop \<Rightarrow> 'f EventLoop" where
  "own_event ev el =
     (case (pe_channel ev, el_wakeup_channel el) of
        (Some ptr, Some ch) \<Rightarrow>
          if ptr = ch_ptr ch
          then HandleEvent ch True wakeup_callbacks (pe_readable ev) (pe_writable ev) (pe_closed ev) (pe_error ev) el
          else el
      | _ \<Rightarrow> el)"

definition swap_pending :: "'f EventLoop \<Rightarrow> 'f list \<times> 'f EventLoop" where
  "swap_pending el = (el_pending el, el\<lparr>el_pending := []\<rparr>)"

text \<open>The runs of a loop from its start on: its state, where its thread is, how many wakeups are
  owed by threads that have queued or quit and not yet written, and the functors that were
  queued and run so far, in order.\<close>

inductive loop_run ::
  "'f EventLoop \<Rightarrow> 'f loop_phase \<Rightarrow> nat \<Rightarrow> 'f list \<Rightarrow> 'f list \<Rightarrow> bool" where
  start: "EventLoop_Init created efd (mk_EventLoop this_thread) = (Inr (), el) \<Longrightarrow> loop_run el AtTop 0 [] []"
| queue: "loop_run el ph due queued run \<Longrightarrow>
    loop_run (queue_functor f el) ph (Suc due) (queued @ [f]) run"
| quit: "loop_run el ph due queued run \<Longrightarrow> loop_run (set_quit el) ph (Suc due) queued run"
| wake: "loop_run el ph (Suc due) queued run \<Longrightarrow> loop_run (Wakeup el) ph due queued run"
| top: "loop_run el AtTop due queued run \<Longrightarrow> loop_run el (loop_top el) due queued run"
| polled: "loop_run el Waiting due queued run \<Longrightarrow> loop_polled el = (ph, el') \<Longrightarrow>
    loop_run el' ph due queued run"
| dispatch: "loop_run el (Dispatching (ev # evs)) due queued run \<Longrightarrow>
    loop_run (own_event ev el) (Dispatching evs) due queued run"
| dispatched: "loop_run el (Dispatching []) due queued run \<Longrightarrow> loop_run el (Swapping False) due queued run"
| swap: "loop_run el (Swapping final) due queued run \<Longrightarrow> swap_pending el = (batch, el') \<Longrightarrow>
    loop_run el' (RunningBatch final batch) due queued run"
| run: "loop_run el (RunningBatch final (f # fs)) due queued run \<Longrightarrow>
    loop_run el (RunningBatch final fs) due queued (run @ [f])"
| batch_done: "loop_run el (RunningBatch final []) due queued run \<Longrightarrow>
    loop_run el (if final then Ended else AtTop) due queued run"

section \<open>Functors run once and in order, and no wakeup is lost\<close>

definition batch :: "'f loop_phase \<Rightarrow> 'f list" where
  "batch ph = (case ph of RunningBatch _ fs \<Rightarrow> fs | _ \<Rightarrow> [])"

definition may_sleep :: "'f loop_phase \<Rightarrow> bool" where
  "may_sleep ph \<longleftrightarrow> (case ph of Waiting \<Rightarrow> True | AtTop \<Rightarrow> True | RunningBatch final _ \<Rightarrow> \<not> final | _ \<Rightarrow> False)"

definition loop_inv :: "'f EventLoop \<Rightarrow> 'f loop_phase \<Rightarrow> nat \<Rightarrow> 'f list \<Rightarrow> 'f list \<Rightarrow> bool" where
  "loop_inv el ph due queued run \<longleftrightarrow>
     queued = run @ batch ph @ el_pending el \<and> 0 \<le> el_wakeup_write_fd el \<and>
     (may_sleep ph \<and> el_pending el \<noteq> [] \<longrightarrow> 0 < el_eventfd el \<or> 0 < due) \<and>
     (ph = Waiting \<and> el_quit el \<longrightarrow> 0 < el_eventfd el \<or> 0 < due)"

lemma loop_phase_simps [simp]:
  "batch AtTop = []" "batch Waiting = []" "batch (Dispatching evs) = []" "batch (Swapping final) = []"
  "batch (RunningBatch final fs) = fs" "batch Ended = []"
  "may_sleep AtTop" "may_sleep Waiting" "\<not> may_sleep (Dispatching evs)" "\<not> may_sleep (Swapping final)"
  "may_sleep (RunningBatch final fs) \<longleftrightarrow> \<not> final" "\<not> may_sleep Ended"
  by (simp_all add: batch_def may_sleep_def)

lemma Wakeup_fields [simp]:
  "el_pending (Wakeup el) = el_pending el" "el_quit (Wakeup el) = el_quit el"
  "el_wakeup_write_fd (Wakeup el) = el_wakeup_write_fd el" "el_poller (Wakeup el) = el_poller el"
  "0 \<le> el_wakeup_write_fd el \<Longrightarrow> 0 < el_eventfd (Wakeup el)"
  by (simp_all add: Wakeup_def eventfd_max_def)

lemma HandleWakeup_eq: "HandleWakeup el = el\<lparr>el_eventfd := 0\<rparr>"
  by (subst HandleWakeup.simps, simp add: eventfd_read_def, subst HandleWakeup.simps) (simp add: eventfd_read_def)

lemma own_event_cases: "own_event ev el = el \<or> own_event ev el = el\<lparr>el_eventfd := 0\<rparr>"
  by (auto simp: own_event_def HandleEvent_def HandleEventWithGuard_def wakeup_callbacks_def call_def HandleWakeup_eq Let_def
      split: option.split)

lemma EventLoop_Init_ok:
  assumes "EventLoop_Init created efd (mk_EventLoop this_thread) = (Inr (), el)"
  shows "el_pending el = [] \<and> 0 \<le> el_wakeup_write_fd el \<and> \<not> el_quit el"
  using assms
  by (auto simp: EventLoop_Init_def mk_EventLoop_def CreateWakeupFds_def Let_def split: sum.splits prod.splits)

lemma loop_run_inv: "loop_run el ph due queued run \<Longrightarrow> loop_inv el ph due queued run"
proof (induction rule: loop_run.induct)
  case (start created efd this_thread el)
  then show ?case using EventLoop_Init_ok by (fastforce simp: loop_inv_def)
next
  case (top el due queued run)
  then show ?case by (auto simp: loop_inv_def loop_top_def)
next
  case (polled el due queued run ph el')
  then show ?case by (auto simp: loop_inv_def loop_polled_def split: option.splits prod.splits sum.splits)
next
  case (dispatch el ev evs due queued run)
  then show ?case using own_event_cases [of ev el] by (auto simp: loop_inv_def)
qed (auto simp: loop_inv_def queue_functor_def set_quit_def swap_pending_def)

end
