(* ===== verification/TcpConnection.thy ===== *)
theory TcpConnection
  imports NetBuffer WorkerPool EventLoop Codec BrokerService
begin

text \<open>
  Models \<^verbatim>\<open>include/logmq/net/tcp_connection.h\<close> and \<^verbatim>\<open>src/net/tcp_connection.cpp\<close>: a connection
  decodes requests from its socket, hands them one at a time to the worker pool, and writes
  the responses that come back. Its methods run on the thread of its loop; the state they
  work on is the connection and what it shares: its socket, the poller of its loop, the
  worker pool, and the descriptors it has reported to its close callback and closed.
\<close>

section \<open>The connection\<close>

record TcpConnection =
  tc_fd :: int
  tc_read_buffer_bytes :: nat
  tc_channel :: Channel
  tc_output :: Buffer
  tc_decoder :: FrameDecoder
  tc_requests :: "RequestEnvelope list"
  tc_processing :: bool
  tc_closing :: bool
  tc_has_close_callback :: bool

type_synonym conn_task = "nat \<times> RequestEnvelope"

record conn_env =
  ce_socket :: Socket
  ce_poller :: "EpollPoller option"
  ce_workers :: "conn_task WorkerPool"
  ce_reported :: "int list"
  ce_closed :: "int list"

type_synonym conn = "TcpConnection \<times> conn_env"

text \<open>The connection is known to others by a number, \<open>self\<close>, which also names its channel.\<close>

definition mk_TcpConnection :: "nat \<Rightarrow> int \<Rightarrow> nat \<Rightarrow> TcpConnection" where
  "mk_TcpConnection self fd read_buffer_bytes =
     \<lparr>tc_fd = fd, tc_read_buffer_bytes = read_buffer_bytes, tc_channel = mk_Channel self fd,
      tc_output = mk_Buffer, tc_decoder = mk_FrameDecoder kMaxFrameBytes, tc_requests = [],
      tc_processing = False, tc_closing = False, tc_has_close_callback = False\<rparr>"

definition on_channel ::
  "(Channel \<times> EpollPoller option \<Rightarrow> Channel \<times> EpollPoller option) \<Rightarrow> conn \<Rightarrow> conn" where
  "on_channel f st =
     (let (ch, p) = f (tc_channel (fst st), ce_poller (snd st))
      in ((fst st)\<lparr>tc_channel := ch\<rparr>, (snd st)\<lparr>ce_poller := p\<rparr>))"

definition TcpConnection_Start :: "conn \<Rightarrow> conn" where
  "TcpConnection_Start = on_channel EnableReading"

definition TcpConnection_SetCloseCallback :: "TcpConnection \<Rightarrow> TcpConnection" where
  "TcpConnection_SetCloseCallback tc = tc\<lparr>tc_has_close_callback := True\<rparr>"

definition TcpConnection_Tie :: "TcpConnection \<Rightarrow> TcpConnection" where
  "TcpConnection_Tie tc = tc\<lparr>tc_channel := Channel_Tie (tc_channel tc)\<rparr>"

section \<open>Closing\<close>

definition HandleClose :: "conn \<Rightarrow> conn" where
  "HandleClose st =
     (if tc_fd (fst st) < 0 then st
      else
        let (tc, env) = on_channel Channel_Remove (on_channel DisableAll st);
            closed_fd = tc_fd tc
        in (tc\<lparr>tc_fd := -1\<rparr>,
            env\<lparr>ce_reported := ce_reported env @ (if tc_has_close_callback tc then [closed_fd] else []),
                ce_closed := ce_closed env @ [closed_fd]\<rparr>))"

definition append_output :: "byte list \<Rightarrow> conn \<Rightarrow> conn" where
  "append_output data st =
     on_channel EnableWriting ((fst st)\<lparr>tc_output := Buffer_Append data (tc_output (fst st))\<rparr>, snd st)"

definition QueueErrorAndClose :: "ProtocolErrorCode \<Rightarrow> string \<Rightarrow> conn \<Rightarrow> conn" where
  "QueueErrorAndClose code message st =
     (let (tc, env) =
        (case EncodeErrorResponse kProduce kProtocolVersion 0 code message of
           Inl _ \<Rightarrow> st
         | Inr encoded \<Rightarrow> append_output encoded st)
      in (tc\<lparr>tc_closing := True, tc_decoder := FrameDecoder_Clear (tc_decoder tc), tc_requests := []\<rparr>, env))"

text \<open>The functor that \<^verbatim>\<open>Shutdown\<close> queues in the loop.\<close>

definition shutdown_functor :: "conn \<Rightarrow> conn" where
  "shutdown_functor st =
     (let st = ((fst st)\<lparr>tc_closing := True\<rparr>, snd st)
      in if readable_bytes (tc_output (fst st)) = 0 then HandleClose st else st)"

section \<open>Requests and responses\<close>

definition SubmitNext :: "nat \<Rightarrow> conn \<Rightarrow> conn" where
  "SubmitNext self st =
     (let (tc, env) = st
      in if tc_processing tc \<or> tc_closing tc \<or> tc_requests tc = [] then st
         else
           let request = hd (tc_requests tc);
               tc = tc\<lparr>tc_processing := True, tc_requests := tl (tc_requests tc)\<rparr>;
               (accepted, workers) = Submit (self, request) (ce_workers env);
               env = env\<lparr>ce_workers := workers\<rparr>
           in if accepted then (tc, env)
              else
                let (tc, env) =
                  (case EncodeErrorResponse (rqe_api_key request) kProtocolVersion (rqe_request_id request)
                          pkInternal ''worker queue is full'' of
                     Inl _ \<Rightarrow> (tc\<lparr>tc_processing := False\<rparr>, env)
                   | Inr encoded \<Rightarrow> append_output encoded (tc\<lparr>tc_processing := False\<rparr>, env))
                in (tc\<lparr>tc_closing := True\<rparr>, env))"

text \<open>What a worker does with a request before it hands the bytes to the loop.\<close>

definition run_task :: "Clock \<Rightarrow> RequestEnvelope \<Rightarrow> broker \<Rightarrow> byte list \<times> broker" where
  "run_task clock request st =
     (let (response, st') = Handle clock request st
      in (case EncodeResponse response of
            Inr bytes \<Rightarrow> bytes
          | Inl e \<Rightarrow>
              (case EncodeErrorResponse (rqe_api_key request) kProtocolVersion (rqe_request_id request)
                      pkInternal (st_message e) of
                 Inr bytes \<Rightarrow> bytes
               | Inl _ \<Rightarrow> []), st'))"

definition OnResponse :: "nat \<Rightarrow> byte list \<Rightarrow> conn \<Rightarrow> conn" where
  "OnResponse self response st =
     (let st = ((fst st)\<lparr>tc_processing := False\<rparr>, snd st);
          st = (if response \<noteq> [] then append_output response st else st)
      in SubmitNext self st)"

section \<open>Reading and writing\<close>

text \<open>The loop of \<^verbatim>\<open>HandleRead\<close>: the requests it decoded, and whether it ended with the break that
  leads to \<^verbatim>\<open>SubmitNext\<close>.\<close>

function receive_requests :: "conn \<Rightarrow> (bool \<times> RequestEnvelope list) \<times> conn" where
  "receive_requests (tc, env) =
     (case sys_read (tc_fd tc) (tc_read_buffer_bytes tc) (ce_socket env) of
        (Inl e, s) \<Rightarrow>
          if e = SEintr then receive_requests (tc, env\<lparr>ce_socket := s\<rparr>)
          else if e = SEagain then ((True, []), (tc, env\<lparr>ce_socket := s\<rparr>))
          else ((False, []), HandleClose (tc, env\<lparr>ce_socket := s\<rparr>))
      | (Inr chunk, s) \<Rightarrow>
          if chunk = [] then ((False, []), HandleClose (tc, env\<lparr>ce_socket := s\<rparr>))
          else
            (case FrameDecoder_Push chunk (tc_decoder tc) of
               (Inl e, decoder) \<Rightarrow>
                 ((False, []), QueueErrorAndClose pkInvalidRequest (st_message e)
                    (tc\<lparr>tc_decoder := decoder\<rparr>, env\<lparr>ce_socket := s\<rparr>))
             | (Inr requests, decoder) \<Rightarrow>
                 let ((go_on, more), st) =
                   receive_requests (tc\<lparr>tc_decoder := decoder, tc_requests := tc_requests tc @ requests\<rparr>,
                                     env\<lparr>ce_socket := s\<rparr>)
                 in ((go_on, requests @ more), st)))"
  by pat_completeness auto
termination
proof (relation "measure (\<lambda>(tc, env). recv_left (ce_socket env))", goal_cases)
  case (2 tc env x1 s e)
  then have "0 \<le> tc_fd tc" by (auto simp: sys_read_def ebadf_def not_less split: if_splits)
  with 2 show ?case by (auto dest!: sys_read_err_less [OF sym])
next
  case (3 tc env x1 s chunk)
  then show ?case by (auto dest!: sys_read_less [OF sym])
qed simp

declare receive_requests.simps [simp del]

definition HandleRead :: "nat \<Rightarrow> conn \<Rightarrow> conn" where
  "HandleRead self st =
     (let ((go_on, _), st) = receive_requests st in if go_on then SubmitNext self st else st)"

definition HandleWrite :: "conn \<Rightarrow> conn" where
  "HandleWrite st =
     (let (tc, env) = st
      in case WriteToFd (tc_fd tc) (tc_output tc, ce_socket env) of
           (Inl _, (output, s)) \<Rightarrow> HandleClose (tc\<lparr>tc_output := output\<rparr>, env\<lparr>ce_socket := s\<rparr>)
         | (Inr _, (output, s)) \<Rightarrow>
             let st = (tc\<lparr>tc_output := output\<rparr>, env\<lparr>ce_socket := s\<rparr>)
             in if readable_bytes output = 0
                then let st = on_channel DisableWriting st
                     in if tc_closing (fst st) then HandleClose st else st
                else st)"

definition connection_callbacks :: "nat \<Rightarrow> conn callbacks" where
  "connection_callbacks self =
     \<lparr>cb_read = Some (HandleRead self), cb_write = Some HandleWrite, cb_close = Some HandleClose,
      cb_error = Some HandleClose\<rparr>"

section \<open>What the methods do to the stream\<close>

text \<open>The output stream of a connection: what the socket took over, then what is buffered. The
  part of the state that the order of responses depends on is collected in \<open>flow\<close>.\<close>

definition total_output :: "conn \<Rightarrow> byte list" where
  "total_output st = so_sent (ce_socket (snd st)) @ ReadableSpan (tc_output (fst st))"

definition flow where
  "flow st = (tc_output (fst st), tc_requests (fst st), tc_processing (fst st), tc_closing (fst st),
              ce_socket (snd st), ce_workers (snd st))"

lemma flow_on_channel [simp]: "flow (on_channel f st) = flow st"
  by (simp add: flow_def on_channel_def split: prod.split)

lemma flow_HandleClose [simp]: "flow (HandleClose st) = flow st"
proof (cases "tc_fd (fst st) < 0")
  case False
  obtain tc env where st: "on_channel Channel_Remove (on_channel DisableAll st) = (tc, env)" by (rule prod.exhaust)
  have "flow (on_channel Channel_Remove (on_channel DisableAll st)) = flow st" by simp
  with st have "flow (tc, env) = flow st" by simp
  with False show ?thesis by (simp add: HandleClose_def st flow_def Let_def)
qed (simp add: HandleClose_def)

lemma flow_eqD:
  assumes "flow st = flow st'"
  shows "tc_output (fst st) = tc_output (fst st')" "tc_requests (fst st) = tc_requests (fst st')"
    "tc_processing (fst st) = tc_processing (fst st')" "tc_closing (fst st) = tc_closing (fst st')"
    "ce_socket (snd st) = ce_socket (snd st')" "ce_workers (snd st) = ce_workers (snd st')"
    "total_output st = total_output st'"
  using assms by (simp_all add: flow_def total_output_def)

lemmas on_channel_flow = flow_eqD [OF flow_on_channel]
lemmas HandleClose_flow = flow_eqD [OF flow_HandleClose]

lemma append_output_flow:
  "flow (append_output data st) =
   (Buffer_Append data (tc_output (fst st)), tc_requests (fst st), tc_processing (fst st), tc_closing (fst st),
    ce_socket (snd st), ce_workers (snd st))"
  by (simp add: append_output_def) (simp add: flow_def)

lemma append_output_total:
  "buffer_inv (tc_output (fst st)) \<Longrightarrow> total_output (append_output data st) = total_output st @ data"
  using append_output_flow [of data st] by (simp add: flow_def total_output_def buf.content_push)

text \<open>What a method may do to the stream: it only appends, and it appends something of its own only
  when it begins to close the connection.\<close>

definition stream_step :: "conn \<Rightarrow> conn \<Rightarrow> bool" where
  "stream_step st st' \<longleftrightarrow>
     buffer_inv (tc_output (fst st')) \<and>
     (\<exists>extra. total_output st' = total_output st @ extra \<and> (extra \<noteq> [] \<longrightarrow> tc_closing (fst st'))) \<and>
     (tc_closing (fst st) \<longrightarrow> tc_closing (fst st'))"

lemma stream_step_refl: "buffer_inv (tc_output (fst st)) \<Longrightarrow> stream_step st st"
  by (simp add: stream_step_def)

lemma stream_step_flow: "buffer_inv (tc_output (fst st)) \<Longrightarrow> flow st' = flow st \<Longrightarrow> stream_step st st'"
  using flow_eqD [of st' st] by (simp add: stream_step_def)

lemma stream_step_trans:
  assumes "stream_step st st'" "stream_step st' st''"
  shows "stream_step st st''"
proof -
  from assms obtain x y where x: "total_output st' = total_output st @ x" "x \<noteq> [] \<longrightarrow> tc_closing (fst st')"
    and y: "total_output st'' = total_output st' @ y" "y \<noteq> [] \<longrightarrow> tc_closing (fst st'')"
    unfolding stream_step_def by blast
  from x(1) y(1) have "total_output st'' = total_output st @ (x @ y)" by simp
  with x(2) y(2) assms show ?thesis unfolding stream_step_def by (metis append_is_Nil_conv)
qed

lemma QueueErrorAndClose_spec:
  assumes "buffer_inv (tc_output (fst st))"
  shows "stream_step st (QueueErrorAndClose code message st)"
    and "tc_closing (fst (QueueErrorAndClose code message st))"
    and "tc_processing (fst (QueueErrorAndClose code message st)) = tc_processing (fst st)"
    and "ce_workers (snd (QueueErrorAndClose code message st)) = ce_workers (snd st)"
proof -
  define st1 where "st1 = (case EncodeErrorResponse kProduce kProtocolVersion 0 code message of
      Inl _ \<Rightarrow> st | Inr encoded \<Rightarrow> append_output encoded st)"
  have 1: "(\<exists>extra. total_output st1 = total_output st @ extra) \<and> buffer_inv (tc_output (fst st1)) \<and>
      tc_processing (fst st1) = tc_processing (fst st) \<and> ce_workers (snd st1) = ce_workers (snd st)"
    using assms append_output_total [OF assms] append_output_flow [of _ st]
    by (auto simp: st1_def flow_def buf.inv_push split: sum.split)
  obtain tc env where st1: "st1 = (tc, env)" by (rule prod.exhaust)
  with 1 have "QueueErrorAndClose code message st =
      (tc\<lparr>tc_closing := True, tc_decoder := FrameDecoder_Clear (tc_decoder tc), tc_requests := []\<rparr>, env)"
    by (simp add: QueueErrorAndClose_def flip: st1_def)
  with 1 st1 show "stream_step st (QueueErrorAndClose code message st)"
    "tc_closing (fst (QueueErrorAndClose code message st))"
    "tc_processing (fst (QueueErrorAndClose code message st)) = tc_processing (fst st)"
    "ce_workers (snd (QueueErrorAndClose code message st)) = ce_workers (snd st)"
    by (simp_all add: stream_step_def total_output_def)
qed

lemma SubmitNext_idle:
  "tc_processing (fst st) \<or> tc_closing (fst st) \<or> tc_requests (fst st) = [] \<Longrightarrow> SubmitNext self st = st"
  by (auto simp: SubmitNext_def split: prod.split)

lemma SubmitNext_accepted:
  assumes "\<not> tc_processing tc" "\<not> tc_closing tc" "tc_requests tc = request # rest"
    and "Submit (self, request) (ce_workers env) = (True, workers)"
  shows "SubmitNext self (tc, env) = (tc\<lparr>tc_processing := True, tc_requests := rest\<rparr>, env\<lparr>ce_workers := workers\<rparr>)"
  using assms by (simp add: SubmitNext_def)

lemma Submit_refused: "Submit task p = (False, p') \<Longrightarrow> p' = p"
  by (auto simp: Submit_def split: if_splits)

lemma SubmitNext_refused:
  assumes "\<not> tc_processing (fst st)" "\<not> tc_closing (fst st)" "tc_requests (fst st) = request # rest"
    and "Submit (self, request) (ce_workers (snd st)) = (False, workers)"
    and "buffer_inv (tc_output (fst st))"
  shows "stream_step st (SubmitNext self st)"
    and "tc_closing (fst (SubmitNext self st))" and "\<not> tc_processing (fst (SubmitNext self st))"
    and "ce_workers (snd (SubmitNext self st)) = ce_workers (snd st)"
proof -
  let ?st0 = "((fst st)\<lparr>tc_requests := rest, tc_processing := False\<rparr>, snd st)"
  define st1 where "st1 = (case EncodeErrorResponse (rqe_api_key request) kProtocolVersion (rqe_request_id request)
      pkInternal ''worker queue is full'' of Inl _ \<Rightarrow> ?st0 | Inr encoded \<Rightarrow> append_output encoded ?st0)"
  have t0: "total_output ?st0 = total_output st" by (simp add: total_output_def)
  have b0: "buffer_inv (tc_output (fst ?st0))" using assms(5) by simp
  have 1: "(\<exists>extra. total_output st1 = total_output st @ extra) \<and> buffer_inv (tc_output (fst st1)) \<and>
      \<not> tc_processing (fst st1) \<and> ce_workers (snd st1) = ce_workers (snd st)"
    using b0 append_output_total [OF b0] append_output_flow [of _ ?st0] t0
    by (auto simp: st1_def flow_def buf.inv_push split: sum.split)
  obtain tc env where st1: "st1 = (tc, env)" by (rule prod.exhaust)
  have same: "env\<lparr>ce_workers := ce_workers env\<rparr> = env" for env :: conn_env by simp
  from assms(1-4) same [of "snd st"] have "SubmitNext self st = ((fst st1)\<lparr>tc_closing := True\<rparr>, snd st1)"
    unfolding st1_def Submit_refused [OF assms(4)]
    by (cases st) (simp add: SubmitNext_def case_prod_unfold Let_def split: sum.split)
  with 1 st1 assms(2) show "stream_step st (SubmitNext self st)"
    "tc_closing (fst (SubmitNext self st))" "\<not> tc_processing (fst (SubmitNext self st))"
    "ce_workers (snd (SubmitNext self st)) = ce_workers (snd st)"
    by (simp_all add: stream_step_def total_output_def)
qed

text \<open>Reading: the requests that were decoded are queued behind the others, unless the connection
  begins to close.\<close>

lemma receive_requests_spec:
  assumes "receive_requests st = ((go_on, decoded), st')" and "buffer_inv (tc_output (fst st))"
  shows "stream_step st st' \<and> tc_processing (fst st') = tc_processing (fst st) \<and>
    ce_workers (snd st') = ce_workers (snd st) \<and>
    (\<not> tc_closing (fst st') \<longrightarrow> tc_requests (fst st') = tc_requests (fst st) @ decoded)"
  using assms
proof (induction st arbitrary: go_on decoded st' rule: receive_requests.induct)
  case (1 tc env)
  note run = 1(3) [unfolded receive_requests.simps [of tc env]] and inv = 1(4) [unfolded prod.sel]
  obtain r s where r: "sys_read (tc_fd tc) (tc_read_buffer_bytes tc) (ce_socket env) = (r, s)" by (rule prod.exhaust)
  have stream_sock: "stream_step st0 st1 \<Longrightarrow> total_output st0 = total_output (tc, env) \<Longrightarrow>
      tc_closing (fst st0) = tc_closing tc \<Longrightarrow> stream_step (tc, env) st1" for st0 st1
    by (simp add: stream_step_def)
  show ?case
  proof (cases r)
    case (Inl e)
    let ?st = "(tc, env\<lparr>ce_socket := s\<rparr>)"
    have total: "total_output ?st = total_output (tc, env)"
      using sys_read_Inl [OF r [unfolded Inl]] by (simp add: total_output_def)
    consider "e = SEintr" | "e = SEagain" | "e \<noteq> SEintr" "e \<noteq> SEagain" by blast
    then show ?thesis
    proof cases
      case 1
      with run r Inl have "receive_requests ?st = ((go_on, decoded), st')" by simp
      from "1.IH"(1) [OF r [symmetric] Inl 1 this] inv have
        "stream_step ?st st' \<and> tc_processing (fst st') = tc_processing tc \<and> ce_workers (snd st') = ce_workers env \<and>
         (\<not> tc_closing (fst st') \<longrightarrow> tc_requests (fst st') = tc_requests tc @ decoded)" by simp
      with stream_sock [OF _ total] show ?thesis by simp
    next
      case 2
      with run r Inl have "st' = ?st" "decoded = []" by simp_all
      with stream_sock [OF stream_step_refl [of ?st] total] inv show ?thesis by simp
    next
      case 3
      with run r Inl have "st' = HandleClose ?st" "decoded = []" by simp_all
      with stream_sock [OF stream_step_flow [of ?st st'] total] inv HandleClose_flow [of ?st] show ?thesis by simp
    qed
  next
    case (Inr chunk)
    show ?thesis
    proof (cases "chunk = []")
      case True
      let ?st = "(tc, env\<lparr>ce_socket := s\<rparr>)"
      have total: "total_output ?st = total_output (tc, env)"
        using r Inr True by (auto simp: total_output_def sys_read_def split: list.splits recv_ret.splits if_splits)
      from run r Inr True have "st' = HandleClose ?st" "decoded = []" by simp_all
      with stream_sock [OF stream_step_flow [of ?st st'] total] inv HandleClose_flow [of ?st] show ?thesis by simp
    next
      case False
      from sys_read_arrived [OF r [unfolded Inr] False] have sent: "so_sent s = so_sent (ce_socket env)" by simp
      obtain p decoder where p: "FrameDecoder_Push chunk (tc_decoder tc) = (p, decoder)" by (rule prod.exhaust)
      show ?thesis
      proof (cases p)
        case (Inl e)
        let ?st = "(tc\<lparr>tc_decoder := decoder\<rparr>, env\<lparr>ce_socket := s\<rparr>)"
        have total: "total_output ?st = total_output (tc, env)" using sent by (simp add: total_output_def)
        have b: "buffer_inv (tc_output (fst ?st))" using inv by simp
        from run r Inr False p Inl have "st' = QueueErrorAndClose pkInvalidRequest (st_message e) ?st" by simp
        with stream_sock [OF QueueErrorAndClose_spec(1) [OF b] total] QueueErrorAndClose_spec(2-4) [OF b] show ?thesis by simp
      next
        case p': (Inr requests)
        let ?st = "(tc\<lparr>tc_decoder := decoder, tc_requests := tc_requests tc @ requests\<rparr>, env\<lparr>ce_socket := s\<rparr>)"
        have total: "total_output ?st = total_output (tc, env)" using sent by (simp add: total_output_def)
        obtain more where more: "receive_requests ?st = ((go_on, more), st')" "decoded = requests @ more"
          using run r Inr False p p' by (auto split: prod.splits)
        from "1.IH"(2) [OF r [symmetric] Inr False p [symmetric] p' more(1)] inv have
          "stream_step ?st st' \<and> tc_processing (fst st') = tc_processing tc \<and> ce_workers (snd st') = ce_workers env \<and>
           (\<not> tc_closing (fst st') \<longrightarrow> tc_requests (fst st') = tc_requests tc @ requests @ more)" by simp
        with stream_sock [OF _ total] more(2) show ?thesis by simp
      qed
    qed
  qed
qed

lemma HandleWrite_flow:
  assumes "buffer_inv (tc_output (fst st))"
  shows "stream_step st (HandleWrite st) \<and> total_output (HandleWrite st) = total_output st \<and>
    tc_processing (fst (HandleWrite st)) = tc_processing (fst st) \<and> tc_requests (fst (HandleWrite st)) = tc_requests (fst st) \<and>
    tc_closing (fst (HandleWrite st)) = tc_closing (fst st) \<and> ce_workers (snd (HandleWrite st)) = ce_workers (snd st)"
proof -
  obtain tc env where st: "st = (tc, env)" by (rule prod.exhaust)
  obtain r out s where w: "WriteToFd (tc_fd tc) (tc_output tc, ce_socket env) = (r, (out, s))"
    by (metis prod_cases3)
  let ?st = "(tc\<lparr>tc_output := out\<rparr>, env\<lparr>ce_socket := s\<rparr>)"
  have "flow (HandleWrite st) = flow ?st"
    by (simp add: HandleWrite_def st w Let_def split: sum.split)
  note f = flow_eqD [OF this]
  have "buffer_inv out \<and> total_output ?st = total_output st"
    using WriteToFd_spec [OF _ w] assms by (simp add: st total_output_def)
  with f show ?thesis by (simp add: stream_step_def st)
qed

section \<open>What the methods do to the worker pool\<close>

text \<open>The effect of a method on the requests of its connection: it is quiet, or it hands the
  oldest request to the pool. The requests decoded on the way are the third argument.\<close>

definition quiet_effect :: "conn \<Rightarrow> RequestEnvelope list \<Rightarrow> conn \<Rightarrow> bool" where
  "quiet_effect st decoded st' \<longleftrightarrow>
     stream_step st st' \<and> ce_workers (snd st') = ce_workers (snd st) \<and>
     tc_processing (fst st') = tc_processing (fst st) \<and>
     (\<not> tc_closing (fst st') \<longrightarrow> tc_requests (fst st') = tc_requests (fst st) @ decoded)"

definition submit_effect :: "nat \<Rightarrow> conn \<Rightarrow> RequestEnvelope list \<Rightarrow> conn \<Rightarrow> bool" where
  "submit_effect self st decoded st' \<longleftrightarrow>
     stream_step st st' \<and> \<not> tc_processing (fst st) \<and> tc_processing (fst st') \<and> \<not> tc_closing (fst st) \<and>
     (\<exists>request rest. tc_requests (fst st) @ decoded = request # rest \<and>
        (\<not> tc_closing (fst st') \<longrightarrow> tc_requests (fst st') = rest) \<and>
        Submit (self, request) (ce_workers (snd st)) = (True, ce_workers (snd st')))"

definition conn_effect :: "nat \<Rightarrow> conn \<Rightarrow> RequestEnvelope list \<Rightarrow> conn \<Rightarrow> bool" where
  "conn_effect self st decoded st' \<longleftrightarrow> quiet_effect st decoded st' \<or> submit_effect self st decoded st'"

lemma quiet_effect_refl: "buffer_inv (tc_output (fst st)) \<Longrightarrow> quiet_effect st [] st"
  by (simp add: quiet_effect_def stream_step_refl)

lemma quiet_effect_trans:
  assumes "quiet_effect st xs st1" "quiet_effect st1 ys st2"
  shows "quiet_effect st (xs @ ys) st2"
proof -
  have "stream_step st st2" using assms stream_step_trans unfolding quiet_effect_def by blast
  moreover have "tc_closing (fst st1) \<Longrightarrow> tc_closing (fst st2)" using assms(2) by (simp add: quiet_effect_def stream_step_def)
  ultimately show ?thesis using assms by (auto simp: quiet_effect_def)
qed

lemma quiet_then_submit:
  assumes "quiet_effect st xs st1" "submit_effect self st1 ys st2"
  shows "submit_effect self st (xs @ ys) st2"
proof -
  have "stream_step st st2" using assms stream_step_trans unfolding quiet_effect_def submit_effect_def by blast
  moreover have "\<not> tc_closing (fst st)" using assms by (auto simp: quiet_effect_def submit_effect_def stream_step_def)
  ultimately show ?thesis using assms by (simp add: quiet_effect_def submit_effect_def)
qed

lemma submit_then_quiet:
  assumes "submit_effect self st xs st1" "quiet_effect st1 [] st2"
  shows "submit_effect self st xs st2"
proof -
  have "stream_step st st2" using assms stream_step_trans unfolding quiet_effect_def submit_effect_def by blast
  moreover have "tc_closing (fst st1) \<Longrightarrow> tc_closing (fst st2)" using assms(2) by (simp add: quiet_effect_def stream_step_def)
  ultimately show ?thesis using assms by (auto simp: quiet_effect_def submit_effect_def)
qed

lemma conn_effect_then_quiet: "conn_effect self st xs st1 \<Longrightarrow> quiet_effect st1 [] st2 \<Longrightarrow> conn_effect self st xs st2"
  unfolding conn_effect_def using quiet_effect_trans [of st xs st1 "[]" st2] submit_then_quiet [of self st xs st1 st2] by auto

lemma quiet_then_conn_effect: "quiet_effect st xs st1 \<Longrightarrow> conn_effect self st1 ys st2 \<Longrightarrow> conn_effect self st (xs @ ys) st2"
  unfolding conn_effect_def using quiet_effect_trans quiet_then_submit by blast

lemma effect_inv: "conn_effect self st xs st' \<Longrightarrow> buffer_inv (tc_output (fst st'))"
  "quiet_effect st xs st' \<Longrightarrow> buffer_inv (tc_output (fst st'))"
  by (auto simp: conn_effect_def quiet_effect_def submit_effect_def stream_step_def)

lemma HandleClose_effect: "buffer_inv (tc_output (fst st)) \<Longrightarrow> quiet_effect st [] (HandleClose st)"
  by (simp add: quiet_effect_def stream_step_flow HandleClose_flow)

lemma shutdown_effect: "buffer_inv (tc_output (fst st)) \<Longrightarrow> quiet_effect st [] (shutdown_functor st)"
  using HandleClose_flow [of "((fst st)\<lparr>tc_closing := True\<rparr>, snd st)"]
  by (auto simp: shutdown_functor_def quiet_effect_def stream_step_def Let_def total_output_def)

lemma HandleWrite_effect: "buffer_inv (tc_output (fst st)) \<Longrightarrow> quiet_effect st [] (HandleWrite st)"
  using HandleWrite_flow [of st] by (simp add: quiet_effect_def)

lemma receive_effect:
  "receive_requests st = ((go_on, decoded), st') \<Longrightarrow> buffer_inv (tc_output (fst st)) \<Longrightarrow> quiet_effect st decoded st'"
  using receive_requests_spec by (simp add: quiet_effect_def)

lemma SubmitNext_effect:
  assumes "buffer_inv (tc_output (fst st))"
  shows "conn_effect self st [] (SubmitNext self st)"
proof (cases "tc_processing (fst st) \<or> tc_closing (fst st) \<or> tc_requests (fst st) = []")
  case True
  with assms show ?thesis by (simp add: SubmitNext_idle conn_effect_def quiet_effect_refl)
next
  case False
  then obtain request rest where req: "tc_requests (fst st) = request # rest" by (cases "tc_requests (fst st)") auto
  obtain ok workers where sub: "Submit (self, request) (ce_workers (snd st)) = (ok, workers)" by (rule prod.exhaust)
  show ?thesis
  proof (cases ok)
    case True
    let ?st = "((fst st)\<lparr>tc_processing := True, tc_requests := rest\<rparr>, (snd st)\<lparr>ce_workers := workers\<rparr>)"
    have "SubmitNext self st = ?st"
      using SubmitNext_accepted [of "fst st" request rest self "snd st" workers] False req sub True by simp
    moreover have "stream_step st ?st" using assms by (simp add: stream_step_def total_output_def)
    ultimately show ?thesis using False req sub True by (simp add: conn_effect_def submit_effect_def)
  next
    case refused: False
    then have "Submit (self, request) (ce_workers (snd st)) = (False, workers)" using sub by simp
    note r = SubmitNext_refused [OF _ _ req this assms]
    from False r show ?thesis by (simp add: conn_effect_def quiet_effect_def)
  qed
qed

lemma HandleRead_effect:
  assumes "buffer_inv (tc_output (fst st))"
  shows "conn_effect self st (snd (fst (receive_requests st))) (HandleRead self st)"
proof -
  obtain go_on decoded st1 where r: "receive_requests st = ((go_on, decoded), st1)" by (metis surj_pair)
  note q = receive_effect [OF r assms]
  show ?thesis
    using q quiet_then_conn_effect [OF q SubmitNext_effect [OF effect_inv(2) [OF q]]]
    by (simp add: HandleRead_def r conn_effect_def)
qed

text \<open>An event: what \<^verbatim>\<open>Channel::HandleEvent\<close> makes of the callbacks. The requests it decodes are
  those of the read, if there is one.\<close>

definition connection_event :: "nat \<Rightarrow> bool \<Rightarrow> bool \<Rightarrow> bool \<Rightarrow> bool \<Rightarrow> conn \<Rightarrow> conn" where
  "connection_event self readable writable closed error st =
     HandleEvent (tc_channel (fst st)) True (connection_callbacks self) readable writable closed error st"

definition event_requests :: "bool \<Rightarrow> bool \<Rightarrow> bool \<Rightarrow> conn \<Rightarrow> RequestEnvelope list" where
  "event_requests readable closed error st =
     (if readable \<and> \<not> closed then snd (fst (receive_requests (if error then HandleClose st else st))) else [])"

lemma connection_event_effect:
  assumes "buffer_inv (tc_output (fst st))"
  shows "conn_effect self st (event_requests readable closed error st)
           (connection_event self readable writable closed error st)"
proof -
  define st1 where "st1 = (if error then HandleClose st else st)"
  define st2 where "st2 = (if readable then HandleRead self st1 else st1)"
  have q1: "quiet_effect st [] st1" using assms by (simp add: st1_def HandleClose_effect quiet_effect_refl)
  note i1 = effect_inv(2) [OF q1]
  show ?thesis
  proof (cases closed)
    case True
    then have "connection_event self readable writable closed error st = HandleClose st1"
      by (simp add: connection_event_def HandleEvent_def HandleEventWithGuard_def connection_callbacks_def call_def st1_def)
    with quiet_effect_trans [OF q1 HandleClose_effect [OF i1]] True show ?thesis
      by (simp add: event_requests_def conn_effect_def)
  next
    case False
    let ?ds = "event_requests readable closed error st"
    have e2: "conn_effect self st ?ds st2"
      using quiet_then_conn_effect [OF q1 HandleRead_effect [OF i1]] q1 False
      by (auto simp: event_requests_def st2_def conn_effect_def simp flip: st1_def)
    have "connection_event self readable writable closed error st = (if writable then HandleWrite st2 else st2)"
      using False
      by (simp add: connection_event_def HandleEvent_def HandleEventWithGuard_def connection_callbacks_def call_def
          st1_def st2_def)
    with e2 conn_effect_then_quiet [OF e2 HandleWrite_effect [OF effect_inv(1) [OF e2]]] show ?thesis by simp
  qed
qed

text \<open>A response: it is appended whole, behind everything else, and then the next request goes out.\<close>

lemma OnResponse_effect:
  assumes "buffer_inv (tc_output (fst st))"
  shows "\<exists>st1. total_output st1 = total_output st @ response \<and> \<not> tc_processing (fst st1) \<and>
    tc_requests (fst st1) = tc_requests (fst st) \<and> tc_closing (fst st1) = tc_closing (fst st) \<and>
    ce_workers (snd st1) = ce_workers (snd st) \<and> conn_effect self st1 [] (OnResponse self response st)"
proof -
  let ?st0 = "((fst st)\<lparr>tc_processing := False\<rparr>, snd st)"
  define st1 where "st1 = (if response \<noteq> [] then append_output response ?st0 else ?st0)"
  have b0: "buffer_inv (tc_output (fst ?st0))" using assms by simp
  have "total_output ?st0 = total_output st" by (simp add: total_output_def)
  then have 1: "total_output st1 = total_output st @ response \<and> \<not> tc_processing (fst st1) \<and>
      tc_requests (fst st1) = tc_requests (fst st) \<and> tc_closing (fst st1) = tc_closing (fst st) \<and>
      ce_workers (snd st1) = ce_workers (snd st) \<and> buffer_inv (tc_output (fst st1))"
    using append_output_total [OF b0, of response] append_output_flow [of response ?st0] assms
    by (auto simp: st1_def flow_def buf.inv_push)
  moreover have "OnResponse self response st = SubmitNext self st1" by (simp add: OnResponse_def Let_def st1_def)
  ultimately show ?thesis using SubmitNext_effect [of st1 self] by (intro exI [of _ st1]) simp
qed

end
