(* ===== verification/TcpServer.thy ===== *)
theory TcpServer
  imports TcpConnection Config
begin

text \<open>
  Models \<^verbatim>\<open>include/logmq/net/tcp_server.h\<close>, \<^verbatim>\<open>src/net/tcp_server.cpp\<close> and the pool of event loops,
  \<^verbatim>\<open>src/net/event_loop_thread_pool.cpp\<close>: a main loop accepts connections, which are handed in
  turn to the loops of the pool, and one worker pool serves the requests of all of them.

  Connections live in a store, by number, with their socket and the index of their loop; the
  server's map from descriptors to connections is an association list. A functor in a queue is
  a value that says what it will do.
\<close>

section \<open>Options\<close>

record TcpServerOptions =
  so_host :: string
  so_port :: u16
  so_io_threads :: nat
  so_worker_threads :: nat
  so_max_connections :: nat
  so_read_buffer_bytes :: nat
  so_worker_queue_size :: nat

text \<open>The casts of \<^verbatim>\<open>int\<close> thread counts to \<^verbatim>\<open>std::size_t\<close> wrap.\<close>

definition TcpServerOptionsFromConfig :: "Config \<Rightarrow> TcpServerOptions" where
  "TcpServerOptionsFromConfig config =
     \<lparr>so_host = bc_host (cf_broker config), so_port = bc_port (cf_broker config),
      so_io_threads = nat (nc_io_threads (cf_network config) mod 2 ^ 64),
      so_worker_threads = nat (nc_worker_threads (cf_network config) mod 2 ^ 64),
      so_max_connections = nc_max_connections (cf_network config),
      so_read_buffer_bytes = nc_read_buffer_bytes (cf_network config),
      so_worker_queue_size = nc_max_connections (cf_network config)\<rparr>"

section \<open>The server\<close>

datatype io_functor = FConnect int | FOnResponse nat "byte list" | FShutdown nat

record conn_object =
  co_conn :: TcpConnection
  co_socket :: Socket
  co_loop :: nat

text \<open>A loop of the pool, with the functors it has swapped out and not yet run.\<close>

record io_loop =
  io_loop :: "io_functor EventLoop"
  io_batch :: "io_functor list"

text \<open>What the coming calls of \<^verbatim>\<open>accept\<close> return, and the \<^verbatim>\<open>fcntl\<close> calls on the descriptor. Past the
  end there is no connection to accept. A new descriptor comes with its socket, which has sent
  nothing yet.\<close>

datatype accept_ret = Accepted nat Socket "string option" | AcceptErr sock_errno

record TcpServer =
  sv_options :: TcpServerOptions
  sv_service :: broker
  sv_io_loops :: "io_loop list"
  sv_thread_count :: nat
  sv_next :: nat
  sv_workers :: "conn_task WorkerPool"
  sv_listen_fd :: int
  sv_bound_port :: u16
  sv_accept_channel :: "Channel option"
  sv_main_loop :: "unit EventLoop"
  sv_connections :: "(int \<times> nat) list"
  sv_stopping :: bool
  sv_loop_running :: bool
  sv_stopped :: bool
  sv_objects :: "nat \<rightharpoonup> conn_object"
  sv_fresh :: nat
  sv_accepts :: "accept_ret list"
  sv_sockets :: "int \<rightharpoonup> Socket"
  sv_closed_fds :: "int list"

definition mk_TcpServer :: "TcpServerOptions \<Rightarrow> broker \<Rightarrow> TcpServer" where
  "mk_TcpServer options service =
     \<lparr>sv_options = options, sv_service = service, sv_io_loops = [],
      sv_thread_count = max 1 (so_io_threads options), sv_next = 0,
      sv_workers = mk_WorkerPool (so_worker_threads options) (so_worker_queue_size options),
      sv_listen_fd = -1, sv_bound_port = 0, sv_accept_channel = None, sv_main_loop = mk_EventLoop 0,
      sv_connections = [], sv_stopping = False, sv_loop_running = False, sv_stopped = False,
      sv_objects = Map.empty, sv_fresh = 1, sv_accepts = [], sv_sockets = Map.empty, sv_closed_fds = []\<rparr>"

section \<open>The pool of loops\<close>

text \<open>\<^verbatim>\<open>EventLoopThreadPool::Start\<close>: the list holds what \<^verbatim>\<open>epoll_create1\<close> and \<^verbatim>\<open>eventfd\<close> return for one
  loop after the other. A failure leaves the loops that were started before it.\<close>

fun start_loops ::
  "nat \<Rightarrow> ((poll_errno + nat) \<times> (string + nat)) list \<Rightarrow> io_loop list \<Rightarrow> unit Result \<times> io_loop list" where
  "start_loops 0 rets loops = (Inr (), loops)"
| "start_loops (Suc n) rets loops =
     (let (created, efd) = hd rets
      in case EventLoop_Init created efd (mk_EventLoop 0) of
           (Inl e, _) \<Rightarrow> (Inl e, loops)
         | (Inr _, el) \<Rightarrow> start_loops n (tl rets) (loops @ [\<lparr>io_loop = el, io_batch = []\<rparr>]))"

definition EventLoopThreadPool_Start ::
  "((poll_errno + nat) \<times> (string + nat)) list \<Rightarrow> TcpServer \<Rightarrow> unit Result \<times> TcpServer" where
  "EventLoopThreadPool_Start rets sv =
     (if sv_io_loops sv \<noteq> [] then (Inr (), sv)
      else let (r, loops) = start_loops (sv_thread_count sv) rets [] in (r, sv\<lparr>sv_io_loops := loops\<rparr>))"

definition NextLoop :: "TcpServer \<Rightarrow> nat option \<times> TcpServer" where
  "NextLoop sv =
     (if sv_io_loops sv = [] then (None, sv)
      else (Some (sv_next sv), sv\<lparr>sv_next := (sv_next sv + 1) mod length (sv_io_loops sv)\<rparr>))"

definition queue_in_io :: "nat \<Rightarrow> io_functor \<Rightarrow> TcpServer \<Rightarrow> TcpServer" where
  "queue_in_io l functor sv =
     sv\<lparr>sv_io_loops := (sv_io_loops sv)[l := (sv_io_loops sv ! l)
          \<lparr>io_loop := QueueInLoop functor (io_loop (sv_io_loops sv ! l))\<rparr>]\<rparr>"

text \<open>\<^verbatim>\<open>EventLoopThreadPool::Stop\<close> up to its joins.\<close>

definition quit_loops :: "TcpServer \<Rightarrow> TcpServer" where
  "quit_loops sv =
     sv\<lparr>sv_io_loops := map (\<lambda>l. l\<lparr>io_loop := EventLoop_Quit (io_loop l)\<rparr>) (sv_io_loops sv)\<rparr>"

section \<open>Starting\<close>

record listen_rets =
  lr_socket :: "string + nat"
  lr_setsockopt :: "string option"
  lr_getfl :: "string option"
  lr_setfl :: "string option"
  lr_inet_pton :: bool
  lr_bind :: "string option"
  lr_listen :: "string option"
  lr_getsockname :: "u16 option"

definition SetNonBlocking :: "string option \<Rightarrow> string option \<Rightarrow> unit Result" where
  "SetNonBlocking getfl setfl =
     (case getfl of
        Some e \<Rightarrow> Inl (IoError (''fcntl(F_GETFL): '' @ e))
      | None \<Rightarrow> (case setfl of Some e \<Rightarrow> Inl (IoError (''fcntl(F_SETFL): '' @ e)) | None \<Rightarrow> Inr ()))"

definition CreateListenSocket :: "listen_rets \<Rightarrow> TcpServer \<Rightarrow> unit Result \<times> TcpServer" where
  "CreateListenSocket ret sv =
     (case lr_socket ret of
        Inl e \<Rightarrow> (Inl (IoError (''socket: '' @ e)), sv\<lparr>sv_listen_fd := -1\<rparr>)
      | Inr fd \<Rightarrow>
          let sv = sv\<lparr>sv_listen_fd := int fd\<rparr>
          in case lr_setsockopt ret of
               Some e \<Rightarrow> (Inl (IoError (''setsockopt(SO_REUSEADDR): '' @ e)), sv)
             | None \<Rightarrow>
          (case SetNonBlocking (lr_getfl ret) (lr_setfl ret) of
               Inl e \<Rightarrow> (Inl e, sv)
             | Inr _ \<Rightarrow>
          if so_host (sv_options sv) \<noteq> [] \<and> so_host (sv_options sv) \<noteq> ''0.0.0.0'' \<and> \<not> lr_inet_pton ret
          then (Inl (InvalidArgument ''tcp server host must be an IPv4 address''), sv)
          else
          (case lr_bind ret of
               Some e \<Rightarrow> (Inl (IoError (''bind: '' @ e)), sv)
             | None \<Rightarrow>
          (case lr_listen ret of
               Some e \<Rightarrow> (Inl (IoError (''listen: '' @ e)), sv)
             | None \<Rightarrow>
               (Inr (), sv\<lparr>sv_bound_port :=
                  (case lr_getsockname ret of Some port \<Rightarrow> port | None \<Rightarrow> so_port (sv_options sv))\<rparr>)))))"

definition TcpServer_Start ::
  "(poll_errno + nat) \<times> (string + nat) \<Rightarrow> ((poll_errno + nat) \<times> (string + nat)) list \<Rightarrow> listen_rets \<Rightarrow>
   TcpServer \<Rightarrow> unit Result \<times> TcpServer" where
  "TcpServer_Start main_ret io_rets listen_ret sv =
     (case EventLoop_Init (fst main_ret) (snd main_ret) (sv_main_loop sv) of
        (Inl e, el) \<Rightarrow> (Inl e, sv\<lparr>sv_main_loop := el\<rparr>)
      | (Inr _, el) \<Rightarrow>
     (case EventLoopThreadPool_Start io_rets (sv\<lparr>sv_main_loop := el\<rparr>) of
        (Inl e, sv) \<Rightarrow> (Inl e, sv)
      | (Inr _, sv) \<Rightarrow>
     (case CreateListenSocket listen_ret sv of
        (Inl e, sv) \<Rightarrow> (Inl e, sv)
      | (Inr _, sv) \<Rightarrow>
          let (ch, p) = EnableReading (mk_Channel (sv_fresh sv) (sv_listen_fd sv), el_poller (sv_main_loop sv))
          in (Inr (), sv\<lparr>sv_accept_channel := Some ch, sv_fresh := sv_fresh sv + 1,
                         sv_main_loop := (sv_main_loop sv)\<lparr>el_poller := p\<rparr>\<rparr>))))"

section \<open>Accepting\<close>

definition sys_close :: "int \<Rightarrow> TcpServer \<Rightarrow> TcpServer" where
  "sys_close fd sv = sv\<lparr>sv_closed_fds := sv_closed_fds sv @ [fd], sv_sockets := (sv_sockets sv)(fd := None)\<rparr>"

text \<open>One accepted descriptor in \<^verbatim>\<open>HandleAccept\<close>.\<close>

definition accept_one :: "int \<Rightarrow> string option \<Rightarrow> TcpServer \<Rightarrow> TcpServer" where
  "accept_one fd nonblocking sv =
     (if sv_stopping sv \<or> length (sv_connections sv) \<ge> so_max_connections (sv_options sv) then sys_close fd sv
      else if nonblocking \<noteq> None then sys_close fd sv
      else case NextLoop sv of
          (None, sv) \<Rightarrow> sys_close fd sv
        | (Some l, sv) \<Rightarrow> queue_in_io l (FConnect fd) sv)"

fun accept_loop :: "accept_ret list \<Rightarrow> TcpServer \<Rightarrow> TcpServer" where
  "accept_loop [] sv = sv\<lparr>sv_accepts := []\<rparr>"
| "accept_loop (AcceptErr e # rets) sv =
     (if e = SEintr then accept_loop rets sv else sv\<lparr>sv_accepts := rets\<rparr>)"
| "accept_loop (Accepted fd s nonblocking # rets) sv =
     accept_loop rets (accept_one (int fd) nonblocking (sv\<lparr>sv_sockets := (sv_sockets sv)(int fd \<mapsto> s\<lparr>so_sent := []\<rparr>)\<rparr>))"

definition HandleAccept :: "TcpServer \<Rightarrow> TcpServer" where
  "HandleAccept sv = accept_loop (sv_accepts sv) sv"

definition RemoveConnection :: "int \<Rightarrow> TcpServer \<Rightarrow> TcpServer" where
  "RemoveConnection fd sv = sv\<lparr>sv_connections := filter (\<lambda>(k, _). k \<noteq> fd) (sv_connections sv)\<rparr>"

section \<open>Connections in the server\<close>

text \<open>A method of connection \<open>c\<close> runs on its object, the poller of its loop and the workers. Then the
  descriptors it reported leave the map, and those it closed are closed.\<close>

definition conn_state :: "nat \<Rightarrow> TcpServer \<Rightarrow> conn_object \<Rightarrow> conn" where
  "conn_state c sv ob =
     (co_conn ob, \<lparr>ce_socket = co_socket ob, ce_poller = el_poller (io_loop (sv_io_loops sv ! co_loop ob)),
                   ce_workers = sv_workers sv, ce_reported = [], ce_closed = []\<rparr>)"

definition with_conn :: "nat \<Rightarrow> (conn \<Rightarrow> conn) \<Rightarrow> TcpServer \<Rightarrow> TcpServer" where
  "with_conn c f sv =
     (case sv_objects sv c of
        None \<Rightarrow> sv
      | Some ob \<Rightarrow>
          let (tc, env) = f (conn_state c sv ob);
              l = co_loop ob;
              il = sv_io_loops sv ! l;
              sv = sv\<lparr>sv_objects := (sv_objects sv)(c \<mapsto> ob\<lparr>co_conn := tc, co_socket := ce_socket env\<rparr>),
                      sv_workers := ce_workers env,
                      sv_io_loops := (sv_io_loops sv)[l := il\<lparr>io_loop := (io_loop il)\<lparr>el_poller := ce_poller env\<rparr>\<rparr>]\<rparr>
          in fold sys_close (ce_closed env) (fold RemoveConnection (ce_reported env) sv))"

text \<open>The functor that \<^verbatim>\<open>HandleAccept\<close> queues, run by loop \<open>l\<close>.\<close>

definition connect_functor :: "nat \<Rightarrow> int \<Rightarrow> TcpServer \<Rightarrow> TcpServer" where
  "connect_functor l fd sv =
     (if sv_stopping sv then sys_close fd sv
      else
        let c = sv_fresh sv;
            tc = TcpConnection_Tie (TcpConnection_SetCloseCallback
                   (mk_TcpConnection c fd (so_read_buffer_bytes (sv_options sv))));
            ob = \<lparr>co_conn = tc, co_socket = (case sv_sockets sv fd of Some s \<Rightarrow> s | None \<Rightarrow> \<lparr>so_recv = [], so_send = [], so_sent = []\<rparr>),
                  co_loop = l\<rparr>
        in with_conn c TcpConnection_Start
             (sv\<lparr>sv_fresh := c + 1, sv_objects := (sv_objects sv)(c \<mapsto> ob),
                 sv_connections := (if fd \<in> fst ` set (sv_connections sv) then sv_connections sv
                                    else (fd, c) # sv_connections sv)\<rparr>))"

definition run_functor :: "nat \<Rightarrow> io_functor \<Rightarrow> TcpServer \<Rightarrow> TcpServer" where
  "run_functor l functor sv =
     (case functor of
        FConnect fd \<Rightarrow> connect_functor l fd sv
      | FOnResponse c response \<Rightarrow> with_conn c (OnResponse c response) sv
      | FShutdown c \<Rightarrow> with_conn c shutdown_functor sv)"

text \<open>\<^verbatim>\<open>TcpConnection::Shutdown\<close>.\<close>

definition TcpConnection_Shutdown :: "nat \<Rightarrow> TcpServer \<Rightarrow> TcpServer" where
  "TcpConnection_Shutdown c sv =
     (case sv_objects sv c of None \<Rightarrow> sv | Some ob \<Rightarrow> queue_in_io (co_loop ob) (FShutdown c) sv)"

text \<open>The end of a worker's task: the broker handles the request and the bytes go to the loop of the
  connection.\<close>

definition worker_task :: "Clock \<Rightarrow> conn_task \<Rightarrow> TcpServer \<Rightarrow> TcpServer" where
  "worker_task clock task sv =
     (let (bytes, service) = run_task clock (snd task) (sv_service sv);
          sv = sv\<lparr>sv_service := service\<rparr>
      in case sv_objects sv (fst task) of
           None \<Rightarrow> sv
         | Some ob \<Rightarrow> queue_in_io (co_loop ob) (FOnResponse (fst task) bytes) sv)"

section \<open>Stopping\<close>

text \<open>The lambda \<^verbatim>\<open>shutdown\<close> of \<^verbatim>\<open>Stop\<close>.\<close>

definition stop_functor :: "TcpServer \<Rightarrow> TcpServer" where
  "stop_functor sv =
     (let sv = (case sv_accept_channel sv of
                  None \<Rightarrow> sv
                | Some ch \<Rightarrow>
                    let (_, p) = Channel_Remove (DisableAll (ch, el_poller (sv_main_loop sv)))
                    in sv\<lparr>sv_accept_channel := None, sv_main_loop := (sv_main_loop sv)\<lparr>el_poller := p\<rparr>\<rparr>);
          connections = map snd (sv_connections sv);
          sv = fold TcpConnection_Shutdown connections (sv\<lparr>sv_connections := []\<rparr>)
      in if sv_listen_fd sv \<ge> 0 then (sys_close (sv_listen_fd sv) sv)\<lparr>sv_listen_fd := -1\<rparr> else sv)"

text \<open>\<^verbatim>\<open>Stop\<close> in the parts that other threads can come between: the flag; the lambda, run by the main
  loop or at once; the end of the main loop; the workers; the loops of the pool.\<close>

definition stop_flag :: "TcpServer \<Rightarrow> TcpServer" where
  "stop_flag sv = sv\<lparr>sv_stopping := True, sv_stopped := True\<rparr>"

definition stop_main :: "TcpServer \<Rightarrow> TcpServer" where
  "stop_main sv = sv\<lparr>sv_main_loop := EventLoop_Quit (sv_main_loop sv)\<rparr>"

definition stop_workers :: "TcpServer \<Rightarrow> TcpServer" where
  "stop_workers sv = sv\<lparr>sv_workers := WorkerPool_Stop (sv_workers sv)\<rparr>"

end
