(* ===== verification/ServerRun.thy ===== *)
theory ServerRun
  imports TcpServer BrokerLogs
begin

text \<open>
  The server at work: main loop, loops of the pool, workers, broker threads and clients take
  their steps in any order. The relation \<open>server_run\<close> holds the reachable states together with
  two histories per connection: the requests decoded from it, and the requests that workers
  have handled with the bytes they replied, both in order. The invariant accounts for every
  request of a connection and for every byte of its output.
\<close>

section \<open>Runs\<close>

text \<open>Notifications and wakeups in the worker pool.\<close>

inductive wake_step :: "'a WorkerPool \<Rightarrow> 'a WorkerPool \<Rightarrow> bool" where
  notify: "wp_notify_one p = Suc n \<Longrightarrow> i < length (wp_threads p) \<Longrightarrow> wp_threads p ! i = Blocked \<Longrightarrow>
    wake_step p (set_thread i Ready (p\<lparr>wp_notify_one := n\<rparr>))"
| notify_nobody: "wp_notify_one p = Suc n \<Longrightarrow> Blocked \<notin> set (wp_threads p) \<Longrightarrow> wake_step p (p\<lparr>wp_notify_one := n\<rparr>)"
| notify_all: "wp_notify_all p \<Longrightarrow> wake_step p (wake_all p)"
| spurious: "i < length (wp_threads p) \<Longrightarrow> wp_threads p ! i = Blocked \<Longrightarrow> wake_step p (set_thread i Ready p)"

type_synonym requests_of = "nat \<Rightarrow> RequestEnvelope list"
type_synonym replies_of = "nat \<Rightarrow> (RequestEnvelope \<times> byte list) list"

definition set_batch :: "nat \<Rightarrow> io_functor list \<Rightarrow> TcpServer \<Rightarrow> TcpServer" where
  "set_batch l fs sv = sv\<lparr>sv_io_loops := (sv_io_loops sv)[l := (sv_io_loops sv ! l)\<lparr>io_batch := fs\<rparr>]\<rparr>"

definition swap_loop :: "nat \<Rightarrow> TcpServer \<Rightarrow> TcpServer" where
  "swap_loop l sv =
     (let il = sv_io_loops sv ! l; (fs, el) = swap_pending (io_loop il)
      in sv\<lparr>sv_io_loops := (sv_io_loops sv)[l := \<lparr>io_loop = el, io_batch = fs\<rparr>]\<rparr>)"

inductive server_run :: "TcpServer \<Rightarrow> requests_of \<Rightarrow> replies_of \<Rightarrow> bool" where
  start: "TcpServer_Start main_ret io_rets listen_ret (mk_TcpServer options service) = (Inr (), sv) \<Longrightarrow>
    server_run sv (\<lambda>_. []) (\<lambda>_. [])"
| clients: "server_run sv rcv rep \<Longrightarrow> server_run (sv\<lparr>sv_accepts := accepts\<rparr>) rcv rep"
| accept: "server_run sv rcv rep \<Longrightarrow> server_run (HandleAccept sv) rcv rep"
| network: "server_run sv rcv rep \<Longrightarrow> sv_objects sv c = Some ob \<Longrightarrow>
    server_run (sv\<lparr>sv_objects := (sv_objects sv)(c \<mapsto>
      ob\<lparr>co_socket := (co_socket ob)\<lparr>so_recv := recvs, so_send := sends\<rparr>\<rparr>)\<rparr>) rcv rep"
| event: "server_run sv rcv rep \<Longrightarrow> sv_objects sv c = Some ob \<Longrightarrow>
    server_run (with_conn c (connection_event c readable writable closed error) sv)
      (rcv(c := rcv c @ event_requests readable closed error (conn_state c sv ob))) rep"
| swap: "server_run sv rcv rep \<Longrightarrow> l < length (sv_io_loops sv) \<Longrightarrow> io_batch (sv_io_loops sv ! l) = [] \<Longrightarrow>
    server_run (swap_loop l sv) rcv rep"
| run_io: "server_run sv rcv rep \<Longrightarrow> l < length (sv_io_loops sv) \<Longrightarrow> io_batch (sv_io_loops sv ! l) = f # fs \<Longrightarrow>
    server_run (run_functor l f (set_batch l fs sv)) rcv rep"
| take_task: "server_run sv rcv rep \<Longrightarrow> i < length (wp_threads (sv_workers sv)) \<Longrightarrow>
    wp_threads (sv_workers sv) ! i = Ready \<Longrightarrow>
    server_run (sv\<lparr>sv_workers := Run_locked i (sv_workers sv)\<rparr>) rcv rep"
| finish_task: "server_run sv rcv rep \<Longrightarrow> i < length (wp_threads (sv_workers sv)) \<Longrightarrow>
    wp_threads (sv_workers sv) ! i = Running (c, request) \<Longrightarrow>
    server_run (worker_task clock (c, request) (sv\<lparr>sv_workers := set_thread i Ready (sv_workers sv)\<rparr>)) rcv
      (rep(c := rep c @ [(request, fst (run_task clock request (sv_service sv)))]))"
| wake: "server_run sv rcv rep \<Longrightarrow> wake_step (sv_workers sv) p \<Longrightarrow> server_run (sv\<lparr>sv_workers := p\<rparr>) rcv rep"
| broker: "server_run sv rcv rep \<Longrightarrow> broker_step (sv_service sv) service \<Longrightarrow>
    server_run (sv\<lparr>sv_service := service\<rparr>) rcv rep"
| looping: "server_run sv rcv rep \<Longrightarrow> server_run (sv\<lparr>sv_loop_running := b\<rparr>) rcv rep"
| main_loop: "server_run sv rcv rep \<Longrightarrow> server_run (sv\<lparr>sv_main_loop := el\<rparr>) rcv rep"
| close_service: "server_run sv rcv rep \<Longrightarrow>
    server_run (sv\<lparr>sv_service := snd (BrokerService_Close (sv_service sv))\<rparr>) rcv rep"
| stop_flag: "server_run sv rcv rep \<Longrightarrow> server_run (stop_flag sv) rcv rep"
| stop_functor: "server_run sv rcv rep \<Longrightarrow> server_run (stop_functor sv) rcv rep"
| stop_main: "server_run sv rcv rep \<Longrightarrow> server_run (stop_main sv) rcv rep"
| stop_workers: "server_run sv rcv rep \<Longrightarrow> server_run (stop_workers sv) rcv rep"
| quit_loops: "server_run sv rcv rep \<Longrightarrow> server_run (quit_loops sv) rcv rep"

section \<open>Where the requests of a connection are\<close>

definition jobs_of :: "nat \<Rightarrow> conn_task WorkerPool \<Rightarrow> RequestEnvelope multiset" where
  "jobs_of c p = image_mset snd (filter_mset (\<lambda>t. fst t = c) (mset (wp_tasks p) + running_tasks p))"

fun answer_to :: "nat \<Rightarrow> io_functor \<Rightarrow> byte list list" where
  "answer_to c (FOnResponse c' bytes) = (if c' = c then [bytes] else [])"
| "answer_to c (FConnect fd) = []"
| "answer_to c (FShutdown c') = []"

definition loop_answers :: "nat \<Rightarrow> io_loop \<Rightarrow> byte list list" where
  "loop_answers c il = concat (map (answer_to c) (io_batch il @ el_pending (io_loop il)))"

definition answers_for :: "nat \<Rightarrow> io_loop list \<Rightarrow> byte list multiset" where
  "answers_for c loops = mset (concat (map (loop_answers c) loops))"

text \<open>What a connection wrote to its stream: answers of workers, and notices of its own.\<close>

datatype reply_item = Answer RequestEnvelope "byte list" | Notice "byte list"

fun item_bytes :: "reply_item \<Rightarrow> byte list" where
  "item_bytes (Answer request bytes) = bytes"
| "item_bytes (Notice bytes) = bytes"

fun item_answer :: "reply_item \<Rightarrow> (RequestEnvelope \<times> byte list) list" where
  "item_answer (Answer request bytes) = [(request, bytes)]"
| "item_answer (Notice bytes) = []"

definition log_answers :: "reply_item list \<Rightarrow> (RequestEnvelope \<times> byte list) list" where
  "log_answers log = concat (map item_answer log)"

lemma log_answers_simps [simp]:
  "log_answers [] = []" "log_answers (log @ log') = log_answers log @ log_answers log'"
  "log_answers [Answer request bytes] = [(request, bytes)]" "log_answers [Notice bytes] = []"
  by (simp_all add: log_answers_def)

definition accounts ::
  "RequestEnvelope list \<Rightarrow> (RequestEnvelope \<times> byte list) list \<Rightarrow> TcpConnection \<Rightarrow> byte list \<Rightarrow>
   RequestEnvelope multiset \<Rightarrow> byte list multiset \<Rightarrow> bool" where
  "accounts rcv rep tc out J A \<longleftrightarrow>
     (\<exists>flight delivered waiting log.
        rep = delivered @ waiting \<and> length flight + length waiting = (if tc_processing tc then 1 else 0) \<and>
        J = mset flight \<and> A = mset (map snd waiting) \<and>
        prefix (map fst rep @ flight) rcv \<and>
        (\<not> tc_closing tc \<longrightarrow> rcv = map fst rep @ flight @ tc_requests tc) \<and>
        out = concat (map item_bytes log) \<and> log_answers log = delivered \<and>
        (\<not> tc_closing tc \<longrightarrow> (\<forall>bytes. Notice bytes \<notin> set log)))"

lemma accounts_stream:
  assumes "accounts rcv rep (fst st) (total_output st) J A" "stream_step st st'"
    and "tc_processing (fst st') = tc_processing (fst st)"
    and "\<not> tc_closing (fst st') \<Longrightarrow> tc_requests (fst st') = tc_requests (fst st) @ decoded"
  shows "accounts (rcv @ decoded) rep (fst st') (total_output st') J A"
proof -
  from assms(1) obtain flight delivered waiting log where a:
    "rep = delivered @ waiting" "length flight + length waiting = (if tc_processing (fst st) then 1 else 0)"
    "J = mset flight" "A = mset (map snd waiting)" "prefix (map fst rep @ flight) rcv"
    "\<not> tc_closing (fst st) \<longrightarrow> rcv = map fst rep @ flight @ tc_requests (fst st)"
    "total_output st = concat (map item_bytes log)" "log_answers log = delivered"
    "\<not> tc_closing (fst st) \<longrightarrow> (\<forall>bytes. Notice bytes \<notin> set log)"
    unfolding accounts_def by blast
  from assms(2) obtain extra where e: "total_output st' = total_output st @ extra"
    "extra \<noteq> [] \<longrightarrow> tc_closing (fst st')" "tc_closing (fst st) \<longrightarrow> tc_closing (fst st')"
    unfolding stream_step_def by blast
  let ?log = "if extra = [] then log else log @ [Notice extra]"
  show ?thesis unfolding accounts_def
  proof (intro exI conjI)
    show "rep = delivered @ waiting" "J = mset flight" "A = mset (map snd waiting)" by fact+
    show "length flight + length waiting = (if tc_processing (fst st') then 1 else 0)" using a(2) assms(3) by simp
    show "prefix (map fst rep @ flight) (rcv @ decoded)" using a(5) by (simp add: prefix_prefix)
    show "\<not> tc_closing (fst st') \<longrightarrow> rcv @ decoded = map fst rep @ flight @ tc_requests (fst st')"
      using a(6) e(3) assms(4) by auto
    show "total_output st' = concat (map item_bytes ?log)" using a(7) e(1) by simp
    show "log_answers ?log = delivered" using a(8) by simp
    show "\<not> tc_closing (fst st') \<longrightarrow> (\<forall>bytes. Notice bytes \<notin> set ?log)" using a(9) e(2,3) by auto
  qed
qed

lemma jobs_of_Submit:
  "Submit (c', request) p = (True, p') \<Longrightarrow>
   jobs_of c p' = (if c' = c then add_mset request (jobs_of c p) else jobs_of c p)"
  by (auto simp: Submit_def jobs_of_def running_tasks_def split: if_splits)

lemma accounts_effect:
  assumes "accounts rcv rep (fst st) (total_output st) (jobs_of c (ce_workers (snd st))) A"
    and "conn_effect c st decoded st'"
  shows "accounts (rcv @ decoded) rep (fst st') (total_output st') (jobs_of c (ce_workers (snd st'))) A"
  using assms(2) unfolding conn_effect_def
proof
  assume "quiet_effect st decoded st'"
  with accounts_stream [OF assms(1), of st' decoded] show ?thesis by (simp add: quiet_effect_def)
next
  assume s: "submit_effect c st decoded st'"
  then obtain request rest where r: "tc_requests (fst st) @ decoded = request # rest"
    "\<not> tc_closing (fst st') \<longrightarrow> tc_requests (fst st') = rest"
    "Submit (c, request) (ce_workers (snd st)) = (True, ce_workers (snd st'))"
    unfolding submit_effect_def by blast
  from s have flags: "stream_step st st'" "\<not> tc_processing (fst st)" "tc_processing (fst st')" "\<not> tc_closing (fst st)"
    by (simp_all add: submit_effect_def)
  let ?mid = "((fst st')\<lparr>tc_processing := False, tc_requests := request # rest\<rparr>, snd st')"
  have t: "total_output ?mid = total_output st'" by (simp add: total_output_def)
  have "stream_step st ?mid" using flags(1) t by (simp add: stream_step_def)
  from accounts_stream [OF assms(1) this, of decoded] flags(2) r(1) have
    "accounts (rcv @ decoded) rep (fst ?mid) (total_output st') (jobs_of c (ce_workers (snd st))) A" by (simp add: t)
  then obtain flight delivered waiting log where a: "rep = delivered @ waiting" "flight = []" "waiting = []"
    "jobs_of c (ce_workers (snd st)) = {#}" "A = {#}"
    "prefix (map fst rep) (rcv @ decoded)"
    "\<not> tc_closing (fst st') \<longrightarrow> rcv @ decoded = map fst rep @ request # rest"
    "total_output st' = concat (map item_bytes log)" "log_answers log = delivered"
    "\<not> tc_closing (fst st') \<longrightarrow> (\<forall>bytes. Notice bytes \<notin> set log)"
    unfolding accounts_def by auto
  have whole: "rcv @ decoded = map fst rep @ request # rest"
  proof -
    from assms(1) flags(2,4) have "rcv = map fst rep @ tc_requests (fst st)" by (auto simp: accounts_def)
    with r(1) show ?thesis by simp
  qed
  show ?thesis unfolding accounts_def
  proof (intro exI conjI)
    show "rep = delivered @ []" using a by simp
    show "length [request] + length [] = (if tc_processing (fst st') then 1 else 0)" using flags(3) by simp
    show "jobs_of c (ce_workers (snd st')) = mset [request]" using jobs_of_Submit [OF r(3), of c] a(4) by simp
    show "A = mset (map snd [])" using a(5) by simp
    show "prefix (map fst rep @ [request]) (rcv @ decoded)" by (simp add: whole)
    show "\<not> tc_closing (fst st') \<longrightarrow> rcv @ decoded = map fst rep @ [request] @ tc_requests (fst st')"
      using whole r(2) by simp
  qed (use a in simp_all)
qed

section \<open>The invariant of the server\<close>

definition conn_ok :: "TcpServer \<Rightarrow> RequestEnvelope list \<Rightarrow> (RequestEnvelope \<times> byte list) list \<Rightarrow> nat \<Rightarrow> bool" where
  "conn_ok sv rcv rep c \<longleftrightarrow>
     (case sv_objects sv c of
        None \<Rightarrow> rcv = [] \<and> rep = [] \<and> jobs_of c (sv_workers sv) = {#} \<and> answers_for c (sv_io_loops sv) = {#}
      | Some ob \<Rightarrow>
          c < sv_fresh sv \<and> co_loop ob < length (sv_io_loops sv) \<and> buffer_inv (tc_output (co_conn ob)) \<and>
          accounts rcv rep (co_conn ob) (so_sent (co_socket ob) @ ReadableSpan (tc_output (co_conn ob)))
            (jobs_of c (sv_workers sv)) (answers_for c (sv_io_loops sv)))"

definition sockets_fresh :: "TcpServer \<Rightarrow> bool" where
  "sockets_fresh sv \<longleftrightarrow> (\<forall>fd s. sv_sockets sv fd = Some s \<longrightarrow> so_sent s = [])"

definition server_inv :: "TcpServer \<Rightarrow> requests_of \<Rightarrow> replies_of \<Rightarrow> bool" where
  "server_inv sv rcv rep \<longleftrightarrow> sockets_fresh sv \<and> (\<forall>c. conn_ok sv (rcv c) (rep c) c)"

text \<open>A step that leaves objects, jobs and answers where they are.\<close>

definition same_conns :: "TcpServer \<Rightarrow> TcpServer \<Rightarrow> bool" where
  "same_conns sv sv' \<longleftrightarrow>
     sv_objects sv' = sv_objects sv \<and> sv_fresh sv \<le> sv_fresh sv' \<and>
     length (sv_io_loops sv') = length (sv_io_loops sv) \<and>
     (\<forall>c. jobs_of c (sv_workers sv') = jobs_of c (sv_workers sv)) \<and>
     (\<forall>c. answers_for c (sv_io_loops sv') = answers_for c (sv_io_loops sv)) \<and>
     (sockets_fresh sv \<longrightarrow> sockets_fresh sv')"

lemma same_conns_refl: "same_conns sv sv"
  by (simp add: same_conns_def)

lemma same_conns_trans: "same_conns sv sv' \<Longrightarrow> same_conns sv' sv'' \<Longrightarrow> same_conns sv sv''"
  by (simp add: same_conns_def)

lemma same_conns_fold: "(\<And>x sv. same_conns sv (f x sv)) \<Longrightarrow> same_conns sv (fold f xs sv)"
proof (induction xs arbitrary: sv)
  case (Cons x xs)
  then show ?case using same_conns_trans [of sv "f x sv" "fold f xs (f x sv)"] by simp
qed (simp add: same_conns_refl)

lemma conn_ok_same: "same_conns sv sv' \<Longrightarrow> conn_ok sv rcv rep c \<Longrightarrow> conn_ok sv' rcv rep c"
  by (auto simp: conn_ok_def same_conns_def split: option.splits)

lemma server_inv_same: "same_conns sv sv' \<Longrightarrow> server_inv sv rcv rep \<Longrightarrow> server_inv sv' rcv rep"
  using conn_ok_same [of sv sv'] unfolding server_inv_def same_conns_def by blast

lemma same_fields:
  "same_conns sv (sv\<lparr>sv_accepts := a\<rparr>)" "same_conns sv (sv\<lparr>sv_next := n\<rparr>)"
  "same_conns sv (sv\<lparr>sv_connections := cs\<rparr>)" "same_conns sv (sv\<lparr>sv_listen_fd := fd\<rparr>)"
  "same_conns sv (sv\<lparr>sv_service := b\<rparr>)" "same_conns sv (sv\<lparr>sv_loop_running := r\<rparr>)"
  "same_conns sv (stop_flag sv)" "same_conns sv (stop_main sv)"
  "same_conns sv (sv\<lparr>sv_accept_channel := ch, sv_main_loop := ml\<rparr>)"
  "same_conns sv (sv\<lparr>sv_sockets := (sv_sockets sv)(fd \<mapsto> s\<lparr>so_sent := []\<rparr>)\<rparr>)"
  "same_conns sv (sys_close fd sv)" "same_conns sv (RemoveConnection fd sv)"
  "same_conns sv (sv\<lparr>sv_main_loop := ml\<rparr>)"
  by (simp_all add: same_conns_def sockets_fresh_def stop_flag_def stop_main_def sys_close_def RemoveConnection_def)

lemma answers_update:
  "l < length loops \<Longrightarrow>
   answers_for c (loops[l := il]) + mset (loop_answers c (loops ! l)) = answers_for c loops + mset (loop_answers c il)"
  by (simp add: answers_for_def concat_map_update)

lemma answers_update_same:
  "l < length loops \<Longrightarrow> loop_answers c il = loop_answers c (loops ! l) \<Longrightarrow> answers_for c (loops[l := il]) = answers_for c loops"
  using answers_update [of l loops c il] by simp

lemma loop_answers_simps [simp]:
  "loop_answers c (il\<lparr>io_loop := QueueInLoop f el\<rparr>) = loop_answers c (il\<lparr>io_loop := el\<rparr>) @ answer_to c f"
  "loop_answers c (il\<lparr>io_loop := el\<lparr>el_poller := po\<rparr>\<rparr>) = loop_answers c (il\<lparr>io_loop := el\<rparr>)"
  "loop_answers c (il\<lparr>io_loop := EventLoop_Quit el\<rparr>) = loop_answers c (il\<lparr>io_loop := el\<rparr>)"
  "loop_answers c (il\<lparr>io_loop := io_loop il\<rparr>) = loop_answers c il"
  by (simp_all add: loop_answers_def QueueInLoop_def queue_functor_def EventLoop_Quit_def set_quit_def)

lemma queue_answers:
  "l < length (sv_io_loops sv) \<Longrightarrow>
   answers_for c (sv_io_loops (queue_in_io l f sv)) = answers_for c (sv_io_loops sv) + mset (answer_to c f)"
  using answers_update [of l "sv_io_loops sv" c "(sv_io_loops sv ! l)\<lparr>io_loop := QueueInLoop f (io_loop (sv_io_loops sv ! l))\<rparr>"]
  by (simp add: queue_in_io_def del: mset_append) (simp add: ac_simps)

lemma queue_out_of_range: "length (sv_io_loops sv) \<le> l \<Longrightarrow> sv_io_loops (queue_in_io l f sv) = sv_io_loops sv"
  by (simp add: queue_in_io_def list_update_beyond)

lemma queue_fields [simp]:
  "sv_objects (queue_in_io l f sv) = sv_objects sv" "sv_workers (queue_in_io l f sv) = sv_workers sv"
  "sv_fresh (queue_in_io l f sv) = sv_fresh sv" "sv_sockets (queue_in_io l f sv) = sv_sockets sv"
  "length (sv_io_loops (queue_in_io l f sv)) = length (sv_io_loops sv)"
  by (simp_all add: queue_in_io_def)

lemma same_queue: "(\<And>c. answer_to c f = []) \<Longrightarrow> same_conns sv (queue_in_io l f sv)"
  using queue_answers [of l sv _ f] queue_out_of_range [of sv l f]
  by (cases "l < length (sv_io_loops sv)") (simp_all add: same_conns_def sockets_fresh_def)

lemma same_Shutdown: "same_conns sv (TcpConnection_Shutdown c sv)"
  by (simp add: TcpConnection_Shutdown_def same_conns_refl same_queue split: option.split)

lemma same_accept_one: "same_conns sv (accept_one fd nonblocking sv)"
  using same_conns_trans [OF same_fields(2) same_queue [of "FConnect fd"]]
  by (simp add: accept_one_def NextLoop_def same_fields)

lemma same_accept_loop: "same_conns sv (accept_loop rets sv)"
proof (induction rets sv rule: accept_loop.induct)
  case (3 fd s nonblocking rets sv)
  from same_conns_trans [OF same_fields(10) same_conns_trans [OF same_accept_one 3]] show ?case
    unfolding accept_loop.simps .
qed (simp_all add: same_fields)

lemma same_stop_functor: "same_conns sv (stop_functor sv)"
proof -
  define sv1 where "sv1 = (case sv_accept_channel sv of None \<Rightarrow> sv
    | Some ch \<Rightarrow> let (_, p) = Channel_Remove (DisableAll (ch, el_poller (sv_main_loop sv)))
        in sv\<lparr>sv_accept_channel := None, sv_main_loop := (sv_main_loop sv)\<lparr>el_poller := p\<rparr>\<rparr>)"
  define sv2 where "sv2 = fold TcpConnection_Shutdown (map snd (sv_connections sv1)) (sv1\<lparr>sv_connections := []\<rparr>)"
  have 1: "same_conns sv sv1"
    by (simp add: sv1_def same_conns_refl same_fields case_prod_unfold Let_def split: option.split)
  have 2: "same_conns (sv1\<lparr>sv_connections := []\<rparr>) sv2"
    unfolding sv2_def by (rule same_conns_fold) (rule same_Shutdown)
  note 12 = same_conns_trans [OF 1 same_conns_trans [OF same_fields(3) 2]]
  note 3 = same_conns_trans [OF 12 same_conns_trans [OF same_fields(11) same_fields(4)]]
  have "stop_functor sv = (if sv_listen_fd sv2 \<ge> 0 then (sys_close (sv_listen_fd sv2) sv2)\<lparr>sv_listen_fd := -1\<rparr> else sv2)"
    unfolding stop_functor_def sv2_def sv1_def Let_def ..
  with 12 3 show ?thesis by simp
qed

subsection \<open>Methods of a connection\<close>

text \<open>The server right after a method of \<open>c\<close>, before the descriptors it closed are dealt with.\<close>

definition put_conn :: "nat \<Rightarrow> conn_object \<Rightarrow> conn \<Rightarrow> TcpServer \<Rightarrow> TcpServer" where
  "put_conn c ob st sv =
     (let l = co_loop ob; il = sv_io_loops sv ! l
      in sv\<lparr>sv_objects := (sv_objects sv)(c \<mapsto> ob\<lparr>co_conn := fst st, co_socket := ce_socket (snd st)\<rparr>),
            sv_workers := ce_workers (snd st),
            sv_io_loops := (sv_io_loops sv)[l := il\<lparr>io_loop := (io_loop il)\<lparr>el_poller := ce_poller (snd st)\<rparr>\<rparr>]\<rparr>)"

lemma with_conn_put:
  "sv_objects sv c = Some ob \<Longrightarrow>
   same_conns (put_conn c ob (f (conn_state c sv ob)) sv) (with_conn c f sv)"
  using same_conns_trans [OF same_conns_fold [of RemoveConnection, OF same_fields(12)]
      same_conns_fold [of sys_close, OF same_fields(11)]]
  by (simp add: with_conn_def put_conn_def case_prod_unfold Let_def)

lemma put_conn_answers:
  "co_loop ob < length (sv_io_loops sv) \<Longrightarrow>
   answers_for c' (sv_io_loops (put_conn c ob st sv)) = answers_for c' (sv_io_loops sv)"
  by (simp add: put_conn_def Let_def answers_update_same)

lemma conn_ok_put_other:
  assumes "conn_ok sv rcv rep c'" "c' \<noteq> c" "co_loop ob < length (sv_io_loops sv)"
    and "jobs_of c' (ce_workers (snd st)) = jobs_of c' (sv_workers sv)"
  shows "conn_ok (put_conn c ob st sv) rcv rep c'"
  using assms put_conn_answers [OF assms(3), of c' c st]
  by (simp add: conn_ok_def put_conn_def Let_def split: option.splits)

lemma conn_ok_put_self:
  assumes "co_loop ob < length (sv_io_loops sv)" "c < sv_fresh sv" "buffer_inv (tc_output (fst st))"
    and "accounts rcv rep (fst st) (total_output st) (jobs_of c (ce_workers (snd st))) (answers_for c (sv_io_loops sv))"
  shows "conn_ok (put_conn c ob st sv) rcv rep c"
  using assms put_conn_answers [OF assms(1), of c c st]
  by (simp add: conn_ok_def put_conn_def Let_def total_output_def)

lemma put_conn_sockets: "sv_sockets (put_conn c ob st sv) = sv_sockets sv"
  by (simp add: put_conn_def Let_def)

lemma effect_other_jobs:
  "conn_effect c st decoded st' \<Longrightarrow> c' \<noteq> c \<Longrightarrow> jobs_of c' (ce_workers (snd st')) = jobs_of c' (ce_workers (snd st))"
  by (auto simp: conn_effect_def quiet_effect_def submit_effect_def jobs_of_Submit)

text \<open>A method that changes \<open>c\<close> as \<open>conn_effect\<close> allows, from a state that accounts for \<open>c\<close> and
  leaves the other connections as they are.\<close>

lemma with_conn_inv:
  assumes fresh: "sockets_fresh sv"
    and others: "\<And>c'. c' \<noteq> c \<Longrightarrow> conn_ok sv (rcv c') (rep c') c'"
    and ob: "sv_objects sv c = Some ob" "co_loop ob < length (sv_io_loops sv)" "c < sv_fresh sv"
    and st: "ce_workers (snd st) = sv_workers sv"
      "accounts (rcv c) (rep c) (fst st) (total_output st) (jobs_of c (sv_workers sv)) (answers_for c (sv_io_loops sv))"
    and eff: "conn_effect c st decoded (f (conn_state c sv ob))"
  shows "server_inv (with_conn c f sv) (rcv(c := rcv c @ decoded)) rep"
proof (rule server_inv_same [OF with_conn_put [OF ob(1)]])
  let ?st' = "f (conn_state c sv ob)"
  have self: "conn_ok (put_conn c ob ?st' sv) (rcv c @ decoded) (rep c) c"
    using conn_ok_put_self [OF ob(2,3) effect_inv(1) [OF eff]] accounts_effect [OF _ eff] st by simp
  have "conn_ok (put_conn c ob ?st' sv) (rcv c') (rep c') c'" if "c' \<noteq> c" for c'
    using conn_ok_put_other [OF others [OF that] that ob(2)] effect_other_jobs [OF eff that] st(1) by simp
  with self fresh show "server_inv (put_conn c ob ?st' sv) (rcv(c := rcv c @ decoded)) rep"
    by (simp add: server_inv_def sockets_fresh_def put_conn_sockets)
qed

lemma conn_state_fields [simp]:
  "fst (conn_state c sv ob) = co_conn ob" "ce_workers (snd (conn_state c sv ob)) = sv_workers sv"
  "total_output (conn_state c sv ob) = so_sent (co_socket ob) @ ReadableSpan (tc_output (co_conn ob))"
  by (simp_all add: conn_state_def total_output_def)

lemma server_invD:
  assumes "server_inv sv rcv rep" "sv_objects sv c = Some ob"
  shows "co_loop ob < length (sv_io_loops sv)" "c < sv_fresh sv" "buffer_inv (tc_output (co_conn ob))"
    "accounts (rcv c) (rep c) (co_conn ob) (so_sent (co_socket ob) @ ReadableSpan (tc_output (co_conn ob)))
       (jobs_of c (sv_workers sv)) (answers_for c (sv_io_loops sv))"
proof -
  from assms(1) have "conn_ok sv (rcv c) (rep c) c" by (simp add: server_inv_def)
  with assms(2) show "co_loop ob < length (sv_io_loops sv)" "c < sv_fresh sv" "buffer_inv (tc_output (co_conn ob))"
    "accounts (rcv c) (rep c) (co_conn ob) (so_sent (co_socket ob) @ ReadableSpan (tc_output (co_conn ob)))
       (jobs_of c (sv_workers sv)) (answers_for c (sv_io_loops sv))" by (simp_all add: conn_ok_def)
qed

lemma server_inv_effect:
  assumes "server_inv sv rcv rep" "sv_objects sv c = Some ob"
    and "conn_effect c (conn_state c sv ob) decoded (f (conn_state c sv ob))"
  shows "server_inv (with_conn c f sv) (rcv(c := rcv c @ decoded)) rep"
  using with_conn_inv [of sv c rcv rep ob "conn_state c sv ob" decoded f] server_invD [OF assms(1,2)] assms
  by (simp add: server_inv_def)

subsection \<open>Functors\<close>

text \<open>A functor that was taken off the batch of its loop.\<close>

lemma set_batch_fields [simp]:
  "sv_objects (set_batch l fs sv) = sv_objects sv" "sv_workers (set_batch l fs sv) = sv_workers sv"
  "sv_fresh (set_batch l fs sv) = sv_fresh sv" "sv_sockets (set_batch l fs sv) = sv_sockets sv"
  "length (sv_io_loops (set_batch l fs sv)) = length (sv_io_loops sv)"
  "sv_stopping (set_batch l fs sv) = sv_stopping sv" "sv_options (set_batch l fs sv) = sv_options sv"
  by (simp_all add: set_batch_def)

lemma set_batch_answers:
  assumes "l < length (sv_io_loops sv)" "io_batch (sv_io_loops sv ! l) = f # fs"
  shows "answers_for c (sv_io_loops sv) = mset (answer_to c f) + answers_for c (sv_io_loops (set_batch l fs sv))"
proof -
  have "loop_answers c (sv_io_loops sv ! l) = answer_to c f @ loop_answers c ((sv_io_loops sv ! l)\<lparr>io_batch := fs\<rparr>)"
    by (simp add: loop_answers_def assms(2))
  with answers_update [OF assms(1), of c "(sv_io_loops sv ! l)\<lparr>io_batch := fs\<rparr>"] show ?thesis
    by (simp add: set_batch_def ac_simps)
qed

lemma set_batch_same:
  assumes "l < length (sv_io_loops sv)" "io_batch (sv_io_loops sv ! l) = f # fs" "\<And>c. answer_to c f = []"
  shows "same_conns sv (set_batch l fs sv)"
  using set_batch_answers [OF assms(1,2)] assms(3) by (simp add: same_conns_def sockets_fresh_def)

lemma connect_inv:
  assumes inv: "server_inv sv rcv rep" and l: "l < length (sv_io_loops sv)"
  shows "server_inv (connect_functor l fd sv) rcv rep"
proof (cases "sv_stopping sv")
  case True
  with server_inv_same [OF same_fields(11) inv] show ?thesis by (simp add: connect_functor_def)
next
  case False
  let ?c = "sv_fresh sv"
  define ob where "ob = \<lparr>co_conn = TcpConnection_Tie (TcpConnection_SetCloseCallback
      (mk_TcpConnection ?c fd (so_read_buffer_bytes (sv_options sv)))),
    co_socket = (case sv_sockets sv fd of Some s \<Rightarrow> s | None \<Rightarrow> \<lparr>so_recv = [], so_send = [], so_sent = []\<rparr>), co_loop = l\<rparr>"
  define sv1 where "sv1 = sv\<lparr>sv_fresh := ?c + 1, sv_objects := (sv_objects sv)(?c \<mapsto> ob),
    sv_connections := (if fd \<in> fst ` set (sv_connections sv) then sv_connections sv else (fd, ?c) # sv_connections sv)\<rparr>"
  have none: "sv_objects sv ?c = None" using server_invD(2) [OF inv, of ?c] by (cases "sv_objects sv ?c") auto
  have "conn_ok sv (rcv ?c) (rep ?c) ?c" using inv by (simp add: server_inv_def)
  with none have empty: "rcv ?c = []" "rep ?c = []" "jobs_of ?c (sv_workers sv) = {#}" "answers_for ?c (sv_io_loops sv) = {#}"
    by (simp_all add: conn_ok_def)
  have sent: "so_sent (co_socket ob) = []" using inv by (auto simp: ob_def server_inv_def sockets_fresh_def split: option.split)
  have tc: "tc_output (co_conn ob) = mk_Buffer" "\<not> tc_processing (co_conn ob)" "tc_requests (co_conn ob) = []" "\<not> tc_closing (co_conn ob)"
    by (simp_all add: ob_def TcpConnection_Tie_def TcpConnection_SetCloseCallback_def mk_TcpConnection_def)
  have "accounts [] [] (co_conn ob) [] {#} {#}"
    unfolding accounts_def using tc by (intro exI [of _ "[]"]) simp
  then have ok: "conn_ok sv1 (rcv ?c) (rep ?c) ?c"
    using l tc(1) sent empty by (simp add: conn_ok_def sv1_def) (simp add: ob_def)
  have others: "conn_ok sv1 (rcv c') (rep c') c'" if "c' \<noteq> ?c" for c'
    using inv that unfolding server_inv_def by (auto simp: conn_ok_def sv1_def dest!: spec [of _ c'] split: option.splits)
  have "sockets_fresh sv1" using inv by (simp add: server_inv_def sockets_fresh_def sv1_def)
  with ok others have inv1: "server_inv sv1 rcv rep" unfolding server_inv_def by metis
  have ob1: "sv_objects sv1 ?c = Some ob" by (simp add: sv1_def)
  have "quiet_effect (conn_state ?c sv1 ob) [] (TcpConnection_Start (conn_state ?c sv1 ob))"
    using server_invD(3) [OF inv1 ob1]
    by (simp add: quiet_effect_def stream_step_flow TcpConnection_Start_def on_channel_flow)
  with server_inv_effect [OF inv1 ob1, of "[]" TcpConnection_Start] have "server_inv (with_conn ?c TcpConnection_Start sv1) rcv rep"
    by (simp add: conn_effect_def)
  moreover have "connect_functor l fd sv = with_conn ?c TcpConnection_Start sv1"
    using False unfolding connect_functor_def sv1_def ob_def Let_def by simp
  ultimately show ?thesis by simp
qed

lemma conn_ok_set_batch:
  assumes "l < length (sv_io_loops sv)" "io_batch (sv_io_loops sv ! l) = f # fs" "answer_to c f = []"
    and "conn_ok sv rcv rep c"
  shows "conn_ok (set_batch l fs sv) rcv rep c"
  using set_batch_answers [OF assms(1,2), of c] assms(3,4) by (simp add: conn_ok_def split: option.splits)

lemma one_of_two:
  "length xs + length ys = (if b then 1 else 0) \<Longrightarrow> ys \<noteq> [] \<Longrightarrow> xs = [] \<and> (\<exists>y. ys = [y]) \<and> b"
  by (cases xs; cases ys) (auto split: if_splits)

lemma response_inv:
  assumes inv: "server_inv sv rcv rep" and l: "l < length (sv_io_loops sv)"
    and batch: "io_batch (sv_io_loops sv ! l) = FOnResponse c response # fs"
  shows "server_inv (with_conn c (OnResponse c response) (set_batch l fs sv)) rcv rep"
proof -
  let ?sv = "set_batch l fs sv"
  have A: "answers_for c (sv_io_loops sv) = add_mset response (answers_for c (sv_io_loops ?sv))"
    using set_batch_answers [OF l batch, of c] by simp
  have "conn_ok sv (rcv c) (rep c) c" using inv by (simp add: server_inv_def)
  with A obtain ob where ob: "sv_objects sv c = Some ob" by (auto simp: conn_ok_def split: option.splits)
  note d = server_invD [OF inv ob]
  let ?st = "conn_state c ?sv ob"
  obtain st1 where st1: "total_output st1 = total_output ?st @ response" "\<not> tc_processing (fst st1)"
    "tc_requests (fst st1) = tc_requests (co_conn ob)" "tc_closing (fst st1) = tc_closing (co_conn ob)"
    "ce_workers (snd st1) = sv_workers sv" "conn_effect c st1 [] (OnResponse c response ?st)"
    using OnResponse_effect [of ?st response c] d(3) by auto
  from d(4) A obtain delivered waiting log request where a: "rep c = delivered @ [(request, response)]"
    "jobs_of c (sv_workers sv) = {#}" "answers_for c (sv_io_loops ?sv) = {#}" "prefix (map fst (rep c)) (rcv c)"
    "\<not> tc_closing (co_conn ob) \<longrightarrow> rcv c = map fst (rep c) @ tc_requests (co_conn ob)"
    "so_sent (co_socket ob) @ ReadableSpan (tc_output (co_conn ob)) = concat (map item_bytes log)"
    "log_answers log = delivered" "\<not> tc_closing (co_conn ob) \<longrightarrow> (\<forall>bytes. Notice bytes \<notin> set log)"
  proof -
    from d(4) obtain flight delivered waiting log where a: "rep c = delivered @ waiting"
      "length flight + length waiting = (if tc_processing (co_conn ob) then 1 else 0)"
      "jobs_of c (sv_workers sv) = mset flight" "answers_for c (sv_io_loops sv) = mset (map snd waiting)"
      "prefix (map fst (rep c) @ flight) (rcv c)"
      "\<not> tc_closing (co_conn ob) \<longrightarrow> rcv c = map fst (rep c) @ flight @ tc_requests (co_conn ob)"
      "so_sent (co_socket ob) @ ReadableSpan (tc_output (co_conn ob)) = concat (map item_bytes log)"
      "log_answers log = delivered" "\<not> tc_closing (co_conn ob) \<longrightarrow> (\<forall>bytes. Notice bytes \<notin> set log)"
      unfolding accounts_def by blast
    from a(4) A have "waiting \<noteq> []" by auto
    from one_of_two [OF a(2) this] obtain request bytes where "flight = []" and w: "waiting = [(request, bytes)]" by auto
    with a(4) A have "bytes = response" "answers_for c (sv_io_loops ?sv) = {#}" by (simp_all add: single_eq_add_mset)
    with a w \<open>flight = []\<close> that show thesis by simp
  qed
  have acc: "accounts (rcv c) (rep c) (fst st1) (total_output st1) (jobs_of c (sv_workers sv)) (answers_for c (sv_io_loops ?sv))"
    unfolding accounts_def
  proof (intro exI conjI)
    show "rep c = (delivered @ [(request, response)]) @ []" using a(1) by simp
    show "length [] + length [] = (if tc_processing (fst st1) then 1 else 0)" using st1(2) by simp
    show "total_output st1 = concat (map item_bytes (log @ [Answer request response]))" using st1(1) a(6) by simp
  qed (use a st1 in simp_all)
  have others: "conn_ok ?sv (rcv c') (rep c') c'" if "c' \<noteq> c" for c'
    using conn_ok_set_batch [OF l batch, of c'] inv that by (simp add: server_inv_def)
  have "server_inv (with_conn c (OnResponse c response) ?sv) (rcv(c := rcv c @ [])) rep"
    using inv ob d st1(5,6) acc
    by (intro with_conn_inv [where st = st1 and ob = ob] others) (simp_all add: server_inv_def sockets_fresh_def)
  then show ?thesis by simp
qed

lemma run_functor_inv:
  assumes inv: "server_inv sv rcv rep" and l: "l < length (sv_io_loops sv)" and batch: "io_batch (sv_io_loops sv ! l) = f # fs"
  shows "server_inv (run_functor l f (set_batch l fs sv)) rcv rep"
proof (cases f)
  case (FConnect fd)
  with server_inv_same [OF set_batch_same [OF l batch] inv] connect_inv [of "set_batch l fs sv"] l show ?thesis
    by (simp add: run_functor_def)
next
  case (FOnResponse c response)
  with response_inv [OF inv l] batch show ?thesis by (simp add: run_functor_def)
next
  case (FShutdown c)
  note inv1 = server_inv_same [OF set_batch_same [OF l batch] inv]
  show ?thesis
  proof (cases "sv_objects sv c")
    case None
    with FShutdown inv1 show ?thesis by (simp add: run_functor_def with_conn_def)
  next
    case (Some ob)
    with inv1 FShutdown have "server_inv (set_batch l fs sv) rcv rep" "sv_objects (set_batch l fs sv) c = Some ob" by simp_all
    note e = server_inv_effect [OF this, of "[]" shutdown_functor] and d = server_invD(3) [OF this]
    from e shutdown_effect [of "conn_state c (set_batch l fs sv) ob"] d FShutdown show ?thesis
      by (simp add: run_functor_def conn_effect_def)
  qed
qed

subsection \<open>Workers\<close>

lemma jobs_Run_locked:
  assumes "i < length (wp_threads p)" "wp_threads p ! i = Ready"
  shows "jobs_of c (Run_locked i p) = jobs_of c p"
proof -
  have "mset (wp_tasks (Run_locked i p)) + running_tasks (Run_locked i p) = mset (wp_tasks p) + running_tasks p"
    using running_set_thread [OF assms(1)] running_set_thread [of i "p\<lparr>wp_tasks := tl (wp_tasks p)\<rparr>"] assms
    by (cases "wp_tasks p") (auto simp: Run_locked_def)
  then show ?thesis by (simp only: jobs_of_def)
qed

lemma jobs_wake: "wake_step p p' \<Longrightarrow> jobs_of c p' = jobs_of c p"
proof (induction rule: wake_step.induct)
  case (notify p n i)
  with running_set_thread [of i "p\<lparr>wp_notify_one := n\<rparr>" Ready] show ?case by (simp add: jobs_of_def)
next
  case (spurious i p)
  with running_set_thread [of i p Ready] show ?case by (simp add: jobs_of_def)
qed (simp_all add: jobs_of_def)

lemma jobs_Stop: "jobs_of c (WorkerPool_Stop p) = jobs_of c p"
  by (simp add: jobs_of_def WorkerPool_Stop_def)

lemma jobs_finish:
  assumes "i < length (wp_threads p)" "wp_threads p ! i = Running (c, request)"
  shows "jobs_of c' p = (if c' = c then add_mset request (jobs_of c' (set_thread i Ready p)) else jobs_of c' (set_thread i Ready p))"
proof -
  have "running_tasks p = add_mset (c, request) (running_tasks (set_thread i Ready p))"
    using running_set_thread [OF assms(1), of Ready] assms(2) by simp
  then show ?thesis by (auto simp: jobs_of_def)
qed

lemma same_workers: "(\<And>c. jobs_of c p = jobs_of c (sv_workers sv)) \<Longrightarrow> same_conns sv (sv\<lparr>sv_workers := p\<rparr>)"
  by (simp add: same_conns_def sockets_fresh_def)

lemma finish_inv:
  assumes inv: "server_inv sv rcv rep" and i: "i < length (wp_threads (sv_workers sv))"
    and task: "wp_threads (sv_workers sv) ! i = Running (c, request)"
  shows "server_inv (worker_task clock (c, request) (sv\<lparr>sv_workers := set_thread i Ready (sv_workers sv)\<rparr>)) rcv
    (rep(c := rep c @ [(request, fst (run_task clock request (sv_service sv)))]))"
proof -
  note J = jobs_finish [OF i task]
  have "conn_ok sv (rcv c) (rep c) c" using inv by (simp add: server_inv_def)
  with J [of c] obtain ob where ob: "sv_objects sv c = Some ob" by (auto simp: conn_ok_def split: option.splits)
  note d = server_invD [OF inv ob]
  obtain bytes service where run: "run_task clock request (sv_service sv) = (bytes, service)" by (rule prod.exhaust)
  let ?sv = "sv\<lparr>sv_workers := set_thread i Ready (sv_workers sv), sv_service := service\<rparr>"
  have eq: "worker_task clock (c, request) (sv\<lparr>sv_workers := set_thread i Ready (sv_workers sv)\<rparr>) =
      queue_in_io (co_loop ob) (FOnResponse c bytes) ?sv"
    using ob run by (simp add: worker_task_def)
  have A: "answers_for c' (sv_io_loops (queue_in_io (co_loop ob) (FOnResponse c bytes) ?sv)) =
      answers_for c' (sv_io_loops sv) + mset (answer_to c' (FOnResponse c bytes))" for c'
    using queue_answers [of "co_loop ob" ?sv c'] d(1) by simp
  have acc: "accounts (rcv c) (rep c @ [(request, bytes)]) (co_conn ob)
      (so_sent (co_socket ob) @ ReadableSpan (tc_output (co_conn ob)))
      (jobs_of c (set_thread i Ready (sv_workers sv))) (add_mset bytes (answers_for c (sv_io_loops sv)))"
  proof -
    from d(4) obtain flight delivered waiting log where a: "rep c = delivered @ waiting"
      "length flight + length waiting = (if tc_processing (co_conn ob) then 1 else 0)"
      "jobs_of c (sv_workers sv) = mset flight" "answers_for c (sv_io_loops sv) = mset (map snd waiting)"
      "prefix (map fst (rep c) @ flight) (rcv c)"
      "\<not> tc_closing (co_conn ob) \<longrightarrow> rcv c = map fst (rep c) @ flight @ tc_requests (co_conn ob)"
      "so_sent (co_socket ob) @ ReadableSpan (tc_output (co_conn ob)) = concat (map item_bytes log)"
      "log_answers log = delivered" "\<not> tc_closing (co_conn ob) \<longrightarrow> (\<forall>bytes. Notice bytes \<notin> set log)"
      unfolding accounts_def by blast
    from a(3) J [of c] have "flight \<noteq> []" by auto
    from one_of_two [OF _ this, of waiting] a(2) obtain r where proc: "tc_processing (co_conn ob)"
      and w: "waiting = []" and "flight = [r]" by (auto simp: add.commute)
    with a(3) J [of c] have f: "flight = [request]" and j: "jobs_of c (set_thread i Ready (sv_workers sv)) = {#}"
      by (simp_all add: single_eq_add_mset)
    show ?thesis unfolding accounts_def
    proof (intro exI conjI)
      show "rep c @ [(request, bytes)] = delivered @ [(request, bytes)]" using a(1) w by simp
      show "length [] + length [(request, bytes)] = (if tc_processing (co_conn ob) then 1 else 0)" using proc by simp
      show "jobs_of c (set_thread i Ready (sv_workers sv)) = mset []" using j by simp
      show "add_mset bytes (answers_for c (sv_io_loops sv)) = mset (map snd [(request, bytes)])" using a(4) w by simp
    qed (use a f in simp_all)
  qed
  let ?sv' = "queue_in_io (co_loop ob) (FOnResponse c bytes) ?sv"
  have self: "conn_ok ?sv' (rcv c) (rep c @ [(request, bytes)]) c"
    using acc d ob A [of c] by (simp add: conn_ok_def)
  have others: "conn_ok ?sv' (rcv c') (rep c') c'" if "c' \<noteq> c" for c'
  proof -
    have "conn_ok sv (rcv c') (rep c') c'" using inv by (simp add: server_inv_def)
    with A [of c'] J [of c'] that show ?thesis by (simp add: conn_ok_def split: option.splits)
  qed
  have "sockets_fresh ?sv'" using inv by (simp add: server_inv_def sockets_fresh_def)
  with self others show ?thesis by (simp add: eq run server_inv_def)
qed

subsection \<open>Every reachable state\<close>

lemma start_loops_fresh:
  assumes "start_loops n rets loops = (Inr (), loops')" "\<forall>il \<in> set loops. io_batch il = [] \<and> el_pending (io_loop il) = []"
  shows "\<forall>il \<in> set loops'. io_batch il = [] \<and> el_pending (io_loop il) = []"
  using assms
proof (induction n arbitrary: rets loops)
  case (Suc n)
  obtain created efd where h: "hd rets = (created, efd)" by (rule prod.exhaust)
  obtain r el where init: "EventLoop_Init created efd (mk_EventLoop 0 :: io_functor EventLoop) = (r, el)" by (rule prod.exhaust)
  with Suc.prems(1) h obtain u where "r = Inr u" by (cases r) simp_all
  with init have ok: "EventLoop_Init created efd (mk_EventLoop 0) = (Inr (), el)" by simp
  with Suc.prems(1) h have "start_loops n (tl rets) (loops @ [\<lparr>io_loop = el, io_batch = []\<rparr>]) = (Inr (), loops')" by simp
  from Suc.IH [OF this] Suc.prems(2) EventLoop_Init_ok [OF ok] show ?case by auto
qed simp

lemma TcpServer_Start_ok:
  assumes "TcpServer_Start main_ret io_rets listen_ret (mk_TcpServer options service) = (Inr (), sv)"
  shows "sv_objects sv = Map.empty \<and> sv_sockets sv = Map.empty \<and>
    sv_workers sv = mk_WorkerPool (so_worker_threads options) (so_worker_queue_size options) \<and>
    (\<forall>il \<in> set (sv_io_loops sv). io_batch il = [] \<and> el_pending (io_loop il) = [])"
proof -
  let ?sv0 = "mk_TcpServer options service"
  obtain r0 el where main: "EventLoop_Init (fst main_ret) (snd main_ret) (sv_main_loop ?sv0) = (r0, el)" by (rule prod.exhaust)
  let ?sv1 = "?sv0\<lparr>sv_main_loop := el\<rparr>"
  obtain r1 loops where io: "start_loops (sv_thread_count ?sv1) io_rets [] = (r1, loops)" by (rule prod.exhaust)
  let ?sv2 = "?sv1\<lparr>sv_io_loops := loops\<rparr>"
  have pool: "EventLoopThreadPool_Start io_rets ?sv1 = (r1, ?sv2)"
    using io by (simp add: EventLoopThreadPool_Start_def mk_TcpServer_def)
  obtain r2 sv3 where lst: "CreateListenSocket listen_ret ?sv2 = (r2, sv3)" by (rule prod.exhaust)
  from assms main pool lst have r: "r0 = Inr ()" "r1 = Inr ()" "r2 = Inr ()"
    by (auto simp: TcpServer_Start_def split: sum.splits)
  have keep: "sv_objects sv3 = sv_objects ?sv2 \<and> sv_sockets sv3 = sv_sockets ?sv2 \<and> sv_workers sv3 = sv_workers ?sv2 \<and>
      sv_io_loops sv3 = sv_io_loops ?sv2"
    using lst by (auto simp: CreateListenSocket_def Let_def split: sum.splits option.splits if_splits)
  from assms main pool lst r have "sv_objects sv = sv_objects sv3 \<and> sv_sockets sv = sv_sockets sv3 \<and>
      sv_workers sv = sv_workers sv3 \<and> sv_io_loops sv = sv_io_loops sv3"
    by (auto simp: TcpServer_Start_def case_prod_unfold Let_def)
  with keep start_loops_fresh [of "sv_thread_count ?sv1" io_rets "[]" loops] io r(2) show ?thesis
    by (simp add: mk_TcpServer_def)
qed

lemma start_inv:
  assumes "TcpServer_Start main_ret io_rets listen_ret (mk_TcpServer options service) = (Inr (), sv)"
  shows "server_inv sv (\<lambda>_. []) (\<lambda>_. [])"
proof -
  note s = TcpServer_Start_ok [OF assms]
  have "map (loop_answers c) (sv_io_loops sv) = map (\<lambda>_. []) (sv_io_loops sv)" for c
    using s by (simp add: loop_answers_def)
  then have A: "answers_for c (sv_io_loops sv) = {#}" for c by (simp add: answers_for_def)
  have "concat (replicate n []) = []" for n by (induction n) simp_all
  then have J: "jobs_of c (mk_WorkerPool m n) = {#}" for c m n
    by (simp add: jobs_of_def mk_WorkerPool_def running_tasks_def)
  show ?thesis using s A J by (simp add: server_inv_def sockets_fresh_def conn_ok_def)
qed

lemma network_inv:
  assumes inv: "server_inv sv rcv rep" and ob: "sv_objects sv c = Some ob"
  shows "server_inv (sv\<lparr>sv_objects := (sv_objects sv)(c \<mapsto>
      ob\<lparr>co_socket := (co_socket ob)\<lparr>so_recv := recvs, so_send := sends\<rparr>\<rparr>)\<rparr>) rcv rep" (is "server_inv ?sv _ _")
proof -
  have "conn_ok ?sv (rcv c') (rep c') c'" for c'
  proof -
    have "conn_ok sv (rcv c') (rep c') c'" using inv by (simp add: server_inv_def)
    with ob show ?thesis by (cases "c' = c") (simp_all add: conn_ok_def split: option.splits)
  qed
  with inv show ?thesis by (simp add: server_inv_def sockets_fresh_def)
qed

lemma same_swap:
  assumes "l < length (sv_io_loops sv)" "io_batch (sv_io_loops sv ! l) = []"
  shows "same_conns sv (swap_loop l sv)"
proof -
  have "loop_answers c \<lparr>io_loop = el\<lparr>el_pending := []\<rparr>, io_batch = el_pending el\<rparr> = loop_answers c (sv_io_loops sv ! l)"
    if "el = io_loop (sv_io_loops sv ! l)" for c el
    using that assms(2) by (simp add: loop_answers_def)
  with answers_update_same [OF assms(1)] show ?thesis
    by (simp add: same_conns_def swap_loop_def swap_pending_def sockets_fresh_def Let_def)
qed

lemma same_quit_loops: "same_conns sv (quit_loops sv)"
  by (simp add: same_conns_def quit_loops_def sockets_fresh_def answers_for_def comp_def)

lemma server_run_inv: "server_run sv rcv rep \<Longrightarrow> server_inv sv rcv rep"
proof (induction rule: server_run.induct)
  case (start main_ret io_rets listen_ret options service sv)
  then show ?case by (rule start_inv)
next
  case (network sv rcv rep c ob recvs sends)
  then show ?case by (simp add: network_inv)
next
  case (event sv rcv rep c ob readable writable closed error)
  have "buffer_inv (tc_output (fst (conn_state c sv ob)))" using server_invD(3) [OF event(3,2)] by simp
  from server_inv_effect [where f = "connection_event c readable writable closed error",
      OF event(3,2) connection_event_effect [OF this]] show ?case .
next
  case (run_io sv rcv rep l f fs)
  then show ?case by (intro run_functor_inv)
next
  case (finish_task sv rcv rep i c request clock)
  then show ?case by (intro finish_inv)
next
  case (stop_workers sv rcv rep)
  then show ?case unfolding stop_workers_def by (intro server_inv_same [OF same_workers]) (simp_all add: jobs_Stop)
next
  case (take_task sv rcv rep i)
  then show ?case by (intro server_inv_same [OF same_workers]) (simp_all add: jobs_Run_locked)
next
  case (wake sv rcv rep p)
  then show ?case by (intro server_inv_same [OF same_workers]) (simp_all add: jobs_wake)
qed (auto intro: server_inv_same same_fields same_swap same_stop_functor same_quit_loops same_accept_loop simp: HandleAccept_def)

section \<open>The worker pool of the server\<close>

text \<open>The server keeps the wakeups of its pool: connections only submit tasks, and the threads take the
  steps of a pool.\<close>

definition pool_ok :: "'a WorkerPool \<Rightarrow> bool" where
  "pool_ok p \<longleftrightarrow> wakeups_kept p \<and> wp_threads p \<noteq> []"

lemma pool_ok_steps:
  assumes "pool_ok p"
  shows "pool_ok (snd (Submit task p))" "pool_ok (WorkerPool_Stop p)"
    "i < length (wp_threads p) \<Longrightarrow> pool_ok (Run_locked i p)" "i < length (wp_threads p) \<Longrightarrow> pool_ok (set_thread i Ready p)"
    "wake_step p p' \<Longrightarrow> pool_ok p'"
proof -
  from assms have k: "wakeups_kept p" "wp_threads p \<noteq> []" by (simp_all add: pool_ok_def)
  show "pool_ok (snd (Submit task p))" using wakeups_kept_Submit [OF k(1)] k(2) by (auto simp: pool_ok_def Submit_def)
  show "pool_ok (WorkerPool_Stop p)" using wakeups_kept_Stop [OF k(1)] k(2) by (simp add: pool_ok_def WorkerPool_Stop_def)
  show "pool_ok (Run_locked i p)" if "i < length (wp_threads p)"
    using wakeups_kept_Run_locked [OF that k(1)] k(2) by (auto simp: pool_ok_def Run_locked_def)
  show ready: "pool_ok (set_thread i Ready p)" if "i < length (wp_threads p)" for i
    using wakeups_kept_awake [OF that k(1), of Ready] k(2) by (simp add: pool_ok_def)
  show "pool_ok p'" if "wake_step p p'"
    using that
  proof (cases rule: wake_step.cases)
    case (notify n i)
    then show ?thesis using wakeups_kept_notify [OF notify(2,3) k(1)] k(2) by (simp add: pool_ok_def)
  next
    case (notify_nobody n)
    then show ?thesis using wakeups_kept_notify_nobody [OF k] k(2) by (simp add: pool_ok_def)
  next
    case notify_all
    then show ?thesis using wakeups_kept_wake_all [OF k] k(2) by (simp add: pool_ok_def)
  next
    case (spurious i)
    then show ?thesis using ready by simp
  qed
qed

text \<open>What holds of the pool and survives a submission survives whatever a connection does.\<close>

definition submit_keeps :: "(conn_task WorkerPool \<Rightarrow> bool) \<Rightarrow> bool" where
  "submit_keeps P \<longleftrightarrow> (\<forall>task p. P p \<longrightarrow> P (snd (Submit task p)))"

lemma pool_ok_submit: "submit_keeps pool_ok"
  by (simp add: submit_keeps_def pool_ok_steps)

lemma conn_effect_pool:
  assumes "submit_keeps P" "conn_effect c st decoded st'" "P (ce_workers (snd st))"
  shows "P (ce_workers (snd st'))"
proof -
  from assms(2) consider "ce_workers (snd st') = ce_workers (snd st)"
    | request where "Submit (c, request) (ce_workers (snd st)) = (True, ce_workers (snd st'))"
    unfolding conn_effect_def quiet_effect_def submit_effect_def by blast
  then show ?thesis
  proof cases
    case (2 request)
    with assms(1,3) show ?thesis unfolding submit_keeps_def by (metis snd_conv)
  qed (use assms(3) in simp)
qed

lemma sv_workers_fold [simp]:
  "sv_workers (fold sys_close fds sv) = sv_workers sv" "sv_workers (fold RemoveConnection fds sv) = sv_workers sv"
  by (induction fds arbitrary: sv) (simp_all add: sys_close_def RemoveConnection_def)

lemma with_conn_pool:
  assumes "P (sv_workers sv)"
    and "\<And>ob. sv_objects sv c = Some ob \<Longrightarrow> P (ce_workers (snd (f (conn_state c sv ob))))"
  shows "P (sv_workers (with_conn c f sv))"
  using assms by (auto simp: with_conn_def Let_def split: option.splits prod.splits)

lemma sv_workers_queue [simp]: "sv_workers (queue_in_io l f sv) = sv_workers sv"
  by (simp add: queue_in_io_def)

lemma sv_workers_shutdown [simp]: "sv_workers (fold TcpConnection_Shutdown cs sv) = sv_workers sv"
  by (induction cs arbitrary: sv) (simp_all add: TcpConnection_Shutdown_def split: option.split)

lemma sv_workers_stop_functor [simp]: "sv_workers (stop_functor sv) = sv_workers sv"
  by (simp add: stop_functor_def sys_close_def Let_def split: option.split prod.split)

lemma sv_workers_accept [simp]: "sv_workers (accept_loop rets sv) = sv_workers sv"
  by (induction rets sv rule: accept_loop.induct)
    (auto simp: accept_one_def NextLoop_def sys_close_def split: prod.splits option.splits)

lemma sv_workers_task [simp]: "sv_workers (worker_task clock task sv) = sv_workers sv"
  by (simp add: worker_task_def Let_def split: prod.split option.split)

lemma event_pool:
  assumes run: "server_run sv rcv rep" and ob: "sv_objects sv c = Some ob" and keeps: "submit_keeps P" and ok: "P (sv_workers sv)"
  shows "P (sv_workers (with_conn c (connection_event c readable writable closed error) sv))"
proof -
  have "buffer_inv (tc_output (fst (conn_state c sv ob)))" using server_invD(3) [OF server_run_inv [OF run] ob] by simp
  from conn_effect_pool [OF keeps connection_event_effect [OF this]] ob ok show ?thesis
    by (intro with_conn_pool [where P = P]) (simp_all add: conn_state_def)
qed

lemma run_functor_pool:
  assumes inv: "\<And>c ob. sv_objects sv c = Some ob \<Longrightarrow> buffer_inv (tc_output (co_conn ob))"
    and keeps: "submit_keeps P" and ok: "P (sv_workers sv)"
  shows "P (sv_workers (run_functor l f sv))"
proof (cases f)
  case (FConnect fd)
  have "P (sv_workers (with_conn c TcpConnection_Start sv'))" if "sv_workers sv' = sv_workers sv" for c sv'
    by (rule with_conn_pool) (use ok that in \<open>simp_all add: TcpConnection_Start_def on_channel_def conn_state_def split: prod.split\<close>)
  with ok FConnect show ?thesis by (simp add: run_functor_def connect_functor_def sys_close_def Let_def)
next
  case (FOnResponse c response)
  have "P (ce_workers (snd (OnResponse c response (conn_state c sv ob))))" if "sv_objects sv c = Some ob" for ob
  proof -
    have "buffer_inv (tc_output (fst (conn_state c sv ob)))" using inv [OF that] by (simp add: conn_state_def)
    from OnResponse_effect [OF this] obtain st1 where
      st1: "ce_workers (snd st1) = ce_workers (snd (conn_state c sv ob))"
        "conn_effect c st1 [] (OnResponse c response (conn_state c sv ob))" by blast
    from conn_effect_pool [OF keeps st1(2)] st1(1) ok show ?thesis by (simp add: conn_state_def)
  qed
  with FOnResponse with_conn_pool [where P = P, OF ok] show ?thesis by (simp add: run_functor_def)
next
  case (FShutdown c)
  have "P (ce_workers (snd (shutdown_functor (conn_state c sv ob))))" if "sv_objects sv c = Some ob" for ob
    using shutdown_effect [of "conn_state c sv ob"] inv [OF that] ok
    by (simp add: quiet_effect_def conn_state_def)
  with FShutdown with_conn_pool [where P = P, OF ok] show ?thesis by (simp add: run_functor_def)
qed

lemma run_io_pool:
  assumes run: "server_run sv rcv rep" and keeps: "submit_keeps P" and ok: "P (sv_workers sv)"
  shows "P (sv_workers (run_functor l f (set_batch l fs sv)))"
proof (rule run_functor_pool [OF _ keeps])
  show "buffer_inv (tc_output (co_conn ob))" if "sv_objects (set_batch l fs sv) c = Some ob" for c ob
    using server_invD(3) [OF server_run_inv [OF run], of c ob] that by (simp add: set_batch_def)
  show "P (sv_workers (set_batch l fs sv))" using ok by (simp add: set_batch_def)
qed

lemma server_run_pool: "server_run sv rcv rep \<Longrightarrow> pool_ok (sv_workers sv)"
proof (induction rule: server_run.induct)
  case (start main_ret io_rets listen_ret options service sv)
  then show ?case using TcpServer_Start_ok [OF start] wakeups_kept_mk by (simp add: pool_ok_def mk_WorkerPool_def)
next
  case (event sv rcv rep c ob readable writable closed error)
  from event(3) show ?case by (rule event_pool [OF event(1,2) pool_ok_submit])
next
  case (run_io sv rcv rep l f fs)
  from run_io(4) show ?case by (rule run_io_pool [OF run_io(1) pool_ok_submit])
qed (auto simp: pool_ok_steps HandleAccept_def stop_flag_def stop_main_def stop_workers_def quit_loops_def swap_loop_def Let_def
    split: prod.split)

end
