(* ===== verification/ServerLive.thy ===== *)
theory ServerLive
  imports ServerRun
begin

text \<open>
  A request is answered: from a state in which a connection is idle and a worker is free there
  is a run in which a request that arrives is decoded, handled by the broker, and its response
  sent. Each lemma is one step of that run.
\<close>

section \<open>Reading one frame\<close>

lemma receive_one_frame:
  assumes "EncodeRequest q = Inr f" "request_typed (rqe_body q)"
    and "0 \<le> tc_fd tc" "tc_decoder tc = mk_FrameDecoder kMaxFrameBytes"
    and "so_recv (ce_socket env) = [Arrived (hd f) (tl f)]" "f \<noteq> []" "length f \<le> tc_read_buffer_bytes tc"
  shows "receive_requests (tc, env) =
    ((True, [wire_request_envelope q]),
     (tc\<lparr>tc_requests := tc_requests tc @ [wire_request_envelope q]\<rparr>, env\<lparr>ce_socket := (ce_socket env)\<lparr>so_recv := []\<rparr>\<rparr>))"
proof -
  let ?s = "(ce_socket env)\<lparr>so_recv := []\<rparr>"
  have push: "FrameDecoder_Push f (tc_decoder tc) = (Inr [wire_request_envelope q], tc_decoder tc)"
    using push_loop_frames [of "[q]" "[f]" kMaxFrameBytes "[]"] assms(1,2,4)
    by (simp add: FrameDecoder_Push_def mk_FrameDecoder_def kMaxFrameBytes_def kFrameHeaderBytes_def)
  have read: "sys_read (tc_fd tc) (tc_read_buffer_bytes tc) (ce_socket env) = (Inr f, ?s)"
    using assms(3,5-7) by (simp add: sys_read_def split: list.split)
  have again: "sys_read (tc_fd tc) n ?s = (Inl SEagain, ?s)" for n using assms(3) by (simp add: sys_read_def)
  show ?thesis
    by (subst receive_requests.simps, simp add: read assms(6) push)
      (subst receive_requests.simps, simp add: again)
qed

section \<open>The server around a method\<close>

lemma fold_same_field: "(\<And>x sv. g (f x sv) = g sv) \<Longrightarrow> g (fold f xs sv) = g sv"
  by (induction xs arbitrary: sv) simp_all

lemma closing_fields [simp]:
  "sv_objects (fold sys_close xs (fold RemoveConnection ys sv)) = sv_objects sv"
  "sv_workers (fold sys_close xs (fold RemoveConnection ys sv)) = sv_workers sv"
  "sv_io_loops (fold sys_close xs (fold RemoveConnection ys sv)) = sv_io_loops sv"
  "sv_service (fold sys_close xs (fold RemoveConnection ys sv)) = sv_service sv"
  by (simp_all add: fold_same_field [of _ sys_close] fold_same_field [of _ RemoveConnection] sys_close_def RemoveConnection_def)

lemma with_conn_fields:
  assumes "sv_objects sv c = Some ob" and "f (conn_state c sv ob) = st"
  shows "sv_objects (with_conn c f sv) = (sv_objects sv)(c \<mapsto> ob\<lparr>co_conn := fst st, co_socket := ce_socket (snd st)\<rparr>)"
    "sv_workers (with_conn c f sv) = ce_workers (snd st)" "sv_service (with_conn c f sv) = sv_service sv"
    "length (sv_io_loops (with_conn c f sv)) = length (sv_io_loops sv)"
    "map io_batch (sv_io_loops (with_conn c f sv)) = map io_batch (sv_io_loops sv)"
    "map (el_pending \<circ> io_loop) (sv_io_loops (with_conn c f sv)) = map (el_pending \<circ> io_loop) (sv_io_loops sv)"
proof -
  have upd: "map g (xs[l := (xs ! l)\<lparr>io_loop := (io_loop (xs ! l))\<lparr>el_poller := po\<rparr>\<rparr>]) = map g xs"
    if "\<And>il. g (il\<lparr>io_loop := (io_loop il)\<lparr>el_poller := po\<rparr>\<rparr>) = g il" for g :: "io_loop \<Rightarrow> 'b" and xs l po
    by (cases "l < length xs") (simp_all add: map_update that list_update_same_conv list_update_beyond)
  show "sv_objects (with_conn c f sv) = (sv_objects sv)(c \<mapsto> ob\<lparr>co_conn := fst st, co_socket := ce_socket (snd st)\<rparr>)"
    "sv_workers (with_conn c f sv) = ce_workers (snd st)" "sv_service (with_conn c f sv) = sv_service sv"
    "length (sv_io_loops (with_conn c f sv)) = length (sv_io_loops sv)"
    "map io_batch (sv_io_loops (with_conn c f sv)) = map io_batch (sv_io_loops sv)"
    "map (el_pending \<circ> io_loop) (sv_io_loops (with_conn c f sv)) = map (el_pending \<circ> io_loop) (sv_io_loops sv)"
    using assms by (simp_all add: with_conn_def case_prod_unfold Let_def upd)
qed

text \<open>A connection that waits for a request, with the bytes of its output so far.\<close>

definition idle_conn :: "TcpServer \<Rightarrow> nat \<Rightarrow> conn_object \<Rightarrow> byte list \<Rightarrow> bool" where
  "idle_conn sv c ob out \<longleftrightarrow>
     sv_objects sv c = Some ob \<and> 0 \<le> tc_fd (co_conn ob) \<and> \<not> tc_processing (co_conn ob) \<and> \<not> tc_closing (co_conn ob) \<and>
     tc_requests (co_conn ob) = [] \<and> tc_decoder (co_conn ob) = mk_FrameDecoder kMaxFrameBytes \<and>
     out = so_sent (co_socket ob) @ ReadableSpan (tc_output (co_conn ob)) \<and>
     co_loop ob < length (sv_io_loops sv) \<and> io_batch (sv_io_loops sv ! co_loop ob) = [] \<and>
     el_pending (io_loop (sv_io_loops sv ! co_loop ob)) = []"

definition free_worker :: "conn_task WorkerPool \<Rightarrow> nat \<Rightarrow> bool" where
  "free_worker p i \<longleftrightarrow>
     i < length (wp_threads p) \<and> wp_threads p ! i = Ready \<and> wp_tasks p = [] \<and> \<not> wp_stopping p \<and> 0 < wp_max_queue_size p"

lemma nth_map_eq: "map f xs = map f ys \<Longrightarrow> l < length ys \<Longrightarrow> f (xs ! l) = f (ys ! l)"
  by (metis length_map nth_map)

section \<open>The steps\<close>

text \<open>The frame arrives and is read: the request is with the workers.\<close>

lemma request_submitted:
  assumes run: "server_run sv rcv rep" and idle: "idle_conn sv c ob out" and free: "free_worker (sv_workers sv) i"
    and q: "EncodeRequest q = Inr f" "request_typed (rqe_body q)" "length f \<le> tc_read_buffer_bytes (co_conn ob)"
  obtains sv' ob' where "server_run sv' (rcv(c := rcv c @ [wire_request_envelope q])) rep"
    "sv_objects sv' c = Some ob'" "co_loop ob' = co_loop ob" "co_loop ob < length (sv_io_loops sv')"
    "tc_requests (co_conn ob') = []" "\<not> tc_closing (co_conn ob')" "0 \<le> tc_fd (co_conn ob')"
    "out = so_sent (co_socket ob') @ ReadableSpan (tc_output (co_conn ob'))"
    "io_batch (sv_io_loops sv' ! co_loop ob) = []" "el_pending (io_loop (sv_io_loops sv' ! co_loop ob)) = []"
    "sv_service sv' = sv_service sv" "wp_tasks (sv_workers sv') = [(c, wire_request_envelope q)]"
    "i < length (wp_threads (sv_workers sv'))" "wp_threads (sv_workers sv') ! i = Ready"
proof -
  let ?q = "wire_request_envelope q"
  have ne: "f \<noteq> []" using EncodeRequest_frame_length [OF q(1)] by (auto simp: kFrameHeaderBytes_def)
  let ?ob1 = "ob\<lparr>co_socket := (co_socket ob)\<lparr>so_recv := [Arrived (hd f) (tl f)], so_send := []\<rparr>\<rparr>"
  let ?sv1 = "sv\<lparr>sv_objects := (sv_objects sv)(c \<mapsto> ?ob1)\<rparr>"
  from idle have ob: "sv_objects sv c = Some ob" by (simp add: idle_conn_def)
  from server_run.network [OF run ob] have run1: "server_run ?sv1 rcv rep" .
  have ob1: "sv_objects ?sv1 c = Some ?ob1" by simp
  let ?st = "conn_state c ?sv1 ?ob1"
  obtain tc env where st: "?st = (tc, env)" by (rule prod.exhaust)
  then have tc: "tc = co_conn ob" and env: "ce_socket env = co_socket ?ob1" "ce_workers env = sv_workers sv"
    by (auto simp: conn_state_def)
  let ?tc1 = "tc\<lparr>tc_requests := [?q]\<rparr>" and ?env1 = "env\<lparr>ce_socket := (ce_socket env)\<lparr>so_recv := []\<rparr>\<rparr>"
  have recv: "receive_requests (tc, env) = ((True, [?q]), (?tc1, ?env1))"
    using receive_one_frame [OF q(1,2), of tc env] idle q(3) ne by (simp add: idle_conn_def tc env(1))
  let ?p1 = "(sv_workers sv)\<lparr>wp_tasks := [(c, ?q)], wp_notify_one := wp_notify_one (sv_workers sv) + 1\<rparr>"
  have sub: "Submit (c, ?q) (ce_workers ?env1) = (True, ?p1)"
    using free by (simp add: env(2) Submit_def free_worker_def)
  have "HandleRead c (tc, env) = SubmitNext c (?tc1, ?env1)" by (simp add: HandleRead_def recv)
  also have "\<dots> = (?tc1\<lparr>tc_processing := True, tc_requests := []\<rparr>, ?env1\<lparr>ce_workers := ?p1\<rparr>)"
    using idle by (intro SubmitNext_accepted [OF _ _ _ sub]) (simp_all add: idle_conn_def tc)
  finally have ev: "connection_event c True False False False ?st =
      (?tc1\<lparr>tc_processing := True, tc_requests := []\<rparr>, ?env1\<lparr>ce_workers := ?p1\<rparr>)"
    by (simp add: connection_event_def HandleEvent_def HandleEventWithGuard_def connection_callbacks_def call_def st)
  have dec: "event_requests True False False ?st = [?q]" by (simp add: event_requests_def st recv)
  let ?sv2 = "with_conn c (connection_event c True False False False) ?sv1"
  have run2: "server_run ?sv2 (rcv(c := rcv c @ [?q])) rep"
    using server_run.event [OF run1 ob1, of True False False False] by (simp only: dec)
  note w = with_conn_fields [where f = "connection_event c True False False False", OF ob1 ev]
  show thesis
  proof (rule that [OF run2])
    show "sv_objects ?sv2 c = Some (?ob1\<lparr>co_conn := ?tc1\<lparr>tc_processing := True, tc_requests := []\<rparr>,
        co_socket := ce_socket ?env1\<rparr>)" using w(1) by simp
    have l: "co_loop ob < length (sv_io_loops ?sv1)" using idle by (simp add: idle_conn_def)
    show "io_batch (sv_io_loops ?sv2 ! co_loop ob) = []"
      using nth_map_eq [OF w(5) l] idle by (simp add: idle_conn_def)
    show "el_pending (io_loop (sv_io_loops ?sv2 ! co_loop ob)) = []"
      using nth_map_eq [OF w(6) l] idle by (simp add: idle_conn_def)
    show "co_loop ob < length (sv_io_loops ?sv2)" using w(4) l by simp
  qed (use idle free w in \<open>simp_all add: idle_conn_def free_worker_def tc env(1)\<close>)
qed

text \<open>A worker takes the request and hands the response to the loop, which swaps it out.\<close>

lemma request_handled:
  assumes run: "server_run sv rcv rep" and ob: "sv_objects sv c = Some ob" "co_loop ob < length (sv_io_loops sv)"
    and loop: "io_batch (sv_io_loops sv ! co_loop ob) = []" "el_pending (io_loop (sv_io_loops sv ! co_loop ob)) = []"
    and task: "wp_tasks (sv_workers sv) = [(c, q)]" "i < length (wp_threads (sv_workers sv))" "wp_threads (sv_workers sv) ! i = Ready"
  obtains sv' where "server_run sv' rcv (rep(c := rep c @ [(q, fst (run_task clock q (sv_service sv)))]))"
    "sv_objects sv' = sv_objects sv" "length (sv_io_loops sv') = length (sv_io_loops sv)"
    "io_batch (sv_io_loops sv' ! co_loop ob) = [FOnResponse c (fst (run_task clock q (sv_service sv)))]"
    "sv_service sv' = snd (run_task clock q (sv_service sv))"
proof -
  let ?l = "co_loop ob" and ?p = "sv_workers sv"
  let ?sv1 = "sv\<lparr>sv_workers := Run_locked i ?p\<rparr>"
  have run1: "server_run ?sv1 rcv rep" by (rule server_run.take_task [OF run task(2,3)])
  have p1: "i < length (wp_threads (sv_workers ?sv1))" "wp_threads (sv_workers ?sv1) ! i = Running (c, q)"
    using task by (simp_all add: Run_locked_def)
  obtain bytes service where t: "run_task clock q (sv_service sv) = (bytes, service)" by (rule prod.exhaust)
  define sv2 where "sv2 = worker_task clock (c, q) (?sv1\<lparr>sv_workers := set_thread i Ready (sv_workers ?sv1)\<rparr>)"
  have run2: "server_run sv2 rcv (rep(c := rep c @ [(q, bytes)]))"
    using server_run.finish_task [OF run1 p1, of clock] t by (simp add: sv2_def)
  have sv2: "sv_objects sv2 = sv_objects sv" "sv_service sv2 = service"
    "sv_io_loops sv2 = (sv_io_loops sv)[?l := (sv_io_loops sv ! ?l)\<lparr>io_loop :=
        QueueInLoop (FOnResponse c bytes) (io_loop (sv_io_loops sv ! ?l))\<rparr>]"
    using ob t by (simp_all add: sv2_def worker_task_def queue_in_io_def)
  have l: "?l < length (sv_io_loops sv2)" "io_batch (sv_io_loops sv2 ! ?l) = []"
    using sv2(3) ob(2) loop(1) by simp_all
  show thesis
    by (rule that [OF server_run.swap [OF run2 l, folded fst_conv [of bytes service, unfolded t [symmetric]]]])
      (use sv2 ob loop t in \<open>simp_all add: swap_loop_def swap_pending_def Let_def QueueInLoop_def queue_functor_def\<close>)
qed

text \<open>The loop appends the response to the output, and the socket takes it.\<close>

lemma response_sent:
  assumes run: "server_run sv rcv rep" and ob: "sv_objects sv c = Some ob" "co_loop ob < length (sv_io_loops sv)"
    and batch: "io_batch (sv_io_loops sv ! co_loop ob) = [FOnResponse c bytes]"
    and tc: "tc_requests (co_conn ob) = []" "\<not> tc_closing (co_conn ob)" "0 \<le> tc_fd (co_conn ob)"
  obtains sv' ob' where "server_run sv' rcv rep" "sv_objects sv' c = Some ob'"
    "so_sent (co_socket ob') = so_sent (co_socket ob) @ ReadableSpan (tc_output (co_conn ob)) @ bytes"
    "sv_service sv' = sv_service sv"
proof -
  let ?sv1 = "set_batch (co_loop ob) [] sv"
  let ?st = "conn_state c ?sv1 ob" and ?sv2 = "with_conn c (OnResponse c bytes) ?sv1"
  have run2: "server_run ?sv2 rcv rep"
    using server_run.run_io [OF run ob(2) batch] by (simp add: run_functor_def)
  have ob1: "sv_objects ?sv1 c = Some ob" using ob(1) by simp
  let ?base = "((fst ?st)\<lparr>tc_processing := False\<rparr>, snd ?st)"
  define st1 where "st1 = (if bytes \<noteq> [] then append_output bytes ?base else ?base)"
  have buf: "buffer_inv (tc_output (fst ?base))" using server_invD(3) [OF server_run_inv [OF run] ob(1)] by simp
  have fd: "tc_fd (fst (append_output bytes st)) = tc_fd (fst st)" for st
    by (simp add: append_output_def on_channel_def split: prod.split)
  have st1: "tc_requests (fst st1) = []" "\<not> tc_closing (fst st1)" "tc_fd (fst st1) = tc_fd (co_conn ob)"
    "total_output st1 = total_output ?st @ bytes"
    using append_output_flow [of bytes ?base] append_output_total [OF buf, of bytes] fd [of ?base] tc
    by (auto simp: st1_def flow_def total_output_def conn_state_def split: if_splits)
  have "OnResponse c bytes ?st = SubmitNext c st1" 
    by (simp add: OnResponse_def Let_def st1_def)
  also have "\<dots> = st1" using st1(1) by (intro SubmitNext_idle) simp
  finally have f2: "OnResponse c bytes ?st = st1" .
  note w2 = with_conn_fields [where f = "OnResponse c bytes", OF ob1 f2]
  define ob2 where "ob2 = ob\<lparr>co_conn := fst st1, co_socket := ce_socket (snd st1)\<rparr>"
  let ?n = "readable_bytes (tc_output (fst st1))"
  define ob3 where "ob3 = ob2\<lparr>co_socket := (co_socket ob2)\<lparr>so_recv := [], so_send := replicate ?n (Sent 1)\<rparr>\<rparr>"
  define sv3 where "sv3 = ?sv2\<lparr>sv_objects := (sv_objects ?sv2)(c \<mapsto> ob3)\<rparr>"
  have run3: "server_run sv3 rcv rep"
    using server_run.network [OF run2, where c = c and ob = ob2 and recvs = "[]" and sends = "replicate ?n (Sent 1)"] w2(1) by (simp add: sv3_def ob3_def ob2_def)
  have ob3: "sv_objects sv3 c = Some ob3" by (simp add: sv3_def)
  let ?st3 = "conn_state c sv3 ob3"
  have tc3: "co_conn ob3 = fst st1" "so_sent (co_socket ob3) = so_sent (ce_socket (snd st1))"
    by (simp_all add: ob3_def ob2_def)
  have buf3: "buffer_inv (tc_output (co_conn ob3))" using server_invD(3) [OF server_run_inv [OF run3] ob3] .
  obtain r out s where wr: "WriteToFd (tc_fd (co_conn ob3)) (tc_output (co_conn ob3), co_socket ob3) = (r, (out, s))"
    by (metis prod_cases3)
  have "fst (WriteToFd (tc_fd (co_conn ob3)) (tc_output (co_conn ob3), co_socket ob3)) = Inr () \<and>
      ReadableSpan (fst (snd (WriteToFd (tc_fd (co_conn ob3)) (tc_output (co_conn ob3), co_socket ob3)))) = []"
    using st1(3) tc(3) buf3 tc3(1) by (intro WriteToFd_drains) (auto simp: ob3_def)
  with wr have r: "r = Inr ()" "ReadableSpan out = []" by simp_all
  with WriteToFd_spec [OF buf3 wr] tc3 st1(4) have sent: "so_sent s = total_output ?st @ bytes"
    by (simp add: total_output_def)
  let ?ev = "connection_event c False True False False" and ?st4 = "HandleWrite ?st3"
  have ev: "?ev ?st3 = ?st4"
    by (simp add: connection_event_def HandleEvent_def HandleEventWithGuard_def connection_callbacks_def call_def)
  have "HandleWrite ?st3 = on_channel DisableWriting ((co_conn ob3)\<lparr>tc_output := out\<rparr>, (snd ?st3)\<lparr>ce_socket := s\<rparr>) \<or>
      HandleWrite ?st3 = HandleClose (on_channel DisableWriting ((co_conn ob3)\<lparr>tc_output := out\<rparr>, (snd ?st3)\<lparr>ce_socket := s\<rparr>))"
    using wr r by (auto simp: HandleWrite_def conn_state_def readable_length Let_def)
  then have sock: "ce_socket (snd ?st4) = s" by (auto simp: HandleClose_flow on_channel_flow)
  have run4: "server_run (with_conn c ?ev sv3) rcv rep"
    using server_run.event [OF run3 ob3, of False True False False] by (simp add: event_requests_def)
  note w4 = with_conn_fields [where f = ?ev, OF ob3 ev]
  have "sv_service (with_conn c ?ev sv3) = sv_service sv" using w4(3) w2(3) by (simp add: sv3_def set_batch_def)
  with that [OF run4, of "ob3\<lparr>co_conn := fst ?st4, co_socket := ce_socket (snd ?st4)\<rparr>"] w4(1) sock sent show thesis by simp
qed

lemma request_answered_run:
  assumes run: "server_run sv rcv rep" and idle: "idle_conn sv c ob out" and free: "free_worker (sv_workers sv) i"
    and q: "EncodeRequest q = Inr f" "request_typed (rqe_body q)" "length f \<le> tc_read_buffer_bytes (co_conn ob)"
    and answer_def: "answer = run_task clock (wire_request_envelope q) (sv_service sv)"
  shows "\<exists>sv' ob'. server_run sv' (rcv(c := rcv c @ [wire_request_envelope q]))
      (rep(c := rep c @ [(wire_request_envelope q, fst answer)])) \<and>
    sv_objects sv' c = Some ob' \<and> so_sent (co_socket ob') = out @ fst answer \<and> sv_service sv' = snd answer"
proof -
  obtain sv1 ob1 where 1: "server_run sv1 (rcv(c := rcv c @ [wire_request_envelope q])) rep"
    "sv_objects sv1 c = Some ob1" "co_loop ob1 = co_loop ob" "co_loop ob < length (sv_io_loops sv1)"
    "tc_requests (co_conn ob1) = []" "\<not> tc_closing (co_conn ob1)" "0 \<le> tc_fd (co_conn ob1)"
    "out = so_sent (co_socket ob1) @ ReadableSpan (tc_output (co_conn ob1))"
    "io_batch (sv_io_loops sv1 ! co_loop ob) = []" "el_pending (io_loop (sv_io_loops sv1 ! co_loop ob)) = []"
    "sv_service sv1 = sv_service sv" "wp_tasks (sv_workers sv1) = [(c, wire_request_envelope q)]"
    "i < length (wp_threads (sv_workers sv1))" "wp_threads (sv_workers sv1) ! i = Ready"
    by (rule request_submitted [OF run idle free q])
  obtain sv2 where 2: "server_run sv2 (rcv(c := rcv c @ [wire_request_envelope q]))
      (rep(c := rep c @ [(wire_request_envelope q, fst answer)]))"
    "sv_objects sv2 = sv_objects sv1" "length (sv_io_loops sv2) = length (sv_io_loops sv1)"
    "io_batch (sv_io_loops sv2 ! co_loop ob1) = [FOnResponse c (fst answer)]" "sv_service sv2 = snd answer"
    using request_handled [OF 1(1,2) _ _ _ 1(12-14), of clock] 1(3,4,9-11) by (auto simp: answer_def)
  obtain sv3 ob3 where "server_run sv3 (rcv(c := rcv c @ [wire_request_envelope q]))
      (rep(c := rep c @ [(wire_request_envelope q, fst answer)]))" "sv_objects sv3 c = Some ob3"
    "so_sent (co_socket ob3) = so_sent (co_socket ob1) @ ReadableSpan (tc_output (co_conn ob1)) @ fst answer"
    "sv_service sv3 = sv_service sv2"
    using response_sent [OF 2(1) _ _ 2(4) 1(5-7)] 1(2,3,4) 2(2,3) by metis
  with 1(8) 2(5) show ?thesis by auto
qed

end
