(* ===== verification/ServerExamples.thy ===== *)
theory ServerExamples
  imports ServerLive BrokerExamples
begin

text \<open>
  A server with one loop and one worker that has accepted a connection, for the witnesses, and
  the burst of connections that passes its limit.
\<close>

definition demo_server_options :: TcpServerOptions where
  "demo_server_options = \<lparr>so_host = ''0.0.0.0'', so_port = 9092, so_io_threads = 1, so_worker_threads = 1,
     so_max_connections = 1, so_read_buffer_bytes = 65536, so_worker_queue_size = 8\<rparr>"

definition demo_listen :: listen_rets where
  "demo_listen = \<lparr>lr_socket = Inr 7, lr_setsockopt = None, lr_getfl = None, lr_setfl = None, lr_inet_pton = True,
     lr_bind = None, lr_listen = None, lr_getsockname = Some 9092\<rparr>"

definition demo_service :: broker where
  "demo_service = (mk_BrokerService demo_options, demo_empty_disk)"

definition demo_started :: TcpServer where
  "demo_started = snd (TcpServer_Start (Inr 3, Inr 4) [(Inr 5, Inr 6)] demo_listen
     (mk_TcpServer demo_server_options demo_service))"

definition demo_socket :: Socket where
  "demo_socket = \<lparr>so_recv = [], so_send = [], so_sent = []\<rparr>"

definition demo_accepted :: TcpServer where
  "demo_accepted = HandleAccept (demo_started\<lparr>sv_accepts := [Accepted 9 demo_socket None]\<rparr>)"

definition demo_connected :: TcpServer where
  "demo_connected = run_functor 0 (FConnect 9) (set_batch 0 [] (swap_loop 0 demo_accepted))"

lemmas start_defs = TcpServer_Start_def mk_TcpServer_def EventLoop_Init_def mk_EventLoop_def
  EpollPoller_Init_def mk_EpollPoller_def CreateWakeupFds_def EnableReading_def Channel_Update_def
  EventLoop_UpdateChannel_def EpollPoller_UpdateChannel_def EventsForChannel_def epoll_bits mk_Channel_def
  epoll_ctl_def EventLoopThreadPool_Start_def CreateListenSocket_def SetNonBlocking_def demo_listen_def
  demo_server_options_def Let_def

lemma demo_start_ok:
  "fst (TcpServer_Start (Inr 3, Inr 4) [(Inr 5, Inr 6)] demo_listen (mk_TcpServer demo_server_options demo_service)) = Inr ()"
  by (simp add: start_defs)

lemma demo_started_fields:
  "length (sv_io_loops demo_started) = 1" "sv_io_loops demo_started \<noteq> []" "io_batch (sv_io_loops demo_started ! 0) = []"
  "el_pending (io_loop (sv_io_loops demo_started ! 0)) = []" "sv_next demo_started = 0" "\<not> sv_stopping demo_started"
  "sv_connections demo_started = []" "sv_options demo_started = demo_server_options" "sv_fresh demo_started = 2"
  "sv_workers demo_started = mk_WorkerPool 1 8" "sv_service demo_started = demo_service"
  by (simp_all add: demo_started_def start_defs)

lemma demo_accepted_fields:
  "length (sv_io_loops demo_accepted) = 1" "io_batch (sv_io_loops demo_accepted ! 0) = []"
  "el_pending (io_loop (sv_io_loops demo_accepted ! 0)) = [FConnect 9]" "\<not> sv_stopping demo_accepted"
  "sv_options demo_accepted = demo_server_options" "sv_fresh demo_accepted = 2"
  "sv_workers demo_accepted = mk_WorkerPool 1 8" "sv_service demo_accepted = demo_service"
  "sv_sockets demo_accepted 9 = Some demo_socket"
  using demo_started_fields
  by (simp_all add: demo_accepted_def HandleAccept_def accept_one_def NextLoop_def queue_in_io_def QueueInLoop_def
      queue_functor_def demo_server_options_def demo_socket_def numeral_2_eq_2 [symmetric])

lemma demo_connected_run: "server_run demo_connected (\<lambda>_. []) (\<lambda>_. [])"
proof -
  have "TcpServer_Start (Inr 3, Inr 4) [(Inr 5, Inr 6)] demo_listen (mk_TcpServer demo_server_options demo_service) =
      (Inr (), demo_started)"
    using demo_start_ok by (simp add: demo_started_def prod_eq_iff)
  from server_run.accept [OF server_run.clients [OF server_run.start [OF this]]]
  have run1: "server_run demo_accepted (\<lambda>_. []) (\<lambda>_. [])" unfolding demo_accepted_def .
  have "server_run (swap_loop 0 demo_accepted) (\<lambda>_. []) (\<lambda>_. [])"
    by (rule server_run.swap [OF run1]) (simp_all add: demo_accepted_fields)
  from server_run.run_io [OF this, of 0 "FConnect 9" "[]"] demo_accepted_fields show ?thesis
    unfolding demo_connected_def by (simp add: swap_loop_def swap_pending_def Let_def)
qed

lemma demo_idle: "\<exists>ob. idle_conn demo_connected 2 ob [] \<and> tc_read_buffer_bytes (co_conn ob) = 65536"
proof -
  let ?sv = "set_batch 0 [] (swap_loop 0 demo_accepted)"
  have sv: "sv_fresh ?sv = 2" "\<not> sv_stopping ?sv" "sv_options ?sv = demo_server_options" "sv_sockets ?sv 9 = Some demo_socket"
    "length (sv_io_loops ?sv) = 1" "io_batch (sv_io_loops ?sv ! 0) = []" "el_pending (io_loop (sv_io_loops ?sv ! 0)) = []"
    using demo_accepted_fields by (simp_all add: set_batch_def swap_loop_def swap_pending_def Let_def)
  define tc where "tc = TcpConnection_Tie (TcpConnection_SetCloseCallback (mk_TcpConnection 2 9 65536))"
  define ob where "ob = \<lparr>co_conn = tc, co_socket = demo_socket, co_loop = 0\<rparr>"
  define sv1 where "sv1 = ?sv\<lparr>sv_fresh := 3, sv_objects := (sv_objects ?sv)(2 \<mapsto> ob),
    sv_connections := (if 9 \<in> fst ` set (sv_connections ?sv) then sv_connections ?sv else (9, 2) # sv_connections ?sv)\<rparr>"
  have eq: "demo_connected = with_conn 2 TcpConnection_Start sv1"
    using sv unfolding demo_connected_def run_functor_def connect_functor_def sv1_def ob_def tc_def demo_server_options_def
    by (simp add: Let_def)
  have ob: "sv_objects sv1 2 = Some ob" by (simp add: sv1_def)
  obtain st where st: "TcpConnection_Start (conn_state 2 sv1 ob) = st" by simp
  obtain ch p where cp: "EnableReading (tc_channel tc, ce_poller (snd (conn_state 2 sv1 ob))) = (ch, p)" by (rule prod.exhaust)
  have st_eq: "st = (tc\<lparr>tc_channel := ch\<rparr>, (snd (conn_state 2 sv1 ob))\<lparr>ce_poller := p\<rparr>)"
    using st cp by (simp add: TcpConnection_Start_def on_channel_def ob_def)
  note w = with_conn_fields [where f = TcpConnection_Start, OF ob st]
  let ?ob = "ob\<lparr>co_conn := fst st, co_socket := ce_socket (snd st)\<rparr>"
  have "co_loop ob < length (sv_io_loops sv1)" using sv by (simp add: sv1_def ob_def)
  from nth_map_eq [OF w(5) this] nth_map_eq [OF w(6) this] sv
  have loop: "io_batch (sv_io_loops demo_connected ! 0) = []" "el_pending (io_loop (sv_io_loops demo_connected ! 0)) = []"
    by (simp_all add: eq ob_def sv1_def)
  have obj: "sv_objects demo_connected 2 = Some ?ob" using w(1) by (simp add: eq)
  have len: "co_loop ?ob < length (sv_io_loops demo_connected)" using w(4) sv(5) by (simp add: eq sv1_def ob_def)
  have fields: "tc_fd (co_conn ?ob) = 9" "\<not> tc_processing (co_conn ?ob)" "\<not> tc_closing (co_conn ?ob)"
    "tc_requests (co_conn ?ob) = []" "tc_decoder (co_conn ?ob) = mk_FrameDecoder kMaxFrameBytes"
    "tc_output (co_conn ?ob) = mk_Buffer" "co_socket ?ob = demo_socket" "co_loop ?ob = 0"
    by (simp_all add: st_eq ob_def conn_state_def tc_def TcpConnection_Tie_def
        TcpConnection_SetCloseCallback_def mk_TcpConnection_def)
  have "idle_conn demo_connected 2 ?ob []"
    unfolding idle_conn_def using obj len loop fields by (simp add: demo_socket_def)
  moreover have "tc_read_buffer_bytes (co_conn ?ob) = 65536"
    by (simp add: st_eq tc_def TcpConnection_Tie_def TcpConnection_SetCloseCallback_def mk_TcpConnection_def)
  ultimately show ?thesis by blast
qed

lemma demo_free: "free_worker (sv_workers demo_connected) 0" "sv_service demo_connected = demo_service"
proof -
  let ?sv = "set_batch 0 [] (swap_loop 0 demo_accepted)"
  have "\<not> sv_stopping ?sv" using demo_accepted_fields by (simp add: set_batch_def swap_loop_def swap_pending_def Let_def)
  then have "sv_workers demo_connected = sv_workers demo_accepted" "sv_service demo_connected = sv_service demo_accepted"
    by (simp_all add: demo_connected_def run_functor_def connect_functor_def Let_def with_conn_def case_prod_unfold
        conn_state_def TcpConnection_Start_def on_channel_def set_batch_def swap_loop_def)
  then show "free_worker (sv_workers demo_connected) 0" "sv_service demo_connected = demo_service"
    using demo_accepted_fields by (simp_all add: free_worker_def mk_WorkerPool_def)
qed

section \<open>The limit on connections\<close>

text \<open>\<^verbatim>\<open>HandleAccept\<close> compares the limit with the connections in the map, but a connection enters the
  map only when its loop runs the queued functor: two clients that are accepted together pass
  a limit of one.\<close>

lemma connect_functor_map:
  assumes "\<not> sv_stopping sv" "fd \<notin> fst ` set (sv_connections sv)"
  shows "sv_connections (connect_functor l fd sv) = (fd, sv_fresh sv) # sv_connections sv"
    "\<not> sv_stopping (connect_functor l fd sv)" "sv_options (connect_functor l fd sv) = sv_options sv"
  using assms
  by (simp_all add: connect_functor_def Let_def with_conn_def case_prod_unfold conn_state_def TcpConnection_Start_def
      on_channel_def)

lemma connection_limit_exceeded:
  "\<exists>sv1 sv2. sv1 = HandleAccept (demo_started\<lparr>sv_accepts := [Accepted 9 demo_socket None, Accepted 10 demo_socket None]\<rparr>) \<and>
     el_pending (io_loop (sv_io_loops sv1 ! 0)) = [FConnect 9, FConnect 10] \<and>
     sv2 = run_functor 0 (FConnect 10) (run_functor 0 (FConnect 9) (set_batch 0 [] (swap_loop 0 sv1))) \<and>
     so_max_connections (sv_options sv2) = 1 \<and> length (sv_connections sv2) = 2"
proof -
  define sv1 where "sv1 = HandleAccept (demo_started\<lparr>sv_accepts := [Accepted 9 demo_socket None, Accepted 10 demo_socket None]\<rparr>)"
  have 1: "el_pending (io_loop (sv_io_loops sv1 ! 0)) = [FConnect 9, FConnect 10]" "sv_connections sv1 = []"
    "\<not> sv_stopping sv1" "sv_options sv1 = demo_server_options"
    using demo_started_fields
    by (simp_all add: sv1_def HandleAccept_def accept_one_def NextLoop_def queue_in_io_def QueueInLoop_def queue_functor_def
        demo_server_options_def)
  define sv2 where "sv2 = set_batch 0 [] (swap_loop 0 sv1)"
  have 2: "sv_connections sv2 = []" "\<not> sv_stopping sv2" "sv_options sv2 = demo_server_options"
    using 1 by (simp_all add: sv2_def set_batch_def swap_loop_def swap_pending_def Let_def)
  define sv3 where "sv3 = connect_functor 0 9 sv2"
  have 3: "sv_connections sv3 = [(9, sv_fresh sv2)]" "\<not> sv_stopping sv3" "sv_options sv3 = demo_server_options"
    using connect_functor_map [of sv2 9 0] 2 by (simp_all add: sv3_def)
  have "length (sv_connections (connect_functor 0 10 sv3)) = 2" "sv_options (connect_functor 0 10 sv3) = demo_server_options"
    using connect_functor_map [of sv3 10 0] 3 by simp_all
  with 1(1) show ?thesis
    by (intro exI [of _ sv1] exI [of _ "connect_functor 0 10 sv3"])
      (simp add: sv1_def [symmetric] run_functor_def sv3_def sv2_def demo_server_options_def)
qed

end
