(* ===== verification/ServerProperties.thy ===== *)
theory ServerProperties
  imports ServerExamples
begin

text \<open>
  What the network side guarantees: connections, worker pool, event loops and output buffers.
\<close>

lemma replies_handled:
  "server_run sv rcv rep \<Longrightarrow> (request, bytes) \<in> set (rep c) \<Longrightarrow> \<exists>clock st. bytes = fst (run_task clock request st)"
  by (induction arbitrary: request bytes c rule: server_run.induct)
    (auto split: if_splits simp del: split_paired_Ex)

text \<open>
  C35. Responses leave a connection in the order of its requests, although all connections share
  one pool of workers. In every reachable state of the server the output of a connection, the
  bytes its socket took and those still buffered, is a sequence of whole responses: the
  answers of the workers, each to the next request that was decoded from the connection, in
  order, with at most one more answer on its way and at most one request with the workers;
  and, only if the connection is closing, notices of its own.
\<close>

theorem responses_in_order:
  assumes "server_run sv rcv rep" and "sv_objects sv c = Some ob"
  shows "\<exists>log waiting.
    so_sent (co_socket ob) @ ReadableSpan (tc_output (co_conn ob)) = concat (map item_bytes log) \<and>
    rep c = log_answers log @ waiting \<and> prefix (map fst (rep c)) (rcv c) \<and>
    length waiting + size (jobs_of c (sv_workers sv)) \<le> 1 \<and>
    (\<not> tc_closing (co_conn ob) \<longrightarrow> (\<forall>bytes. Notice bytes \<notin> set log)) \<and>
    (\<forall>(request, bytes) \<in> set (rep c). \<exists>clock st. bytes = fst (run_task clock request st))"
proof -
  from server_invD(4) [OF server_run_inv [OF assms(1)] assms(2)] obtain flight delivered waiting log where a:
    "rep c = delivered @ waiting" "length flight + length waiting = (if tc_processing (co_conn ob) then 1 else 0)"
    "jobs_of c (sv_workers sv) = mset flight" "prefix (map fst (rep c) @ flight) (rcv c)"
    "so_sent (co_socket ob) @ ReadableSpan (tc_output (co_conn ob)) = concat (map item_bytes log)"
    "log_answers log = delivered" "\<not> tc_closing (co_conn ob) \<longrightarrow> (\<forall>bytes. Notice bytes \<notin> set log)"
    unfolding accounts_def by blast
  have "length waiting + size (jobs_of c (sv_workers sv)) \<le> 1" using a(2,3) by (simp split: if_splits)
  moreover have "prefix (map fst (rep c)) (rcv c)" using a(4) by (rule append_prefixD)
  ultimately show ?thesis using a(1,5-7) replies_handled [OF assms(1)] by blast
qed

theorem responses_in_order_witness:
  "\<exists>sv rcv rep ob log waiting. server_run sv rcv rep \<and> sv_objects sv 2 = Some ob \<and> rcv 2 = [demo_leave] \<and>
     so_sent (co_socket ob) @ ReadableSpan (tc_output (co_conn ob)) = concat (map item_bytes log) \<and>
     rep 2 = log_answers log @ waiting \<and> map fst (rep 2) = [demo_leave]"
proof -
  obtain ob where idle: "idle_conn demo_connected 2 ob []" "tc_read_buffer_bytes (co_conn ob) = 65536" using demo_idle by blast
  obtain f where f: "EncodeRequest demo_leave = Inr f" using demo_requests_encode(2) by blast
  have len: "length f \<le> tc_read_buffer_bytes (co_conn ob)"
    using f by (auto simp: idle(2) EncodeRequest_Inr_iff demo_leave_def EncodeRequestBody_def EncodeLeaveGroupBody_def
        AppendString_def Let_def AppendBigEndian_def kFrameHeaderBytes_def)
  let ?bytes = "fst (run_task demo_clock demo_leave demo_service)"
  have wire: "wire_request_envelope demo_leave = demo_leave"
    by (simp add: wire_request_envelope_def wire_request_def demo_leave_def)
  from request_answered_run [OF demo_connected_run idle(1) demo_free(1) f demo_requests_encode(4) len refl, of demo_clock]
  obtain sv ob' where r: "server_run sv ((\<lambda>_. [])(2 := [demo_leave])) ((\<lambda>_. [])(2 := [(demo_leave, ?bytes)]))"
    "sv_objects sv 2 = Some ob'" unfolding wire demo_free(2) append_Nil by blast
  from responses_in_order [OF r] obtain log waiting where l:
    "so_sent (co_socket ob') @ ReadableSpan (tc_output (co_conn ob')) = concat (map item_bytes log)"
    "[(demo_leave, ?bytes)] = log_answers log @ waiting" unfolding fun_upd_same by blast
  show ?thesis
  proof (intro exI conjI)
    show "server_run sv ((\<lambda>_. [])(2 := [demo_leave])) ((\<lambda>_. [])(2 := [(demo_leave, ?bytes)]))" by fact
    show "((\<lambda>_. [])(2 := [(demo_leave, ?bytes)])) 2 = log_answers log @ waiting" using l(2) by simp
  qed (use r l(1) in simp_all)
qed



text \<open>
  C37. The worker pool runs every task it accepts exactly once, takes them in the order of their
  acceptance and never holds more than its bound; no wakeup is lost, so while there is work some
  step is possible that does not rest on a spurious wakeup; and \<^verbatim>\<open>Stop\<close> returns: once the pool is
  stopping every step brings it closer to the state in which all threads have ended, and then
  every accepted task is finished.
\<close>

theorem pool_drains:
  assumes "pool_run p acc tak fin"
  shows "acc = tak @ wp_tasks p \<and> mset tak = fin + running_tasks p \<and> length (wp_tasks p) \<le> wp_max_queue_size p \<and>
    (wp_tasks p \<noteq> [] \<or> wp_stopping p \<and> \<not> joined p \<longrightarrow> (\<exists>p'. worker_step p p')) \<and>
    (wp_stopping p \<longrightarrow> (\<forall>p'. worker_step p p' \<longrightarrow> wp_stopping p' \<and> pool_measure p' < pool_measure p)) \<and>
    (joined p \<longrightarrow> fin = mset acc)"
  using pool_run_accounts [OF assms] pool_progress [OF assms] worker_step_less pool_run_joined [OF assms]
  unfolding pool_accounts_def by blast

theorem pool_drains_witness:
  "\<exists>p. pool_run p [7 :: nat, 8] [7] {#} \<and> wp_tasks p = [8] \<and> (\<exists>p'. worker_step p p')"
proof -
  define p0 where "p0 = (mk_WorkerPool 1 4 :: nat WorkerPool)"
  define p1 where "p1 = snd (Submit 8 (snd (Submit 7 p0)))"
  have "pool_run p0 [] [] {#}" unfolding p0_def by (rule pool_run.start)
  from pool_run.submit [OF this, of 7 True "snd (Submit 7 p0)"]
  have "pool_run (snd (Submit 7 p0)) [7] [] {#}" by (simp add: p0_def mk_WorkerPool_def Submit_def)
  from pool_run.submit [OF this, of 8 True p1]
  have "pool_run p1 [7, 8] [] {#}" by (simp add: p1_def p0_def mk_WorkerPool_def Submit_def)
  from pool_run.lock [OF this, of 0]
  have r: "pool_run (Run_locked 0 p1) [7, 8] [7] {#}" and t: "wp_tasks (Run_locked 0 p1) = [8]"
    by (simp_all add: p1_def p0_def mk_WorkerPool_def Submit_def Run_locked_def)
  from pool_drains [OF r] t have "\<exists>p'. worker_step (Run_locked 0 p1) p'" by simp
  with r t show ?thesis by blast
qed



text \<open>
  C39. Writing the output buffer to a socket neither loses, repeats nor reorders a byte, whatever the
  socket does: what it took and what is left are what was there. It fails only if a call fails
  with something else than \<^verbatim>\<open>EAGAIN\<close>, and the vector behind the buffer stays at most twice as
  large as its unread part.
\<close>

theorem buffer_writes:
  assumes "buffer_inv b" and "WriteToFd fd (b, s) = (r, (b', s'))"
  shows "so_sent s' @ ReadableSpan b' = so_sent s @ ReadableSpan b \<and> prefix (so_sent s) (so_sent s') \<and>
    length (bf_data b') \<le> 2 * readable_bytes b' \<and>
    (r = Inr () \<or> fd < 0 \<or> (\<exists>e. SendErr e \<in> set (so_send s) \<and> e \<noteq> SEagain))"
proof -
  note w = WriteToFd_spec [OF assms]
  have "r = Inr () \<or> fd < 0 \<or> (\<exists>e. SendErr e \<in> set (so_send s) \<and> e \<noteq> SEagain)"
    using WriteToFd_error [of fd b s] assms(2) by (cases r) auto
  with w buffer_inv_half [of b'] show ?thesis by blast
qed

theorem buffer_writes_witness:
  "\<exists>r b' s'. WriteToFd 3 (Buffer_Append ''abcde'' mk_Buffer, \<lparr>so_recv = [], so_send = [Sent 2], so_sent = []\<rparr>) = (r, (b', s')) \<and>
     so_sent s' @ ReadableSpan b' = ''abcde''"
proof -
  let ?b = "Buffer_Append ''abcde'' mk_Buffer" and ?s = "\<lparr>so_recv = [], so_send = [Sent 2], so_sent = []\<rparr>"
  have inv: "buffer_inv ?b" by (simp add: buf.inv_push)
  obtain r b' s' where w: "WriteToFd 3 (?b, ?s) = (r, (b', s'))" by (metis prod_cases3)
  from buffer_writes [OF inv w] have "so_sent s' @ ReadableSpan b' = ''abcde''"
    by (simp add: buf.content_push)
  with w show ?thesis by blast
qed

end
