(* ===== verification/ClientConnection.thy ===== *)
theory ClientConnection
  imports Sockets Codec
begin

text \<open>
  Models the connection of the client library, \<^verbatim>\<open>ClientConnection\<close> and the helpers before it in
  \<^verbatim>\<open>src/client/client.cpp\<close>: one request is sent over a blocking socket and one response read.

  What the network does is part of the state: the open socket, and for every coming attempt to
  connect what the system calls return and the stream one gets. The readings of the clock that
  request ids are made of are a list as well; past its end the clock reads 0. The mutex makes
  a round trip atomic.
\<close>

section \<open>Options and state\<close>

record ClientOptions =
  cl_host :: string
  cl_port :: u16
  cl_request_timeout :: int

definition ClientOptions_default :: ClientOptions where
  "ClientOptions_default = \<lparr>cl_host = ''127.0.0.1'', cl_port = 9092, cl_request_timeout = 5000\<rparr>"

record connect_rets =
  cr_socket :: "string + nat"
  cr_rcvtimeo :: "string option"
  cr_sndtimeo :: "string option"
  cr_inet_pton :: bool
  cr_connect :: "sock_errno option"
  cr_stream :: Socket

record ClientConnection =
  cn_options :: ClientOptions
  cn_fd :: int
  cn_socket :: Socket
  cn_connects :: "connect_rets list"
  cn_clock :: "u64 list"

definition no_socket :: Socket where
  "no_socket = \<lparr>so_recv = [], so_send = [], so_sent = []\<rparr>"

definition mk_ClientConnection :: "ClientOptions \<Rightarrow> connect_rets list \<Rightarrow> u64 list \<Rightarrow> ClientConnection" where
  "mk_ClientConnection options connects clock =
     \<lparr>cn_options = options, cn_fd = -1, cn_socket = no_socket, cn_connects = connects, cn_clock = clock\<rparr>"

definition NextRequestId :: "ClientConnection \<Rightarrow> u64 \<times> ClientConnection" where
  "NextRequestId cn =
     (case cn_clock cn of [] \<Rightarrow> (0, cn) | t # ts \<Rightarrow> (t, cn\<lparr>cn_clock := ts\<rparr>))"

section \<open>Connecting\<close>

definition SetTimeout :: "connect_rets \<Rightarrow> unit Result" where
  "SetTimeout ret =
     (case cr_rcvtimeo ret of
        Some e \<Rightarrow> Inl (IoError (''setsockopt SO_RCVTIMEO: '' @ e))
      | None \<Rightarrow> (case cr_sndtimeo ret of
                   Some e \<Rightarrow> Inl (IoError (''setsockopt SO_SNDTIMEO: '' @ e)) | None \<Rightarrow> Inr ()))"

definition would_block :: "sock_errno \<Rightarrow> bool" where
  "would_block e \<longleftrightarrow> e = SEagain \<or> e = SEtimedout"

text \<open>One attempt: the descriptor and its stream. Without an entry for it the attempt is refused.\<close>

definition refused_connect :: connect_rets where
  "refused_connect = \<lparr>cr_socket = Inr 0, cr_rcvtimeo = None, cr_sndtimeo = None, cr_inet_pton = True,
     cr_connect = Some (SErrno ''Connection refused''), cr_stream = no_socket\<rparr>"

definition Connect :: "connect_rets \<Rightarrow> (int \<times> Socket) Result" where
  "Connect ret =
     (case cr_socket ret of
        Inl e \<Rightarrow> Inl (IoError (''socket: '' @ e))
      | Inr fd \<Rightarrow>
          (case SetTimeout ret of
             Inl e \<Rightarrow> Inl e
           | Inr _ \<Rightarrow>
               if \<not> cr_inet_pton ret then Inl (InvalidArgument ''host must be an IPv4 address'')
               else
                 (case cr_connect ret of
                    Some e \<Rightarrow>
                      if would_block e then Inl (Timeout (''connect: '' @ sock_strerror e))
                      else Inl (IoError (''connect: '' @ sock_strerror e))
                  | None \<Rightarrow> Inr (int fd, cr_stream ret))))"

definition connect_next :: "ClientConnection \<Rightarrow> unit Result \<times> ClientConnection" where
  "connect_next cn =
     (let ret = (case cn_connects cn of [] \<Rightarrow> refused_connect | ret # _ \<Rightarrow> ret);
          cn = cn\<lparr>cn_connects := tl (cn_connects cn)\<rparr>
      in case Connect ret of
           Inl e \<Rightarrow> (Inl e, cn)
         | Inr (fd, s) \<Rightarrow> (Inr (), cn\<lparr>cn_fd := fd, cn_socket := s\<lparr>so_sent := []\<rparr>\<rparr>))"

section \<open>Transfers\<close>

function Client_WriteAll :: "int \<Rightarrow> byte list \<Rightarrow> Socket \<Rightarrow> unit Result \<times> Socket" where
  "Client_WriteAll fd bytes s =
     (if bytes = [] then (Inr (), s)
      else case sys_write fd bytes s of
          (Inl e, s') \<Rightarrow>
            if e = SEintr then Client_WriteAll fd bytes s'
            else if would_block e then (Inl (Timeout (''send: '' @ sock_strerror e)), s')
            else (Inl (IoError (''send: '' @ sock_strerror e)), s')
        | (Inr n, s') \<Rightarrow>
            if n = 0 then (Inl (IoError ''send: connection closed''), s')
            else Client_WriteAll fd (drop n bytes) s')"
  by pat_completeness auto
termination
proof (relation "measure (\<lambda>(_, _, s). length (so_send s))", goal_cases)
  case (2 fd bytes s r s' e)
  then show ?case by (auto simp: sys_write_def ebadf_def split: if_splits list.splits send_ret.splits)
next
  case (3 fd bytes s r s' n)
  then show ?case by (auto dest: sys_write_Inr [OF sym])
qed simp

declare Client_WriteAll.simps [simp del]

function ReadExact :: "int \<Rightarrow> nat \<Rightarrow> Socket \<Rightarrow> byte list Result \<times> Socket" where
  "ReadExact fd n s =
     (if n = 0 then (Inr [], s)
      else case sys_read fd n s of
          (Inl e, s') \<Rightarrow>
            if e = SEintr then ReadExact fd n s'
            else if would_block e then (Inl (Timeout (''recv: '' @ sock_strerror e)), s')
            else (Inl (IoError (''recv: '' @ sock_strerror e)), s')
        | (Inr bytes, s') \<Rightarrow>
            if bytes = [] then (Inl (IoError ''connection closed while reading response''), s')
            else
              (case ReadExact fd (n - length bytes) s' of
                 (Inl e, s'') \<Rightarrow> (Inl e, s'')
               | (Inr others, s'') \<Rightarrow> (Inr (bytes @ others), s'')))"
  by pat_completeness auto
termination
proof (relation "measure (\<lambda>(_, _, s). recv_left s)", goal_cases)
  case (2 fd n s r s' e)
  then have "0 \<le> fd" by (auto simp: sys_read_def ebadf_def not_less split: if_splits)
  with 2 show ?case by (auto dest!: sys_read_err_less [OF sym])
next
  case (3 fd n s r s' bytes)
  then show ?case by (auto dest!: sys_read_less [OF sym])
qed simp

declare ReadExact.simps [simp del]

definition ReadFrameLength :: "byte list \<Rightarrow> u32" where
  "ReadFrameLength bytes = foldl (\<lambda>value byte. push_bit 8 value OR from_byte byte) 0 bytes"

section \<open>Round trips\<close>

definition Disconnect :: "ClientConnection \<Rightarrow> ClientConnection" where
  "Disconnect cn = (if cn_fd cn \<ge> 0 then cn\<lparr>cn_fd := -1, cn_socket := no_socket\<rparr> else cn)"

text \<open>The part of \<^verbatim>\<open>RoundTrip\<close> on an open connection; every failure disconnects.\<close>

definition exchange :: "RequestEnvelope \<Rightarrow> byte list \<Rightarrow> int \<Rightarrow> Socket \<Rightarrow> ResponseEnvelope Result \<times> Socket" where
  "exchange request encoded fd s =
     (case Client_WriteAll fd encoded s of
        (Inl e, s) \<Rightarrow> (Inl e, s)
      | (Inr _, s) \<Rightarrow>
     (case ReadExact fd 4 s of
        (Inl e, s) \<Rightarrow> (Inl e, s)
      | (Inr header, s) \<Rightarrow>
          let frame_len = unat (ReadFrameLength header)
          in if frame_len < kFrameHeaderBytes \<or> frame_len > kMaxFrameBytes
             then (Inl (InvalidArgument ''invalid response frame length''), s)
             else
     (case ReadExact fd (frame_len - 4) s of
        (Inl e, s) \<Rightarrow> (Inl e, s)
      | (Inr rest, s) \<Rightarrow>
     (case DecodeResponse (header @ rest) of
        Inl e \<Rightarrow> (Inl e, s)
      | Inr decoded \<Rightarrow>
          if rse_request_id decoded \<noteq> rqe_request_id request \<or> rse_api_key decoded \<noteq> rqe_api_key request
          then (Inl (Internal ''response does not match request''), s)
          else (Inr decoded, s)))))"

definition RoundTrip :: "RequestEnvelope \<Rightarrow> ClientConnection \<Rightarrow> ResponseEnvelope Result \<times> ClientConnection" where
  "RoundTrip request cn =
     (case EncodeRequest request of
        Inl e \<Rightarrow> (Inl e, cn)
      | Inr encoded \<Rightarrow>
          (case (if cn_fd cn < 0 then connect_next cn else (Inr (), cn)) of
             (Inl e, cn) \<Rightarrow> (Inl e, cn)
           | (Inr _, cn) \<Rightarrow>
               (case exchange request encoded (cn_fd cn) (cn_socket cn) of
                  (Inl e, s) \<Rightarrow> (Inl e, Disconnect (cn\<lparr>cn_socket := s\<rparr>))
                | (Inr response, s) \<Rightarrow> (Inr response, cn\<lparr>cn_socket := s\<rparr>))))"

section \<open>Typed responses\<close>

definition ProtocolErrorToStatus :: "ResponseEnvelope \<Rightarrow> Status" where
  "ProtocolErrorToStatus response =
     (let message = er_message (rse_error response)
      in case er_error_code (rse_error response) of
           pkNone \<Rightarrow> Status_Ok
         | pkInvalidRequest \<Rightarrow> InvalidArgument message
         | pkUnsupportedVersion \<Rightarrow> InvalidArgument message
         | pkIllegalGeneration \<Rightarrow> InvalidArgument message
         | pkTopicNotFound \<Rightarrow> NotFound message
         | pkOffsetOutOfRange \<Rightarrow> NotFound message
         | pkUnknownMember \<Rightarrow> NotFound message
         | pkInternal \<Rightarrow> Internal message)"

text \<open>The expected alternative of the body is a partial projection.\<close>

definition TypedResponse ::
  "ResponseEnvelope Result \<Rightarrow> ApiKey \<Rightarrow> (ResponseBody \<Rightarrow> 'a option) \<Rightarrow> string \<Rightarrow> 'a Result" where
  "TypedResponse envelope expected_api_key project expected_name =
     (case envelope of
        Inl e \<Rightarrow> Inl e
      | Inr response \<Rightarrow>
          if er_error_code (rse_error response) \<noteq> pkNone then Inl (ProtocolErrorToStatus response)
          else
            (case (rse_api_key response = expected_api_key, project (rse_body response)) of
               (True, Some body) \<Rightarrow> Inr body
             | _ \<Rightarrow> Inl (Internal (''unexpected '' @ expected_name @ '' response''))))"

section \<open>What a round trip does to the stream\<close>

lemma Client_WriteAll_spec:
  assumes "Client_WriteAll fd bytes s = (r, s')"
  shows "so_recv s' = so_recv s \<and> (\<exists>n. so_sent s' = so_sent s @ take n bytes) \<and> (r = Inr () \<longrightarrow> so_sent s' = so_sent s @ bytes)"
  using assms
proof (induction fd bytes s arbitrary: r s' rule: Client_WriteAll.induct)
  case (1 fd bytes s)
  obtain w t where w: "sys_write fd bytes s = (w, t)" by (rule prod.exhaust)
  show ?case
  proof (cases "bytes = []")
    case True
    with 1(3) show ?thesis by (simp add: Client_WriteAll.simps)
  next
    case ne: False
    show ?thesis
    proof (cases w)
      case (Inl e)
      note t = sys_write_Inl [OF w [unfolded Inl]]
      show ?thesis
      proof (cases "e = SEintr")
        case True
        with 1(3) ne w Inl have "Client_WriteAll fd bytes t = (r, s')" by (simp add: Client_WriteAll.simps [of fd bytes s])
        from 1(1) [OF ne w [symmetric] Inl True this] t show ?thesis by simp
      next
        case False
        with 1(3) ne w Inl t show ?thesis
          by (auto simp: Client_WriteAll.simps [of fd bytes s] split: if_splits intro: exI [of _ 0])
      qed
    next
      case (Inr n)
      note t = sys_write_Inr [OF w [unfolded Inr]]
      show ?thesis
      proof (cases "n = 0")
        case True
        with 1(3) ne w Inr t show ?thesis by (auto simp: Client_WriteAll.simps [of fd bytes s] intro: exI [of _ 0])
      next
        case False
        with 1(3) ne w Inr have "Client_WriteAll fd (drop n bytes) t = (r, s')" by (simp add: Client_WriteAll.simps [of fd bytes s])
        from 1(2) [OF ne w [symmetric] Inr False this] obtain k where k: "so_recv s' = so_recv t"
          "so_sent s' = so_sent t @ take k (drop n bytes)" "r = Inr () \<longrightarrow> so_sent s' = so_sent t @ drop n bytes" by blast
        have "take n bytes @ take k (drop n bytes) = take (n + k) bytes" by (simp add: take_add)
        with k t show ?thesis by (metis append.assoc append_take_drop_id)
      qed
    qed
  qed
qed

lemma ReadExact_spec:
  assumes "ReadExact fd n s = (r, s')"
  shows "so_sent s' = so_sent s \<and> (\<forall>bytes. r = Inr bytes \<longrightarrow>
    length bytes = n \<and> arrived (so_recv s) = bytes @ arrived (so_recv s'))"
  using assms
proof (induction fd n s arbitrary: r s' rule: ReadExact.induct)
  case (1 fd n s)
  obtain w t where w: "sys_read fd n s = (w, t)" by (rule prod.exhaust)
  show ?case
  proof (cases "n = 0")
    case True
    with 1(3) show ?thesis by (auto simp: ReadExact.simps)
  next
    case n: False
    show ?thesis
    proof (cases w)
      case (Inl e)
      note t = sys_read_Inl [OF w [unfolded Inl]]
      show ?thesis
      proof (cases "e = SEintr")
        case True
        with 1(3) n w Inl have "ReadExact fd n t = (r, s')" by (simp add: ReadExact.simps [of fd n s])
        from 1(1) [OF n w [symmetric] Inl True this] t show ?thesis by simp
      next
        case False
        with 1(3) n w Inl t show ?thesis by (auto simp: ReadExact.simps [of fd n s] split: if_splits)
      qed
    next
      case (Inr chunk)
      show ?thesis
      proof (cases "chunk = []")
        case True
        with 1(3) n w Inr have "r = Inl (IoError ''connection closed while reading response'')" "s' = t"
          by (simp_all add: ReadExact.simps [of fd n s])
        moreover from w Inr True have "so_sent t = so_sent s"
          by (auto simp: sys_read_def split: list.splits recv_ret.splits if_splits)
        ultimately show ?thesis by simp
      next
        case False
        note t = sys_read_arrived [OF w [unfolded Inr] False]
        obtain r' s'' where rec: "ReadExact fd (n - length chunk) t = (r', s'')" by (rule prod.exhaust)
        from 1(2) [OF n w [symmetric] Inr False rec] t 1(3) n w Inr False rec show ?thesis
          by (auto simp: ReadExact.simps [of fd n s] split: sum.splits)
      qed
    qed
  qed
qed

lemma exchange_ok:
  assumes "exchange request encoded fd s = (Inr response, s')"
  shows "\<exists>frame. DecodeResponse frame = Inr response \<and> arrived (so_recv s) = frame @ arrived (so_recv s') \<and>
    so_sent s' = so_sent s @ encoded \<and>
    rse_request_id response = rqe_request_id request \<and> rse_api_key response = rqe_api_key request"
proof -
  obtain r1 s1 where 1: "Client_WriteAll fd encoded s = (r1, s1)" by (rule prod.exhaust)
  obtain r2 s2 where 2: "ReadExact fd 4 s1 = (r2, s2)" by (rule prod.exhaust)
  from assms 1 2 obtain header where r: "r1 = Inr ()" "r2 = Inr header"
    by (auto simp: exchange_def split: sum.splits)
  obtain r3 s3 where 3: "ReadExact fd (unat (ReadFrameLength header) - 4) s2 = (r3, s3)" by (rule prod.exhaust)
  from assms 1 2 3 r obtain rest where r3: "r3 = Inr rest" "DecodeResponse (header @ rest) = Inr response" "s' = s3"
    "rse_request_id response = rqe_request_id request" "rse_api_key response = rqe_api_key request"
    by (auto simp: exchange_def Let_def split: sum.splits if_splits)
  from Client_WriteAll_spec [OF 1] ReadExact_spec [OF 2] ReadExact_spec [OF 3] r r3 show ?thesis
    by (intro exI [of _ "header @ rest"]) simp
qed

text \<open>The stream an exchange runs on: the open one, or the one the next attempt to connect yields.\<close>

definition stream_of :: "ClientConnection \<Rightarrow> Socket" where
  "stream_of cn =
     (if cn_fd cn < 0 then (cr_stream (hd (cn_connects cn)))\<lparr>so_sent := []\<rparr> else cn_socket cn)"

lemma connect_next_ok:
  assumes "connect_next cn = (Inr (), cn')"
  shows "0 \<le> cn_fd cn' \<and> cn_socket cn' = (cr_stream (hd (cn_connects cn)))\<lparr>so_sent := []\<rparr>"
  using assms
  by (cases "cn_connects cn")
    (auto simp: connect_next_def Connect_def refused_connect_def Let_def would_block_def SetTimeout_def
      split: sum.splits option.splits if_splits prod.splits)

lemma connect_next_fails:
  "connect_next cn = (Inl e, cn') \<Longrightarrow> cn_fd cn' = cn_fd cn"
  by (auto simp: connect_next_def Let_def split: sum.splits)

lemma RoundTrip_ok:
  assumes "RoundTrip request cn = (Inr response, cn')"
  shows "0 \<le> cn_fd cn' \<and>
    (\<exists>frame encoded. EncodeRequest request = Inr encoded \<and> DecodeResponse frame = Inr response \<and>
       arrived (so_recv (stream_of cn)) = frame @ arrived (so_recv (cn_socket cn')) \<and>
       so_sent (cn_socket cn') = so_sent (stream_of cn) @ encoded) \<and>
    rse_request_id response = rqe_request_id request \<and> rse_api_key response = rqe_api_key request"
proof -
  from assms obtain encoded where enc: "EncodeRequest request = Inr encoded"
    by (auto simp: RoundTrip_def split: sum.splits)
  obtain r1 cn1 where c: "(if cn_fd cn < 0 then connect_next cn else (Inr (), cn)) = (r1, cn1)" by (rule prod.exhaust)
  with assms enc have r1: "r1 = Inr ()" by (auto simp: RoundTrip_def split: sum.splits)
  obtain r2 s where e: "exchange request encoded (cn_fd cn1) (cn_socket cn1) = (r2, s)" by (rule prod.exhaust)
  from assms enc c r1 e have r2: "r2 = Inr response" "cn' = cn1\<lparr>cn_socket := s\<rparr>"
    by (auto simp: RoundTrip_def split: sum.splits)
  have "0 \<le> cn_fd cn1 \<and> cn_socket cn1 = stream_of cn"
    using c r1 connect_next_ok [of cn cn1] by (auto simp: stream_of_def split: if_splits)
  with exchange_ok [OF e [unfolded r2(1)]] r2(2) enc show ?thesis by auto
qed

lemma RoundTrip_fails:
  assumes "RoundTrip request cn = (Inl e, cn')"
  shows "cn_fd cn' < 0 \<or> cn' = cn \<and> EncodeRequest request = Inl e"
  using assms connect_next_fails [of cn]
  by (auto simp: RoundTrip_def Disconnect_def split: sum.splits prod.splits if_splits)

section \<open>A round trip that succeeds\<close>

text \<open>A stream on which nothing goes wrong but interrupts; its bytes arrive in any pieces.\<close>

definition smooth :: "recv_ret list \<Rightarrow> bool" where
  "smooth rs = list_all (\<lambda>r. case r of Arrived b bs \<Rightarrow> True | Eof \<Rightarrow> False | RecvErr e \<Rightarrow> e = SEintr) rs"

lemma smooth_simps [simp]:
  "smooth []" "smooth (Arrived b bs # rs) = smooth rs" "\<not> smooth (Eof # rs)"
  "smooth (RecvErr e # rs) \<longleftrightarrow> e = SEintr \<and> smooth rs"
  by (auto simp: smooth_def)

lemma sys_read_smooth:
  assumes "0 \<le> fd" "smooth (so_recv s)" "0 < n" "arrived (so_recv s) \<noteq> []" "sys_read fd n s = (r, s')"
  shows "smooth (so_recv s') \<and> (r = Inl SEintr \<or> (\<exists>bytes. r = Inr bytes \<and> bytes \<noteq> []))"
  using assms by (auto simp: sys_read_def take_Cons' split: list.splits recv_ret.splits)

lemma ReadExact_smooth:
  assumes "0 \<le> fd" "smooth (so_recv s)" "n \<le> length (arrived (so_recv s))"
  shows "\<exists>rs. ReadExact fd n s = (Inr (take n (arrived (so_recv s))), s\<lparr>so_recv := rs\<rparr>) \<and>
    smooth rs \<and> arrived rs = drop n (arrived (so_recv s))"
  using assms
proof (induction fd n s rule: ReadExact.induct)
  case (1 fd n s)
  show ?case
  proof (cases "n = 0")
    case True
    with 1(4) show ?thesis by (auto simp: ReadExact.simps intro!: exI [of _ "so_recv s"])
  next
    case n: False
    obtain w t where w: "sys_read fd n s = (w, t)" by (rule prod.exhaust)
    from n 1(5) have "0 < n" "arrived (so_recv s) \<noteq> []" by auto
    from sys_read_smooth [OF 1(3,4) this w]
    have t: "smooth (so_recv t)" "w = Inl SEintr \<or> (\<exists>bytes. w = Inr bytes \<and> bytes \<noteq> [])" by blast+
    have frame: "t = s\<lparr>so_recv := so_recv t\<rparr>"
      using w by (auto simp: sys_read_def split: list.splits recv_ret.splits if_splits)
    from t(2) show ?thesis
    proof
      assume i: "w = Inl SEintr"
      have "arrived (so_recv t) = arrived (so_recv s)" using sys_read_Inl [OF w [unfolded i]] by simp
      with 1(1) [OF n w [symmetric] i refl 1(3) t(1)] 1(5) obtain rs where
        "ReadExact fd n t = (Inr (take n (arrived (so_recv s))), t\<lparr>so_recv := rs\<rparr>)" "smooth rs"
        "arrived rs = drop n (arrived (so_recv s))" by auto
      moreover have "t\<lparr>so_recv := rs\<rparr> = s\<lparr>so_recv := rs\<rparr>" for rs by (subst frame) simp
      ultimately show ?thesis using n w i by (auto simp: ReadExact.simps [of fd n s])
    next
      assume "\<exists>bytes. w = Inr bytes \<and> bytes \<noteq> []"
      then obtain bytes where i: "w = Inr bytes" and ne: "bytes \<noteq> []" by blast
      note a = sys_read_arrived [OF w [unfolded i] ne]
      from 1(5) a have "n - length bytes \<le> length (arrived (so_recv t))" by simp
      from 1(2) [OF n w [symmetric] i ne 1(3) t(1) this] obtain rs where
        "ReadExact fd (n - length bytes) t =
           (Inr (take (n - length bytes) (arrived (so_recv t))), t\<lparr>so_recv := rs\<rparr>)" "smooth rs"
        "arrived rs = drop (n - length bytes) (arrived (so_recv t))" by blast
      moreover have "t\<lparr>so_recv := rs\<rparr> = s\<lparr>so_recv := rs\<rparr>" for rs by (subst frame) simp
      ultimately show ?thesis using n w i ne a by (auto simp: ReadExact.simps [of fd n s])
    qed
  qed
qed

lemma Client_WriteAll_once:
  assumes "0 \<le> fd" "so_send s = Sent k # ws" "length bytes \<le> k" "bytes \<noteq> []"
  shows "Client_WriteAll fd bytes s = (Inr (), s\<lparr>so_send := ws, so_sent := so_sent s @ bytes\<rparr>)"
  using assms by (simp add: Client_WriteAll.simps [of fd bytes] Client_WriteAll.simps [of fd "[]"] sys_write_def)

lemma ReadFrameLength_frame:
  "ReadFrameLength (take 4 (frame_bytes k v i body)) = word_of_nat (kFrameHeaderBytes + length body)"
proof -
  let ?l = "word_of_nat (kFrameHeaderBytes + length body) :: u32"
  have four: "take 4 (frame_bytes k v i body) = be_bytes ?l" by (simp add: frame_bytes_def del: of_nat_add)
  have "ReadFrameLength (be_bytes l) = be_value (be_bytes l) 0" for l :: u32
    by (simp add: ReadFrameLength_def be_value_def AppendBigEndian_def upt_rec)
  then show ?thesis using be_value_append [of "[]" 0 ?l "[]"] by (simp add: four del: of_nat_add)
qed

lemma EncodeResponse_frame_length:
  assumes "EncodeResponse response = Inr frame"
  shows "unat (ReadFrameLength (take 4 frame)) = length frame" "kFrameHeaderBytes \<le> length frame"
    "length frame \<le> kMaxFrameBytes" "4 \<le> length frame"
proof -
  obtain body where b: "length body \<le> kMaxFrameBytes - kFrameHeaderBytes"
    "frame = frame_bytes (rse_api_key response) (rse_version response) (rse_request_id response) body"
    using EncodeResponse_InrE [OF assms] by blast
  show "unat (ReadFrameLength (take 4 frame)) = length frame" "kFrameHeaderBytes \<le> length frame"
    "length frame \<le> kMaxFrameBytes" "4 \<le> length frame"
    using unat_frame_length [OF b(1)] b
    by (simp_all add: ReadFrameLength_frame kMaxFrameBytes_def kFrameHeaderBytes_def del: of_nat_add)
qed

lemma RoundTrip_succeeds:
  assumes req: "EncodeRequest request = Inr encoded" and res: "EncodeResponse response = Inr frame"
    and typed: "response_typed (rse_body response)"
    and ids: "rse_request_id response = rqe_request_id request" "rse_api_key response = rqe_api_key request"
    and fd: "0 \<le> cn_fd cn" and s: "cn_socket cn = \<lparr>so_recv = rs, so_send = Sent k # ws, so_sent = out\<rparr>"
    and k: "length encoded \<le> k" and rs: "smooth rs" "arrived rs = frame @ others"
  shows "\<exists>rs'. RoundTrip request cn = (Inr (wire_response_envelope response),
      cn\<lparr>cn_socket := \<lparr>so_recv = rs', so_send = ws, so_sent = out @ encoded\<rparr>\<rparr>) \<and> smooth rs' \<and> arrived rs' = others"
proof -
  note flen = EncodeResponse_frame_length [OF res]
  have "encoded \<noteq> []" using EncodeRequest_frame_length [OF req] by (auto simp: kFrameHeaderBytes_def)
  then have 1: "Client_WriteAll (cn_fd cn) encoded (cn_socket cn) =
      (Inr (), \<lparr>so_recv = rs, so_send = ws, so_sent = out @ encoded\<rparr>)"
    using Client_WriteAll_once [OF fd _ k] s by simp
  obtain rs1 where 2: "ReadExact (cn_fd cn) 4 \<lparr>so_recv = rs, so_send = ws, so_sent = out @ encoded\<rparr> =
      (Inr (take 4 frame), \<lparr>so_recv = rs1, so_send = ws, so_sent = out @ encoded\<rparr>)"
    "smooth rs1" "arrived rs1 = drop 4 frame @ others"
    using ReadExact_smooth [OF fd, of "\<lparr>so_recv = rs, so_send = ws, so_sent = out @ encoded\<rparr>" 4] rs flen(4)
    by auto
  obtain rs2 where 3: "ReadExact (cn_fd cn) (length frame - 4) \<lparr>so_recv = rs1, so_send = ws, so_sent = out @ encoded\<rparr> =
      (Inr (drop 4 frame), \<lparr>so_recv = rs2, so_send = ws, so_sent = out @ encoded\<rparr>)"
    "smooth rs2" "arrived rs2 = others"
    using ReadExact_smooth [OF fd, of "\<lparr>so_recv = rs1, so_send = ws, so_sent = out @ encoded\<rparr>" "length frame - 4"] 2
    by auto
  have "exchange request encoded (cn_fd cn) (cn_socket cn) =
      (Inr (wire_response_envelope response), \<lparr>so_recv = rs2, so_send = ws, so_sent = out @ encoded\<rparr>)"
    using flen(2,3) DecodeResponse_EncodeResponse [OF res typed] ids
    by (simp add: exchange_def 1 2(1) 3(1) flen(1) Let_def not_less wire_response_envelope_def)
  with req fd 3(2,3) show ?thesis by (auto simp: RoundTrip_def)
qed

end
