(* ===== verification/ClientApi.thy ===== *)
theory ClientApi
  imports ClientConnection Names
begin

text \<open>
  Models the rest of \<^verbatim>\<open>include/logmq/client/client.h\<close> and \<^verbatim>\<open>src/client/client.cpp\<close>: the admin
  client, the producer and the consumer, over \<^verbatim>\<open>ClientConnection\<close>. The methods of a consumer are
  taken one after the other; its heartbeat thread takes a turn of its own. Readings of the
  clock that a method compares with a deadline are a list argument.

  Offsets are integers: the source adds to them in 64 bits, which is the same as long as the
  broker does not send offsets at the very end of that range.
\<close>

section \<open>Requests\<close>

definition send_request ::
  "ApiKey \<Rightarrow> u16 \<Rightarrow> RequestBody \<Rightarrow> ClientConnection \<Rightarrow> ResponseEnvelope Result \<times> ClientConnection" where
  "send_request api_key version body cn =
     (let (request_id, cn) = NextRequestId cn
      in RoundTrip \<lparr>rqe_api_key = api_key, rqe_version = version, rqe_request_id = request_id, rqe_body = body\<rparr> cn)"

definition as_produce :: "ResponseBody \<Rightarrow> ProduceResponse option" where
  "as_produce b = (case b of RspProduce r \<Rightarrow> Some r | _ \<Rightarrow> None)"
definition as_fetch :: "ResponseBody \<Rightarrow> FetchResponse option" where
  "as_fetch b = (case b of RspFetch r \<Rightarrow> Some r | _ \<Rightarrow> None)"
definition as_metadata :: "ResponseBody \<Rightarrow> MetadataResponse option" where
  "as_metadata b = (case b of RspMetadata r \<Rightarrow> Some r | _ \<Rightarrow> None)"
definition as_create_topic :: "ResponseBody \<Rightarrow> CreateTopicResponse option" where
  "as_create_topic b = (case b of RspCreateTopic r \<Rightarrow> Some r | _ \<Rightarrow> None)"
definition as_commit_offset :: "ResponseBody \<Rightarrow> CommitOffsetResponse option" where
  "as_commit_offset b = (case b of RspCommitOffset r \<Rightarrow> Some r | _ \<Rightarrow> None)"
definition as_committed :: "ResponseBody \<Rightarrow> FetchCommittedOffsetResponse option" where
  "as_committed b = (case b of RspFetchCommittedOffset r \<Rightarrow> Some r | _ \<Rightarrow> None)"
definition as_join :: "ResponseBody \<Rightarrow> JoinGroupResponse option" where
  "as_join b = (case b of RspJoinGroup r \<Rightarrow> Some r | _ \<Rightarrow> None)"
definition as_sync :: "ResponseBody \<Rightarrow> SyncGroupResponse option" where
  "as_sync b = (case b of RspSyncGroup r \<Rightarrow> Some r | _ \<Rightarrow> None)"
definition as_nack :: "ResponseBody \<Rightarrow> NackResponse option" where
  "as_nack b = (case b of RspNack r \<Rightarrow> Some r | _ \<Rightarrow> None)"

section \<open>Admin client\<close>

definition AdminClient_CreateTopic ::
  "TopicName \<Rightarrow> u32 \<Rightarrow> ClientConnection \<Rightarrow> CreateTopicResponse Result \<times> ClientConnection" where
  "AdminClient_CreateTopic topic partition_count cn =
     (let (r, cn) = send_request kCreateTopic kProtocolVersion
            (ReqCreateTopic \<lparr>ctq_topic = topic, ctq_partition_count = partition_count\<rparr>) cn
      in (TypedResponse r kCreateTopic as_create_topic ''create topic'', cn))"

definition AdminClient_Metadata :: "TopicName \<Rightarrow> ClientConnection \<Rightarrow> MetadataResponse Result \<times> ClientConnection" where
  "AdminClient_Metadata topic cn =
     (let (r, cn) = send_request kMetadata kProtocolVersion (ReqMetadata \<lparr>mrq_topic = topic\<rparr>) cn
      in (TypedResponse r kMetadata as_metadata ''metadata'', cn))"

section \<open>Producer\<close>

record Producer =
  pd_max_retries :: u32
  pd_connection :: ClientConnection

text \<open>The attempts, with the number that may follow this one: the loop runs once for every \<^verbatim>\<open>attempt\<close>
  up to \<^verbatim>\<open>max_retries\<close>. It sends the same envelope every time. (For \<^verbatim>\<open>max_retries\<close> of \<^verbatim>\<open>2^32-1\<close> the
  counter of the source wraps and the loop has no end; the model gives up after \<^verbatim>\<open>2^32\<close> attempts.)\<close>

fun send_attempts ::
  "nat \<Rightarrow> RequestEnvelope \<Rightarrow> ClientConnection \<Rightarrow> ProduceResponse Result \<times> ClientConnection" where
  "send_attempts retries envelope cn =
     (let (r, cn) = RoundTrip envelope cn
      in case TypedResponse r kProduce as_produce ''produce'' of
           Inr response \<Rightarrow> (Inr response, cn)
         | Inl e \<Rightarrow>
             if st_code e \<noteq> kIoError \<and> st_code e \<noteq> kTimeout then (Inl e, cn)
             else (case retries of 0 \<Rightarrow> (Inl e, cn) | Suc n \<Rightarrow> send_attempts n envelope cn))"

definition SendBatch ::
  "TopicName \<Rightarrow> ProtocolRecord list \<Rightarrow> PartitionId \<Rightarrow> Producer \<Rightarrow> ProduceResponse Result \<times> Producer" where
  "SendBatch topic records partition_id pd =
     (let (request_id, cn) = NextRequestId (pd_connection pd);
          envelope = \<lparr>rqe_api_key = kProduce, rqe_version = kProtocolVersion, rqe_request_id = request_id,
            rqe_body = ReqProduce \<lparr>prq_topic = topic, prq_partition_id = partition_id, prq_records = records\<rparr>\<rparr>;
          (r, cn) = send_attempts (unat (pd_max_retries pd)) envelope cn
      in (r, pd\<lparr>pd_connection := cn\<rparr>))"

definition Producer_Send ::
  "u64 \<Rightarrow> TopicName \<Rightarrow> string \<Rightarrow> string \<Rightarrow> PartitionId \<Rightarrow> Producer \<Rightarrow> ProduceResponse Result \<times> Producer" where
  "Producer_Send now topic key val partition_id =
     SendBatch topic [\<lparr>prc_timestamp = now, prc_key = key, prc_value = val, prc_retry = None\<rparr>] partition_id"

section \<open>Consumer\<close>

record ConsumerOptions =
  cso_client :: ClientOptions
  cso_group_id :: string
  cso_max_bytes :: u32
  cso_heartbeat_interval :: int

record ConsumerRecord =
  crd_topic :: TopicName
  crd_partition_id :: PartitionId
  crd_offset :: Offset
  crd_timestamp :: u64
  crd_key :: string
  crd_value :: string
  crd_retry :: "RetryMetadata option"

record Assignment =
  as_partition_id :: PartitionId
  as_next_offset :: Offset
  as_retry_next_offset :: Offset

record Consumer =
  cs_options :: ConsumerOptions
  cs_connection :: ClientConnection
  cs_heartbeat_running :: bool
  cs_topic :: TopicName
  cs_member_id :: string
  cs_generation_id :: int
  cs_assignments :: "Assignment list"
  cs_subscribed :: bool
  cs_closed :: bool
  cs_heartbeat_stop :: bool
  cs_needs_rejoin :: bool

definition mk_Consumer :: "ConsumerOptions \<Rightarrow> ClientConnection \<Rightarrow> Consumer" where
  "mk_Consumer options cn =
     \<lparr>cs_options = options, cs_connection = cn, cs_heartbeat_running = False, cs_topic = [], cs_member_id = [],
      cs_generation_id = 0, cs_assignments = [], cs_subscribed = False, cs_closed = False,
      cs_heartbeat_stop = False, cs_needs_rejoin = False\<rparr>"

definition on_connection ::
  "(ClientConnection \<Rightarrow> 'a Result \<times> ClientConnection) \<Rightarrow> Consumer \<Rightarrow> 'a Result \<times> Consumer" where
  "on_connection f cs = (let (r, cn) = f (cs_connection cs) in (r, cs\<lparr>cs_connection := cn\<rparr>))"

subsection \<open>Group membership\<close>

definition SendJoinGroup :: "TopicName \<Rightarrow> string \<Rightarrow> Consumer \<Rightarrow> JoinGroupResponse Result \<times> Consumer" where
  "SendJoinGroup topic member_id cs =
     (let (r, cs) = on_connection (send_request kJoinGroup kProtocolVersion
            (ReqJoinGroup \<lparr>jgq_group_id = cso_group_id (cs_options cs), jgq_member_id = member_id, jgq_topic = topic\<rparr>)) cs
      in (TypedResponse r kJoinGroup as_join ''join group'', cs))"

definition SendSyncGroup :: "JoinGroupResponse \<Rightarrow> Consumer \<Rightarrow> SyncGroupResponse Result \<times> Consumer" where
  "SendSyncGroup j cs =
     (let (r, cs) = on_connection (send_request kSyncGroup kProtocolVersion
            (ReqSyncGroup \<lparr>sgq_group_id = cso_group_id (cs_options cs), sgq_member_id = jgs_member_id j,
                           sgq_generation_id = jgs_generation_id j\<rparr>)) cs
      in (TypedResponse r kSyncGroup as_sync ''sync group'', cs))"

definition SendLeaveGroup :: "string \<Rightarrow> Consumer \<Rightarrow> unit Result \<times> Consumer" where
  "SendLeaveGroup member_id cs =
     (let (r, cs) = on_connection (send_request kLeaveGroup kProtocolVersion
            (ReqLeaveGroup \<lparr>lgq_group_id = cso_group_id (cs_options cs), lgq_member_id = member_id\<rparr>)) cs
      in (case r of
            Inl e \<Rightarrow> Inl e
          | Inr response \<Rightarrow>
              if er_error_code (rse_error response) = pkNone then Inr () else Inl (ProtocolErrorToStatus response), cs))"

definition FetchCommittedOffset ::
  "TopicName \<Rightarrow> PartitionId \<Rightarrow> Consumer \<Rightarrow> FetchCommittedOffsetResponse Result \<times> Consumer" where
  "FetchCommittedOffset topic partition_id cs =
     (let (r, cs) = on_connection (send_request kFetchCommittedOffset kProtocolVersion
            (ReqFetchCommittedOffset \<lparr>fcq_group_id = cso_group_id (cs_options cs), fcq_topic = topic,
                                      fcq_partition_id = partition_id\<rparr>)) cs
      in (if IsRetryTopic topic \<and>
             (case r of Inr response \<Rightarrow> er_error_code (rse_error response) = pkTopicNotFound | Inl _ \<Rightarrow> False)
          then Inr \<lparr>fcs_group_id = cso_group_id (cs_options cs), fcs_topic = topic, fcs_partition_id = partition_id,
                    fcs_committed = False, fcs_offset = 0\<rparr>
          else TypedResponse r kFetchCommittedOffset as_committed ''fetch committed offset'', cs))"

definition position_of :: "FetchCommittedOffsetResponse \<Rightarrow> Offset" where
  "position_of r = (if fcs_committed r then fcs_offset r else 0)"

text \<open>The loop over the assigned partitions in \<^verbatim>\<open>JoinAndSync\<close>.\<close>

fun committed_positions ::
  "TopicName \<Rightarrow> TopicName \<Rightarrow> PartitionId list \<Rightarrow> Consumer \<Rightarrow> Assignment list Result \<times> Consumer" where
  "committed_positions topic assigned [] cs = (Inr [], cs)"
| "committed_positions topic assigned (p # ps) cs =
     (case FetchCommittedOffset assigned p cs of
        (Inl e, cs) \<Rightarrow> (Inl e, cs)
      | (Inr committed, cs) \<Rightarrow>
     (case (if IsInternalTopic topic then (Inr 0, cs)
            else case FetchCommittedOffset (kRetryTopicPrefix @ topic) p cs of
                (Inl e, cs) \<Rightarrow> (Inl e, cs)
              | (Inr retry, cs) \<Rightarrow> (Inr (position_of retry), cs)) of
        (Inl e, cs) \<Rightarrow> (Inl e, cs)
      | (Inr retry_next, cs) \<Rightarrow>
     (case committed_positions topic assigned ps cs of
        (Inl e, cs) \<Rightarrow> (Inl e, cs)
      | (Inr as, cs) \<Rightarrow>
          (Inr (\<lparr>as_partition_id = p, as_next_offset = position_of committed, as_retry_next_offset = retry_next\<rparr> # as), cs))))"

definition JoinAndSync :: "Consumer \<Rightarrow> unit Result \<times> Consumer" where
  "JoinAndSync cs =
     (if cs_topic cs = [] then (Inl (InvalidArgument ''consumer must subscribe before join group''), cs)
      else
        let topic = cs_topic cs; member_id = cs_member_id cs;
            (first, cs) = SendJoinGroup topic member_id cs;
            (joined, cs) =
              (case first of
                 Inl e \<Rightarrow> if member_id \<noteq> [] \<and> st_code e = kNotFound then SendJoinGroup topic [] cs else (Inl e, cs)
               | Inr j \<Rightarrow> (Inr j, cs))
        in case joined of
             Inl e \<Rightarrow> (Inl e, cs)
           | Inr j \<Rightarrow>
               (case SendSyncGroup j cs of
                  (Inl e, cs) \<Rightarrow> (Inl e, cs)
                | (Inr synced, cs) \<Rightarrow>
                    (case committed_positions topic (pa_topic (sgs_assignment synced))
                            (pa_partition_ids (sgs_assignment synced)) cs of
                       (Inl e, cs) \<Rightarrow> (Inl e, cs)
                     | (Inr assignments, cs) \<Rightarrow>
                         (Inr (), cs\<lparr>cs_member_id := jgs_member_id j, cs_generation_id := jgs_generation_id j,
                            cs_topic := pa_topic (sgs_assignment synced), cs_assignments := assignments,
                            cs_subscribed := True, cs_needs_rejoin := False\<rparr>))))"

definition StartHeartbeat :: "Consumer \<Rightarrow> Consumer" where
  "StartHeartbeat cs =
     (if cs_heartbeat_running cs then cs else cs\<lparr>cs_heartbeat_stop := False, cs_heartbeat_running := True\<rparr>)"

text \<open>\<^verbatim>\<open>Subscribe\<close>; the connection of its temporary admin client is an argument.\<close>

definition Subscribe :: "ClientConnection \<Rightarrow> TopicName \<Rightarrow> Consumer \<Rightarrow> unit Result \<times> Consumer" where
  "Subscribe admin topic cs =
     (case fst (AdminClient_Metadata topic admin) of
        Inl e \<Rightarrow> (Inl e, cs)
      | Inr metadata \<Rightarrow>
          if mrs_topics metadata = [] then (Inl (NotFound ''topic not found''), cs)
          else if cs_closed cs then (Inl (InvalidArgument ''consumer is closed''), cs)
          else
            let previous_member = (if topic \<noteq> cs_topic cs \<and> cs_member_id cs \<noteq> [] then cs_member_id cs else []);
                (left, cs) =
                  (if previous_member = [] then (Inr (), cs)
                   else
                     (case SendLeaveGroup previous_member (cs\<lparr>cs_heartbeat_stop := True, cs_heartbeat_running := False\<rparr>) of
                        (r, cs) \<Rightarrow>
                          if (case r of Inl e \<Rightarrow> st_code e \<noteq> kNotFound | Inr _ \<Rightarrow> False)
                          then (r, StartHeartbeat cs)
                          else (Inr (), cs\<lparr>cs_member_id := [], cs_generation_id := 0, cs_subscribed := False\<rparr>)))
            in case left of
                 Inl e \<Rightarrow> (Inl e, cs)
               | Inr _ \<Rightarrow>
                   (case JoinAndSync (cs\<lparr>cs_topic := topic, cs_subscribed := False, cs_assignments := [],
                                         cs_needs_rejoin := False\<rparr>) of
                      (Inl e, cs) \<Rightarrow> (Inl e, cs)
                    | (Inr _, cs) \<Rightarrow> (Inr (), StartHeartbeat cs)))"

text \<open>A turn of \<^verbatim>\<open>RunHeartbeat\<close> after its wait has timed out.\<close>

definition RunHeartbeat :: "Consumer \<Rightarrow> Consumer" where
  "RunHeartbeat cs =
     (if cs_heartbeat_stop cs then cs\<lparr>cs_heartbeat_running := False\<rparr>
      else if \<not> cs_subscribed cs \<or> cs_needs_rejoin cs \<or> cs_member_id cs = [] \<or> cs_generation_id cs \<le> 0 then cs
      else
        let (r, cs) = on_connection (send_request kHeartbeat kProtocolVersion
              (ReqHeartbeat \<lparr>hbq_group_id = cso_group_id (cs_options cs), hbq_member_id = cs_member_id cs,
                             hbq_generation_id = cs_generation_id cs\<rparr>)) cs
        in case r of
             Inl _ \<Rightarrow> cs
           | Inr response \<Rightarrow>
               if er_error_code (rse_error response) = pkUnknownMember
               then cs\<lparr>cs_member_id := [], cs_generation_id := 0, cs_needs_rejoin := True\<rparr>
               else if er_error_code (rse_error response) = pkIllegalGeneration
               then cs\<lparr>cs_generation_id := 0, cs_needs_rejoin := True\<rparr>
               else cs)"

subsection \<open>Polling\<close>

text \<open>The records of a fetch from the position on, and the position after them.\<close>

fun take_records ::
  "TopicName \<Rightarrow> PartitionId \<Rightarrow> Offset \<Rightarrow> ProtocolRecord list \<Rightarrow> Offset \<Rightarrow> ConsumerRecord list \<times> Offset" where
  "take_records topic p offset [] next_offset = ([], next_offset)"
| "take_records topic p offset (rec # recs) next_offset =
     (if offset < next_offset then take_records topic p (offset + 1) recs next_offset
      else
        let (out, final) = take_records topic p (offset + 1) recs (offset + 1)
        in (\<lparr>crd_topic = topic, crd_partition_id = p, crd_offset = offset, crd_timestamp = prc_timestamp rec,
             crd_key = prc_key rec, crd_value = prc_value rec, crd_retry = prc_retry rec\<rparr> # out, final))"

definition fetch_source ::
  "bool \<Rightarrow> TopicName \<Rightarrow> PartitionId \<Rightarrow> Offset \<Rightarrow> Consumer \<Rightarrow> (ConsumerRecord list \<times> Offset) Result \<times> Consumer" where
  "fetch_source retry_source topic p next_offset cs =
     (let (r, cs) = on_connection (send_request kFetch
            (if IsInternalTopic topic then kRetryProtocolVersion else kProtocolVersion)
            (ReqFetch \<lparr>frq_topic = topic, frq_partition_id = p, frq_offset = next_offset,
                       frq_max_bytes = cso_max_bytes (cs_options cs)\<rparr>)) cs
      in if retry_source \<and>
            (case r of Inr response \<Rightarrow> er_error_code (rse_error response) = pkTopicNotFound | Inl _ \<Rightarrow> False)
         then (Inr ([], next_offset), cs)
         else case TypedResponse r kFetch as_fetch ''fetch'' of
             Inl e \<Rightarrow> (Inl e, cs)
           | Inr fetched \<Rightarrow> (Inr (take_records topic p (frs_base_offset fetched) (frs_records fetched) next_offset), cs))"

definition poll_assignment ::
  "TopicName \<Rightarrow> Assignment \<Rightarrow> Consumer \<Rightarrow> (ConsumerRecord list \<times> Assignment) Result \<times> Consumer" where
  "poll_assignment topic a cs =
     (case fetch_source False topic (as_partition_id a) (as_next_offset a) cs of
        (Inl e, cs) \<Rightarrow> (Inl e, cs)
      | (Inr (out, next_offset), cs) \<Rightarrow>
          let a = a\<lparr>as_next_offset := next_offset\<rparr>
          in if IsInternalTopic topic then (Inr (out, a), cs)
             else
               (case fetch_source True (kRetryTopicPrefix @ topic) (as_partition_id a) (as_retry_next_offset a) cs of
                  (Inl e, cs) \<Rightarrow> (Inl e, cs)
                | (Inr (out', next_offset), cs) \<Rightarrow>
                    (Inr (out @ out', a\<lparr>as_retry_next_offset := next_offset\<rparr>), cs)))"

fun poll_assignments ::
  "TopicName \<Rightarrow> Assignment list \<Rightarrow> Consumer \<Rightarrow> (ConsumerRecord list \<times> Assignment list) Result \<times> Consumer" where
  "poll_assignments topic [] cs = (Inr ([], []), cs)"
| "poll_assignments topic (a # as) cs =
     (case poll_assignment topic a cs of
        (Inl e, cs) \<Rightarrow> (Inl e, cs)
      | (Inr (out, a'), cs) \<Rightarrow>
          (case poll_assignments topic as cs of
             (Inl e, cs) \<Rightarrow> (Inl e, cs)
           | (Inr (out', as'), cs) \<Rightarrow> (Inr (out @ out', a' # as'), cs)))"

text \<open>The write-back: the first current assignment of the same partition takes the new positions.\<close>

fun store_position :: "Assignment \<Rightarrow> Assignment list \<Rightarrow> Assignment list" where
  "store_position updated [] = []"
| "store_position updated (c # cs) =
     (if as_partition_id c = as_partition_id updated
      then c\<lparr>as_next_offset := as_next_offset updated, as_retry_next_offset := as_retry_next_offset updated\<rparr> # cs
      else c # store_position updated cs)"

definition store_positions :: "TopicName \<Rightarrow> int \<Rightarrow> Assignment list \<Rightarrow> Consumer \<Rightarrow> Consumer" where
  "store_positions topic generation updated cs =
     (if topic = cs_topic cs \<and> generation = cs_generation_id cs
      then cs\<lparr>cs_assignments := fold store_position updated (cs_assignments cs)\<rparr> else cs)"

text \<open>One turn of the loop of \<^verbatim>\<open>Poll\<close>.\<close>

definition poll_turn :: "Consumer \<Rightarrow> ConsumerRecord list Result \<times> Consumer" where
  "poll_turn cs =
     (if cs_topic cs = [] then (Inl (InvalidArgument ''consumer must subscribe before poll''), cs)
      else if cs_closed cs then (Inl (InvalidArgument ''consumer is closed''), cs)
      else
        case (if cs_needs_rejoin cs then JoinAndSync cs else (Inr (), cs)) of
          (Inl e, cs) \<Rightarrow> (Inl e, cs)
        | (Inr _, cs) \<Rightarrow>
            let topic = cs_topic cs; generation = cs_generation_id cs
            in (case poll_assignments topic (cs_assignments cs) cs of
                  (Inl e, cs) \<Rightarrow> (Inl e, cs)
                | (Inr (out, updated), cs) \<Rightarrow> (Inr out, store_positions topic generation updated cs)))"

text \<open>\<^verbatim>\<open>Poll\<close>: the list holds the readings of the clock after each turn; past its end the deadline has
  passed.\<close>

fun Poll :: "int \<Rightarrow> int \<Rightarrow> int list \<Rightarrow> Consumer \<Rightarrow> ConsumerRecord list Result \<times> Consumer" where
  "Poll start timeout readings cs =
     (case poll_turn cs of
        (Inl e, cs) \<Rightarrow> (Inl e, cs)
      | (Inr out, cs) \<Rightarrow>
          if out \<noteq> [] \<or> timeout = 0 then (Inr out, cs)
          else (case readings of
                  [] \<Rightarrow> (Inr out, cs)
                | now # later \<Rightarrow>
                    if now \<ge> start + timeout then (Inr out, cs) else Poll start timeout later cs))"

subsection \<open>The other methods\<close>

definition is_retry_of :: "TopicName \<Rightarrow> TopicName \<Rightarrow> bool" where
  "is_retry_of topic subscribed \<longleftrightarrow> \<not> IsInternalTopic subscribed \<and> topic = kRetryTopicPrefix @ subscribed"

fun seek_assignment :: "bool \<Rightarrow> PartitionId \<Rightarrow> Offset \<Rightarrow> Assignment list \<Rightarrow> Assignment list option" where
  "seek_assignment retry p offset [] = None"
| "seek_assignment retry p offset (a # as) =
     (if as_partition_id a = p
      then Some ((if retry then a\<lparr>as_retry_next_offset := offset\<rparr> else a\<lparr>as_next_offset := offset\<rparr>) # as)
      else map_option ((#) a) (seek_assignment retry p offset as))"

definition Seek :: "TopicName \<Rightarrow> PartitionId \<Rightarrow> Offset \<Rightarrow> Consumer \<Rightarrow> unit Result \<times> Consumer" where
  "Seek topic p offset cs =
     (if offset < 0 then (Inl (InvalidArgument ''seek offset must not be negative''), cs)
      else if cs_closed cs \<or> \<not> cs_subscribed cs
      then (Inl (InvalidArgument ''consumer is not subscribed or is closed''), cs)
      else
        let retry = is_retry_of topic (cs_topic cs)
        in if topic \<noteq> cs_topic cs \<and> \<not> retry then (Inl (InvalidArgument ''topic is not subscribed''), cs)
           else (case seek_assignment retry p offset (cs_assignments cs) of
                   None \<Rightarrow> (Inl (NotFound ''partition is not assigned''), cs)
                 | Some as \<Rightarrow> (Inr (), cs\<lparr>cs_assignments := as\<rparr>)))"

definition Seek_subscribed :: "PartitionId \<Rightarrow> Offset \<Rightarrow> Consumer \<Rightarrow> unit Result \<times> Consumer" where
  "Seek_subscribed p offset cs = Seek (cs_topic cs) p offset cs"

definition Nack :: "ConsumerRecord \<Rightarrow> string \<Rightarrow> Consumer \<Rightarrow> NackResponse Result \<times> Consumer" where
  "Nack rec reason cs =
     (if cs_closed cs \<or> \<not> cs_subscribed cs
      then (Inl (InvalidArgument ''consumer is not subscribed or is closed''), cs)
      else if crd_topic rec \<noteq> cs_topic cs \<and> \<not> is_retry_of (crd_topic rec) (cs_topic cs)
      then (Inl (InvalidArgument ''record topic is not subscribed''), cs)
      else if \<not> list_ex (\<lambda>a. as_partition_id a = crd_partition_id rec) (cs_assignments cs)
      then (Inl (InvalidArgument ''record partition is not assigned''), cs)
      else
        let (r, cs) = on_connection (send_request kNack kRetryProtocolVersion
              (ReqNack \<lparr>nkq_topic = crd_topic rec, nkq_partition_id = crd_partition_id rec, nkq_offset = crd_offset rec,
                        nkq_reason = reason\<rparr>)) cs
        in (TypedResponse r kNack as_nack ''nack'', cs))"

definition commit_source :: "bool \<Rightarrow> TopicName \<Rightarrow> PartitionId \<Rightarrow> Offset \<Rightarrow> Consumer \<Rightarrow> unit Result \<times> Consumer" where
  "commit_source retry_source topic p offset cs =
     (let (r, cs) = on_connection (send_request kCommitOffset kProtocolVersion
            (ReqCommitOffset \<lparr>coq_group_id = cso_group_id (cs_options cs), coq_topic = topic, coq_partition_id = p,
                              coq_offset = offset\<rparr>)) cs
      in if retry_source \<and>
            (case r of Inr response \<Rightarrow> er_error_code (rse_error response) = pkTopicNotFound | Inl _ \<Rightarrow> False)
         then (Inr (), cs)
         else (case TypedResponse r kCommitOffset as_commit_offset ''commit offset'' of
                 Inl e \<Rightarrow> (Inl e, cs) | Inr _ \<Rightarrow> (Inr (), cs)))"

fun commit_assignments :: "TopicName \<Rightarrow> Assignment list \<Rightarrow> Consumer \<Rightarrow> unit Result \<times> Consumer" where
  "commit_assignments topic [] cs = (Inr (), cs)"
| "commit_assignments topic (a # as) cs =
     sbind (commit_source False topic (as_partition_id a) (as_next_offset a)) (\<lambda>_.
     sbind (if IsInternalTopic topic then sreturn ()
            else commit_source True (kRetryTopicPrefix @ topic) (as_partition_id a) (as_retry_next_offset a)) (\<lambda>_.
     commit_assignments topic as)) cs"

definition CommitSync :: "Consumer \<Rightarrow> unit Result \<times> Consumer" where
  "CommitSync cs =
     (if cs_topic cs = [] then (Inl (InvalidArgument ''consumer must subscribe before commit''), cs)
      else if cs_closed cs then (Inl (InvalidArgument ''consumer is closed''), cs)
      else commit_assignments (cs_topic cs) (cs_assignments cs) cs)"

definition Consumer_Close :: "Consumer \<Rightarrow> unit Result \<times> Consumer" where
  "Consumer_Close cs =
     (if cs_closed cs then (Inr (), cs)
      else
        let member_id = cs_member_id cs;
            cs = cs\<lparr>cs_closed := True, cs_heartbeat_stop := True, cs_heartbeat_running := False\<rparr>;
            (left, cs) = (if member_id \<noteq> [] then SendLeaveGroup member_id cs else (Inr (), cs))
        in if (case left of Inl e \<Rightarrow> st_code e \<noteq> kNotFound | Inr _ \<Rightarrow> False) then (left, cs)
           else (Inr (), cs\<lparr>cs_subscribed := False, cs_assignments := [], cs_member_id := [], cs_generation_id := 0,
                            cs_needs_rejoin := False\<rparr>))"

definition AssignedPartitions :: "Consumer \<Rightarrow> PartitionId list" where
  "AssignedPartitions cs = map as_partition_id (cs_assignments cs)"

end
