(* ===== verification/ClientPoll.thy ===== *)
theory ClientPoll
  imports ClientApi
begin

text \<open>
  What \<^verbatim>\<open>Consumer::Poll\<close> hands to its caller. The positions of a consumer and the records it
  returns move together: what a poll delivers of a topic and partition is an unbroken run of
  offsets that ends right before the new position, and a poll that fails moves no position.
\<close>

section \<open>Runs of offsets\<close>

definition offsets_of :: "TopicName \<Rightarrow> PartitionId \<Rightarrow> ConsumerRecord list \<Rightarrow> Offset list" where
  "offsets_of topic p out = map crd_offset (filter (\<lambda>r. crd_topic r = topic \<and> crd_partition_id r = p) out)"

text \<open>The position moves from \<open>n\<close> to \<open>n'\<close>, and the offsets up to \<open>n'\<close> are delivered.\<close>

definition delivers :: "TopicName \<Rightarrow> PartitionId \<Rightarrow> Offset \<Rightarrow> Offset \<Rightarrow> ConsumerRecord list \<Rightarrow> bool" where
  "delivers topic p n n' out \<longleftrightarrow>
     n' = n \<and> offsets_of topic p out = [] \<or> (\<exists>s. n \<le> s \<and> s < n' \<and> offsets_of topic p out = [s..n' - 1])"

lemma offsets_of_append [simp]:
  "offsets_of topic p (out @ out') = offsets_of topic p out @ offsets_of topic p out'"
  by (simp add: offsets_of_def)

lemma offsets_of_other:
  "\<forall>r \<in> set out. crd_topic r \<noteq> topic \<or> crd_partition_id r \<noteq> p \<Longrightarrow> offsets_of topic p out = []"
  by (auto simp: offsets_of_def filter_empty_conv)

lemma delivers_none: "offsets_of topic p out = [] \<Longrightarrow> delivers topic p n n out"
  by (simp add: delivers_def)

lemma delivers_append:
  "offsets_of topic p out' = [] \<Longrightarrow> delivers topic p n n' (out @ out') = delivers topic p n n' out"
  "offsets_of topic p out = [] \<Longrightarrow> delivers topic p n n' (out @ out') = delivers topic p n n' out'"
  by (simp_all add: delivers_def)

lemma take_records_from:
  assumes "take_records topic p offset recs n = (out, n')"
  shows "(\<forall>r \<in> set out. crd_topic r = topic \<and> crd_partition_id r = p) \<and>
    (n' = n \<and> out = [] \<or> (\<exists>s. n \<le> s \<and> s < n' \<and> offset \<le> s \<and> (n \<le> offset \<longrightarrow> s = offset) \<and>
       map crd_offset out = [s..n' - 1]))"
  using assms
proof (induction topic p offset recs n arbitrary: out n' rule: take_records.induct)
  case (1 topic p offset n)
  then show ?case by simp
next
  case (2 topic p offset rec recs n)
  show ?case
  proof (cases "offset < n")
    case True
    with 2(1) [OF True] 2(3) show ?thesis by (auto; fastforce)
  next
    case False
    obtain out1 n1 where t: "take_records topic p (offset + 1) recs (offset + 1) = (out1, n1)" by (rule prod.exhaust)
    from 2(2) [OF False t] have "n1 = offset + 1 \<and> out1 = [] \<or> offset + 1 < n1 \<and> map crd_offset out1 = [offset + 1..n1 - 1]"
      and "\<forall>r \<in> set out1. crd_topic r = topic \<and> crd_partition_id r = p" by auto
    with 2(3) False t show ?thesis by (auto simp: upto_rec1 [of offset])
  qed
qed

lemma take_records_delivers:
  assumes "take_records topic p offset recs n = (out, n')"
  shows "(\<forall>r \<in> set out. crd_topic r = topic \<and> crd_partition_id r = p) \<and> delivers topic p n n' out"
proof -
  note t = take_records_from [OF assms]
  then have "offsets_of topic p out = map crd_offset out" by (simp add: offsets_of_def)
  with t show ?thesis by (auto simp: delivers_def)
qed

section \<open>The sources of an assignment\<close>

lemma on_connection_frame: "on_connection f cs = (r, cs') \<Longrightarrow> \<exists>cn. cs' = cs\<lparr>cs_connection := cn\<rparr>"
  by (auto simp: on_connection_def split: prod.splits)

lemma fetch_source_delivers:
  assumes "fetch_source retry topic p n cs = (r, cs')"
  shows "(\<exists>cn. cs' = cs\<lparr>cs_connection := cn\<rparr>) \<and> (\<forall>out n'. r = Inr (out, n') \<longrightarrow>
    (\<forall>x \<in> set out. crd_topic x = topic \<and> crd_partition_id x = p) \<and> delivers topic p n n' out)"
proof -
  obtain q cs1 where q: "on_connection (send_request kFetch
            (if IsInternalTopic topic then kRetryProtocolVersion else kProtocolVersion)
            (ReqFetch \<lparr>frq_topic = topic, frq_partition_id = p, frq_offset = n,
                       frq_max_bytes = cso_max_bytes (cs_options cs)\<rparr>)) cs = (q, cs1)" by (rule prod.exhaust)
  have "\<exists>cn. cs1 = cs\<lparr>cs_connection := cn\<rparr>" using q by (rule on_connection_frame)
  moreover have "cs' = cs1 \<and> ((\<exists>e. r = Inl e) \<or> r = Inr ([], n) \<or> (\<exists>offset recs. r = Inr (take_records topic p offset recs n)))"
  proof (cases "retry \<and> (case q of Inr response \<Rightarrow> er_error_code (rse_error response) = pkTopicNotFound | Inl _ \<Rightarrow> False)")
    case True
    with assms q show ?thesis unfolding fetch_source_def Let_def by simp
  next
    case False
    with assms q show ?thesis unfolding fetch_source_def Let_def
      by (cases "TypedResponse q kFetch as_fetch ''fetch''") auto
  qed
  moreover have "(\<forall>x \<in> set out. crd_topic x = topic \<and> crd_partition_id x = p) \<and> delivers topic p n n' out"
    if "Inr (out, n') = Inr ([], n) \<or> (\<exists>offset recs. Inr (out, n') = Inr (take_records topic p offset recs n))" for out n'
    using that
  proof
    assume "Inr (out, n') = Inr ([], n)"
    then show ?thesis by (simp add: delivers_none offsets_of_def)
  next
    assume "\<exists>offset recs. Inr (out, n') = Inr (take_records topic p offset recs n)"
    then obtain offset recs where "take_records topic p offset recs n = (out, n')" by auto
    then show ?thesis by (rule take_records_delivers)
  qed
  ultimately show ?thesis by blast
qed

lemma retry_topic_neq: "kRetryTopicPrefix @ topic \<noteq> topic"
  by (simp add: kRetryTopicPrefix_def)

text \<open>One assignment moves to another by what is delivered of its partition.\<close>

definition moves :: "TopicName \<Rightarrow> ConsumerRecord list \<Rightarrow> Assignment \<Rightarrow> Assignment \<Rightarrow> bool" where
  "moves topic out a a' \<longleftrightarrow> as_partition_id a' = as_partition_id a \<and>
     delivers topic (as_partition_id a) (as_next_offset a) (as_next_offset a') out \<and>
     delivers (kRetryTopicPrefix @ topic) (as_partition_id a) (as_retry_next_offset a) (as_retry_next_offset a') out"

definition record_of :: "TopicName \<Rightarrow> PartitionId set \<Rightarrow> ConsumerRecord \<Rightarrow> bool" where
  "record_of topic ps r \<longleftrightarrow> (crd_topic r = topic \<or> crd_topic r = kRetryTopicPrefix @ topic) \<and> crd_partition_id r \<in> ps"

lemma poll_assignment_moves:
  assumes "poll_assignment topic a cs = (r, cs')"
  shows "(\<exists>cn. cs' = cs\<lparr>cs_connection := cn\<rparr>) \<and> (\<forall>out a'. r = Inr (out, a') \<longrightarrow>
    moves topic out a a' \<and> list_all (record_of topic {as_partition_id a}) out)"
proof -
  let ?p = "as_partition_id a" and ?R = "kRetryTopicPrefix @ topic"
  obtain r1 cs1 where 1: "fetch_source False topic ?p (as_next_offset a) cs = (r1, cs1)" by (rule prod.exhaust)
  note f1 = fetch_source_delivers [OF 1]
  obtain r2 cs2 where 2: "fetch_source True ?R ?p (as_retry_next_offset a) cs1 = (r2, cs2)" by (rule prod.exhaust)
  note f2 = fetch_source_delivers [OF 2]
  have frame: "\<exists>cn. cs' = cs\<lparr>cs_connection := cn\<rparr>"
    using assms 1 2 f1 f2 by (auto simp: poll_assignment_def Let_def split: sum.splits if_splits)
  have "moves topic out a a' \<and> list_all (record_of topic {?p}) out" if r: "r = Inr (out, a')" for out a'
  proof -
    from assms 1 r obtain out1 n1 where r1: "r1 = Inr (out1, n1)" by (auto simp: poll_assignment_def split: sum.splits)
    with f1 have o1: "\<forall>x \<in> set out1. crd_topic x = topic \<and> crd_partition_id x = ?p"
      "delivers topic ?p (as_next_offset a) n1 out1" by auto
    have none1: "offsets_of ?R ?p out1 = []" by (rule offsets_of_other) (use o1 retry_topic_neq in metis)
    show ?thesis
    proof (cases "IsInternalTopic topic")
      case True
      with assms 1 r r1 have "out = out1" "a' = a\<lparr>as_next_offset := n1\<rparr>" by (simp_all add: poll_assignment_def Let_def)
      with o1 none1 show ?thesis by (simp add: moves_def delivers_none list_all_iff record_of_def)
    next
      case False
      with assms 1 2 r r1 obtain out2 n2 where r2: "r2 = Inr (out2, n2)" "out = out1 @ out2"
        "a' = a\<lparr>as_next_offset := n1, as_retry_next_offset := n2\<rparr>"
        by (auto simp: poll_assignment_def Let_def split: sum.splits)
      with f2 have o2: "\<forall>x \<in> set out2. crd_topic x = ?R \<and> crd_partition_id x = ?p"
        "delivers ?R ?p (as_retry_next_offset a) n2 out2" by auto
      have "offsets_of topic ?p out2 = []" by (rule offsets_of_other) (use o2 retry_topic_neq in metis)
      with o1 o2 none1 r2 show ?thesis by (auto simp: moves_def delivers_append list_all_iff record_of_def)
    qed
  qed
  with frame show ?thesis by blast
qed

lemma moves_append:
  assumes "list_all (record_of topic ps) out'" "as_partition_id a \<notin> ps"
  shows "moves topic (out @ out') a a' = moves topic out a a'" "moves topic (out' @ out) a a' = moves topic out a a'"
proof -
  have "offsets_of t (as_partition_id a) out' = []" for t
    by (rule offsets_of_other) (use assms in \<open>auto simp: list_all_iff record_of_def\<close>)
  then show "moves topic (out @ out') a a' = moves topic out a a'" "moves topic (out' @ out) a a' = moves topic out a a'"
    by (simp_all add: moves_def delivers_append)
qed

lemma record_of_mono: "list_all (record_of topic ps) out \<Longrightarrow> ps \<subseteq> ps' \<Longrightarrow> list_all (record_of topic ps') out"
  by (auto simp: list_all_iff record_of_def)

lemma poll_assignments_moves:
  assumes "poll_assignments topic as cs = (r, cs')" "distinct (map as_partition_id as)"
  shows "(\<exists>cn. cs' = cs\<lparr>cs_connection := cn\<rparr>) \<and> (\<forall>out as'. r = Inr (out, as') \<longrightarrow>
    list_all2 (moves topic out) as as' \<and> list_all (record_of topic (set (map as_partition_id as))) out)"
  using assms
proof (induction as arbitrary: cs r cs')
  case Nil
  then show ?case by (auto intro: exI [of _ "cs_connection cs"])
next
  case (Cons a as)
  obtain r1 cs1 where 1: "poll_assignment topic a cs = (r1, cs1)" by (rule prod.exhaust)
  note m1 = poll_assignment_moves [OF 1]
  obtain r2 cs2 where 2: "poll_assignments topic as cs1 = (r2, cs2)" by (rule prod.exhaust)
  from Cons.prems(2) have d: "as_partition_id a \<notin> set (map as_partition_id as)" "distinct (map as_partition_id as)" by simp_all
  note m2 = Cons.IH [OF 2 d(2)]
  have frame: "\<exists>cn. cs' = cs\<lparr>cs_connection := cn\<rparr>"
    using Cons.prems(1) 1 2 m1 m2 by (auto split: sum.splits)
  have "list_all2 (moves topic out) (a # as) as' \<and> list_all (record_of topic (set (map as_partition_id (a # as)))) out"
    if r: "r = Inr (out, as')" for out as'
  proof -
    from Cons.prems(1) 1 2 r obtain out1 a1 out2 as2 where i: "r1 = Inr (out1, a1)" "r2 = Inr (out2, as2)"
      "out = out1 @ out2" "as' = a1 # as2" by (auto split: sum.splits)
    with m1 m2 have o: "moves topic out1 a a1" "list_all (record_of topic {as_partition_id a}) out1"
      "list_all2 (moves topic out2) as as2" "list_all (record_of topic (set (map as_partition_id as))) out2" by auto
    have "list_all2 (moves topic out) as as2"
    proof (rule list.rel_mono_strong [OF o(3)])
      fix b b'
      assume b: "b \<in> set as" "moves topic out2 b b'"
      with d(1) have "as_partition_id b \<notin> {as_partition_id a}" by (metis image_eqI set_map singletonD)
      from moves_append(2) [OF o(2) this] b(2) i(3) show "moves topic out b b'" by simp
    qed
    moreover have "moves topic out a a1" using moves_append(1) [OF o(4) d(1)] o(1) i(3) by simp
    moreover have "list_all (record_of topic (set (map as_partition_id (a # as)))) out"
      using record_of_mono [OF o(2)] record_of_mono [OF o(4)] i(3) by (simp add: subset_insertI)
    ultimately show ?thesis using i(4) by simp
  qed
  with frame show ?case by blast
qed

section \<open>Writing the positions back\<close>

lemma store_position_skip:
  "as_partition_id u \<notin> as_partition_id ` set pre \<Longrightarrow> store_position u (pre @ as) = pre @ store_position u as"
  by (induction pre) auto

lemma store_position_hit: "as_partition_id u = as_partition_id a \<Longrightarrow> store_position u (a # as) = u # as"
  by simp

lemma fold_store_positions:
  assumes "list_all2 (\<lambda>a u. as_partition_id u = as_partition_id a) as us"
    "distinct (map as_partition_id as)" "as_partition_id ` set pre \<inter> as_partition_id ` set as = {}"
  shows "fold store_position us (pre @ as) = pre @ us"
  using assms
proof (induction arbitrary: pre rule: list_all2_induct)
  case Nil
  then show ?case by simp
next
  case (Cons a as u us)
  have "store_position u (pre @ a # as) = (pre @ [u]) @ as"
    using Cons by (simp add: store_position_skip store_position_hit del: store_position.simps)
  moreover have "as_partition_id ` set (pre @ [u]) \<inter> as_partition_id ` set as = {}" using Cons.prems Cons.hyps by auto
  ultimately show ?case using Cons.IH [of "pre @ [u]"] Cons.prems by simp
qed

lemma moves_ids: "list_all2 (moves topic out) as as' \<Longrightarrow> list_all2 (\<lambda>a u. as_partition_id u = as_partition_id a) as as'"
  by (erule list_all2_mono) (simp add: moves_def)

section \<open>Polling\<close>

lemma poll_turn_moves:
  assumes "poll_turn cs = (r, cs')" "\<not> cs_needs_rejoin cs" "distinct (AssignedPartitions cs)"
  shows "(\<exists>cn as'. cs' = cs\<lparr>cs_connection := cn, cs_assignments := as'\<rparr> \<and>
    (case r of Inl e \<Rightarrow> as' = cs_assignments cs
     | Inr out \<Rightarrow> list_all2 (moves (cs_topic cs) out) (cs_assignments cs) as' \<and>
         list_all (record_of (cs_topic cs) (set (AssignedPartitions cs))) out))"
proof (cases "cs_topic cs = [] \<or> cs_closed cs")
  case True
  with assms(1) show ?thesis
    by (intro exI [of _ "cs_connection cs"] exI [of _ "cs_assignments cs"]) (auto simp: poll_turn_def split: if_splits)
next
  case False
  let ?t = "cs_topic cs"
  obtain q cs1 where q: "poll_assignments ?t (cs_assignments cs) cs = (q, cs1)" by (rule prod.exhaust)
  from poll_assignments_moves [OF q] assms(3) obtain cn where cn: "cs1 = cs\<lparr>cs_connection := cn\<rparr>" and
    m: "\<And>out as'. q = Inr (out, as') \<Longrightarrow> list_all2 (moves ?t out) (cs_assignments cs) as' \<and>
      list_all (record_of ?t (set (AssignedPartitions cs))) out" by (auto simp: AssignedPartitions_def)
  show ?thesis
  proof (cases q)
    case (Inl e)
    with assms(1,2) False q cn show ?thesis
      by (intro exI [of _ cn] exI [of _ "cs_assignments cs"]) (auto simp: poll_turn_def Let_def)
  next
    case (Inr x)
    obtain out as' where x: "q = Inr (out, as')" using Inr by (cases x) simp
    note m' = m [OF x]
    have "fold store_position as' (cs_assignments cs) = as'"
      using fold_store_positions [OF moves_ids, of ?t out "cs_assignments cs" as' "[]"] m' assms(3)
      by (simp add: AssignedPartitions_def)
    with assms(1,2) False q cn x m' show ?thesis
      by (intro exI [of _ cn] exI [of _ as']) (auto simp: poll_turn_def store_positions_def Let_def)
  qed
qed

lemma moves_nothing: "moves topic [] a a' \<Longrightarrow> a' = a"
  by (auto simp: moves_def delivers_def offsets_of_def)

lemma Poll_moves:
  assumes "Poll start timeout readings cs = (r, cs')" "\<not> cs_needs_rejoin cs" "distinct (AssignedPartitions cs)"
  shows "(\<exists>cn as'. cs' = cs\<lparr>cs_connection := cn, cs_assignments := as'\<rparr> \<and>
    (case r of Inl e \<Rightarrow> as' = cs_assignments cs
     | Inr out \<Rightarrow> list_all2 (moves (cs_topic cs) out) (cs_assignments cs) as' \<and>
         list_all (record_of (cs_topic cs) (set (AssignedPartitions cs))) out))"
  using assms
proof (induction readings arbitrary: cs)
  case Nil
  then have "poll_turn cs = (r, cs')" by (auto split: prod.splits sum.splits if_splits)
  then show ?case using Nil.prems(2,3) by (rule poll_turn_moves)
next
  case (Cons now later)
  obtain q cs1 where q: "poll_turn cs = (q, cs1)" by (rule prod.exhaust)
  note t = poll_turn_moves [OF q Cons.prems(2,3)]
  show ?case
  proof (cases "q = Inr [] \<and> timeout \<noteq> 0 \<and> now < start + timeout")
    case False
    with Cons.prems(1) q have "r = q" "cs' = cs1" by (auto split: sum.splits if_splits)
    with t show ?thesis by simp
  next
    case True
    with Cons.prems(1) q have rec: "Poll start timeout later cs1 = (r, cs')" by simp
    from t True obtain cn as' where cs1: "cs1 = cs\<lparr>cs_connection := cn, cs_assignments := as'\<rparr>"
      and m: "list_all2 (moves (cs_topic cs) []) (cs_assignments cs) as'" by auto
    from m have "list_all2 (=) (cs_assignments cs) as'" by (rule list_all2_mono) (auto dest: moves_nothing)
    then have "as' = cs_assignments cs" by (simp add: list.rel_eq)
    then have eq: "cs_topic cs1 = cs_topic cs" "cs_assignments cs1 = cs_assignments cs" "cs_needs_rejoin cs1 = cs_needs_rejoin cs"
      "AssignedPartitions cs1 = AssignedPartitions cs" "cs1\<lparr>cs_connection := cn', cs_assignments := as''\<rparr> =
        cs\<lparr>cs_connection := cn', cs_assignments := as''\<rparr>" for cn' as'' by (simp_all add: cs1 AssignedPartitions_def)
    show ?thesis by (rule Cons.IH [OF rec, unfolded eq, OF Cons.prems(2,3)])
  qed
qed

end
