(* ===== verification/ClientProperties.thy ===== *)
theory ClientProperties
  imports ClientPoll Examples
begin

text \<open>
  What the client library guarantees, over every behaviour of the network and the clock.
\<close>

section \<open>Examples\<close>

definition demo_reply :: "u64 \<Rightarrow> ResponseEnvelope" where
  "demo_reply i = \<lparr>rse_api_key = kFetch, rse_version = 1, rse_request_id = i,
     rse_error = \<lparr>er_error_code = pkNone, er_message = []\<rparr>,
     rse_body = RspFetch \<lparr>frs_base_offset = 4, frs_high_watermark = 6,
       frs_records = [\<lparr>prc_timestamp = 1, prc_key = ''k'', prc_value = ''v'', prc_retry = None\<rparr>,
                      \<lparr>prc_timestamp = 2, prc_key = ''k'', prc_value = ''w'', prc_retry = None\<rparr>]\<rparr>\<rparr>"

definition demo_no_retries :: "u64 \<Rightarrow> ResponseEnvelope" where
  "demo_no_retries i = \<lparr>rse_api_key = kFetch, rse_version = 2, rse_request_id = i,
     rse_error = \<lparr>er_error_code = pkTopicNotFound, er_message = []\<rparr>, rse_body = EmptyResponseBodyFor kFetch\<rparr>"

definition demo_fetch_retries :: RequestEnvelope where
  "demo_fetch_retries = \<lparr>rqe_api_key = kFetch, rqe_version = 2, rqe_request_id = 43,
     rqe_body = ReqFetch \<lparr>frq_topic = kRetryTopicPrefix @ ''t'', frq_partition_id = 0, frq_offset = 0,
       frq_max_bytes = 4096\<rparr>\<rparr>"

lemma demo_replies_encode:
  "\<exists>f. EncodeResponse (demo_reply i) = Inr f" "response_typed (rse_body (demo_reply i))"
  "\<exists>f. EncodeResponse (demo_no_retries i) = Inr f" "response_typed (rse_body (demo_no_retries i))"
  "\<exists>f. EncodeRequest demo_fetch_retries = Inr f"
  by (simp_all add: EncodeResponse_def demo_reply_def demo_no_retries_def EncodeResponseBody_def EmptyResponseBodyFor_def
      EncodeFetchResponseBody_def AppendFetchRecord_def AppendProtocolRecord_def
      AppendRetryMetadata_def AppendString_def Let_def AppendBigEndian_def AppendPartitionId_def
      AppendFrameHeader_def AppendBytes_def SupportedProtocolVersion_def kProtocolVersion_def
      kRetryProtocolVersion_def kMaxFrameBytes_def kFrameHeaderBytes_def response_typed_def
      record_typed_def retry_typed_def is_i32_def is_i64_def EncodeRequest_Inr_iff demo_fetch_retries_def
      EncodeRequestBody_def EncodeFetchBody_def kRetryTopicPrefix_def
      kInvalidOffset_def)

lemma demo_replies_wire:
  "wire_response_envelope (demo_reply i) = demo_reply i"
  "wire_response_envelope (demo_no_retries i) = demo_no_retries i"
  by (simp_all add: wire_response_envelope_def wire_response_def wire_record_def plain_record_def demo_reply_def
      demo_no_retries_def kRetryProtocolVersion_def)

lemma demo_ids:
  "rse_request_id (demo_reply i) = i" "rse_api_key (demo_reply i) = kFetch"
  "rse_request_id (demo_no_retries i) = i" "rse_api_key (demo_no_retries i) = kFetch"
  "rqe_request_id demo_fetch = 42" "rqe_api_key demo_fetch = kFetch"
  "rqe_request_id demo_fetch_retries = 43" "rqe_api_key demo_fetch_retries = kFetch"
  by (simp_all add: demo_reply_def demo_no_retries_def demo_fetch_def demo_fetch_retries_def)

text \<open>A connection on which the given bytes arrive.\<close>

definition demo_connection :: "recv_ret list \<Rightarrow> ClientConnection" where
  "demo_connection rs = \<lparr>cn_options = ClientOptions_default, cn_fd = 3,
     cn_socket = \<lparr>so_recv = rs, so_send = [Sent kMaxFrameBytes, Sent kMaxFrameBytes], so_sent = []\<rparr>,
     cn_connects = [], cn_clock = [42, 43]\<rparr>"



lemma demo_round_trip:
  "\<exists>frame cn'. EncodeResponse (demo_reply 42) = Inr frame \<and>
     RoundTrip demo_fetch (demo_connection [RecvErr SEintr, Arrived (hd frame) (tl frame)]) = (Inr (demo_reply 42), cn')"
proof -
  obtain frame encoded where f: "EncodeResponse (demo_reply 42) = Inr frame" "EncodeRequest demo_fetch = Inr encoded"
    using demo_replies_encode(1) demo_requests_encode(1) by blast
  have "frame \<noteq> []" using EncodeResponse_frame_length(4) [OF f(1)] by auto
  then have "arrived [RecvErr SEintr, Arrived (hd frame) (tl frame)] = frame @ []" by simp
  moreover have "length encoded \<le> kMaxFrameBytes" using EncodeRequest_frame_length [OF f(2)] by simp
  ultimately show ?thesis
    using RoundTrip_succeeds [OF f(2,1) demo_replies_encode(2), of "demo_connection [RecvErr SEintr, Arrived (hd frame) (tl frame)]"]
      f(1) by (fastforce simp: demo_connection_def demo_replies_wire demo_ids)
qed



section \<open>Properties\<close>



text \<open>
  C40. Requests and responses do not get out of step. A successful \<^verbatim>\<open>RoundTrip\<close> wrote exactly the
  encoded request, took exactly one frame off the stream, which decodes to the returned
  response, and that response carries the id and the api key of the request. After any
  failure but that of the encoder the connection is closed, so that a late response can
  never be taken for the answer to a later request.
\<close>

theorem round_trip:
  "case RoundTrip request cn of
     (Inr response, cn') \<Rightarrow> 0 \<le> cn_fd cn' \<and>
       (\<exists>frame encoded. EncodeRequest request = Inr encoded \<and> DecodeResponse frame = Inr response \<and>
          arrived (so_recv (stream_of cn)) = frame @ arrived (so_recv (cn_socket cn')) \<and>
          so_sent (cn_socket cn') = so_sent (stream_of cn) @ encoded) \<and>
       rse_request_id response = rqe_request_id request \<and> rse_api_key response = rqe_api_key request
   | (Inl e, cn') \<Rightarrow> cn_fd cn' < 0 \<or> cn' = cn \<and> EncodeRequest request = Inl e"
  using RoundTrip_ok [of request cn] RoundTrip_fails [of request cn] by (auto split: prod.splits sum.splits)

theorem round_trip_witness:
  "\<exists>frame encoded cn'. EncodeResponse (demo_reply 42) = Inr frame \<and> EncodeRequest demo_fetch = Inr encoded \<and>
     RoundTrip demo_fetch (demo_connection [RecvErr SEintr, Arrived (hd frame) (tl frame)]) = (Inr (demo_reply 42), cn') \<and>
     0 \<le> cn_fd cn' \<and> so_sent (cn_socket cn') = encoded"
proof -
  from demo_round_trip obtain frame cn' where r: "EncodeResponse (demo_reply 42) = Inr frame"
    "RoundTrip demo_fetch (demo_connection [RecvErr SEintr, Arrived (hd frame) (tl frame)]) = (Inr (demo_reply 42), cn')" by blast
  from round_trip [where request = demo_fetch and cn = "demo_connection [RecvErr SEintr, Arrived (hd frame) (tl frame)]"] r show ?thesis
    by (auto simp: stream_of_def demo_connection_def)
qed

end
