(* ===== verification/CommandLine.thy ===== *)
theory CommandLine
  imports ClientConnection TextStream Config
begin

text \<open>
  Models the two programs around the libraries: \<^verbatim>\<open>tools/logmq_cli.cpp\<close>, which turns its
  arguments into one request, sends it over a \<^verbatim>\<open>ClientConnection\<close> and prints the response,
  and the argument handling of \<^verbatim>\<open>src/broker/main.cpp\<close>. An exception is its \<^verbatim>\<open>what()\<close>
  string, the left side of a sum. The arguments are a list whose head is the name of the
  program; readings of the clock are arguments.
\<close>

section \<open>Exceptions and conversions\<close>

type_synonym 'a throwing = "string + 'a"

definition ebind :: "'a throwing \<Rightarrow> ('a \<Rightarrow> 'b throwing) \<Rightarrow> 'b throwing" where
  "ebind m f = (case m of Inl e \<Rightarrow> Inl e | Inr v \<Rightarrow> f v)"

lemma ebind_simps [simp]: "ebind (Inl e) f = Inl e" "ebind (Inr v) f = f v"
  by (simp_all add: ebind_def)

lemma ebind_Inr_iff: "ebind m f = Inr y \<longleftrightarrow> (\<exists>x. m = Inr x \<and> f x = Inr y)"
  by (cases m) simp_all

text \<open>\<^verbatim>\<open>std::stoi\<close> and the others: white space, a sign and digits, and whatever follows. Without digits
  they throw \<^verbatim>\<open>invalid_argument\<close>, beyond the range \<^verbatim>\<open>out_of_range\<close>, both with their name. For the
  unsigned ones a minus sign negates modulo $2^{64}$.\<close>

definition convert :: "string \<Rightarrow> int \<Rightarrow> int \<Rightarrow> string \<Rightarrow> int throwing" where
  "convert name limit negative_limit s =
     (case read_decimal limit negative_limit (s, True) of
        None \<Rightarrow> Inl name
      | Some (negative, v, rest) \<Rightarrow> Inr (if negative then - v else v))"

definition stoi :: "string \<Rightarrow> int throwing" where
  "stoi = convert ''stoi'' i32_max (i32_max + 1)"

definition stoll :: "string \<Rightarrow> int throwing" where
  "stoll = convert ''stoll'' i64_max (i64_max + 1)"

definition stoul :: "string \<Rightarrow> u64 throwing" where
  "stoul s = ebind (convert ''stoul'' (int u64_max) (int u64_max) s) (\<lambda>v. Inr (word_of_int v))"

definition stoull :: "string \<Rightarrow> u64 throwing" where
  "stoull s = ebind (convert ''stoull'' (int u64_max) (int u64_max) s) (\<lambda>v. Inr (word_of_int v))"

section \<open>Options of the command line tool\<close>

record CliOptions =
  co_host :: string
  co_port :: u16
  co_command :: string
  co_command_index :: nat

definition CliOptions_default :: CliOptions where
  "CliOptions_default = \<lparr>co_host = ''127.0.0.1'', co_port = 9092, co_command = [], co_command_index = 1\<rparr>"

text \<open>\<^verbatim>\<open>ReadArg\<close>: the value after an argument, and the arguments after it.\<close>

definition ReadArg :: "string \<Rightarrow> string list \<Rightarrow> (string \<times> string list) throwing" where
  "ReadArg arg args = (case args of [] \<Rightarrow> Inl (''missing value for '' @ arg) | v # others \<Rightarrow> Inr (v, others))"

text \<open>The loop of \<^verbatim>\<open>ParseGlobalOptions\<close> at argument \<open>i\<close>, with the arguments from there on.\<close>

function parse_global :: "nat \<Rightarrow> string list \<Rightarrow> CliOptions \<Rightarrow> CliOptions throwing" where
  "parse_global i [] options = Inl ''missing command''"
| "parse_global i (arg # args) options =
     (if arg = ''--host'' then
        (case ReadArg arg args of
           Inl e \<Rightarrow> Inl e
         | Inr (v, others) \<Rightarrow> parse_global (i + 2) others (options\<lparr>co_host := v\<rparr>))
      else if arg = ''--port'' then
        (case ReadArg arg args of
           Inl e \<Rightarrow> Inl e
         | Inr (v, others) \<Rightarrow>
             (case stoul v of
                Inl e \<Rightarrow> Inl e
              | Inr n \<Rightarrow> parse_global (i + 2) others (options\<lparr>co_port := ucast n\<rparr>)))
      else Inr (options\<lparr>co_command := arg, co_command_index := i\<rparr>))"
  by pat_completeness auto
termination
  by (relation "measure (\<lambda>(_, args, _). length args)") (auto simp: ReadArg_def split: list.splits)

definition ParseGlobalOptions :: "string list \<Rightarrow> CliOptions throwing" where
  "ParseGlobalOptions argv = parse_global 1 (tl argv) CliOptions_default"

fun find_option :: "string \<Rightarrow> string \<Rightarrow> string list \<Rightarrow> string throwing" where
  "find_option name default_value [] = Inr default_value"
| "find_option name default_value (arg # args) =
     (if arg = name then (case args of [] \<Rightarrow> Inl (''missing value for '' @ name) | v # _ \<Rightarrow> Inr v)
      else find_option name default_value args)"

definition OptionValue :: "string list \<Rightarrow> nat \<Rightarrow> string \<Rightarrow> string \<Rightarrow> string throwing" where
  "OptionValue argv start name default_value = find_option name default_value (drop (start + 1) argv)"

definition RequiredOption :: "string list \<Rightarrow> nat \<Rightarrow> string \<Rightarrow> string throwing" where
  "RequiredOption argv start name =
     ebind (OptionValue argv start name []) (\<lambda>v.
       if v = [] then Inl (''missing required option '' @ name) else Inr v)"

definition ToClientOptions :: "CliOptions \<Rightarrow> ClientOptions" where
  "ToClientOptions options = ClientOptions_default\<lparr>cl_host := co_host options, cl_port := co_port options\<rparr>"

section \<open>Requests\<close>

text \<open>The branches of \<^verbatim>\<open>BuildRequest\<close>; \<open>req\<close> and \<open>opt\<close> look an option up.\<close>

definition produce_request ::
  "u64 \<Rightarrow> (string \<Rightarrow> string throwing) \<Rightarrow> (string \<Rightarrow> string \<Rightarrow> string throwing) \<Rightarrow> ProduceRequest throwing" where
  "produce_request now req opt =
     ebind (req ''--topic'') (\<lambda>topic.
     ebind (opt ''--partition'' []) (\<lambda>partition.
     ebind (if partition = [] then Inr kInvalidPartitionId else stoi partition) (\<lambda>partition_id.
     ebind (opt ''--timestamp'' []) (\<lambda>timestamp.
     ebind (if timestamp = [] then Inr now else stoull timestamp) (\<lambda>ts.
     ebind (req ''--key'') (\<lambda>key.
     ebind (req ''--value'') (\<lambda>val.
       Inr \<lparr>prq_topic = topic, prq_partition_id = partition_id,
            prq_records = [\<lparr>prc_timestamp = ts, prc_key = key, prc_value = val, prc_retry = None\<rparr>]\<rparr>)))))))"

definition fetch_request ::
  "(string \<Rightarrow> string throwing) \<Rightarrow> (string \<Rightarrow> string \<Rightarrow> string throwing) \<Rightarrow> FetchRequest throwing" where
  "fetch_request req opt =
     ebind (req ''--topic'') (\<lambda>topic.
     ebind (ebind (req ''--partition'') stoi) (\<lambda>partition_id.
     ebind (ebind (req ''--offset'') stoll) (\<lambda>offset.
     ebind (ebind (opt ''--max-bytes'' ''4096'') stoul) (\<lambda>max_bytes.
       Inr \<lparr>frq_topic = topic, frq_partition_id = partition_id, frq_offset = offset, frq_max_bytes = ucast max_bytes\<rparr>))))"

definition BuildRequest :: "u64 \<Rightarrow> u64 \<Rightarrow> string list \<Rightarrow> CliOptions \<Rightarrow> RequestEnvelope throwing" where
  "BuildRequest now now' argv options =
     (let req = RequiredOption argv (co_command_index options);
          opt = OptionValue argv (co_command_index options);
          envelope = (\<lambda>key body. Inr \<lparr>rqe_api_key = key, rqe_version = kProtocolVersion, rqe_request_id = now,
                                       rqe_body = body\<rparr>);
          command = co_command options
      in if command = ''create-topic'' then
           ebind (req ''--topic'') (\<lambda>topic.
           ebind (ebind (req ''--partitions'') stoul) (\<lambda>n.
             envelope kCreateTopic (ReqCreateTopic \<lparr>ctq_topic = topic, ctq_partition_count = ucast n\<rparr>)))
         else if command = ''metadata'' then
           ebind (opt ''--topic'' []) (\<lambda>topic. envelope kMetadata (ReqMetadata \<lparr>mrq_topic = topic\<rparr>))
         else if command = ''produce'' then
           ebind (produce_request now' req opt) (\<lambda>request. envelope kProduce (ReqProduce request))
         else if command = ''fetch'' then
           ebind (fetch_request req opt) (\<lambda>request. envelope kFetch (ReqFetch request))
         else if command = ''commit-offset'' then
           ebind (req ''--group'') (\<lambda>group.
           ebind (req ''--topic'') (\<lambda>topic.
           ebind (ebind (req ''--partition'') stoi) (\<lambda>p.
           ebind (ebind (req ''--offset'') stoll) (\<lambda>offset.
             envelope kCommitOffset (ReqCommitOffset \<lparr>coq_group_id = group, coq_topic = topic, coq_partition_id = p,
               coq_offset = offset\<rparr>)))))
         else if command = ''fetch-offset'' then
           ebind (req ''--group'') (\<lambda>group.
           ebind (req ''--topic'') (\<lambda>topic.
           ebind (ebind (req ''--partition'') stoi) (\<lambda>p.
             envelope kFetchCommittedOffset
               (ReqFetchCommittedOffset \<lparr>fcq_group_id = group, fcq_topic = topic, fcq_partition_id = p\<rparr>))))
         else if command = ''join-group'' then
           ebind (req ''--group'') (\<lambda>group.
           ebind (req ''--topic'') (\<lambda>topic.
           ebind (opt ''--member'' []) (\<lambda>member.
             envelope kJoinGroup (ReqJoinGroup \<lparr>jgq_group_id = group, jgq_member_id = member, jgq_topic = topic\<rparr>))))
         else if command = ''sync-group'' then
           ebind (req ''--group'') (\<lambda>group.
           ebind (req ''--member'') (\<lambda>member.
           ebind (ebind (req ''--generation'') stoi) (\<lambda>generation.
             envelope kSyncGroup
               (ReqSyncGroup \<lparr>sgq_group_id = group, sgq_member_id = member, sgq_generation_id = generation\<rparr>))))
         else if command = ''heartbeat'' then
           ebind (req ''--group'') (\<lambda>group.
           ebind (req ''--member'') (\<lambda>member.
           ebind (ebind (req ''--generation'') stoi) (\<lambda>generation.
             envelope kHeartbeat
               (ReqHeartbeat \<lparr>hbq_group_id = group, hbq_member_id = member, hbq_generation_id = generation\<rparr>))))
         else if command = ''leave-group'' then
           ebind (req ''--group'') (\<lambda>group.
           ebind (req ''--member'') (\<lambda>member.
             envelope kLeaveGroup (ReqLeaveGroup \<lparr>lgq_group_id = group, lgq_member_id = member\<rparr>)))
         else Inl (''unknown command: '' @ command))"

section \<open>Responses\<close>

text \<open>What a program wrote to its two output streams, and its exit status.\<close>

record outcome =
  oc_stdout :: string
  oc_stderr :: string
  oc_status :: int

definition endl :: string where "endl = [CHR 0x0A]"

definition word_string :: "'a::len word \<Rightarrow> string" where "word_string w = nat_to_string (unat w)"

definition bool_string :: "bool \<Rightarrow> string" where "bool_string b = (if b then ''true'' else ''false'')"

definition printed :: "string list \<Rightarrow> outcome throwing" where
  "printed parts = Inr \<lparr>oc_stdout = concat parts @ endl, oc_stderr = [], oc_status = 0\<rparr>"

fun record_lines :: "Offset \<Rightarrow> ProtocolRecord list \<Rightarrow> string" where
  "record_lines offset [] = []"
| "record_lines offset (rec # recs) =
     ''offset='' @ to_string offset @ '' timestamp='' @ word_string (prc_timestamp rec) @ '' key='' @ prc_key rec @
     '' value='' @ prc_value rec @ endl @ record_lines (offset + 1) recs"

fun comma_separated :: "PartitionId list \<Rightarrow> string" where
  "comma_separated [] = []"
| "comma_separated [p] = to_string p"
| "comma_separated (p # ps) = to_string p @ '','' @ comma_separated ps"

definition wrong_variant :: "outcome throwing" where "wrong_variant = Inl ''std::get: wrong index for variant''"

definition PrintResponse :: "ResponseEnvelope \<Rightarrow> outcome throwing" where
  "PrintResponse response =
     (if er_error_code (rse_error response) \<noteq> pkNone
      then Inr \<lparr>oc_stdout = [], oc_stderr = ProtocolErrorCodeName (er_error_code (rse_error response)) @ '': '' @
                  er_message (rse_error response) @ endl, oc_status = 2\<rparr>
      else
        case (rse_api_key response, rse_body response) of
          (kNack, RspNack b) \<Rightarrow>
            printed [''topic='', nks_topic b, '' partition='', to_string (nks_partition_id b), '' offset='',
              to_string (nks_offset b), '' retry_count='', word_string (rm_retry_count (nks_retry b)),
              '' dead_letter='', bool_string (nks_dead_letter b)]
        | (kCreateTopic, RspCreateTopic b) \<Rightarrow>
            printed [''created topic='', cts_topic b, '' partitions='', word_string (cts_partition_count b)]
        | (kMetadata, RspMetadata b) \<Rightarrow>
            Inr \<lparr>oc_stdout = concat (map (\<lambda>t. ''topic='' @ tm_topic t @ '' partitions='' @
                   word_string (tm_partition_count t) @ endl) (mrs_topics b)), oc_stderr = [], oc_status = 0\<rparr>
        | (kProduce, RspProduce b) \<Rightarrow>
            printed [''partition='', to_string (prs_partition_id b), '' base_offset='', to_string (prs_base_offset b),
              '' record_count='', word_string (prs_record_count b)]
        | (kFetch, RspFetch b) \<Rightarrow>
            Inr \<lparr>oc_stdout = ''base_offset='' @ to_string (frs_base_offset b) @ '' high_watermark='' @
                   to_string (frs_high_watermark b) @ '' records='' @ nat_to_string (length (frs_records b)) @ endl @
                   record_lines (frs_base_offset b) (frs_records b), oc_stderr = [], oc_status = 0\<rparr>
        | (kCommitOffset, RspCommitOffset b) \<Rightarrow>
            printed [''group='', cos_group_id b, '' topic='', cos_topic b, '' partition='',
              to_string (cos_partition_id b), '' offset='', to_string (cos_offset b)]
        | (kFetchCommittedOffset, RspFetchCommittedOffset b) \<Rightarrow>
            printed [''group='', fcs_group_id b, '' topic='', fcs_topic b, '' partition='',
              to_string (fcs_partition_id b), '' committed='', bool_string (fcs_committed b), '' offset='',
              to_string (fcs_offset b)]
        | (kJoinGroup, RspJoinGroup b) \<Rightarrow>
            printed [''group='', jgs_group_id b, '' member='', jgs_member_id b, '' generation='',
              to_string (jgs_generation_id b), '' leader='', jgs_leader_id b]
        | (kSyncGroup, RspSyncGroup b) \<Rightarrow>
            printed [''group='', sgs_group_id b, '' member='', sgs_member_id b, '' generation='',
              to_string (sgs_generation_id b), '' topic='', pa_topic (sgs_assignment b), '' partitions='',
              comma_separated (pa_partition_ids (sgs_assignment b))]
        | (kHeartbeat, RspHeartbeat b) \<Rightarrow>
            printed [''group='', hbs_group_id b, '' member='', hbs_member_id b, '' generation='',
              to_string (hbs_generation_id b)]
        | (kLeaveGroup, RspLeaveGroup b) \<Rightarrow>
            printed [''group='', lgs_group_id b, '' member='', lgs_member_id b, '' generation='',
              to_string (lgs_generation_id b)]
        | _ \<Rightarrow> wrong_variant)"

text \<open>\<^verbatim>\<open>main\<close>: the network and the clock of the connection are arguments; \<open>usage\<close> is what \<^verbatim>\<open>PrintUsage\<close>
  prints.\<close>

definition cli_main ::
  "string \<Rightarrow> u64 \<Rightarrow> u64 \<Rightarrow> connect_rets list \<Rightarrow> u64 list \<Rightarrow> string list \<Rightarrow> outcome" where
  "cli_main usage now now' connects clock argv =
     (case ebind (ParseGlobalOptions argv) (\<lambda>options.
           ebind (BuildRequest now now' argv options) (\<lambda>request.
           case fst (RoundTrip request (mk_ClientConnection (ToClientOptions options) connects clock)) of
             Inl e \<Rightarrow> Inl (Status_ToString e)
           | Inr response \<Rightarrow> PrintResponse response)) of
        Inr result \<Rightarrow> result
      | Inl what \<Rightarrow> \<lparr>oc_stdout = [], oc_stderr = what @ endl @ usage, oc_status = 1\<rparr>)"

section \<open>Arguments of the broker\<close>

fun split_slash :: "string \<Rightarrow> string \<Rightarrow> string list" where
  "split_slash part [] = [rev part]"
| "split_slash part (c # cs) = (if c = CHR ''/'' then rev part # split_slash [] cs else split_slash (c # part) cs)"

text \<open>A path as the list of its components, the root directory being one.\<close>

definition to_path :: "string \<Rightarrow> path" where
  "to_path s = (if s \<noteq> [] \<and> hd s = CHR ''/'' then [''/''] else []) @ filter (\<lambda>part. part \<noteq> []) (split_slash [] s)"

datatype broker_args = ShowUsage | UnknownArgument string | Settings Config

definition setting :: "string \<Rightarrow> string \<Rightarrow> Config \<Rightarrow> Config throwing" where
  "setting arg v c =
     (if arg = ''--host'' then Inr (c\<lparr>cf_broker := (cf_broker c)\<lparr>bc_host := v\<rparr>\<rparr>)
      else if arg = ''--port'' then
        ebind (stoul v) (\<lambda>n. Inr (c\<lparr>cf_broker := (cf_broker c)\<lparr>bc_port := ucast n\<rparr>\<rparr>))
      else if arg = ''--data-dir'' then Inr (c\<lparr>cf_storage := (cf_storage c)\<lparr>sc_data_dir := to_path v\<rparr>\<rparr>)
      else if arg = ''--io-threads'' then
        ebind (stoi v) (\<lambda>n. Inr (c\<lparr>cf_network := (cf_network c)\<lparr>nc_io_threads := n\<rparr>\<rparr>))
      else ebind (stoi v) (\<lambda>n. Inr (c\<lparr>cf_network := (cf_network c)\<lparr>nc_worker_threads := n\<rparr>\<rparr>)))"

fun parse_broker_args :: "string list \<Rightarrow> Config \<Rightarrow> broker_args throwing" where
  "parse_broker_args [] c = Inr (Settings c)"
| "parse_broker_args (arg # args) c =
     (if arg \<in> {''--host'', ''--port'', ''--data-dir'', ''--io-threads'', ''--worker-threads''} then
        (case args of
           [] \<Rightarrow> Inl (''missing value for '' @ arg)
         | v # others \<Rightarrow> (case setting arg v c of Inl e \<Rightarrow> Inl e | Inr c \<Rightarrow> parse_broker_args others c))
      else if arg = ''--help'' \<or> arg = ''-h'' then Inr ShowUsage
      else Inr (UnknownArgument arg))"

text \<open>The beginning of \<^verbatim>\<open>main\<close>: the checked configuration, or the early exit.\<close>

definition broker_config :: "string \<Rightarrow> u32 \<Rightarrow> string list \<Rightarrow> outcome + Config" where
  "broker_config usage hardware_concurrency argv =
     (case parse_broker_args (tl argv) (Config_default hardware_concurrency) of
        Inl what \<Rightarrow> Inl \<lparr>oc_stdout = [], oc_stderr = what @ endl @ usage, oc_status = 1\<rparr>
      | Inr ShowUsage \<Rightarrow> Inl \<lparr>oc_stdout = [], oc_stderr = usage, oc_status = 0\<rparr>
      | Inr (UnknownArgument arg) \<Rightarrow>
          Inl \<lparr>oc_stdout = [], oc_stderr = ''unknown argument: '' @ arg @ endl @ usage, oc_status = 1\<rparr>
      | Inr (Settings c) \<Rightarrow>
          if Status_ok (Config_Validate c) then Inr c
          else Inl \<lparr>oc_stdout = [], oc_stderr = Status_ToString (Config_Validate c) @ endl, oc_status = 1\<rparr>)"

section \<open>What the programs pass on\<close>

lemma convert_range:
  assumes "convert name limit negative_limit s = Inr v" "0 \<le> limit" "0 \<le> negative_limit"
  shows "- negative_limit \<le> v \<and> v \<le> limit"
  using assms by (auto simp: convert_def read_decimal_def Let_def split: option.splits if_splits
      dest!: parse_digits_range)

lemma stoi_range: "stoi s = Inr v \<Longrightarrow> is_i32 v"
  using convert_range [of "''stoi''" i32_max "i32_max + 1" s v] by (simp add: stoi_def is_i32_def)

lemma stoll_range: "stoll s = Inr v \<Longrightarrow> is_i64 v"
  using convert_range [of "''stoll''" i64_max "i64_max + 1" s v] by (simp add: stoll_def is_i64_def)

text \<open>Every request that the tool builds is well typed and has the body of its api key, and survives the
  wire unchanged.\<close>

lemma BuildRequest_typed:
  assumes "BuildRequest now now' argv options = Inr request"
  shows "request_typed (rqe_body request) \<and> wire_request_envelope request = request"
proof -
  have "is_i32 kInvalidPartitionId" by (simp add: is_i32_def kInvalidPartitionId_def)
  with assms show ?thesis
    by (auto simp: BuildRequest_def Let_def ebind_Inr_iff produce_request_def fetch_request_def request_typed_def
        wire_request_envelope_def wire_request_def plain_record_def stoi_range stoll_range split: if_splits)
qed

lemma BuildRequest_arrives:
  assumes "BuildRequest now now' argv options = Inr request" "EncodeRequest request = Inr frame"
  shows "DecodeRequest frame = Inr request"
  using DecodeRequest_EncodeRequest [OF assms(2)] BuildRequest_typed [OF assms(1)] by simp

lemma smap_InrD: "smap f m s = (Inr y, s') \<Longrightarrow> \<exists>x. y = f x"
  by (auto simp: smap_def sbind_def sreturn_def split: prod.splits sum.splits)

lemma fst_sbind_Inr_iff: "fst (sbind m f s) = Inr y \<longleftrightarrow> (\<exists>x s'. m s = (Inr x, s') \<and> fst (f x s') = Inr y)"
  by (auto simp: sbind_def split: prod.splits sum.splits)

text \<open>A decoded response can be printed: \<^verbatim>\<open>std::get\<close> does not throw.\<close>

lemma DecodeResponse_printed:
  assumes "DecodeResponse frame = Inr response"
  shows "\<exists>oc. PrintResponse response = Inr oc \<and>
    oc_status oc = (if er_error_code (rse_error response) = pkNone then 0 else 2)"
proof (cases "er_error_code (rse_error response) = pkNone")
  case False
  then show ?thesis by (simp add: PrintResponse_def)
next
  case True
  with assms obtain rd rd' where
    "DecodeResponseBody (rse_api_key response) (rse_version response) rd = (Inr (rse_body response), rd')"
    by (auto simp: DecodeResponse_def rbind_Inr_iff run_reader_def fst_sbind_Inr_iff finish_def split: if_splits)
  with True show ?thesis
    by (cases "rse_api_key response")
      (auto simp: DecodeResponseBody_def PrintResponse_def printed_def dest!: smap_InrD)
qed

text \<open>The exit status tells what happened: 0 and 2 come from a response to the very request the arguments
  describe, 2 for a refusal; without a response the status is 1.\<close>

lemma cli_status:
  "case ebind (ParseGlobalOptions argv) (\<lambda>options. ebind (BuildRequest now now' argv options) (\<lambda>request.
       Inr (request, RoundTrip request (mk_ClientConnection (ToClientOptions options) connects clock)))) of
     Inl what \<Rightarrow> oc_status (cli_main usage now now' connects clock argv) = 1
   | Inr (request, Inl e, cn') \<Rightarrow> oc_status (cli_main usage now now' connects clock argv) = 1
   | Inr (request, Inr response, cn') \<Rightarrow> rse_request_id response = rqe_request_id request \<and>
       oc_status (cli_main usage now now' connects clock argv) =
         (if er_error_code (rse_error response) = pkNone then 0 else 2)"
proof (cases "ebind (ParseGlobalOptions argv) (\<lambda>options. ebind (BuildRequest now now' argv options) (\<lambda>request.
       Inr (request, RoundTrip request (mk_ClientConnection (ToClientOptions options) connects clock))))")
  case (Inl what)
  then show ?thesis
    by (cases "ParseGlobalOptions argv") (auto simp: cli_main_def ebind_def split: sum.splits)
next
  case (Inr x)
  obtain request r cn' where x: "x = (request, r, cn')" by (metis prod_cases3)
  from Inr x obtain options where o: "ParseGlobalOptions argv = Inr options" "BuildRequest now now' argv options = Inr request"
    "RoundTrip request (mk_ClientConnection (ToClientOptions options) connects clock) = (r, cn')"
    by (auto simp: ebind_Inr_iff)
  show ?thesis
  proof (cases r)
    case (Inl e)
    with Inr x o show ?thesis by (simp add: cli_main_def)
  next
    case r: (Inr response)
    from RoundTrip_ok [OF o(3) [unfolded r]] obtain frame where "DecodeResponse frame = Inr response"
      "rse_request_id response = rqe_request_id request" by blast
    with DecodeResponse_printed Inr x o r show ?thesis by (fastforce simp: cli_main_def)
  qed
qed

text \<open>A port above 65535 wraps around.\<close>

lemma cli_port_wraps:
  "ParseGlobalOptions [''logmq_cli'', ''--port'', ''65537'', ''metadata''] =
     Inr \<lparr>co_host = ''127.0.0.1'', co_port = 1, co_command = ''metadata'', co_command_index = 3\<rparr>"
  by (simp add: ParseGlobalOptions_def CliOptions_default_def ReadArg_def stoul_def convert_def read_decimal_def
      is_space_def is_digit_def)

lemma setting_others:
  "setting arg v c = Inr c' \<Longrightarrow> cf_consumer c' = cf_consumer c \<and> bc_id (cf_broker c') = bc_id (cf_broker c) \<and>
     sc_segment_bytes (cf_storage c') = sc_segment_bytes (cf_storage c) \<and>
     sc_flush_policy (cf_storage c') = sc_flush_policy (cf_storage c) \<and>
     nc_max_connections (cf_network c') = nc_max_connections (cf_network c)"
  by (auto simp: setting_def ebind_Inr_iff split: if_splits)

text \<open>A broker that starts runs with a valid configuration, the defaults where no argument says otherwise.\<close>

lemma broker_config_ok:
  assumes "broker_config usage n argv = Inr c"
  shows "Status_ok (Config_Validate c) \<and> cf_consumer c = cf_consumer (Config_default n) \<and>
    sc_segment_bytes (cf_storage c) = sc_segment_bytes (cf_storage (Config_default n)) \<and>
    sc_flush_policy (cf_storage c) = sc_flush_policy (cf_storage (Config_default n))"
proof -
  have "cf_consumer c' = cf_consumer c \<and> sc_segment_bytes (cf_storage c') = sc_segment_bytes (cf_storage c) \<and>
      sc_flush_policy (cf_storage c') = sc_flush_policy (cf_storage c)"
    if "parse_broker_args args c = Inr (Settings c')" for args c c'
    using that by (induction args c rule: parse_broker_args.induct)
      (auto split: if_splits list.splits sum.splits dest: setting_others)
  with assms show ?thesis by (auto simp: broker_config_def split: sum.splits broker_args.splits if_splits)
qed

end
