(* ===== verification/EndToEnd.thy ===== *)
theory EndToEnd
  imports ClientConnection TcpConnection BrokerFacts
begin

text \<open>
  The client library and the broker together: what \<^verbatim>\<open>RoundTrip\<close> returns when the bytes on its
  stream are those that a worker of the server made for the request it sent.
\<close>

text \<open>The server decodes the very request from the bytes that the client writes.\<close>

lemma request_arrives:
  assumes "EncodeRequest request = Inr encoded" "request_typed (rqe_body request)"
  shows "FrameDecoder_Push encoded (mk_FrameDecoder kMaxFrameBytes) =
    (Inr [wire_request_envelope request], mk_FrameDecoder kMaxFrameBytes)"
  using push_loop_frames [of "[request]" "[encoded]" kMaxFrameBytes "[]"] assms
  by (simp add: FrameDecoder_Push_def mk_FrameDecoder_def kMaxFrameBytes_def kFrameHeaderBytes_def)

text \<open>A response that can be encoded reaches the client as the broker made it, error responses without
  payload; its id and its api key always match.\<close>

lemma broker_answers_client:
  assumes req: "EncodeRequest request = Inr encoded"
    and res: "EncodeResponse (fst (Handle clock request st)) = Inr frame"
      "response_typed (rse_body (fst (Handle clock request st)))"
    and cn: "0 \<le> cn_fd cn" "cn_socket cn = \<lparr>so_recv = rs, so_send = Sent k # ws, so_sent = out\<rparr>" "length encoded \<le> k"
    and rs: "smooth rs" "arrived rs = fst (run_task clock request st)"
  shows "\<exists>cn'. RoundTrip request cn = (Inr (wire_response_envelope (fst (Handle clock request st))), cn') \<and>
    so_sent (cn_socket cn') = out @ encoded \<and> 0 \<le> cn_fd cn'"
proof -
  have "fst (run_task clock request st) = frame @ []" using res(1)
    by (cases "Handle clock request st") (simp add: run_task_def)
  with rs(2) have "arrived rs = frame @ []" by simp
  from RoundTrip_succeeds [OF req res _ _ cn rs(1) this] Handle_reply [of request clock st] cn(1) show ?thesis
    by (auto simp: reply_to_def)
qed

end
