(* ===== verification/BrokerMain.thy ===== *)
theory BrokerMain
  imports CommandLine ServerRun
begin

text \<open>
  Models \<^verbatim>\<open>src/broker/main.cpp\<close> and the methods \<^verbatim>\<open>Loop\<close> and \<^verbatim>\<open>Stop\<close> of \<^verbatim>\<open>src/net/tcp_server.cpp\<close> as the
  program of several threads that they are: the main thread runs the main loop of the server,
  a watcher thread waits for the stop request of a signal handler and calls \<^verbatim>\<open>Stop\<close>, the
  workers finish their tasks, and the threads of the other loops end.

  Where a thread stands is part of the state. A step of a thread is a function that is
  undefined while the thread has to wait: for the thread that runs the body of \<^verbatim>\<open>call_once\<close>, for
  the future that the shutdown lambda fulfils, in a join, or in the poller. The flag
  \<open>br_ended\<close> of a loop's thread may rise once the loop has been told to quit.
\<close>

section \<open>The program\<close>

datatype caller = MainThread | WatcherThread

text \<open>The points of \<^verbatim>\<open>Stop\<close>: at \<^verbatim>\<open>call_once\<close>, and in its body before the locked section, with its result
  before the lambda is queued or called, before the wakeup of a queued lambda, in the wait,
  before and inside \<^verbatim>\<open>Quit\<close>, and before and in the two groups of joins.\<close>

datatype stop_pc =
  SOnce | SFlag | SPost bool | SWake | SWait | SQuit | SQuitWake | SWorkers | SJoinWorkers | SLoops | SJoinLoops

datatype main_pc =
  MEnter | MLoop "unit loop_phase" | MStop stop_pc | MClose | MRequest "unit Result" | MJoin "unit Result" | MExit int

datatype watcher_pc = WCheck | WStop stop_pc | WDone

datatype once_flag = NotCalled | Calling caller | Called

record broker_program =
  br_server :: TcpServer
  br_main :: main_pc
  br_watcher :: watcher_pc
  br_stop_requested :: bool
  br_once :: once_flag
  br_ready :: bool
  br_ended :: "bool list"

section \<open>Start\<close>

definition RetryOptions_default :: RetryOptions where
  "RetryOptions_default = \<lparr>ro_delay = 5000, ro_max_retries = 3\<rparr>"

definition broker_options :: "Config \<Rightarrow> BrokerServiceOptions" where
  "broker_options config =
     \<lparr>bso_storage = cf_storage config, bso_consumer = cf_consumer config, bso_retry = RetryOptions_default\<rparr>"

text \<open>\<^verbatim>\<open>main\<close> from the checked configuration to the call of \<^verbatim>\<open>Loop\<close>: the line it prints and the program
  with its watcher, or an early exit. What the system calls return are arguments.\<close>

definition broker_startup ::
  "Config \<Rightarrow> Clock \<Rightarrow> Disk \<Rightarrow> (poll_errno + nat) \<times> (string + nat) \<Rightarrow> ((poll_errno + nat) \<times> (string + nat)) list \<Rightarrow>
   listen_rets \<Rightarrow> outcome + (string \<times> broker_program)" where
  "broker_startup config clock disk main_ret io_rets listen_ret =
     (case BrokerService_Start clock (mk_BrokerService (broker_options config), disk) of
        (Inl e, _) \<Rightarrow> Inl \<lparr>oc_stdout = [], oc_stderr = Status_ToString e @ endl, oc_status = 1\<rparr>
      | (Inr _, service) \<Rightarrow>
          (case TcpServer_Start main_ret io_rets listen_ret (mk_TcpServer (TcpServerOptionsFromConfig config) service) of
             (Inl e, _) \<Rightarrow> Inl \<lparr>oc_stdout = [], oc_stderr = Status_ToString e @ endl, oc_status = 1\<rparr>
           | (Inr _, sv) \<Rightarrow>
               Inr (''LogMQ broker listening on '' @ bc_host (cf_broker config) @ '':'' @ word_string (sv_bound_port sv) @ endl,
                    \<lparr>br_server = sv, br_main = MEnter, br_watcher = WCheck, br_stop_requested = False, br_once = NotCalled,
                     br_ready = False, br_ended = replicate (length (sv_io_loops sv)) False\<rparr>)))"

text \<open>The same from the command line on.\<close>

definition broker_main ::
  "string \<Rightarrow> u32 \<Rightarrow> string list \<Rightarrow> Clock \<Rightarrow> Disk \<Rightarrow> (poll_errno + nat) \<times> (string + nat) \<Rightarrow>
   ((poll_errno + nat) \<times> (string + nat)) list \<Rightarrow> listen_rets \<Rightarrow> outcome + (string \<times> broker_program)" where
  "broker_main usage hardware_concurrency argv clock disk main_ret io_rets listen_ret =
     (case broker_config usage hardware_concurrency argv of
        Inl result \<Rightarrow> Inl result
      | Inr config \<Rightarrow> broker_startup config clock disk main_ret io_rets listen_ret)"

section \<open>Stop\<close>

definition on_server :: "(TcpServer \<Rightarrow> TcpServer) \<Rightarrow> broker_program \<Rightarrow> broker_program" where
  "on_server f br = br\<lparr>br_server := f (br_server br)\<rparr>"

definition on_main_loop :: "(unit EventLoop \<Rightarrow> unit EventLoop) \<Rightarrow> broker_program \<Rightarrow> broker_program" where
  "on_main_loop f = on_server (\<lambda>sv. sv\<lparr>sv_main_loop := f (sv_main_loop sv)\<rparr>)"

text \<open>The lambda \<^verbatim>\<open>shutdown\<close> with its promise.\<close>

definition run_shutdown :: "broker_program \<Rightarrow> broker_program" where
  "run_shutdown br = (on_server stop_functor br)\<lparr>br_ready := True\<rparr>"

definition thread_number :: "caller \<Rightarrow> nat" where
  "thread_number t = (case t of MainThread \<Rightarrow> 0 | WatcherThread \<Rightarrow> 1)"

text \<open>One step of \<^verbatim>\<open>Stop\<close>: \<open>None\<close> while it has to wait; the next point, or none on return.\<close>

definition stop_step :: "caller \<Rightarrow> stop_pc \<Rightarrow> broker_program \<Rightarrow> (stop_pc option \<times> broker_program) option" where
  "stop_step t pc br =
     (case pc of
        SOnce \<Rightarrow>
          (case br_once br of
             NotCalled \<Rightarrow> Some (Some SFlag, br\<lparr>br_once := Calling t\<rparr>)
           | Calling _ \<Rightarrow> None
           | Called \<Rightarrow> Some (None, br))
      | SFlag \<Rightarrow> Some (Some (SPost (sv_loop_running (br_server br))), on_server stop_flag br)
      | SPost loop_running \<Rightarrow>
          if loop_running \<and> \<not> IsInLoopThread (thread_number t) (sv_main_loop (br_server br))
          then Some (Some SWake, on_main_loop (queue_functor ()) br)
          else Some (Some SWait, run_shutdown br)
      | SWake \<Rightarrow> Some (Some SWait, on_main_loop Wakeup br)
      | SWait \<Rightarrow> if br_ready br then Some (Some SQuit, br) else None
      | SQuit \<Rightarrow> Some (Some SQuitWake, on_main_loop set_quit br)
      | SQuitWake \<Rightarrow> Some (Some SWorkers, on_main_loop Wakeup br)
      | SWorkers \<Rightarrow> Some (Some SJoinWorkers, on_server stop_workers br)
      | SJoinWorkers \<Rightarrow> if joined (sv_workers (br_server br)) then Some (Some SLoops, br) else None
      | SLoops \<Rightarrow> Some (Some SJoinLoops, on_server quit_loops br)
      | SJoinLoops \<Rightarrow> if list_all id (br_ended br) then Some (None, br\<lparr>br_once := Called\<rparr>) else None)"

section \<open>The main thread\<close>

text \<open>An event of the main loop: of the listening socket, or of the loop's own channel.\<close>

definition accept_callbacks :: "TcpServer callbacks" where
  "accept_callbacks = \<lparr>cb_read = Some HandleAccept, cb_write = None, cb_close = None, cb_error = None\<rparr>"

definition main_event :: "PollEvent \<Rightarrow> TcpServer \<Rightarrow> TcpServer" where
  "main_event ev sv =
     (case sv_accept_channel sv of
        Some ch \<Rightarrow>
          if pe_channel ev = Some (ch_ptr ch)
          then HandleEvent ch True accept_callbacks (pe_readable ev) (pe_writable ev) (pe_closed ev) (pe_error ev) sv
          else sv\<lparr>sv_main_loop := own_event ev (sv_main_loop sv)\<rparr>
      | None \<Rightarrow> sv\<lparr>sv_main_loop := own_event ev (sv_main_loop sv)\<rparr>)"

text \<open>The return of \<^verbatim>\<open>Poll\<close> with what the kernel reports.\<close>

definition polled :: "(u32 \<times> nat) wait_ret \<Rightarrow> unit EventLoop \<Rightarrow> unit loop_phase \<times> unit EventLoop" where
  "polled ret el =
     loop_polled (el\<lparr>el_poller := map_option (\<lambda>p. p\<lparr>ep_wait := [ret]\<rparr>) (el_poller el)\<rparr>)"

text \<open>The kernel reports the \<^verbatim>\<open>eventfd\<close> when its counter is not 0 and its descriptor is watched.\<close>

definition wakeup_event :: "unit EventLoop \<Rightarrow> bool" where
  "wakeup_event el \<longleftrightarrow> 0 < el_eventfd el \<and>
     (case el_poller el of None \<Rightarrow> False | Some p \<Rightarrow> fst (epoll_watched p (el_wakeup_read_fd el)))"

definition loop_step :: "unit loop_phase \<Rightarrow> broker_program \<Rightarrow> broker_program option" where
  "loop_step ph br =
     (let sv = br_server br; el = sv_main_loop sv
      in case ph of
           AtTop \<Rightarrow> Some (br\<lparr>br_main := MLoop (loop_top el)\<rparr>)
         | Waiting \<Rightarrow>
             if wakeup_event el
             then let (ph', el') = polled (Events [(EPOLLIN, 0)]) el
                  in Some ((on_main_loop (\<lambda>_. el') br)\<lparr>br_main := MLoop ph'\<rparr>)
             else None
         | Dispatching [] \<Rightarrow> Some (br\<lparr>br_main := MLoop (Swapping False)\<rparr>)
         | Dispatching (ev # evs) \<Rightarrow> Some ((on_server (main_event ev) br)\<lparr>br_main := MLoop (Dispatching evs)\<rparr>)
         | Swapping final \<Rightarrow>
             let (fs, el') = swap_pending el
             in Some ((on_main_loop (\<lambda>_. el') br)\<lparr>br_main := MLoop (RunningBatch final fs)\<rparr>)
         | RunningBatch final [] \<Rightarrow> Some (br\<lparr>br_main := MLoop (if final then Ended else AtTop)\<rparr>)
         | RunningBatch final (_ # fs) \<Rightarrow> Some ((run_shutdown br)\<lparr>br_main := MLoop (RunningBatch final fs)\<rparr>)
         | Ended \<Rightarrow> Some ((on_server (\<lambda>sv. sv\<lparr>sv_loop_running := False\<rparr>) br)\<lparr>br_main := MStop SOnce\<rparr>))"

text \<open>\<^verbatim>\<open>TcpServer::Loop\<close> up to the main loop; its end is the last phase of \<open>loop_step\<close>.\<close>

definition loop_enter :: "broker_program \<Rightarrow> broker_program" where
  "loop_enter br =
     (if sv_stopping (br_server br) then br\<lparr>br_main := MStop SOnce\<rparr>
      else (on_server (\<lambda>sv. sv\<lparr>sv_loop_running := True,
              sv_main_loop := (sv_main_loop sv)\<lparr>el_thread_id := thread_number MainThread\<rparr>\<rparr>) br)\<lparr>br_main := MLoop AtTop\<rparr>)"

definition main_step :: "broker_program \<Rightarrow> broker_program option" where
  "main_step br =
     (case br_main br of
        MEnter \<Rightarrow> Some (loop_enter br)
      | MLoop ph \<Rightarrow> loop_step ph br
      | MStop pc \<Rightarrow>
          map_option (\<lambda>(pc', br'). br'\<lparr>br_main := (case pc' of None \<Rightarrow> MClose | Some pc' \<Rightarrow> MStop pc')\<rparr>)
            (stop_step MainThread pc br)
      | MClose \<Rightarrow>
          let (status, service) = BrokerService_Close (sv_service (br_server br))
          in Some ((on_server (\<lambda>sv. sv\<lparr>sv_service := service\<rparr>) br)\<lparr>br_main := MRequest status\<rparr>)
      | MRequest status \<Rightarrow> Some (br\<lparr>br_stop_requested := True, br_main := MJoin status\<rparr>)
      | MJoin status \<Rightarrow>
          if br_watcher br = WDone
          then Some (br\<lparr>br_main := MExit (case status of Inl _ \<Rightarrow> 1 | Inr _ \<Rightarrow> 0)\<rparr>) else None
      | MExit _ \<Rightarrow> None)"

section \<open>The watcher\<close>

definition HandleSignal :: "broker_program \<Rightarrow> broker_program" where
  "HandleSignal br = br\<lparr>br_stop_requested := True\<rparr>"

definition watcher_step :: "broker_program \<Rightarrow> broker_program option" where
  "watcher_step br =
     (case br_watcher br of
        WCheck \<Rightarrow> if br_stop_requested br then Some (br\<lparr>br_watcher := WStop SOnce\<rparr>) else None
      | WStop pc \<Rightarrow>
          map_option (\<lambda>(pc', br'). br'\<lparr>br_watcher := (case pc' of None \<Rightarrow> WDone | Some pc' \<Rightarrow> WStop pc')\<rparr>)
            (stop_step WatcherThread pc br)
      | WDone \<Rightarrow> None)"

section \<open>All threads\<close>

definition set_workers :: "conn_task WorkerPool \<Rightarrow> broker_program \<Rightarrow> broker_program" where
  "set_workers p = on_server (\<lambda>sv. sv\<lparr>sv_workers := p\<rparr>)"

inductive thread_step :: "broker_program \<Rightarrow> broker_program \<Rightarrow> bool" where
  main: "main_step br = Some br' \<Longrightarrow> thread_step br br'"
| watcher: "watcher_step br = Some br' \<Longrightarrow> thread_step br br'"
| take_task: "p = sv_workers (br_server br) \<Longrightarrow> i < length (wp_threads p) \<Longrightarrow> wp_threads p ! i = Ready \<Longrightarrow>
    thread_step br (set_workers (Run_locked i p) br)"
| finish_task: "p = sv_workers (br_server br) \<Longrightarrow> i < length (wp_threads p) \<Longrightarrow> wp_threads p ! i = Running task \<Longrightarrow>
    thread_step br (on_server (worker_task clock task) (set_workers (set_thread i Ready p) br))"
| notify: "p = sv_workers (br_server br) \<Longrightarrow> wp_notify_one p = Suc n \<Longrightarrow> i < length (wp_threads p) \<Longrightarrow>
    wp_threads p ! i = Blocked \<Longrightarrow> thread_step br (set_workers (set_thread i Ready (p\<lparr>wp_notify_one := n\<rparr>)) br)"
| notify_nobody: "p = sv_workers (br_server br) \<Longrightarrow> wp_notify_one p = Suc n \<Longrightarrow> Blocked \<notin> set (wp_threads p) \<Longrightarrow>
    thread_step br (set_workers (p\<lparr>wp_notify_one := n\<rparr>) br)"
| notify_all: "p = sv_workers (br_server br) \<Longrightarrow> wp_notify_all p \<Longrightarrow> thread_step br (set_workers (wake_all p) br)"
| loop_ends: "l < length (br_ended br) \<Longrightarrow> \<not> br_ended br ! l \<Longrightarrow> el_quit (io_loop (sv_io_loops (br_server br) ! l)) \<Longrightarrow>
    thread_step br (br\<lparr>br_ended := (br_ended br)[l := True]\<rparr>)"

text \<open>What happens besides: clients connect and the network moves, the loops of the pool handle the events
  and functors of their connections, and the broker's own threads work.\<close>

inductive server_works :: "TcpServer \<Rightarrow> TcpServer \<Rightarrow> bool" where
  clients: "server_works sv (sv\<lparr>sv_accepts := accepts\<rparr>)"
| network: "sv_objects sv c = Some ob \<Longrightarrow>
    server_works sv (sv\<lparr>sv_objects := (sv_objects sv)(c \<mapsto>
      ob\<lparr>co_socket := (co_socket ob)\<lparr>so_recv := recvs, so_send := sends\<rparr>\<rparr>)\<rparr>)"
| event: "sv_objects sv c = Some ob \<Longrightarrow> server_works sv (with_conn c (connection_event c readable writable closed error) sv)"
| swap: "l < length (sv_io_loops sv) \<Longrightarrow> io_batch (sv_io_loops sv ! l) = [] \<Longrightarrow> server_works sv (swap_loop l sv)"
| run_io: "l < length (sv_io_loops sv) \<Longrightarrow> io_batch (sv_io_loops sv ! l) = f # fs \<Longrightarrow>
    server_works sv (run_functor l f (set_batch l fs sv))"
| spurious: "i < length (wp_threads (sv_workers sv)) \<Longrightarrow> wp_threads (sv_workers sv) ! i = Blocked \<Longrightarrow>
    server_works sv (sv\<lparr>sv_workers := set_thread i Ready (sv_workers sv)\<rparr>)"
| broker: "broker_step (sv_service sv) service \<Longrightarrow> server_works sv (sv\<lparr>sv_service := service\<rparr>)"

inductive environment_step :: "broker_program \<Rightarrow> broker_program \<Rightarrow> bool" where
  signal: "environment_step br (HandleSignal br)"
| arrival: "br_main br = MLoop Waiting \<Longrightarrow> polled ret (sv_main_loop (br_server br)) = (ph, el) \<Longrightarrow>
    environment_step br ((on_main_loop (\<lambda>_. el) br)\<lparr>br_main := MLoop ph\<rparr>)"
| works: "server_works (br_server br) sv \<Longrightarrow> environment_step br (br\<lparr>br_server := sv\<rparr>)"

definition program_step :: "broker_program \<Rightarrow> broker_program \<Rightarrow> bool" where
  "program_step br br' \<longleftrightarrow> thread_step br br' \<or> environment_step br br'"

definition exited :: "broker_program \<Rightarrow> bool" where
  "exited br \<longleftrightarrow> (\<exists>status. br_main br = MExit status)"

end
