(* ===== verification/BrokerControl.thy ===== *)
theory BrokerControl
  imports BrokerMain
begin

text \<open>
  Frame facts for the program of \<open>BrokerMain\<close>: what accepting, connections, workers and the lambda of
  \<^verbatim>\<open>Stop\<close> leave alone of the main loop and of the flags that decide the shutdown; that the main loop
  can always be woken through its \<^verbatim>\<open>eventfd\<close>; and that every step of the program is a step of the
  server of \<open>ServerRun\<close>, so that what holds of its runs holds of the program.
\<close>

section \<open>What the rest of the server leaves alone\<close>

definition control :: "TcpServer \<Rightarrow> unit EventLoop \<times> bool \<times> bool \<times> Channel option \<times> bool list" where
  "control sv =
     (sv_main_loop sv, sv_stopping sv, sv_loop_running sv, sv_accept_channel sv, map (\<lambda>l. el_quit (io_loop l)) (sv_io_loops sv))"

lemma map_update_same: "(l < length xs \<Longrightarrow> f y = f (xs ! l)) \<Longrightarrow> map f (xs[l := y]) = map f xs"
  by (cases "l < length xs") (simp_all add: map_update list_update_same_conv list_update_beyond)

lemma control_closes [simp]:
  "control (fold sys_close fds sv) = control sv" "control (fold RemoveConnection fds sv) = control sv"
  "control (sys_close fd sv) = control sv"
  by (induction fds arbitrary: sv) (simp_all add: sys_close_def RemoveConnection_def control_def)

lemma control_queue [simp]: "control (queue_in_io l f sv) = control sv"
  by (auto simp: control_def queue_in_io_def QueueInLoop_def queue_functor_def intro!: map_update_same)

lemma control_batches [simp]: "control (set_batch l fs sv) = control sv" "control (swap_loop l sv) = control sv"
  by (auto simp: control_def set_batch_def swap_loop_def swap_pending_def Let_def intro!: map_update_same)

lemma control_with_conn [simp]: "control (with_conn c f sv) = control sv"
proof (cases "sv_objects sv c")
  case (Some ob)
  obtain tc env where "f (conn_state c sv ob) = (tc, env)" by (rule prod.exhaust)
  with Some show ?thesis by (simp add: with_conn_def Let_def) (auto simp: control_def intro!: map_update_same)
qed (simp add: with_conn_def)

lemma control_connect [simp]: "control (connect_functor l fd sv) = control sv"
  by (simp add: connect_functor_def Let_def) (simp add: control_def)

lemma control_functor [simp]: "control (run_functor l f sv) = control sv"
  by (simp add: run_functor_def split: io_functor.split)

lemma control_accept_one [simp]: "control (accept_one fd nonblocking sv) = control sv"
  by (auto simp: accept_one_def NextLoop_def split: option.splits) (simp_all add: control_def)

lemma control_accept_loop [simp]: "control (accept_loop rets sv) = control sv"
  by (induction rets sv rule: accept_loop.induct) (simp_all, simp_all add: control_def)

lemma control_task [simp]: "control (worker_task clock task sv) = control sv"
  by (simp add: worker_task_def Let_def split: prod.split option.split) (simp add: control_def)

lemma control_shutdown [simp]: "control (fold TcpConnection_Shutdown cs sv) = control sv"
  by (induction cs arbitrary: sv) (simp_all add: TcpConnection_Shutdown_def split: option.split)

lemma control_workers [simp]: "control (sv\<lparr>sv_workers := p\<rparr>) = control sv" "control (sv\<lparr>sv_service := b\<rparr>) = control sv"
  "control (sv\<lparr>sv_listen_fd := fd\<rparr>) = control sv" "control (sv\<lparr>sv_connections := cs\<rparr>) = control sv"
  by (simp_all add: control_def)

lemma server_works_control: "server_works sv sv' \<Longrightarrow> control sv' = control sv"
  by (induction rule: server_works.induct) (simp_all, simp_all add: control_def)

lemma controlD:
  assumes "control sv' = control sv"
  shows "sv_main_loop sv' = sv_main_loop sv" "sv_stopping sv' = sv_stopping sv" "sv_loop_running sv' = sv_loop_running sv"
    "sv_accept_channel sv' = sv_accept_channel sv" "length (sv_io_loops sv') = length (sv_io_loops sv)"
    "map (\<lambda>l. el_quit (io_loop l)) (sv_io_loops sv') = map (\<lambda>l. el_quit (io_loop l)) (sv_io_loops sv)"
  using assms by (simp_all add: control_def) (metis length_map)

section \<open>The main loop can be woken\<close>

text \<open>Its poller works and watches the descriptor of the wakeups, which the accept channel cannot touch.\<close>

definition main_loop_ok :: "unit EventLoop \<Rightarrow> Channel option \<Rightarrow> bool" where
  "main_loop_ok el accept_channel \<longleftrightarrow>
     0 \<le> el_wakeup_write_fd el \<and> el_thread_id el = thread_number MainThread \<and>
     (\<exists>ch. el_wakeup_channel el = Some ch \<and> ch_ptr ch = 0 \<and> \<not> ch_tied ch) \<and>
     (\<exists>p. el_poller el = Some p \<and> epoll_ready p \<and> 0 < ep_capacity p \<and> fst (epoll_watched p (el_wakeup_read_fd el))) \<and>
     (\<forall>ch. accept_channel = Some ch \<longrightarrow> ch_ptr ch \<noteq> 0 \<and> ch_fd ch \<noteq> el_wakeup_read_fd el)"

lemma Wakeup_keeps [simp]:
  "el_thread_id (Wakeup el) = el_thread_id el" "el_wakeup_channel (Wakeup el) = el_wakeup_channel el"
  "el_wakeup_read_fd (Wakeup el) = el_wakeup_read_fd el"
  by (simp_all add: Wakeup_def)

lemma main_loop_ok_simps [simp]:
  "main_loop_ok (Wakeup el) ac = main_loop_ok el ac" "main_loop_ok (queue_functor f el) ac = main_loop_ok el ac"
  "main_loop_ok (set_quit el) ac = main_loop_ok el ac" "main_loop_ok (el\<lparr>el_pending := fs\<rparr>) ac = main_loop_ok el ac"
  "main_loop_ok (el\<lparr>el_eventfd := n\<rparr>) ac = main_loop_ok el ac"
  by (simp_all add: main_loop_ok_def queue_functor_def set_quit_def)

lemma queue_quit_fields [simp]:
  "el_pending (queue_functor f el) = el_pending el @ [f]" "el_quit (queue_functor f el) = el_quit el"
  "el_eventfd (queue_functor f el) = el_eventfd el" "el_pending (set_quit el) = el_pending el" "el_quit (set_quit el)"
  "el_eventfd (set_quit el) = el_eventfd el"
  by (simp_all add: queue_functor_def set_quit_def)

lemma own_event_ok [simp]: "main_loop_ok (own_event ev el) ac = main_loop_ok el ac"
  using own_event_cases [of ev el] by auto

lemma own_event_keeps [simp]:
  "el_pending (own_event ev el) = el_pending el" "el_quit (own_event ev el) = el_quit el"
  using own_event_cases [of ev el] by auto

lemma epoll_update_keeps:
  assumes "epoll_ready p"
  shows "epoll_ready (snd (EpollPoller_UpdateChannel (Some ch) p))"
    "fd \<noteq> ch_fd ch \<Longrightarrow> epoll_watched (snd (EpollPoller_UpdateChannel (Some ch) p)) fd = epoll_watched p fd"
    "epoll_ready (snd (EpollPoller_RemoveChannel (Some ch) p))"
    "fd \<noteq> ch_fd ch \<Longrightarrow> epoll_watched (snd (EpollPoller_RemoveChannel (Some ch) p)) fd = epoll_watched p fd"
  using epoll.update_effect [OF assms, of ch] epoll.remove_effect [OF assms, of ch] by blast+

lemma epoll_ctl_capacity: "ep_capacity (snd (epoll_ctl operation fd event p)) = ep_capacity p"
  by (simp add: epoll_ctl_def Let_def split: option.split epoll_op.split)

lemma epoll_remove_capacity [simp]: "ep_capacity (snd (EpollPoller_RemoveChannel channel p)) = ep_capacity p"
  using epoll_ctl_capacity [of EPOLL_CTL_DEL _ "(0, 0)" p]
  by (auto simp: EpollPoller_RemoveChannel_def split: option.split prod.split sum.split) (metis snd_conv)+

lemma epoll_update_capacity [simp]: "ep_capacity (snd (EpollPoller_UpdateChannel channel p)) = ep_capacity p"
  using epoll_ctl_capacity [of _ _ _ p]
  by (auto simp: EpollPoller_UpdateChannel_def Let_def split: option.split prod.split sum.split) (metis snd_conv)+

text \<open>The lambda of \<^verbatim>\<open>Stop\<close> takes the accept channel out of the poller and nothing else.\<close>

lemma accept_channel_removed:
  assumes "main_loop_ok el (Some ch)" "Channel_Remove (DisableAll (ch, el_poller el)) = (ch', po)"
  shows "main_loop_ok (el\<lparr>el_poller := po\<rparr>) None"
proof -
  from assms(1) obtain p where p: "el_poller el = Some p" "epoll_ready p" "0 < ep_capacity p"
    "fst (epoll_watched p (el_wakeup_read_fd el))" "ch_fd ch \<noteq> el_wakeup_read_fd el" by (auto simp: main_loop_ok_def)
  let ?ch = "ch\<lparr>ch_reading := False, ch_writing := False\<rparr>"
  let ?p = "if ch_removed ch then p else snd (EpollPoller_UpdateChannel (Some ?ch) p)"
  let ?p' = "if \<not> ch_removed ch \<and> ch_fd ch \<ge> 0 then snd (EpollPoller_RemoveChannel (Some (?ch\<lparr>ch_removed := True\<rparr>)) ?p) else ?p"
  from assms(2) p(1) have po: "po = Some ?p'"
    by (auto simp: DisableAll_def Channel_Update_def Channel_Remove_def EventLoop_UpdateChannel_def EventLoop_RemoveChannel_def
        Let_def split: if_splits)
  have ready: "epoll_ready ?p" using p(2) by (simp add: epoll_update_keeps)
  have w1: "epoll_watched ?p (el_wakeup_read_fd el) = epoll_watched p (el_wakeup_read_fd el)"
    using p(2,5) by (simp add: epoll_update_keeps)
  have "epoll_ready ?p'" using ready epoll_update_keeps(3) [OF ready] by presburger
  moreover have "epoll_watched ?p' (el_wakeup_read_fd el) = epoll_watched ?p (el_wakeup_read_fd el)"
    using p(5) epoll_update_keeps(4) [OF ready, of "el_wakeup_read_fd el" "?ch\<lparr>ch_removed := True\<rparr>"] by auto
  moreover have "0 < ep_capacity ?p'" using p(3) by simp
  ultimately show ?thesis using assms(1) p(4) w1 by (simp add: main_loop_ok_def po)
qed

lemma stop_functor_control:
  assumes "main_loop_ok (sv_main_loop sv) (sv_accept_channel sv)"
  obtains po where "control (stop_functor sv) =
      ((sv_main_loop sv)\<lparr>el_poller := po\<rparr>, sv_stopping sv, sv_loop_running sv, None, map (\<lambda>l. el_quit (io_loop l)) (sv_io_loops sv))"
    "main_loop_ok ((sv_main_loop sv)\<lparr>el_poller := po\<rparr>) None"
proof (cases "sv_accept_channel sv")
  case None
  have "control (stop_functor sv) = control sv" by (simp add: stop_functor_def None Let_def)
  with None assms that [of "el_poller (sv_main_loop sv)"] show ?thesis by (simp add: control_def)
next
  case (Some ch)
  obtain ch' po where run: "Channel_Remove (DisableAll (ch, el_poller (sv_main_loop sv))) = (ch', po)" by (rule prod.exhaust)
  let ?sv = "sv\<lparr>sv_accept_channel := None, sv_main_loop := (sv_main_loop sv)\<lparr>el_poller := po\<rparr>\<rparr>"
  have "control (stop_functor sv) = control ?sv" by (simp add: stop_functor_def Some run Let_def)
  with accept_channel_removed [OF _ run] assms Some that [of po] show ?thesis by (simp add: control_def)
qed

text \<open>An event of the main loop drains the \<^verbatim>\<open>eventfd\<close> or leaves it, as if the loop had no other channel.\<close>

lemma main_event_control:
  assumes "main_loop_ok (sv_main_loop sv) (sv_accept_channel sv)"
  shows "control (main_event ev sv) = control (sv\<lparr>sv_main_loop := own_event ev (sv_main_loop sv)\<rparr>)"
proof (cases "\<exists>ch. sv_accept_channel sv = Some ch \<and> pe_channel ev = Some (ch_ptr ch)")
  case True
  then obtain ch where ch: "sv_accept_channel sv = Some ch" "pe_channel ev = Some (ch_ptr ch)" by blast
  with assms have "own_event ev (sv_main_loop sv) = sv_main_loop sv" by (auto simp: own_event_def main_loop_ok_def)
  moreover have "control (HandleAccept sv) = control sv" by (simp add: HandleAccept_def)
  ultimately show ?thesis using ch
    by (simp add: main_event_def HandleEvent_def HandleEventWithGuard_def call_def accept_callbacks_def)
next
  case False
  then show ?thesis by (auto simp: main_event_def split: option.split)
qed

text \<open>A pending wakeup ends the wait, and its event drains the \<^verbatim>\<open>eventfd\<close>.\<close>

definition wakeup_reported :: PollEvent where
  "wakeup_reported = Epoll_ToPollEvent (EPOLLIN, 0)"

lemma polled_keeps:
  assumes "polled ret el = (ph, el')" "main_loop_ok el ac"
  shows "el_pending el' = el_pending el" "el_quit el' = el_quit el" "el_eventfd el' = el_eventfd el"
    "main_loop_ok el' ac" "ph = AtTop \<or> (\<exists>evs. ph = Dispatching evs)"
  using assms
  by (auto simp: polled_def loop_polled_def main_loop_ok_def EpollPoller_Poll_def epoll_ready_def epoll_watched_def Let_def
      split: wait_ret.splits if_splits)

lemma polled_wakeup:
  assumes "main_loop_ok el ac"
  shows "fst (polled (Events [(EPOLLIN, 0)]) el) = Dispatching [wakeup_reported]"
  using assms by (auto simp: polled_def loop_polled_def main_loop_ok_def EpollPoller_Poll_def epoll_ready_def wakeup_reported_def Let_def)

lemma wakeup_drains: "main_loop_ok el ac \<Longrightarrow> own_event wakeup_reported el = el\<lparr>el_eventfd := 0\<rparr>"
  by (auto simp: own_event_def main_loop_ok_def wakeup_reported_def Epoll_ToPollEvent_def epoll_bits HandleEvent_def
      HandleEventWithGuard_def wakeup_callbacks_def call_def HandleWakeup_eq)

section \<open>The program runs the server\<close>

lemma server_run_event: "server_run sv rcv rep \<Longrightarrow> server_run (main_event ev sv) rcv rep"
  by (auto simp: main_event_def HandleEvent_def HandleEventWithGuard_def call_def accept_callbacks_def
      intro: server_run.accept server_run.main_loop split: option.split)

lemma server_run_shutdown: "server_run (br_server br) rcv rep \<Longrightarrow> server_run (br_server (run_shutdown br)) rcv rep"
  by (simp add: run_shutdown_def on_server_def server_run.stop_functor)

lemma server_run_main_loop:
  "server_run (br_server br) rcv rep \<Longrightarrow> server_run (br_server (on_main_loop f br)) rcv rep"
  by (simp add: on_main_loop_def on_server_def server_run.main_loop)

lemma server_run_stop:
  assumes "stop_step t pc br = Some (pc', br')" "server_run (br_server br) rcv rep"
  shows "server_run (br_server br') rcv rep"
  using assms
  by (cases pc) (auto simp: stop_step_def server_run_shutdown server_run_main_loop on_server_def server_run.stop_flag
      server_run.stop_workers server_run.quit_loops split: once_flag.splits if_splits)

lemma server_run_loop:
  assumes "loop_step ph br = Some br'" "server_run (br_server br) rcv rep"
  shows "server_run (br_server br') rcv rep"
  using assms
  by (auto simp: loop_step_def Let_def swap_pending_def server_run_shutdown server_run_main_loop on_server_def
      server_run_event server_run.looping split: loop_phase.splits list.splits if_splits prod.splits)

lemma server_run_main:
  assumes "main_step br = Some br'" "server_run (br_server br) rcv rep"
  shows "server_run (br_server br') rcv rep"
proof (cases "br_main br")
  case MEnter
  with assms server_run.main_loop [OF server_run.looping [OF assms(2), of True]] show ?thesis
    by (auto simp: main_step_def loop_enter_def on_server_def)
next
  case (MLoop ph)
  with assms server_run_loop show ?thesis by (simp add: main_step_def)
next
  case (MStop pc)
  with assms server_run_stop show ?thesis by (auto simp: main_step_def)
next
  case MClose
  with assms server_run.close_service show ?thesis
    by (auto simp: main_step_def on_server_def Let_def split: prod.splits) (metis snd_conv)
qed (use assms in \<open>auto simp: main_step_def split: if_splits\<close>)

lemma server_run_watcher:
  assumes "watcher_step br = Some br'" "server_run (br_server br) rcv rep"
  shows "server_run (br_server br') rcv rep"
  using assms server_run_stop by (auto simp: watcher_step_def split: watcher_pc.splits if_splits)

definition serves :: "TcpServer \<Rightarrow> bool" where
  "serves sv \<longleftrightarrow> (\<exists>rcv rep. server_run sv rcv rep)"

lemma serves_shutdown: "serves (br_server br) \<Longrightarrow> serves (br_server (run_shutdown br))"
  unfolding serves_def using server_run_shutdown by blast

lemma serves_wake: "serves sv \<Longrightarrow> wake_step (sv_workers sv) p \<Longrightarrow> serves (sv\<lparr>sv_workers := p\<rparr>)"
  unfolding serves_def using server_run.wake by blast

lemma serves_thread: "thread_step br br' \<Longrightarrow> serves (br_server br) \<Longrightarrow> serves (br_server br')"
proof (induction rule: thread_step.induct)
  case (main br br')
  then show ?case unfolding serves_def using server_run_main by blast
next
  case (watcher br br')
  then show ?case unfolding serves_def using server_run_watcher by blast
next
  case (take_task p br i)
  then show ?case unfolding serves_def set_workers_def on_server_def by (auto intro: server_run.take_task)
next
  case (finish_task p br i task clock)
  obtain c request where "task = (c, request)" by (rule prod.exhaust)
  with finish_task show ?case unfolding serves_def set_workers_def on_server_def by (auto intro: server_run.finish_task)
next
  case (notify p br n i)
  then show ?case by (simp add: set_workers_def on_server_def serves_wake wake_step.notify)
next
  case (notify_nobody p br n)
  then show ?case by (simp add: set_workers_def on_server_def serves_wake wake_step.notify_nobody)
next
  case (notify_all p br)
  then show ?case by (simp add: set_workers_def on_server_def serves_wake wake_step.notify_all)
qed simp

lemma serves_works:
  assumes "server_works sv sv'" "serves sv"
  shows "serves sv'"
  using assms(1)
proof (cases rule: server_works.cases)
  case (spurious i)
  with assms(2) show ?thesis by (simp add: serves_wake wake_step.spurious)
qed (use assms(2) in \<open>auto simp: serves_def intro: server_run.clients server_run.network server_run.event server_run.swap
  server_run.run_io server_run.broker\<close>)

lemma serves_environment: "environment_step br br' \<Longrightarrow> serves (br_server br) \<Longrightarrow> serves (br_server br')"
  by (induction rule: environment_step.induct)
    (auto simp: HandleSignal_def serves_works, auto simp: serves_def intro: server_run_main_loop)

text \<open>What was true of the stopping pool stays true.\<close>

definition pool_down :: "bool \<Rightarrow> bool \<Rightarrow> conn_task WorkerPool \<Rightarrow> bool" where
  "pool_down stopping ended p \<longleftrightarrow> (stopping \<longrightarrow> wp_stopping p) \<and> (ended \<longrightarrow> joined p)"

lemma pool_down_submit: "submit_keeps (pool_down stopping ended)"
  by (simp add: submit_keeps_def pool_down_def Submit_def joined_def)

lemma works_pool:
  assumes "server_works sv sv'" "serves sv" "pool_down stopping ended (sv_workers sv)"
  shows "pool_down stopping ended (sv_workers sv')"
  using assms(1)
proof (cases rule: server_works.cases)
  case (event c ob readable writable closed error)
  with assms(2,3) event_pool [OF _ _ pool_down_submit] show ?thesis by (auto simp: serves_def)
next
  case (run_io l f fs)
  with assms(2,3) run_io_pool [OF _ pool_down_submit] show ?thesis by (auto simp: serves_def)
next
  case (spurious i)
  with assms(3) nth_mem [of i "wp_threads (sv_workers sv)"] show ?thesis by (auto simp: pool_down_def joined_def)
qed (use assms(3) in \<open>simp_all add: swap_loop_def Let_def split: prod.split\<close>)

end
