(* ===== verification/BrokerInvariant.thy ===== *)
theory BrokerInvariant
  imports BrokerControl
begin

text \<open>
  An invariant of the program of \<open>BrokerMain\<close> that accounts for where its two threads stand, for the
  wakeups of the main loop and for the joins of \<^verbatim>\<open>Stop\<close>. Every step keeps it, of the threads and
  of their environment.
\<close>

section \<open>Where the threads stand\<close>

primrec stop_rank :: "stop_pc \<Rightarrow> nat" where
  "stop_rank SOnce = 11"
| "stop_rank SFlag = 10"
| "stop_rank (SPost loop_running) = 9"
| "stop_rank SWake = 8"
| "stop_rank SWait = 7"
| "stop_rank SQuit = 6"
| "stop_rank SQuitWake = 5"
| "stop_rank SWorkers = 4"
| "stop_rank SJoinWorkers = 3"
| "stop_rank SLoops = 2"
| "stop_rank SJoinLoops = 1"

primrec watcher_rank :: "watcher_pc \<Rightarrow> nat" where
  "watcher_rank WCheck = 12"
| "watcher_rank (WStop pc) = stop_rank pc"
| "watcher_rank WDone = 0"

primrec final :: "'f loop_phase \<Rightarrow> bool" where
  "final AtTop = False"
| "final Waiting = False"
| "final (Dispatching evs) = False"
| "final (Swapping b) = b"
| "final (RunningBatch b fs) = b"
| "final Ended = True"

text \<open>The main thread comes to \<^verbatim>\<open>Stop\<close> only when the watcher is in its body or has left it, so it is
  the watcher that runs the body.\<close>

definition main_ok :: "main_pc \<Rightarrow> nat \<Rightarrow> bool" where
  "main_ok m r \<longleftrightarrow>
     (case m of MEnter \<Rightarrow> True | MLoop ph \<Rightarrow> final ph \<longrightarrow> r \<le> 5 | MStop pc \<Rightarrow> pc = SOnce \<and> r \<le> 9 | _ \<Rightarrow> r = 0)"

definition program_ok :: "broker_program \<Rightarrow> bool" where
  "program_ok br \<longleftrightarrow>
     (let r = watcher_rank (br_watcher br); sv = br_server br
      in br_once br = (if 11 \<le> r then NotCalled else if 0 < r then Calling WatcherThread else Called) \<and>
         (sv_stopping sv \<longleftrightarrow> r \<le> 9) \<and> (el_quit (sv_main_loop sv) \<longleftrightarrow> r \<le> 5) \<and> (r \<le> 11 \<longrightarrow> br_stop_requested br) \<and>
         (sv_loop_running sv \<longleftrightarrow> (\<exists>ph. br_main br = MLoop ph)) \<and> main_ok (br_main br) r)"

text \<open>The lambda that the watcher waits for is queued or about to run, and neither it nor the end of
  the loop is slept through.\<close>

definition handshake_ok :: "broker_program \<Rightarrow> bool" where
  "handshake_ok br \<longleftrightarrow>
     (let el = sv_main_loop (br_server br); w = br_watcher br
      in (br_main br = MEnter \<longrightarrow> el_pending el = []) \<and> (w = WStop (SPost True) \<longrightarrow> (\<exists>ph. br_main br = MLoop ph)) \<and>
         ((w = WStop SWake \<or> w = WStop SWait) \<and> \<not> br_ready br \<longrightarrow>
            (\<exists>ph. br_main br = MLoop ph \<and> (el_pending el \<noteq> [] \<or> batch ph \<noteq> []))) \<and>
         (\<forall>ph. br_main br = MLoop ph \<longrightarrow>
            (may_sleep ph \<and> el_pending el \<noteq> [] \<longrightarrow> 0 < el_eventfd el \<or> w = WStop SWake) \<and>
            (ph = Waiting \<and> el_quit el \<longrightarrow> 0 < el_eventfd el \<or> w = WStop SQuitWake)))"

definition joins_ok :: "broker_program \<Rightarrow> bool" where
  "joins_ok br \<longleftrightarrow>
     (let r = watcher_rank (br_watcher br); sv = br_server br
      in length (br_ended br) = length (sv_io_loops sv) \<and> pool_down (r \<le> 3) (r \<le> 2) (sv_workers sv) \<and>
         (r \<le> 1 \<longrightarrow> (\<forall>l \<in> set (sv_io_loops sv). el_quit (io_loop l))) \<and> (r = 0 \<longrightarrow> list_all id (br_ended br)))"

definition wakeable :: "TcpServer \<Rightarrow> bool" where
  "wakeable sv \<longleftrightarrow> main_loop_ok (sv_main_loop sv) (sv_accept_channel sv)"

definition broker_inv :: "broker_program \<Rightarrow> bool" where
  "broker_inv br \<longleftrightarrow> serves (br_server br) \<and> wakeable (br_server br) \<and> program_ok br \<and> handshake_ok br \<and> joins_ok br"

lemma stop_rank_bounds: "0 < stop_rank pc" "stop_rank pc \<le> 11" "stop_rank pc = 11 \<longleftrightarrow> pc = SOnce"
  by (cases pc; simp)+

lemma main_ok_mono: "main_ok m r \<Longrightarrow> r' \<le> r \<Longrightarrow> main_ok m r'"
  by (auto simp: main_ok_def split: main_pc.splits)

subsection \<open>Steps of the environment\<close>

lemma quiet_step:
  assumes same: "control (br_server br') = control (br_server br)"
    and here: "br_main br' = br_main br" "br_watcher br' = br_watcher br" "br_once br' = br_once br" "br_ready br' = br_ready br"
    and req: "br_stop_requested br \<Longrightarrow> br_stop_requested br'"
  shows "wakeable (br_server br) \<Longrightarrow> wakeable (br_server br')" "program_ok br \<Longrightarrow> program_ok br'" "handshake_ok br \<Longrightarrow> handshake_ok br'"
  using req by (simp_all add: wakeable_def program_ok_def handshake_ok_def Let_def controlD [OF same] here)

lemma quit_set: "(\<forall>l \<in> set ls. el_quit (io_loop l)) \<longleftrightarrow> list_all id (map (\<lambda>l. el_quit (io_loop l)) ls)"
  by (simp add: list_all_iff)

lemma quiet_joins:
  assumes same: "control (br_server br') = control (br_server br)" and here: "br_watcher br' = br_watcher br"
    and ended: "br_ended br' = br_ended br \<or> (\<exists>l. br_ended br' = (br_ended br)[l := True])"
    and pool: "\<And>stopping ended. pool_down stopping ended (sv_workers (br_server br)) \<Longrightarrow>
      pool_down stopping ended (sv_workers (br_server br'))"
  shows "joins_ok br \<Longrightarrow> joins_ok br'"
proof -
  have "list_all id xs \<Longrightarrow> list_all id (xs[l := True])" for xs l
    using set_update_subset_insert [of xs l True] by (auto simp: list_all_iff)
  with ended have "length (br_ended br') = length (br_ended br)" "list_all id (br_ended br) \<Longrightarrow> list_all id (br_ended br')"
    by auto
  with pool show "joins_ok br \<Longrightarrow> joins_ok br'"
    by (simp add: joins_ok_def Let_def here quit_set controlD [OF same])
qed

lemma inv_environment:
  assumes "environment_step br br'" "broker_inv br"
  shows "broker_inv br'"
proof -
  note serves = serves_environment [OF assms(1)]
  from assms(1) show ?thesis
  proof (cases rule: environment_step.cases)
    case signal
    with assms(2) serves quiet_step [of br' br] quiet_joins [of br' br] show ?thesis
      by (simp add: broker_inv_def HandleSignal_def)
  next
    case (works sv)
    with assms(2) serves quiet_step [of br' br] quiet_joins [of br' br] server_works_control [OF works(2)] works_pool [OF works(2)]
    show ?thesis by (simp add: broker_inv_def)
  next
    case (arrival ret ph el)
    from assms(2) have "main_loop_ok (sv_main_loop (br_server br)) (sv_accept_channel (br_server br))"
      by (simp add: broker_inv_def wakeable_def)
    note polled = polled_keeps [OF arrival(3) this]
    have "final ph = False" using polled(5) by auto
    with assms(2) serves polled arrival(1,2) show ?thesis
      by (auto simp: broker_inv_def wakeable_def program_ok_def handshake_ok_def joins_ok_def main_ok_def on_main_loop_def
          on_server_def Let_def)
  qed
qed

subsection \<open>Steps of the workers and the other loops\<close>

lemma thread_cases:
  assumes "thread_step br br'"
  obtains (main) "main_step br = Some br'"
  | (watcher) "watcher_step br = Some br'"
  | (worker) sv where "worker_step (sv_workers (br_server br)) (sv_workers sv)" "br' = br\<lparr>br_server := sv\<rparr>"
      "control sv = control (br_server br)"
  | (ends) l where "l < length (br_ended br)" "\<not> br_ended br ! l" "br' = br\<lparr>br_ended := (br_ended br)[l := True]\<rparr>"
proof -
  have worked: thesis if "br' = br\<lparr>br_server := sv\<rparr>" "worker_step (sv_workers (br_server br)) (sv_workers sv)"
    "control sv = control (br_server br)" for sv
    using worker that by blast
  from assms show ?thesis
  proof (cases rule: thread_step.cases)
    case (take_task p i)
    then show ?thesis by (intro worked [of "br_server br'"]) (simp_all add: set_workers_def on_server_def worker_step.lock)
  next
    case (finish_task p i task clock)
    then show ?thesis by (intro worked [of "br_server br'"]) (simp_all add: set_workers_def on_server_def worker_step.finish)
  next
    case (notify p n i)
    then show ?thesis by (intro worked [of "br_server br'"]) (simp_all add: set_workers_def on_server_def worker_step.notify)
  next
    case (notify_nobody p n)
    then show ?thesis by (intro worked [of "br_server br'"]) (simp_all add: set_workers_def on_server_def worker_step.notify_nobody)
  next
    case (notify_all p)
    then show ?thesis by (intro worked [of "br_server br'"]) (simp_all add: set_workers_def on_server_def worker_step.notify_all)
  qed (use main watcher ends in blast)+
qed

lemma Run_locked_stopping [simp]: "wp_stopping (Run_locked i p) = wp_stopping p"
  by (simp add: Run_locked_def)

lemma worker_step_down:
  assumes "worker_step p p'" "pool_down stopping ended p"
  shows "pool_down stopping ended p'"
  using assms(1)
proof (cases rule: worker_step.cases)
  case (lock i)
  with assms(2) nth_mem [of i "wp_threads p"] show ?thesis by (auto simp: pool_down_def joined_def)
next
  case (finish i task)
  with assms(2) nth_mem [of i "wp_threads p"] show ?thesis by (auto simp: pool_down_def joined_def)
next
  case (notify n i)
  with assms(2) nth_mem [of i "wp_threads p"] show ?thesis by (auto simp: pool_down_def joined_def)
qed (use assms(2) in \<open>auto simp: pool_down_def joined_def wake_def\<close>)

lemma inv_worker:
  assumes "worker_step (sv_workers (br_server br)) (sv_workers sv)" "control sv = control (br_server br)"
    "broker_inv br" "serves sv"
  shows "broker_inv (br\<lparr>br_server := sv\<rparr>)"
  using assms quiet_step [of "br\<lparr>br_server := sv\<rparr>" br] quiet_joins [of "br\<lparr>br_server := sv\<rparr>" br] worker_step_down
  by (simp add: broker_inv_def)

lemma inv_ends: "broker_inv br \<Longrightarrow> broker_inv (br\<lparr>br_ended := (br_ended br)[l := True]\<rparr>)"
  using quiet_step [of "br\<lparr>br_ended := (br_ended br)[l := True]\<rparr>" br]
    quiet_joins [of "br\<lparr>br_ended := (br_ended br)[l := True]\<rparr>" br]
  by (auto simp: broker_inv_def)

subsection \<open>Steps of the watcher\<close>

lemma on_control_simps [simp]:
  "br_main (on_server f br) = br_main br" "br_watcher (on_server f br) = br_watcher br" "br_once (on_server f br) = br_once br"
  "br_ready (on_server f br) = br_ready br" "br_stop_requested (on_server f br) = br_stop_requested br"
  "br_ended (on_server f br) = br_ended br" "br_server (on_server f br) = f (br_server br)"
  by (simp_all add: on_server_def)

lemma shutdown_effect_main:
  assumes "wakeable (br_server br)"
  obtains po where "sv_main_loop (br_server (run_shutdown br)) = (sv_main_loop (br_server br))\<lparr>el_poller := po\<rparr>"
    "sv_stopping (br_server (run_shutdown br)) = sv_stopping (br_server br)"
    "sv_loop_running (br_server (run_shutdown br)) = sv_loop_running (br_server br)"
    "wakeable (br_server (run_shutdown br))" "br_ready (run_shutdown br)"
    "map (\<lambda>l. el_quit (io_loop l)) (sv_io_loops (br_server (run_shutdown br))) = map (\<lambda>l. el_quit (io_loop l)) (sv_io_loops (br_server br))"
    "sv_workers (br_server (run_shutdown br)) = sv_workers (br_server br)" "br_main (run_shutdown br) = br_main br"
    "br_watcher (run_shutdown br) = br_watcher br" "br_once (run_shutdown br) = br_once br"
    "br_stop_requested (run_shutdown br) = br_stop_requested br" "br_ended (run_shutdown br) = br_ended br"
proof -
  from assms have ok: "main_loop_ok (sv_main_loop (br_server br)) (sv_accept_channel (br_server br))" by (simp add: wakeable_def)
  obtain po where "control (stop_functor (br_server br)) = ((sv_main_loop (br_server br))\<lparr>el_poller := po\<rparr>,
      sv_stopping (br_server br), sv_loop_running (br_server br), None, map (\<lambda>l. el_quit (io_loop l)) (sv_io_loops (br_server br)))"
    "main_loop_ok ((sv_main_loop (br_server br))\<lparr>el_poller := po\<rparr>) None"
    by (rule stop_functor_control [OF ok])
  then show ?thesis by (intro that [of po]) (simp_all add: run_shutdown_def control_def wakeable_def)
qed

lemma watcher_shutdown:
  assumes inv: "broker_inv br" and w: "br_watcher br = WStop (SPost b)"
  shows "broker_inv ((run_shutdown br)\<lparr>br_watcher := WStop SWait\<rparr>)"
proof -
  from inv have wk: "wakeable (br_server br)" by (simp add: broker_inv_def)
  obtain po where eff: "sv_main_loop (br_server (run_shutdown br)) = (sv_main_loop (br_server br))\<lparr>el_poller := po\<rparr>"
    "sv_stopping (br_server (run_shutdown br)) = sv_stopping (br_server br)"
    "sv_loop_running (br_server (run_shutdown br)) = sv_loop_running (br_server br)"
    "wakeable (br_server (run_shutdown br))" "br_ready (run_shutdown br)"
    "map (\<lambda>l. el_quit (io_loop l)) (sv_io_loops (br_server (run_shutdown br))) = map (\<lambda>l. el_quit (io_loop l)) (sv_io_loops (br_server br))"
    "sv_workers (br_server (run_shutdown br)) = sv_workers (br_server br)" "br_main (run_shutdown br) = br_main br"
    "br_watcher (run_shutdown br) = br_watcher br" "br_once (run_shutdown br) = br_once br"
    "br_stop_requested (run_shutdown br) = br_stop_requested br" "br_ended (run_shutdown br) = br_ended br"
    by (rule shutdown_effect_main [OF wk])
  from inv have "serves (br_server (run_shutdown br))" by (simp add: broker_inv_def serves_shutdown)
  moreover have "main_ok (br_main br) 9 \<Longrightarrow> main_ok (br_main br) 7" by (rule main_ok_mono [of _ 9]) simp_all
  moreover have "length (sv_io_loops (br_server (run_shutdown br))) = length (sv_io_loops (br_server br))"
    using eff(6) by (metis length_map)
  ultimately show ?thesis using inv w eff(4)
    by (auto simp: broker_inv_def program_ok_def handshake_ok_def joins_ok_def Let_def eff pool_down_def)
qed


definition stop_returns :: "stop_pc option \<Rightarrow> broker_program \<Rightarrow> broker_program" where
  "stop_returns pc br = br\<lparr>br_watcher := (case pc of None \<Rightarrow> WDone | Some pc \<Rightarrow> WStop pc)\<rparr>"

lemma stop_returns_simps [simp]:
  "br_server (stop_returns pc br) = br_server br" "br_main (stop_returns pc br) = br_main br"
  "br_once (stop_returns pc br) = br_once br" "br_ready (stop_returns pc br) = br_ready br"
  "br_stop_requested (stop_returns pc br) = br_stop_requested br" "br_ended (stop_returns pc br) = br_ended br"
  "br_watcher (stop_returns pc br) = (case pc of None \<Rightarrow> WDone | Some pc \<Rightarrow> WStop pc)"
  by (simp_all add: stop_returns_def)

lemma shutdown_wakeable: "wakeable (br_server br) \<Longrightarrow> wakeable (br_server (run_shutdown br))"
  by (rule shutdown_effect_main)

lemma stop_step_wakeable:
  assumes "stop_step t pc br = Some (pc', br')" "wakeable (br_server br)"
  shows "wakeable (br_server br')"
proof -
  from assms(2) have ok: "main_loop_ok (sv_main_loop (br_server br)) (sv_accept_channel (br_server br))" by (simp add: wakeable_def)
  show ?thesis using assms(1) shutdown_wakeable [OF assms(2)] ok
    by (cases pc) (auto simp: stop_step_def wakeable_def on_main_loop_def stop_flag_def stop_workers_def quit_loops_def
        split: once_flag.splits if_splits)
qed

lemma program_okI:
  assumes "br_once br' = (if 11 \<le> r then NotCalled else if 0 < r then Calling WatcherThread else Called)"
    "sv_stopping (br_server br') \<longleftrightarrow> r \<le> 9" "el_quit (sv_main_loop (br_server br')) \<longleftrightarrow> r \<le> 5"
    and "program_ok br" "watcher_rank (br_watcher br) \<le> 11" "r \<le> watcher_rank (br_watcher br)" "r = watcher_rank (br_watcher br')"
    "sv_loop_running (br_server br') = sv_loop_running (br_server br)" "br_main br' = br_main br"
    "br_stop_requested br' = br_stop_requested br"
  shows "program_ok br'"
proof -
  from assms(4) have "main_ok (br_main br) (watcher_rank (br_watcher br))" by (simp add: program_ok_def Let_def)
  with main_ok_mono [OF this assms(6)] assms(1-5,8-10) show ?thesis by (simp add: program_ok_def Let_def flip: assms(7))
qed

lemma watcher_program:
  assumes step: "stop_step WatcherThread pc br = Some (pc', br')" and w: "br_watcher br = WStop pc" and ok: "program_ok br"
    and post: "\<And>b. pc \<noteq> SPost b"
  shows "program_ok (stop_returns pc' br')"
proof -
  have r: "watcher_rank (br_watcher br) = stop_rank pc" using w by simp
  note p = ok [unfolded program_ok_def Let_def r]
  show ?thesis
  proof (rule program_okI [OF _ _ _ ok _ _ refl])
  qed (use step p post stop_rank_bounds(2) [of pc] in \<open>cases pc; auto simp: w stop_step_def on_main_loop_def stop_flag_def
      stop_workers_def quit_loops_def split: once_flag.splits if_splits\<close>)+
qed

lemma watcher_joins:
  assumes "stop_step WatcherThread pc br = Some (pc', br')" "br_watcher br = WStop pc" "joins_ok br" "\<And>b. pc \<noteq> SPost b"
    and "pc = SOnce \<Longrightarrow> br_once br = NotCalled"
  shows "joins_ok (stop_returns pc' br')"
  using assms
  by (cases pc) (auto simp: stop_step_def joins_ok_def pool_down_def on_main_loop_def stop_flag_def stop_workers_def quit_loops_def
      WorkerPool_Stop_def EventLoop_Quit_def Let_def split: once_flag.splits if_splits)

lemma watcher_handshake:
  assumes "stop_step WatcherThread pc br = Some (pc', br')" "br_watcher br = WStop pc" "handshake_ok br" "\<And>b. pc \<noteq> SPost b"
    and "sv_loop_running (br_server br) \<longleftrightarrow> (\<exists>ph. br_main br = MLoop ph)" "0 \<le> el_wakeup_write_fd (sv_main_loop (br_server br))"
  shows "handshake_ok (stop_returns pc' br')"
  using assms(1-5) Wakeup_fields(5) [OF assms(6)]
  by (cases pc) (auto simp: stop_step_def handshake_ok_def on_main_loop_def stop_flag_def stop_workers_def quit_loops_def Let_def
      split: once_flag.splits if_splits)

lemma watcher_posts:
  assumes inv: "broker_inv br" and w: "br_watcher br = WStop (SPost True)"
  shows "broker_inv ((on_main_loop (queue_functor ()) br)\<lparr>br_watcher := WStop SWake\<rparr>)"
proof -
  let ?br = "(on_main_loop (queue_functor ()) br)\<lparr>br_watcher := WStop SWake\<rparr>"
  have "serves (br_server ?br)" using inv server_run_main_loop by (simp add: broker_inv_def serves_def) blast
  moreover have "wakeable (br_server ?br)" using inv by (simp add: broker_inv_def wakeable_def on_main_loop_def)
  moreover have "program_ok ?br" using inv w main_ok_mono [of _ 9 8] by (auto simp: broker_inv_def program_ok_def on_main_loop_def Let_def)
  moreover have "handshake_ok ?br" using inv w by (auto simp: broker_inv_def handshake_ok_def program_ok_def on_main_loop_def Let_def)
  moreover have "joins_ok ?br" using inv w by (simp add: broker_inv_def joins_ok_def pool_down_def on_main_loop_def Let_def)
  ultimately show ?thesis by (simp add: broker_inv_def)
qed

lemma inv_stop_step:
  assumes step: "stop_step WatcherThread pc br = Some (pc', br')" and w: "br_watcher br = WStop pc" and inv: "broker_inv br"
  shows "broker_inv (stop_returns pc' br')"
proof (cases "\<exists>b. pc = SPost b")
  case True
  then obtain b where pc: "pc = SPost b" by blast
  with inv have loop: "\<not> IsInLoopThread (thread_number WatcherThread) (sv_main_loop (br_server br))"
    by (simp add: broker_inv_def wakeable_def main_loop_ok_def IsInLoopThread_def thread_number_def)
  show ?thesis
  proof (cases b)
    case True
    with step pc w loop watcher_posts [OF inv] show ?thesis by (auto simp: stop_step_def stop_returns_def)
  next
    case False
    with step pc w watcher_shutdown [OF inv] show ?thesis by (auto simp: stop_step_def stop_returns_def)
  qed
next
  case False
  have "0 \<le> el_wakeup_write_fd (sv_main_loop (br_server br))" using inv by (simp add: broker_inv_def wakeable_def main_loop_ok_def)
  moreover have "pc = SOnce \<Longrightarrow> br_once br = NotCalled" using inv w by (simp add: broker_inv_def program_ok_def Let_def)
  moreover have "sv_loop_running (br_server br) \<longleftrightarrow> (\<exists>ph. br_main br = MLoop ph)" using inv by (simp add: broker_inv_def program_ok_def Let_def)
  moreover have "serves (br_server br')" using inv server_run_stop [OF step] by (auto simp: broker_inv_def serves_def)
  ultimately show ?thesis using inv False stop_step_wakeable [OF step] watcher_program [OF step w] watcher_joins [OF step w]
      watcher_handshake [OF step w] by (auto simp: broker_inv_def)
qed

lemma inv_watcher:
  assumes "watcher_step br = Some br'" "broker_inv br"
  shows "broker_inv br'"
proof (cases "br_watcher br")
  case WCheck
  with assms main_ok_mono [of _ 12 11] show ?thesis
    by (auto simp: watcher_step_def broker_inv_def program_ok_def handshake_ok_def joins_ok_def pool_down_def Let_def split: if_splits)
next
  case (WStop pc)
  with assms obtain pc' br1 where "stop_step WatcherThread pc br = Some (pc', br1)" "br' = stop_returns pc' br1"
    by (auto simp: watcher_step_def stop_returns_def)
  with inv_stop_step WStop assms(2) show ?thesis by simp
qed (use assms in \<open>simp add: watcher_step_def\<close>)

subsection \<open>Steps of the main thread\<close>

lemma sv_workers_event [simp]: "sv_workers (main_event ev sv) = sv_workers sv"
  by (simp add: main_event_def HandleEvent_def HandleEventWithGuard_def call_def accept_callbacks_def HandleAccept_def split: option.split)

text \<open>A step of the main thread in its loop, in the terms of the invariant.\<close>

lemma inv_loop:
  assumes inv: "broker_inv br" and here: "br_main br = MLoop ph" and serves: "serves sv"
    and el: "main_loop_ok (sv_main_loop sv) (sv_accept_channel sv)" "el_quit (sv_main_loop sv) = el_quit (sv_main_loop (br_server br))"
    and rest: "sv_stopping sv = sv_stopping (br_server br)" "sv_loop_running sv = sv_loop_running (br_server br)"
      "map (\<lambda>l. el_quit (io_loop l)) (sv_io_loops sv) = map (\<lambda>l. el_quit (io_loop l)) (sv_io_loops (br_server br))"
      "sv_workers sv = sv_workers (br_server br)"
    and fin: "final ph' \<Longrightarrow> final ph \<or> el_quit (sv_main_loop sv)"
    and work: "ready \<or> el_pending (sv_main_loop (br_server br)) = [] \<and> batch ph = [] \<or> el_pending (sv_main_loop sv) \<noteq> [] \<or> batch ph' \<noteq> []"
    and up: "br_ready br \<Longrightarrow> ready"
    and sleep: "may_sleep ph' \<Longrightarrow> el_pending (sv_main_loop sv) \<noteq> [] \<Longrightarrow> may_sleep ph \<and>
      el_pending (sv_main_loop (br_server br)) \<noteq> [] \<and> el_eventfd (sv_main_loop sv) = el_eventfd (sv_main_loop (br_server br))"
    and wait: "ph' = Waiting \<Longrightarrow> \<not> el_quit (sv_main_loop sv)"
  shows "broker_inv (br\<lparr>br_server := sv, br_main := MLoop ph', br_ready := ready\<rparr>)" (is "broker_inv ?br")
proof -
  let ?r = "watcher_rank (br_watcher br)"
  from inv here have p: "br_once br = (if 11 \<le> ?r then NotCalled else if 0 < ?r then Calling WatcherThread else Called)"
    "sv_stopping (br_server br) \<longleftrightarrow> ?r \<le> 9" "el_quit (sv_main_loop (br_server br)) \<longleftrightarrow> ?r \<le> 5"
    "?r \<le> 11 \<longrightarrow> br_stop_requested br" "sv_loop_running (br_server br)" "final ph \<longrightarrow> ?r \<le> 5"
    by (simp_all add: broker_inv_def program_ok_def main_ok_def Let_def)
  have "wakeable sv" using el(1) by (simp add: wakeable_def)
  moreover have "program_ok ?br" using p el(2) rest fin by (simp add: program_ok_def main_ok_def Let_def) metis
  moreover have "handshake_ok ?br"
  proof -
    from inv here have h: "(br_watcher br = WStop SWake \<or> br_watcher br = WStop SWait) \<and> \<not> br_ready br \<Longrightarrow>
        el_pending (sv_main_loop (br_server br)) \<noteq> [] \<or> batch ph \<noteq> []"
      "may_sleep ph \<Longrightarrow> el_pending (sv_main_loop (br_server br)) \<noteq> [] \<Longrightarrow> 0 < el_eventfd (sv_main_loop (br_server br)) \<or> br_watcher br = WStop SWake"
      by (auto simp: broker_inv_def handshake_ok_def Let_def)
    show ?thesis unfolding handshake_ok_def Let_def using h work up sleep wait by (simp) metis
  qed
  moreover have "joins_ok ?br"
  proof -
    have "length (sv_io_loops sv) = length (sv_io_loops (br_server br))" using rest(3) by (metis length_map)
    with inv rest show ?thesis by (simp add: broker_inv_def joins_ok_def Let_def quit_set)
  qed
  ultimately show ?thesis using serves by (simp add: broker_inv_def)
qed

lemma inv_loop_step:
  assumes step: "loop_step ph br = Some br'" and here: "br_main br = MLoop ph" and inv: "broker_inv br"
  shows "broker_inv br'"
proof -
  let ?sv = "br_server br" and ?el = "sv_main_loop (br_server br)"
  from inv have wk: "main_loop_ok ?el (sv_accept_channel ?sv)" and sv: "serves ?sv" by (simp_all add: broker_inv_def wakeable_def)
  then have poller: "el_poller ?el \<noteq> None" by (auto simp: main_loop_ok_def)
  have sv': "serves (br_server br')"
    using sv server_run_loop [OF step] by (auto simp: serves_def)
  note go = inv_loop [OF inv here]
  show ?thesis
  proof (cases ph)
    case AtTop
    with step have br': "br' = br\<lparr>br_server := ?sv, br_main := MLoop (loop_top ?el), br_ready := br_ready br\<rparr>"
      by (auto simp: loop_step_def Let_def)
    show ?thesis unfolding br' by (rule go) (use AtTop poller wk sv in \<open>auto simp: loop_top_def split: if_splits\<close>)
  next
    case Waiting
    with step have e: "wakeup_event ?el" by (simp add: loop_step_def Let_def split: if_splits)
    obtain ph' el' where po: "polled (Events [(EPOLLIN, 0)]) ?el = (ph', el')" by (rule prod.exhaust)
    with step Waiting e have "environment_step br br'"
      using environment_step.arrival [OF here [unfolded Waiting] po] by (auto simp: loop_step_def Let_def)
    then show ?thesis using inv by (rule inv_environment)
  next
    case (Dispatching evs)
    show ?thesis
    proof (cases evs)
      case Nil
      with step Dispatching have br': "br' = br\<lparr>br_server := ?sv, br_main := MLoop (Swapping False), br_ready := br_ready br\<rparr>"
        by (auto simp: loop_step_def Let_def)
      show ?thesis unfolding br' by (rule go) (use Dispatching wk sv in auto)
    next
      case (Cons ev evs')
      with step Dispatching have br': "br' = br\<lparr>br_server := main_event ev ?sv, br_main := MLoop (Dispatching evs'), br_ready := br_ready br\<rparr>"
        by (auto simp: loop_step_def on_server_def Let_def)
      have "serves (main_event ev ?sv)" using sv' by (simp add: br')
      then show ?thesis unfolding br'
        by (rule go) (use Dispatching wk main_event_control [OF wk, of ev] in \<open>auto simp: control_def\<close>)
    qed
  next
    case (Swapping b)
    let ?sv' = "?sv\<lparr>sv_main_loop := ?el\<lparr>el_pending := []\<rparr>\<rparr>"
    from step Swapping have br': "br' = br\<lparr>br_server := ?sv', br_main := MLoop (RunningBatch b (el_pending ?el)), br_ready := br_ready br\<rparr>"
      by (auto simp: loop_step_def on_server_def on_main_loop_def swap_pending_def Let_def)
    have "serves ?sv'" using sv' by (simp add: br')
    then show ?thesis unfolding br' by (rule go) (use Swapping wk in auto)
  next
    case (RunningBatch b fs)
    show ?thesis
    proof (cases fs)
      case Nil
      with step RunningBatch have br': "br' = br\<lparr>br_server := ?sv, br_main := MLoop (if b then Ended else AtTop), br_ready := br_ready br\<rparr>"
        by (auto simp: loop_step_def Let_def)
      show ?thesis unfolding br' by (rule go) (use RunningBatch Nil wk sv in \<open>auto split: if_splits\<close>)
    next
      case (Cons f fs')
      with step RunningBatch have br': "br' = br\<lparr>br_server := stop_functor ?sv, br_main := MLoop (RunningBatch b fs'), br_ready := True\<rparr>"
        by (auto simp: loop_step_def run_shutdown_def on_server_def Let_def)
      have "serves (stop_functor ?sv)" using sv' by (simp add: br')
      obtain po where c: "control (stop_functor ?sv) = (?el\<lparr>el_poller := po\<rparr>, sv_stopping ?sv, sv_loop_running ?sv, None,
          map (\<lambda>l. el_quit (io_loop l)) (sv_io_loops ?sv))" "main_loop_ok (?el\<lparr>el_poller := po\<rparr>) None"
        by (rule stop_functor_control [OF wk])
      show ?thesis unfolding br' by (rule go) (use RunningBatch c \<open>serves (stop_functor ?sv)\<close> in \<open>auto simp: control_def\<close>)
    qed
  next
    case Ended
    with step have br': "br' = br\<lparr>br_server := ?sv\<lparr>sv_loop_running := False\<rparr>, br_main := MStop SOnce\<rparr>"
      by (auto simp: loop_step_def on_server_def Let_def)
    from inv here Ended have "watcher_rank (br_watcher br) \<le> 5" by (simp add: broker_inv_def program_ok_def main_ok_def Let_def)
    then have "br_watcher br \<noteq> WStop (SPost True)" "br_watcher br \<noteq> WStop SWake" "br_watcher br \<noteq> WStop SWait" by auto
    with inv here Ended \<open>watcher_rank (br_watcher br) \<le> 5\<close> sv' show ?thesis
      by (simp add: br' broker_inv_def wakeable_def program_ok_def main_ok_def handshake_ok_def joins_ok_def Let_def)
  qed
qed

lemma inv_enter:
  assumes inv: "broker_inv br" and here: "br_main br = MEnter" and serves: "serves (br_server (loop_enter br))"
  shows "broker_inv (loop_enter br)"
proof -
  from inv here have p: "el_pending (sv_main_loop (br_server br)) = []" "br_watcher br \<noteq> WStop (SPost True)"
    "(br_watcher br = WStop SWake \<or> br_watcher br = WStop SWait) \<longrightarrow> br_ready br"
    by (auto simp: broker_inv_def handshake_ok_def Let_def)
  have e: "main_loop_ok el ac \<Longrightarrow> main_loop_ok (el\<lparr>el_thread_id := thread_number MainThread\<rparr>) ac" for el ac
    by (simp add: main_loop_ok_def)
  show ?thesis
  proof (cases "sv_stopping (br_server br)")
    case True
    with inv here p show ?thesis
      by (auto simp: loop_enter_def broker_inv_def program_ok_def main_ok_def handshake_ok_def joins_ok_def Let_def)
  next
    case False
    with inv here p e serves show ?thesis
      by (auto simp: loop_enter_def on_server_def broker_inv_def wakeable_def program_ok_def main_ok_def handshake_ok_def joins_ok_def Let_def)
  qed
qed

lemma watcher_gone: "watcher_rank w = 0 \<longleftrightarrow> w = WDone"
proof (cases w)
  case (WStop pc)
  then show ?thesis by (cases pc) simp_all
qed simp_all

lemma inv_leaving:
  assumes inv: "broker_inv br" and gone: "watcher_rank (br_watcher br) = 0" and serves: "serves sv"
    and same: "control sv = control (br_server br)" "sv_workers sv = sv_workers (br_server br)"
    and here: "\<not> (\<exists>ph. br_main br = MLoop ph)" and m: "m \<notin> {MEnter} \<union> range MLoop \<union> range MStop"
  shows "broker_inv (br\<lparr>br_server := sv, br_main := m\<rparr>)" (is "broker_inv ?br")
proof -
  from m have m': "\<not> (\<exists>ph. m = MLoop ph)" "m \<noteq> MEnter" by auto
  from m have "main_ok m 0" by (cases m) (simp_all add: main_ok_def)
  with inv gone m' here have "program_ok ?br" by (simp add: broker_inv_def program_ok_def Let_def controlD [OF same(1)])
  moreover have "br_watcher br = WDone" using gone by (simp add: watcher_gone)
  then have "handshake_ok ?br" using m' by (simp add: handshake_ok_def Let_def)
  moreover have "joins_ok ?br" using inv same(2) quiet_joins [of ?br br] by (simp add: broker_inv_def same)
  moreover have "wakeable sv" using inv by (simp add: broker_inv_def wakeable_def controlD [OF same(1)])
  ultimately show ?thesis using serves by (simp add: broker_inv_def)
qed

lemma inv_main:
  assumes step: "main_step br = Some br'" and inv: "broker_inv br"
  shows "broker_inv br'"
proof -
  from inv have sv: "serves (br_server br)" by (simp add: broker_inv_def)
  then have sv': "serves (br_server br')" using server_run_main [OF step] by (auto simp: serves_def)
  from inv have ok: "main_ok (br_main br) (watcher_rank (br_watcher br))"
    and once: "br_once br = Called \<Longrightarrow> watcher_rank (br_watcher br) = 0"
    and later: "watcher_rank (br_watcher br) \<le> 9 \<Longrightarrow> br_once br \<noteq> NotCalled"
    by (auto simp: broker_inv_def program_ok_def Let_def split: if_splits)
  from inv have req: "watcher_rank (br_watcher br) = 0 \<Longrightarrow> br_stop_requested br" by (simp add: broker_inv_def program_ok_def Let_def)
  note leave = inv_leaving [OF inv]
  show ?thesis
  proof (cases "br_main br")
    case MEnter
    with step inv_enter [OF inv MEnter] sv' show ?thesis by (simp add: main_step_def)
  next
    case (MLoop ph)
    with step inv_loop_step [OF _ MLoop inv] show ?thesis by (simp add: main_step_def)
  next
    case (MStop pc)
    with ok step later have "br_once br = Called" "br' = br\<lparr>br_main := MClose\<rparr>"
      by (auto simp: main_ok_def main_step_def stop_step_def split: once_flag.splits)
    with leave [OF once sv refl refl, of MClose] once MStop show ?thesis by (auto simp: image_iff)
  next
    case MClose
    with ok have r: "watcher_rank (br_watcher br) = 0" by (simp add: main_ok_def)
    from step MClose obtain status service where br': "br' = (on_server (\<lambda>sv. sv\<lparr>sv_service := service\<rparr>) br)\<lparr>br_main := MRequest status\<rparr>"
      by (auto simp: main_step_def Let_def split: prod.splits)
    with leave [OF r, of "br_server br'" "MRequest status"] sv' MClose show ?thesis by (auto simp: on_server_def image_iff)
  next
    case (MRequest status)
    with ok have r: "watcher_rank (br_watcher br) = 0" by (simp add: main_ok_def)
    with req have "br\<lparr>br_stop_requested := True\<rparr> = br" by (cases br) simp
    then have "br\<lparr>br_stop_requested := True, br_main := MJoin status\<rparr> = br\<lparr>br_main := MJoin status\<rparr>" by metis
    with leave [OF r sv refl refl, of "MJoin status"] MRequest step show ?thesis by (auto simp: main_step_def image_iff)
  next
    case (MJoin status)
    with ok have r: "watcher_rank (br_watcher br) = 0" by (simp add: main_ok_def)
    let ?m = "MExit (case status of Inl _ \<Rightarrow> 1 | Inr _ \<Rightarrow> 0)"
    from leave [OF r sv refl refl, of ?m] MJoin step show ?thesis by (auto simp: main_step_def image_iff split: if_splits)
  qed (use step in \<open>simp add: main_step_def\<close>)
qed

lemma inv_thread:
  assumes "thread_step br br'" "broker_inv br"
  shows "broker_inv br'"
  using assms(1)
proof (cases rule: thread_cases)
  case (worker sv)
  with inv_worker assms serves_thread [OF assms(1)] show ?thesis by (simp add: broker_inv_def)
qed (use assms(2) inv_main inv_watcher inv_ends in blast)+

lemma inv_program: "program_step br br' \<Longrightarrow> broker_inv br \<Longrightarrow> broker_inv br'"
  using inv_thread inv_environment by (auto simp: program_step_def)

end
