(* ===== verification/BrokerShutdown.thy ===== *)
theory BrokerShutdown
  imports BrokerInvariant BrokerExamples
begin

text \<open>
  The broker comes down: a program with a stop request always has a thread that can go on, and a
  measure falls with every step of a thread. Together: after a signal the threads come to an
  end, and the end is the return of \<^verbatim>\<open>main\<close>.
\<close>

section \<open>Some thread can go on\<close>

lemma waiting_wakes:
  "wakeable (br_server br) \<Longrightarrow> 0 < el_eventfd (sv_main_loop (br_server br)) \<Longrightarrow> \<exists>br'. loop_step Waiting br = Some br'"
  by (auto simp: loop_step_def wakeup_event_def wakeable_def main_loop_ok_def Let_def split: prod.split)

lemma loop_goes_on: "ph \<noteq> Waiting \<Longrightarrow> \<exists>br'. loop_step ph br = Some br'"
  by (auto simp: loop_step_def Let_def split: loop_phase.split list.split prod.split)

lemma main_goes_on:
  assumes "broker_inv br" "br_main br = MLoop ph"
    and "el_quit (sv_main_loop (br_server br)) \<and> br_watcher br \<noteq> WStop SQuitWake \<or>
      (el_pending (sv_main_loop (br_server br)) \<noteq> [] \<or> batch ph \<noteq> []) \<and> br_watcher br \<noteq> WStop SWake"
  shows "\<exists>br'. main_step br = Some br'"
proof (cases "ph = Waiting")
  case True
  with assms have "0 < el_eventfd (sv_main_loop (br_server br))" by (auto simp: broker_inv_def handshake_ok_def Let_def)
  with waiting_wakes assms(1,2) True show ?thesis by (simp add: broker_inv_def main_step_def)
next
  case False
  with loop_goes_on assms(2) show ?thesis by (simp add: main_step_def)
qed

lemma pool_goes_on:
  assumes "worker_step (sv_workers (br_server br)) p"
  shows "\<exists>br'. thread_step br br'"
  using assms by (cases rule: worker_step.cases) (blast intro: thread_step.intros)+

lemma watcher_goes_on:
  assumes inv: "broker_inv br" and w: "br_watcher br = WStop pc"
  shows "\<exists>br'. thread_step br br'"
proof -
  have step: "\<exists>br'. thread_step br br'" if "stop_step WatcherThread pc br \<noteq> None"
  proof -
    from that w have "\<exists>br'. watcher_step br = Some br'" by (auto simp: watcher_step_def)
    then show ?thesis by (blast intro: thread_step.watcher)
  qed
  show ?thesis
  proof (cases pc)
    case SOnce
    with inv w have "br_once br = NotCalled" by (simp add: broker_inv_def program_ok_def Let_def)
    with SOnce show ?thesis by (intro step) (simp add: stop_step_def)
  next
    case SWait
    show ?thesis
    proof (cases "br_ready br")
      case False
      with inv w SWait obtain ph where "br_main br = MLoop ph" "el_pending (sv_main_loop (br_server br)) \<noteq> [] \<or> batch ph \<noteq> []"
        by (auto simp: broker_inv_def handshake_ok_def Let_def)
      with main_goes_on [OF inv] w SWait show ?thesis by (auto intro: thread_step.main)
    qed (intro step, simp add: SWait stop_step_def)
  next
    case SJoinWorkers
    show ?thesis
    proof (cases "joined (sv_workers (br_server br))")
      case False
      from inv w SJoinWorkers have "wp_stopping (sv_workers (br_server br))" by (simp add: broker_inv_def joins_ok_def pool_down_def Let_def)
      moreover have "wakeups_kept (sv_workers (br_server br))" using inv server_run_pool by (auto simp: broker_inv_def serves_def pool_ok_def)
      ultimately show ?thesis using kept_progress False pool_goes_on by blast
    qed (intro step, simp add: SJoinWorkers stop_step_def)
  next
    case SJoinLoops
    show ?thesis
    proof (cases "list_all id (br_ended br)")
      case False
      then obtain l where l: "l < length (br_ended br)" "\<not> br_ended br ! l" by (auto simp: list_all_length)
      with inv w SJoinLoops have "el_quit (io_loop (sv_io_loops (br_server br) ! l))" by (simp add: broker_inv_def joins_ok_def Let_def)
      with l show ?thesis by (blast intro: thread_step.loop_ends)
    qed (intro step, simp add: SJoinLoops stop_step_def)
  qed (intro step, simp add: stop_step_def)+
qed

lemma program_goes_on:
  assumes inv: "broker_inv br" and asked: "br_stop_requested br" and running: "\<not> exited br"
  shows "\<exists>br'. thread_step br br'"
proof (cases "br_watcher br")
  case WCheck
  with asked have "watcher_step br = Some (br\<lparr>br_watcher := WStop SOnce\<rparr>)" by (simp add: watcher_step_def)
  then show ?thesis by (blast intro: thread_step.watcher)
next
  case (WStop pc)
  with inv show ?thesis by (rule watcher_goes_on)
next
  case WDone
  with inv have "br_once br = Called" "el_quit (sv_main_loop (br_server br))" and ok: "main_ok (br_main br) 0"
    by (simp_all add: broker_inv_def program_ok_def Let_def)
  with WDone running main_goes_on [OF inv] have "\<exists>br'. main_step br = Some br'"
    by (cases "br_main br") (auto simp: main_step_def main_ok_def stop_step_def exited_def Let_def split: prod.split)
  then show ?thesis by (auto intro: thread_step.main)
qed

section \<open>What is left to do\<close>

text \<open>A point of the main thread weighs more than all that it can still do without the watcher. An event
  or a functor of the loop is one step more, and a pending wakeup is one more turn.\<close>

primrec phase_weight :: "'f loop_phase \<Rightarrow> nat" where
  "phase_weight AtTop = 4"
| "phase_weight Waiting = 3"
| "phase_weight (Dispatching evs) = 7 + length evs"
| "phase_weight (Swapping b) = (if b then 2 else 6)"
| "phase_weight (RunningBatch b fs) = (if b then 1 else 5) + length fs"
| "phase_weight Ended = 0"

definition phase_events :: "'f loop_phase \<Rightarrow> PollEvent list" where
  "phase_events ph = (case ph of Dispatching evs \<Rightarrow> evs | _ \<Rightarrow> [])"

definition wakeup_left :: "PollEvent list \<Rightarrow> 'f EventLoop \<Rightarrow> nat" where
  "wakeup_left evs el = (if 0 < el_eventfd (fold own_event evs el) then 6 else 0)"

primrec main_weight :: "main_pc \<Rightarrow> unit EventLoop \<Rightarrow> nat" where
  "main_weight MEnter el = 45 + length (el_pending el) + wakeup_left [] el"
| "main_weight (MLoop ph) el = 40 + phase_weight ph + length (el_pending el) + wakeup_left (phase_events ph) el"
| "main_weight (MStop pc) el = 5"
| "main_weight MClose el = 4"
| "main_weight (MRequest status) el = 3"
| "main_weight (MJoin status) el = 2"
| "main_weight (MExit n) el = 0"

definition threads_left :: "broker_program \<Rightarrow> nat" where
  "threads_left br =
     20 * watcher_rank (br_watcher br) + main_weight (br_main br) (sv_main_loop (br_server br)) +
     length (filter Not (br_ended br))"

lemma wakeup_left_simps [simp]:
  "wakeup_left [] el = (if 0 < el_eventfd el then 6 else 0)"
  "wakeup_left (ev # evs) el = wakeup_left evs (own_event ev el)" "wakeup_left evs el \<le> 6"
  by (simp_all add: wakeup_left_def)

lemma phase_events_simps [simp]:
  "phase_events AtTop = []" "phase_events Waiting = []" "phase_events (Dispatching evs) = evs" "phase_events (Swapping b) = []"
  "phase_events (RunningBatch b fs) = []" "phase_events Ended = []"
  by (simp_all add: phase_events_def)

lemma loop_step_left:
  assumes step: "loop_step ph br = Some br'" and here: "br_main br = MLoop ph" and inv: "broker_inv br"
  shows "main_weight (br_main br') (sv_main_loop (br_server br')) < main_weight (MLoop ph) (sv_main_loop (br_server br))"
proof -
  let ?sv = "br_server br" and ?el = "sv_main_loop (br_server br)"
  from inv have wk: "wakeable ?sv" and ok: "main_loop_ok ?el (sv_accept_channel ?sv)" by (simp_all add: broker_inv_def wakeable_def)
  show ?thesis
  proof (cases ph)
    case AtTop
    with step show ?thesis by (auto simp: loop_step_def loop_top_def Let_def)
  next
    case Waiting
    obtain el' where po: "polled (Events [(EPOLLIN, 0)]) ?el = (Dispatching [wakeup_reported], el')"
      using polled_wakeup [OF ok] by (metis prod.collapse)
    note k = polled_keeps [OF po ok]
    from step Waiting have "0 < el_eventfd ?el" by (auto simp: loop_step_def wakeup_event_def Let_def split: if_splits)
    with step Waiting po k wakeup_drains [OF k(4)] show ?thesis
      by (auto simp: loop_step_def on_main_loop_def Let_def split: if_splits)
  next
    case (Dispatching evs)
    have "sv_main_loop (main_event ev ?sv) = own_event ev ?el" for ev using main_event_control [OF ok, of ev] by (simp add: control_def)
    with step Dispatching show ?thesis by (cases evs) (auto simp: loop_step_def Let_def)
  next
    case (Swapping b)
    with step show ?thesis by (auto simp: loop_step_def swap_pending_def on_main_loop_def Let_def)
  next
    case (RunningBatch b fs)
    obtain po where "sv_main_loop (br_server (run_shutdown br)) = ?el\<lparr>el_poller := po\<rparr>" by (rule shutdown_effect_main [OF wk])
    with step RunningBatch show ?thesis by (cases fs) (auto simp: loop_step_def Let_def)
  next
    case Ended
    with step show ?thesis by (auto simp: loop_step_def Let_def)
  qed
qed

lemma main_step_left:
  assumes step: "main_step br = Some br'" and inv: "broker_inv br"
  shows "threads_left br' < threads_left br"
proof -
  from inv have ok: "main_ok (br_main br) (watcher_rank (br_watcher br))"
    and once: "watcher_rank (br_watcher br) \<le> 9 \<Longrightarrow> br_once br \<noteq> NotCalled"
    by (auto simp: broker_inv_def program_ok_def Let_def split: if_splits)
  have less: "main_weight (br_main br') (sv_main_loop (br_server br')) < main_weight (br_main br) (sv_main_loop (br_server br))"
  proof (cases "br_main br")
    case (MLoop ph)
    with step inv loop_step_left [of ph br br'] show ?thesis by (simp add: main_step_def)
  qed (use step ok once in \<open>auto simp: main_step_def loop_enter_def main_ok_def stop_step_def Let_def
      split: if_splits prod.splits once_flag.splits\<close>)
  have "br_watcher br' = br_watcher br \<and> br_ended br' = br_ended br"
  proof (cases "br_main br")
    case (MLoop ph)
    with step show ?thesis
      by (auto simp: main_step_def loop_step_def run_shutdown_def on_main_loop_def Let_def split: loop_phase.splits list.splits if_splits prod.splits)
  qed (use step ok once in \<open>auto simp: main_step_def loop_enter_def main_ok_def stop_step_def Let_def
      split: if_splits prod.splits once_flag.splits\<close>)
  with less show ?thesis by (simp add: threads_left_def)
qed

lemma stop_step_left:
  assumes "stop_step WatcherThread pc br = Some (pc', br')" "wakeable (br_server br)" "br_watcher br = WStop pc" "pc = SOnce \<Longrightarrow> br_once br = NotCalled"
  shows "watcher_rank (br_watcher (stop_returns pc' br')) < stop_rank pc" "br_main br' = br_main br" "br_ended br' = br_ended br"
    "length (el_pending (sv_main_loop (br_server br'))) \<le> Suc (length (el_pending (sv_main_loop (br_server br))))"
proof -
  have s: "br_main (run_shutdown br) = br_main br" "br_ended (run_shutdown br) = br_ended br"
    "el_pending (sv_main_loop (br_server (run_shutdown br))) = el_pending (sv_main_loop (br_server br))"
    by (rule shutdown_effect_main [OF assms(2)], simp)+
  show "watcher_rank (br_watcher (stop_returns pc' br')) < stop_rank pc" "br_main br' = br_main br" "br_ended br' = br_ended br"
    "length (el_pending (sv_main_loop (br_server br'))) \<le> Suc (length (el_pending (sv_main_loop (br_server br))))"
    using assms(1,3,4) s
    by (cases pc; auto simp: stop_step_def on_main_loop_def stop_flag_def stop_workers_def quit_loops_def split: if_splits once_flag.splits)+
qed

lemma main_weight_grows:
  "length (el_pending el') \<le> Suc (length (el_pending el)) \<Longrightarrow> main_weight m el' \<le> main_weight m el + 7"
proof (cases m)
  case (MLoop ph)
  assume "length (el_pending el') \<le> Suc (length (el_pending el))"
  moreover have "wakeup_left (phase_events ph) el' \<le> 6" by simp
  ultimately show ?thesis unfolding MLoop main_weight.simps by linarith
qed auto

lemma watcher_step_left:
  assumes step: "watcher_step br = Some br'" and inv: "broker_inv br"
  shows "threads_left br' < threads_left br"
proof (cases "br_watcher br")
  case WCheck
  with step show ?thesis by (auto simp: watcher_step_def threads_left_def split: if_splits)
next
  case (WStop pc)
  with step obtain pc' br1 where s: "stop_step WatcherThread pc br = Some (pc', br1)" "br' = stop_returns pc' br1"
    by (auto simp: watcher_step_def stop_returns_def)
  have "pc = SOnce \<Longrightarrow> br_once br = NotCalled" using inv WStop by (simp add: broker_inv_def program_ok_def Let_def)
  note l = stop_step_left [OF s(1) _ WStop this]
  have "wakeable (br_server br)" using inv by (simp add: broker_inv_def)
  from l [OF this] main_weight_grows [OF l(4) [OF this], of "br_main br"] WStop s(2) show ?thesis by (simp add: threads_left_def)
qed (use step in \<open>simp add: watcher_step_def\<close>)

lemma ended_less: "l < length xs \<Longrightarrow> \<not> xs ! l \<Longrightarrow> length (filter Not (xs[l := True])) < length (filter Not xs)"
proof (induction xs arbitrary: l)
  case (Cons x xs)
  then show ?case by (cases l) auto
qed simp

text \<open>Every step of a thread lowers what is left: of the two threads and the loops, or else of the pool.\<close>

definition work_left :: "broker_program \<Rightarrow> nat \<times> nat" where
  "work_left br = (threads_left br, pool_work (sv_workers (br_server br)))"

lemma thread_step_less:
  assumes "thread_step br br'" "broker_inv br"
  shows "(work_left br', work_left br) \<in> less_than <*lex*> less_than"
  using assms(1)
proof (cases rule: thread_cases)
  case main
  with main_step_left assms(2) show ?thesis by (simp add: work_left_def)
next
  case watcher
  with watcher_step_left assms(2) show ?thesis by (simp add: work_left_def)
next
  case (worker sv)
  with worker_step_work [OF worker(1)] show ?thesis by (simp add: work_left_def threads_left_def controlD [OF worker(3)])
next
  case (ends l)
  then show ?thesis using ended_less [OF ends(1,2)] by (simp add: work_left_def threads_left_def)
qed

lemma threads_end:
  assumes "broker_inv br"
  shows "Wellfounded.accp (\<lambda>br' br. thread_step br br') br"
  using assms
proof (induction "work_left br" arbitrary: br rule: wf_induct_rule [OF wf_lex_prod [OF wf_less_than wf_less_than]])
  case (1 br)
  show ?case by (rule accp.accI) (use 1 thread_step_less inv_thread in blast)
qed

section \<open>The start\<close>

lemma EventLoop_Init_wakeable:
  assumes "EventLoop_Init created (Inr efd) (mk_EventLoop 0) = (Inr (), el)"
  shows "main_loop_ok el None \<and> el_wakeup_read_fd el = int efd \<and> \<not> el_quit el \<and> el_pending el = []"
proof -
  obtain fd where "created = Inr fd"
    using assms by (cases created) (simp_all add: EventLoop_Init_def mk_EventLoop_def EpollPoller_Init_def mk_EpollPoller_def)
  let ?ch = "(mk_Channel 0 (int efd))\<lparr>ch_reading := True\<rparr>"
  let ?p = "mk_EpollPoller\<lparr>ep_fd := int fd\<rparr>"
  have up: "EpollPoller_UpdateChannel (Some ?ch) ?p =
      (Inr (), ?p\<lparr>ep_interest := [int efd \<mapsto> (EventsForChannel ?ch, 0)], ep_registered_fds := [int efd]\<rparr>)"
    by (simp add: EpollPoller_UpdateChannel_def mk_EpollPoller_def mk_Channel_def EventsForChannel_bits epoll_ctl_def Let_def)
  have "el = (mk_EventLoop 0)\<lparr>el_poller := Some (?p\<lparr>ep_interest := [int efd \<mapsto> (EventsForChannel ?ch, 0)], ep_registered_fds := [int efd]\<rparr>),
      el_wakeup_read_fd := int efd, el_wakeup_write_fd := int efd, el_wakeup_channel := Some ?ch\<rparr>"
    using assms up \<open>created = Inr fd\<close>
    by (simp add: EventLoop_Init_def mk_EventLoop_def EpollPoller_Init_def CreateWakeupFds_def EnableReading_def
        Channel_Update_def EventLoop_UpdateChannel_def mk_EpollPoller_def mk_Channel_def Let_def)
  then show ?thesis
    by (simp add: main_loop_ok_def mk_EventLoop_def thread_number_def epoll_ready_def epoll_watched_def mk_EpollPoller_def
        kInitialEventCapacity_def EventsForChannel_bits mk_Channel_def)
qed

lemma accept_channel_added:
  assumes "main_loop_ok el None" "ptr \<noteq> 0" "fd \<noteq> el_wakeup_read_fd el" "EnableReading (mk_Channel ptr fd, el_poller el) = (ch, po)"
  shows "main_loop_ok (el\<lparr>el_poller := po\<rparr>) (Some ch)"
proof -
  let ?ch = "(mk_Channel ptr fd)\<lparr>ch_reading := True\<rparr>"
  from assms(1) obtain p where p: "el_poller el = Some p" "epoll_ready p" by (auto simp: main_loop_ok_def)
  with assms(4) have "ch = ?ch" "po = Some (snd (EpollPoller_UpdateChannel (Some ?ch) p))"
    by (auto simp: EnableReading_def Channel_Update_def EventLoop_UpdateChannel_def mk_Channel_def)
  moreover have "ch_fd ?ch = fd" "ch_ptr ?ch = ptr" by (simp_all add: mk_Channel_def)
  ultimately show ?thesis using assms(1-3) p(1) epoll_update_keeps(1) [OF p(2), of ?ch] epoll_update_keeps(2) [OF p(2), where ch = ?ch]
    by (auto simp: main_loop_ok_def)
qed

lemma server_start_wakeable:
  assumes start: "TcpServer_Start (created, Inr efd) io_rets listen_ret (mk_TcpServer options service) = (Inr (), sv)"
    and fds: "lr_socket listen_ret \<noteq> Inr efd"
  shows "wakeable sv \<and> \<not> sv_stopping sv \<and> \<not> sv_loop_running sv \<and> \<not> el_quit (sv_main_loop sv) \<and> el_pending (sv_main_loop sv) = []"
proof -
  let ?sv0 = "mk_TcpServer options service"
  obtain r0 el where main: "EventLoop_Init created (Inr efd) (mk_EventLoop 0 :: unit EventLoop) = (r0, el)" by (rule prod.exhaust)
  have el0: "sv_main_loop ?sv0 = mk_EventLoop 0" by (simp add: mk_TcpServer_def)
  let ?sv1 = "?sv0\<lparr>sv_main_loop := el\<rparr>"
  obtain r1 sv2 where pool: "EventLoopThreadPool_Start io_rets ?sv1 = (r1, sv2)" by (rule prod.exhaust)
  obtain r2 sv3 where lst: "CreateListenSocket listen_ret sv2 = (r2, sv3)" by (rule prod.exhaust)
  from start main el0 pool lst have r: "r0 = Inr ()" "r1 = Inr ()" "r2 = Inr ()"
    by (auto simp: TcpServer_Start_def split: sum.splits)
  note ok = EventLoop_Init_wakeable [OF main [unfolded r(1)]]
  have "sv_main_loop sv2 = el \<and> sv_stopping sv2 = False \<and> sv_loop_running sv2 = False \<and> sv_fresh sv2 = 1"
    using pool by (auto simp: EventLoopThreadPool_Start_def mk_TcpServer_def split: if_splits prod.splits)
  moreover from lst r(3) obtain fd where fd: "lr_socket listen_ret = Inr fd" "sv_listen_fd sv3 = int fd"
      "sv_main_loop sv3 = sv_main_loop sv2" "sv_stopping sv3 = sv_stopping sv2" "sv_loop_running sv3 = sv_loop_running sv2" "sv_fresh sv3 = sv_fresh sv2"
    by (auto simp: CreateListenSocket_def Let_def split: sum.splits option.splits if_splits)
  ultimately have sv3: "sv_main_loop sv3 = el" "\<not> sv_stopping sv3" "\<not> sv_loop_running sv3" "sv_fresh sv3 = 1" by simp_all
  obtain ch po where en: "EnableReading (mk_Channel 1 (int fd), el_poller el) = (ch, po)" by (rule prod.exhaust)
  from start main el0 pool lst r sv3 fd en have sv: "sv = sv3\<lparr>sv_accept_channel := Some ch, sv_fresh := sv_fresh sv3 + 1,
      sv_main_loop := el\<lparr>el_poller := po\<rparr>\<rparr>" by (simp add: TcpServer_Start_def)
  from fds fd ok have "int fd \<noteq> el_wakeup_read_fd el" by auto
  with accept_channel_added [OF _ _ this en] ok sv3 show ?thesis by (simp add: sv wakeable_def)
qed

lemma startup_inv:
  assumes start: "broker_startup config clock disk (created, Inr efd) io_rets listen_ret = Inr (line, br)"
    and fds: "lr_socket listen_ret \<noteq> Inr efd"
  shows "broker_inv br"
proof -
  obtain r service where b: "BrokerService_Start clock (mk_BrokerService (broker_options config), disk) = (r, service)" by (rule prod.exhaust)
  obtain q sv where s: "TcpServer_Start (created, Inr efd) io_rets listen_ret (mk_TcpServer (TcpServerOptionsFromConfig config) service) = (q, sv)"
    by (rule prod.exhaust)
  from start b s have q: "q = Inr ()" and br: "br = \<lparr>br_server = sv, br_main = MEnter, br_watcher = WCheck, br_stop_requested = False,
      br_once = NotCalled, br_ready = False, br_ended = replicate (length (sv_io_loops sv)) False\<rparr>"
    by (auto simp: broker_startup_def split: sum.splits)
  note w = server_start_wakeable [OF s [unfolded q] fds]
  have "serves sv" using server_run.start [OF s [unfolded q]] by (auto simp: serves_def)
  with w show ?thesis
    by (simp add: br broker_inv_def program_ok_def main_ok_def handshake_ok_def joins_ok_def pool_down_def Let_def)
qed

lemma reachable_inv:
  assumes "program_step\<^sup>*\<^sup>* br0 br" "broker_inv br0"
  shows "broker_inv br"
  using assms by (induction rule: rtranclp_induct) (auto dest: inv_program)

text \<open>When \<^verbatim>\<open>main\<close> has returned, the workers are joined and nothing is left in their queue, and the threads of
  the loops are joined as well.\<close>

definition all_quiet :: "broker_program \<Rightarrow> bool" where
  "all_quiet br \<longleftrightarrow> joined (sv_workers (br_server br)) \<and> wp_tasks (sv_workers (br_server br)) = [] \<and>
     list_all id (br_ended br) \<and> br_watcher br = WDone"

lemma exited_quiet:
  assumes inv: "broker_inv br" and out: "exited br"
  shows "all_quiet br"
proof -
  from inv out have r: "watcher_rank (br_watcher br) = 0" by (auto simp: broker_inv_def program_ok_def main_ok_def exited_def Let_def)
  with inv have j: "joined (sv_workers (br_server br))" "list_all id (br_ended br)" by (simp_all add: broker_inv_def joins_ok_def pool_down_def Let_def)
  from inv server_run_pool have "pool_ok (sv_workers (br_server br))" by (auto simp: broker_inv_def serves_def)
  then have "wp_tasks (sv_workers (br_server br)) = []" using j(1) unfolding pool_ok_def wakeups_kept_def joined_def by (metis list.set_sel(1))
  with j r show ?thesis by (simp add: all_quiet_def watcher_gone)
qed

lemma stop_step_asked: "stop_step t pc br = Some (pc', br') \<Longrightarrow> br_stop_requested br' = br_stop_requested br"
  by (cases pc) (auto simp: stop_step_def on_main_loop_def run_shutdown_def split: once_flag.splits if_splits)

lemma loop_step_asked: "loop_step ph br = Some br' \<Longrightarrow> br_stop_requested br' = br_stop_requested br"
  by (auto simp: loop_step_def run_shutdown_def on_main_loop_def Let_def split: loop_phase.splits list.splits if_splits prod.splits)

lemma asked_stays: "thread_step br br' \<Longrightarrow> br_stop_requested br \<Longrightarrow> br_stop_requested br'"
proof (induction rule: thread_step.induct)
  case (main br br')
  then show ?case
    by (cases "br_main br") (auto simp: main_step_def loop_enter_def Let_def dest: stop_step_asked loop_step_asked split: if_splits prod.splits)
next
  case (watcher br br')
  then show ?case by (auto simp: watcher_step_def dest: stop_step_asked split: watcher_pc.splits if_splits)
qed (simp_all add: set_workers_def)

lemma threads_keep:
  assumes "thread_step\<^sup>*\<^sup>* br br'" "broker_inv br" "br_stop_requested br"
  shows "broker_inv br' \<and> br_stop_requested br'"
  using assms by (induction rule: rtranclp_induct) (auto dest: inv_thread asked_stays)

text \<open>The threads cannot go on for ever, and where none can go on, \<open>P\<close> holds.\<close>

definition comes_to_rest :: "(broker_program \<Rightarrow> bool) \<Rightarrow> broker_program \<Rightarrow> bool" where
  "comes_to_rest P br \<longleftrightarrow>
     Wellfounded.accp (\<lambda>after before. thread_step before after) br \<and>
     (\<forall>later. thread_step\<^sup>*\<^sup>* br later \<and> (\<nexists>after. thread_step later after) \<longrightarrow> P later)"

section \<open>A signal ends the broker\<close>

text \<open>C31. A broker that has started from its command line, at any point of its life: once a signal has
  asked it to stop, its threads cannot go on for ever, and they cannot get stuck before the main
  thread has returned from \<^verbatim>\<open>main\<close>. Then every worker is joined with an empty queue, every loop's
  thread has ended and the watcher is joined. No wakeup is missing on the way: not the one of
  the queued shutdown lambda, not the one of \<^verbatim>\<open>Quit\<close>, not those of the workers. The descriptors of
  the wakeups and of the listening socket differ, as the kernel's do.\<close>

theorem signal_ends_broker:
  assumes "broker_main usage hardware_concurrency argv clock disk (created, Inr efd) io_rets listen_ret = Inr (line, started)"
    and "lr_socket listen_ret \<noteq> Inr efd"
    and "program_step\<^sup>*\<^sup>* started br" and "br_stop_requested br"
  shows "comes_to_rest (\<lambda>later. exited later \<and> all_quiet later) br"
proof -
  from assms(1) obtain config where "broker_startup config clock disk (created, Inr efd) io_rets listen_ret = Inr (line, started)"
    by (auto simp: broker_main_def split: sum.splits)
  then have inv: "broker_inv br" using reachable_inv [OF assms(3) startup_inv [OF _ assms(2)]] by blast
  with threads_end threads_keep [OF _ inv assms(4)] program_goes_on exited_quiet show ?thesis
    unfolding comes_to_rest_def by blast
qed

text \<open>It does depend on the poller: when the registration of the wakeup channel failed, which \<^verbatim>\<open>Init\<close> does not
  report, a loop that waits and a watcher that waits for it stay where they are.\<close>

lemma unwatched_stuck:
  assumes "br_main br = MLoop Waiting" "br_watcher br = WStop SWait" "\<not> br_ready br"
    and "el_poller (sv_main_loop (br_server br)) = Some p"
    and "\<not> fst (epoll_watched p (el_wakeup_read_fd (sv_main_loop (br_server br))))"
  shows "main_step br = None \<and> watcher_step br = None"
  using assms by (simp add: main_step_def loop_step_def wakeup_event_def watcher_step_def stop_step_def Let_def)

text \<open>A broker started without arguments on an empty disk.\<close>

definition demo_data_disk :: Disk where
  "demo_data_disk = demo_empty_disk\<lparr>d_dirs := [[''.''], [''.'', ''data'']]\<rparr>"

definition demo_offsets_disk :: Disk where
  "demo_offsets_disk = demo_empty_disk\<lparr>d_dirs := [[''.''], [''.'', ''data''], [''.'', ''data'', ''__consumer_offsets'']]\<rparr>"

definition demo_socket_calls :: listen_rets where
  "demo_socket_calls = \<lparr>lr_socket = Inr 7, lr_setsockopt = None, lr_getfl = None, lr_setfl = None, lr_inet_pton = True,
     lr_bind = None, lr_listen = None, lr_getsockname = Some 9092\<rparr>"

lemma demo_dirs:
  "create_directories [''.'', ''data''] demo_empty_disk = (Inr (), demo_data_disk)"
  "sys_exists [''.'', ''data'', ''topics.meta''] demo_data_disk = (Inr False, demo_data_disk)"
  "create_directories [''.'', ''data'', ''__consumer_offsets''] demo_data_disk = (Inr (), demo_offsets_disk)"
  by code_simp+

lemma demo_service_starts:
  "fst (BrokerService_Start demo_clock (mk_BrokerService (broker_options (Config_default 0)), demo_empty_disk)) = Inr ()"
proof -
  let ?tm = "mk_TopicManager (TopicManagerOptionsFromConfig (cf_storage (Config_default 0)))"
  have t: "TopicManager_Load (?tm, demo_empty_disk) = (Inr (), (?tm, demo_data_disk))"
    by (simp add: TopicManager_Load_def mk_TopicManager_def TopicManagerOptionsFromConfig_def Config_default_def demo_dirs MetadataPath_def)
  have o: "OffsetStore_Load (mk_OffsetStore [''.'', ''data''], demo_data_disk) =
      (Inr (), (mk_OffsetStore [''.'', ''data''], demo_offsets_disk))"
    by (simp add: OffsetStore_Load_def mk_OffsetStore_def RootPath_def demo_dirs) (simp add: demo_offsets_disk_def)
  have r: "fst (RetryScheduler_Start now (mk_RetryScheduler, mk_TopicManager options, d)) = Inr ()" for now options d
    by (simp add: RetryScheduler_Start_def mk_RetryScheduler_def GetMetadata_def mk_TopicManager_def topic_metadata_def sreturn_def Let_def)
  have c: "sc_data_dir (cf_storage (Config_default 0)) = [''.'', ''data'']" by (simp add: Config_default_def)
  show ?thesis
    using r [of "RetryNowMs (ck_system demo_clock)" "TopicManagerOptionsFromConfig (cf_storage (Config_default 0))" demo_offsets_disk]
    by (auto simp: BrokerService_Start_def mk_BrokerService_def broker_options_def RetryOptions_default_def with_topics_def t o c
        GroupCoordinator_Start_def mk_GroupCoordinator_def Let_def split: prod.split sum.split)
qed

lemma demo_config: "broker_config usage 0 [''logmq_broker''] = Inr (Config_default 0)"
  by (simp add: broker_config_def Config_default_def Config_Validate_ok DefaultWorkerThreads_def)

definition demo_loop_calls :: "((poll_errno + nat) \<times> (string + nat)) list" where
  "demo_loop_calls = [(Inr 5, Inr 6), (Inr 8, Inr 9), (Inr 10, Inr 11), (Inr 12, Inr 13)]"

lemma loop_inits: "\<exists>el. EventLoop_Init (Inr fd) (Inr efd) (mk_EventLoop 0) = (Inr (), el)"
  by (simp add: EventLoop_Init_def mk_EventLoop_def EpollPoller_Init_def mk_EpollPoller_def CreateWakeupFds_def split: prod.split)

lemma loops_start: "\<exists>loops'. start_loops (length fds) (map (\<lambda>(fd, efd). (Inr fd, Inr efd)) fds) loops = (Inr (), loops')"
proof (induction fds arbitrary: loops)
  case (Cons x fds)
  obtain fd efd where x: "x = (fd, efd)" by (rule prod.exhaust)
  obtain el where "EventLoop_Init (Inr fd) (Inr efd) (mk_EventLoop 0) = (Inr (), el :: io_functor EventLoop)"
    using loop_inits by blast
  with Cons x show ?case by simp
qed simp

lemma demo_loops_start: "\<exists>loops'. start_loops 4 demo_loop_calls loops = (Inr (), loops')"
proof -
  let ?fds = "[(5, 6), (8, 9), (10, 11), (12, 13)] :: (nat \<times> nat) list"
  have "length ?fds = 4" "map (\<lambda>(fd, efd). (Inr fd, Inr efd)) ?fds = demo_loop_calls" by (simp_all add: demo_loop_calls_def)
  with loops_start [of ?fds loops] show ?thesis by metis
qed

lemma demo_server_starts:
  "\<exists>sv. TcpServer_Start (Inr 3, Inr 4) demo_loop_calls demo_socket_calls
     (mk_TcpServer (TcpServerOptionsFromConfig (Config_default 0)) service) = (Inr (), sv)"
proof -
  let ?sv = "mk_TcpServer (TcpServerOptionsFromConfig (Config_default 0)) service"
  obtain el where el: "EventLoop_Init (Inr 3) (Inr 4) (mk_EventLoop 0 :: unit EventLoop) = (Inr (), el)" using loop_inits by blast
  obtain loops where loops: "start_loops 4 demo_loop_calls [] = (Inr (), loops)" using demo_loops_start by blast
  have "sv_thread_count ?sv = 4" "sv_main_loop ?sv = mk_EventLoop 0" "sv_io_loops ?sv = []" "so_host (sv_options ?sv) = ''0.0.0.0''"
    by (simp_all add: mk_TcpServer_def TcpServerOptionsFromConfig_def Config_default_def)
  then show ?thesis
    by (simp add: TcpServer_Start_def el EventLoopThreadPool_Start_def loops CreateListenSocket_def SetNonBlocking_def
        demo_socket_calls_def split: prod.split)
qed

lemma demo_broker_starts:
  "\<exists>line started. broker_main usage 0 [''logmq_broker''] demo_clock demo_empty_disk (Inr 3, Inr 4) demo_loop_calls
     demo_socket_calls = Inr (line, started)"
proof -
  obtain service where "BrokerService_Start demo_clock (mk_BrokerService (broker_options (Config_default 0)), demo_empty_disk) =
      (Inr (), service)" using demo_service_starts by (metis prod.collapse)
  then show ?thesis using demo_server_starts [of service] by (auto simp: broker_main_def demo_config broker_startup_def)
qed

theorem signal_ends_broker_witness:
  "\<exists>line started. broker_main [] 0 [''logmq_broker''] demo_clock demo_empty_disk (Inr 3, Inr 4) demo_loop_calls
     demo_socket_calls = Inr (line, started) \<and>
     comes_to_rest (\<lambda>later. exited later \<and> all_quiet later) (HandleSignal started)"
proof -
  obtain line started where start: "broker_main [] 0 [''logmq_broker''] demo_clock demo_empty_disk (Inr 3, Inr 4) demo_loop_calls
     demo_socket_calls = Inr (line, started)"
    using demo_broker_starts by blast
  have "program_step\<^sup>*\<^sup>* started (HandleSignal started)"
    by (rule r_into_rtranclp) (simp add: program_step_def environment_step.signal)
  from signal_ends_broker [OF start _ this] start show ?thesis by (auto simp: demo_socket_calls_def HandleSignal_def)
qed

end
