(* ===== verification/Wakeups.thy ===== *)
theory Wakeups
  imports EventLoop
begin

text \<open>
  The parts of \<^verbatim>\<open>src/net/event_loop.cpp\<close> and \<^verbatim>\<open>src/net/poll\<close> that depend on the platform or on the end of
  a loop: the choice of the poller in \<^verbatim>\<open>CreatePlatformPoller\<close>, the pipe that stands for the \<^verbatim>\<open>eventfd\<close>
  outside of Linux, and the destructors. The locale \<open>wakeups\<close> is what the loop relies on of
  either: a wakeup can be seen until the loop has drained it. Both are shown to keep it, and the
  poller of either platform keeps the contract of the abstract class.
\<close>

section \<open>The poller of the platform\<close>

datatype platform = Linux | BSD

datatype platform_poller = Epoll EpollPoller | Kqueue KqueuePoller

definition CreatePlatformPoller :: "platform \<Rightarrow> platform_poller" where
  "CreatePlatformPoller platform = (case platform of Linux \<Rightarrow> Epoll mk_EpollPoller | BSD \<Rightarrow> Kqueue mk_KqueuePoller)"

text \<open>The virtual methods.\<close>

definition Poller_Init :: "poll_errno + nat \<Rightarrow> platform_poller \<Rightarrow> unit Result \<times> platform_poller" where
  "Poller_Init created pp =
     (case pp of Epoll p \<Rightarrow> map_prod id Epoll (EpollPoller_Init created p) | Kqueue p \<Rightarrow> map_prod id Kqueue (KqueuePoller_Init created p))"

definition Poller_UpdateChannel :: "Channel option \<Rightarrow> platform_poller \<Rightarrow> unit Result \<times> platform_poller" where
  "Poller_UpdateChannel channel pp =
     (case pp of Epoll p \<Rightarrow> map_prod id Epoll (EpollPoller_UpdateChannel channel p)
      | Kqueue p \<Rightarrow> map_prod id Kqueue (KqueuePoller_UpdateChannel channel p))"

definition Poller_RemoveChannel :: "Channel option \<Rightarrow> platform_poller \<Rightarrow> unit Result \<times> platform_poller" where
  "Poller_RemoveChannel channel pp =
     (case pp of Epoll p \<Rightarrow> map_prod id Epoll (EpollPoller_RemoveChannel channel p)
      | Kqueue p \<Rightarrow> map_prod id Kqueue (KqueuePoller_RemoveChannel channel p))"

definition Poller_ready :: "platform_poller \<Rightarrow> bool" where
  "Poller_ready pp = (case pp of Epoll p \<Rightarrow> epoll_ready p | Kqueue p \<Rightarrow> kqueue_ready p)"

definition Poller_watched :: "platform_poller \<Rightarrow> int \<Rightarrow> bool \<times> bool" where
  "Poller_watched pp = (case pp of Epoll p \<Rightarrow> epoll_watched p | Kqueue p \<Rightarrow> kqueue_watched p)"

lemma map_prod_run: "map_prod id C x = (r, y) \<longleftrightarrow> (\<exists>p. x = (r, p) \<and> y = C p)"
  by (cases x) auto

lemmas platform_defs = Poller_UpdateChannel_def Poller_RemoveChannel_def Poller_ready_def Poller_watched_def map_prod_run

interpretation platform: poller Poller_ready Poller_watched Poller_UpdateChannel Poller_RemoveChannel
proof
  fix pp pp' :: platform_poller and ch :: Channel and channel :: "Channel option" and e
  assume r: "Poller_ready pp"
  show "Poller_ready pp' \<and> Poller_watched pp' = (Poller_watched pp)(ch_fd ch := (ch_reading ch, ch_writing ch))"
    if "Poller_UpdateChannel (Some ch) pp = (Inr (), pp')"
    using r that by (cases pp) (auto simp: platform_defs epoll.update_ok kqueue.update_ok)
  show "Poller_ready pp' \<and> (\<forall>fd. Some fd \<noteq> channel_fd channel \<longrightarrow> Poller_watched pp' fd = Poller_watched pp fd)"
    if "Poller_UpdateChannel channel pp = (Inl e, pp')"
    using r that by (cases pp) (auto simp: platform_defs epoll.update_err kqueue.update_err)
  show "Poller_ready pp' \<and> Poller_watched pp' = (Poller_watched pp)(ch_fd ch := (False, False))"
    if "0 \<le> ch_fd ch" "Poller_RemoveChannel (Some ch) pp = (Inr (), pp')"
    using r that by (cases pp) (auto simp: platform_defs epoll.remove_ok kqueue.remove_ok)
  show "pp' = pp" if "ch_fd ch < 0" "Poller_RemoveChannel (Some ch) pp = (Inr (), pp')"
    using r that by (cases pp) (auto simp: platform_defs dest: epoll.remove_closed kqueue.remove_closed)
  show "Poller_ready pp' \<and> (\<forall>fd. Some fd \<noteq> channel_fd channel \<longrightarrow> Poller_watched pp' fd = Poller_watched pp fd)"
    if "Poller_RemoveChannel channel pp = (Inl e, pp')"
    using r that by (cases pp) (auto simp: platform_defs epoll.remove_err kqueue.remove_err)
qed

text \<open>The poller of the platform is ready once it is initialised, and then watches nothing.\<close>

lemma CreatePlatformPoller_ready:
  assumes "Poller_Init created (CreatePlatformPoller platform) = (Inr (), pp)"
  shows "Poller_ready pp \<and> Poller_watched pp = (\<lambda>_. (False, False))"
  using assms
  by (cases platform) (auto simp: CreatePlatformPoller_def Poller_Init_def Poller_ready_def Poller_watched_def map_prod_run
      EpollPoller_Init_def mk_EpollPoller_def epoll_ready_def epoll_watched_def KqueuePoller_Init_def mk_KqueuePoller_def
      kqueue_ready_def kqueue_watched_def split: sum.splits)

section \<open>The pipe\<close>

text \<open>The pair of descriptors, the bytes in between and how many fit.\<close>

record wakeup_pipe =
  pi_read_fd :: int
  pi_write_fd :: int
  pi_bytes :: nat
  pi_capacity :: nat

definition CloseFd :: "int \<Rightarrow> int list \<Rightarrow> int \<times> int list" where
  "CloseFd fd closed = (if 0 \<le> fd then (-1, closed @ [fd]) else (fd, closed))"

definition CloseWakeupFds :: "int \<Rightarrow> int \<Rightarrow> int list \<Rightarrow> (int \<times> int) \<times> int list" where
  "CloseWakeupFds read_fd write_fd closed =
     (if read_fd = write_fd then let (r, closed) = CloseFd read_fd closed in ((r, -1), closed)
      else let (r, closed) = CloseFd read_fd closed; (w, closed) = CloseFd write_fd closed in ((r, w), closed))"

definition EventLoop_SetNonBlocking :: "string option \<times> string option \<Rightarrow> unit Result" where
  "EventLoop_SetNonBlocking ret =
     (case fst ret of
        Some e \<Rightarrow> Inl (IoError (''fcntl(F_GETFL): '' @ e))
      | None \<Rightarrow> (case snd ret of Some e \<Rightarrow> Inl (IoError (''fcntl(F_SETFL): '' @ e)) | None \<Rightarrow> Inr ()))"

text \<open>\<^verbatim>\<open>CreateWakeupFds\<close> where there is no \<^verbatim>\<open>eventfd\<close>: what \<^verbatim>\<open>pipe\<close> and the calls of \<^verbatim>\<open>fcntl\<close> return are
  arguments, and the descriptors that it closes again are a result.\<close>

definition CreateWakeupPipe ::
  "string + nat \<times> nat \<Rightarrow> string option \<times> string option \<Rightarrow> string option \<times> string option \<Rightarrow> (int \<times> int) Result \<times> int list" where
  "CreateWakeupPipe ret nonblocking0 nonblocking1 =
     (case ret of
        Inl e \<Rightarrow> (Inl (IoError (''pipe: '' @ e)), [])
      | Inr (fd0, fd1) \<Rightarrow>
          let close_both = snd (CloseFd (int fd1) (snd (CloseFd (int fd0) [])))
          in case EventLoop_SetNonBlocking nonblocking0 of
               Inl e \<Rightarrow> (Inl e, close_both)
             | Inr _ \<Rightarrow>
                 (case EventLoop_SetNonBlocking nonblocking1 of
                    Inl e \<Rightarrow> (Inl e, close_both)
                  | Inr _ \<Rightarrow> (Inr (int fd0, int fd1), [])))"

definition pipe_read :: "nat \<Rightarrow> wakeup_pipe \<Rightarrow> nat option \<times> wakeup_pipe" where
  "pipe_read count p =
     (if pi_bytes p = 0 then (None, p)
      else (Some (min count (pi_bytes p)), p\<lparr>pi_bytes := pi_bytes p - min count (pi_bytes p)\<rparr>))"

definition pipe_Wakeup :: "wakeup_pipe \<Rightarrow> wakeup_pipe" where
  "pipe_Wakeup p =
     (if pi_write_fd p < 0 then p
      else if pi_capacity p \<le> pi_bytes p then p
      else p\<lparr>pi_bytes := pi_bytes p + 1\<rparr>)"

function pipe_HandleWakeup :: "wakeup_pipe \<Rightarrow> wakeup_pipe" where
  "pipe_HandleWakeup p =
     (case pipe_read 64 p of
        (None, p') \<Rightarrow> p'
      | (Some n, p') \<Rightarrow> if n = 0 \<or> n < 64 then p' else pipe_HandleWakeup p')"
  by pat_completeness auto
termination
  by (relation "measure pi_bytes") (auto simp: pipe_read_def split: if_splits)

declare pipe_HandleWakeup.simps [simp del]

lemma pipe_HandleWakeup_eq: "pipe_HandleWakeup p = p\<lparr>pi_bytes := 0\<rparr>"
proof (induction p rule: pipe_HandleWakeup.induct)
  case (1 p)
  then show ?case
    by (subst pipe_HandleWakeup.simps) (cases "pi_bytes p < 64"; auto simp: pipe_read_def)
qed

text \<open>A pipe that could not be made non-blocking is closed, both ends and each once.\<close>

lemma CreateWakeupPipe_closes:
  "CreateWakeupPipe (Inr (fd0, fd1)) nonblocking0 nonblocking1 = (r, closed) \<Longrightarrow>
   (case r of Inl _ \<Rightarrow> closed = [int fd0, int fd1] | Inr fds \<Rightarrow> closed = [] \<and> fds = (int fd0, int fd1))"
  by (auto simp: CreateWakeupPipe_def CloseFd_def Let_def split: sum.splits)

section \<open>What a loop relies on\<close>

locale wakeups =
  fixes usable :: "'s \<Rightarrow> bool" and pending :: "'s \<Rightarrow> bool" and wake drain :: "'s \<Rightarrow> 's"
  assumes wake_usable: "usable s \<Longrightarrow> usable (wake s)"
    and wake_pending: "usable s \<Longrightarrow> pending (wake s)"
    and drain_usable: "usable s \<Longrightarrow> usable (drain s)"
    and drain_pending: "\<not> pending (drain s)"
begin

text \<open>After any sequence of wakeups (\<open>True\<close>) and drains a wakeup is pending when the last of them was one:
  wakeups may be merged, none is lost.\<close>

lemma fold_usable: "usable s \<Longrightarrow> usable (fold (\<lambda>up. if up then wake else drain) ups s)"
  by (induction ups arbitrary: s) (simp_all add: wake_usable drain_usable)

lemma pending_iff_last:
  assumes "usable s" "ups \<noteq> []"
  shows "pending (fold (\<lambda>up. if up then wake else drain) ups s) \<longleftrightarrow> last ups"
proof (cases ups rule: rev_cases)
  case (snoc us up)
  with fold_usable [OF assms(1), of us] show ?thesis by (simp add: wake_pending drain_pending)
qed (use assms(2) in simp)

end

interpretation eventfd: wakeups "\<lambda>el. 0 \<le> el_wakeup_write_fd el" "\<lambda>el. 0 < el_eventfd el" Wakeup HandleWakeup
  by unfold_locales (simp_all add: HandleWakeup_eq)

interpretation pipe: wakeups "\<lambda>p. 0 \<le> pi_write_fd p \<and> 0 < pi_capacity p" "\<lambda>p. 0 < pi_bytes p" pipe_Wakeup pipe_HandleWakeup
  by unfold_locales (auto simp: pipe_Wakeup_def pipe_HandleWakeup_eq)

text \<open>The two mechanisms agree on when the loop has something to read, whatever was written before.\<close>

lemma eventfd_as_pipe:
  assumes "0 \<le> el_wakeup_write_fd el" "0 \<le> pi_write_fd p" "0 < pi_capacity p" "ups \<noteq> []"
  shows "0 < el_eventfd (fold (\<lambda>up. if up then Wakeup else HandleWakeup) ups el) \<longleftrightarrow>
    0 < pi_bytes (fold (\<lambda>up. if up then pipe_Wakeup else pipe_HandleWakeup) ups p)"
  using assms by (simp add: eventfd.pending_iff_last pipe.pending_iff_last)

section \<open>The end of a loop\<close>

definition EpollPoller_destroy :: "EpollPoller \<Rightarrow> int list" where
  "EpollPoller_destroy p = (if 0 \<le> ep_fd p then [ep_fd p] else [])"

definition KqueuePoller_destroy :: "KqueuePoller \<Rightarrow> int list" where
  "KqueuePoller_destroy p = (if 0 \<le> kq_fd p then [kq_fd p] else [])"

text \<open>The destructor: the loop is told to quit, its channel leaves the poller and the descriptors are
  closed; then its members go, the poller with them. The result is the poller at its end and the
  descriptors closed.\<close>

definition EventLoop_destroy :: "'f EventLoop \<Rightarrow> EpollPoller option \<times> int list" where
  "EventLoop_destroy el =
     (let el = EventLoop_Quit el;
          po = (case el_wakeup_channel el of None \<Rightarrow> el_poller el
                | Some ch \<Rightarrow> snd (Channel_Remove (DisableAll (ch, el_poller el))));
          (_, closed) = CloseWakeupFds (el_wakeup_read_fd el) (el_wakeup_write_fd el) []
      in (po, closed @ (case po of None \<Rightarrow> [] | Some p \<Rightarrow> EpollPoller_destroy p)))"

text \<open>The descriptor of a channel that is removed is not watched any more, or the kernel refused; its
  poller stays open either way.\<close>

lemma epoll_fd_kept:
  "ep_fd (snd (EpollPoller_RemoveChannel channel p)) = ep_fd p" "ep_fd (snd (EpollPoller_UpdateChannel channel p)) = ep_fd p"
proof -
  show r: "ep_fd (snd (EpollPoller_RemoveChannel channel p)) = ep_fd p" for channel
    by (auto simp: EpollPoller_RemoveChannel_def split: option.splits prod.splits sum.splits dest!: epoll_ctl_cases)
  show "ep_fd (snd (EpollPoller_UpdateChannel channel p)) = ep_fd p"
    by (auto simp: EpollPoller_UpdateChannel_def Let_def r split: option.splits prod.splits sum.splits dest!: epoll_ctl_cases)
qed

lemma Channel_gone_fd:
  "\<exists>p'. snd (Channel_Remove (DisableAll (ch, Some p))) = Some p' \<and> ep_fd p' = ep_fd p"
  by (auto simp: Channel_Remove_def DisableAll_def Channel_Update_def EventLoop_UpdateChannel_def EventLoop_RemoveChannel_def
      epoll_fd_kept Let_def)

text \<open>A loop that was initialised closes the two descriptors it opened, each once.\<close>

lemma EventLoop_destroy_closes:
  assumes "EventLoop_Init (Inr fd) (Inr efd) (mk_EventLoop t) = (Inr (), el)"
  shows "snd (EventLoop_destroy el) = [int efd, int fd]"
proof -
  from assms have el: "el_wakeup_read_fd el = int efd" "el_wakeup_write_fd el = int efd"
    "\<exists>ch p. el_wakeup_channel el = Some ch \<and> el_poller el = Some p \<and> ep_fd p = int fd"
    by (auto simp: EventLoop_Init_def mk_EventLoop_def EpollPoller_Init_def mk_EpollPoller_def CreateWakeupFds_def EnableReading_def
        Channel_Update_def EventLoop_UpdateChannel_def epoll_fd_kept mk_Channel_def Let_def)
  then obtain ch p where p: "el_wakeup_channel el = Some ch" "el_poller el = Some p" "ep_fd p = int fd" by blast
  obtain p' where p': "snd (Channel_Remove (DisableAll (ch, Some p))) = Some p'" "ep_fd p' = ep_fd p"
    using Channel_gone_fd by blast
  have "el_wakeup_channel (EventLoop_Quit el) = Some ch" "el_poller (EventLoop_Quit el) = Some p"
    "el_wakeup_read_fd (EventLoop_Quit el) = int efd" "el_wakeup_write_fd (EventLoop_Quit el) = int efd"
    using el p by (simp_all add: EventLoop_Quit_def Wakeup_def set_quit_def)
  with p p' show ?thesis
    by (simp add: EventLoop_destroy_def CloseWakeupFds_def CloseFd_def EpollPoller_destroy_def Let_def)
qed

end
