(* ===== verification/Spec2Isabelle.thy ===== *)
theory Spec2Isabelle
  imports BrokerProperties ServerProperties ClientProperties CommandLine EndToEnd BrokerShutdown Wakeups
begin

text \<open>
  LogMQ is a message queue broker in C++: topics of partitions, each an append-only log on
  disk, served over TCP to producers and to groups of consumers. This development models the
  program under \<^verbatim>\<open>src/\<close> function by function and proves what makes its parts correct.

  \<^bold>\<open>The program and its parts.\<close> A client program (\<^verbatim>\<open>tools/logmq_cli.cpp\<close>, or a user of
  \<^verbatim>\<open>src/client\<close>) encodes a request (\<^verbatim>\<open>src/protocol\<close>) and sends it over a connection. In the
  broker an event loop (\<^verbatim>\<open>src/net\<close>) cuts the stream into requests and hands one request per
  connection at a time to a pool of worker threads. A worker calls \<^verbatim>\<open>BrokerService::Handle\<close>
  (\<^verbatim>\<open>src/broker\<close>), which works on the topic manager and its partition logs (\<^verbatim>\<open>src/storage\<close>), the
  committed offsets, the consumer groups and the retry scheduler; the response goes back
  through the loop of the connection. Three more threads flush the logs, expire silent group
  members and release retried records.

  \<^bold>\<open>How the model is built.\<close> A class is a record, an enumeration or a variant a datatype, an
  operation a function of the same name that takes the state and returns it with a result;
  \<^verbatim>\<open>Result<T>\<close> is the sum \<open>'a Result\<close> of \<^verbatim>\<open>BaseStatus\<close>, so that every early return of the source is
  a branch. Integers whose wrap-around is visible (lengths and checksums on disk and on the
  wire, request ids, ports, hashes) are words of their width; offsets, times and counters
  that the code checks are \<open>int\<close> or \<open>nat\<close>, with the check. Code under one mutex is one atomic
  function; where the interleaving matters (worker pool, event loops, server, coordinator,
  broker) operations are the steps of an inductive relation and properties are proved of
  all reachable states.

  \<^bold>\<open>The world.\<close> What the operating system does is part of the state, as a script of outcomes:
  for the disk interrupts, short transfers and failures of each coming call (\<^verbatim>\<open>FileIO\<close>), for a
  socket the bytes, errors and the end of the stream that reads meet and how much each write
  takes (\<^verbatim>\<open>Sockets\<close>), for pollers the failures and events (\<^verbatim>\<open>Pollers\<close>). Theorems quantify over the
  script. Past its end a disk call succeeds and a socket call would block, so every script is
  finite and every retry loop of the source terminates; no fuel is used. Clock readings are
  arguments.

  \<^bold>\<open>Theories and sources.\<close>
  \<^item> Shared: \<^verbatim>\<open>LogMQ_Prelude\<close> (bytes, words, lists, named collections), \<^verbatim>\<open>BaseStatus\<close>
    (\<^verbatim>\<open>base/status\<close>, \<^verbatim>\<open>base/result.h\<close>), \<^verbatim>\<open>Endian\<close>, \<^verbatim>\<open>Decimal\<close>, \<^verbatim>\<open>StdMap\<close> (\<^verbatim>\<open>std::map\<close>, locale
    \<open>ordered_map\<close>), \<^verbatim>\<open>Config\<close> (\<^verbatim>\<open>base/config\<close>).
  \<^item> Storage: \<^verbatim>\<open>Crc32\<close> (locale \<open>byte_hash\<close>), \<^verbatim>\<open>LogRecord\<close>, \<^verbatim>\<open>RecordBatch\<close>, \<^verbatim>\<open>FileIO\<close>, \<^verbatim>\<open>OffsetIndex\<close>,
    \<^verbatim>\<open>Segment\<close> and \<^verbatim>\<open>CommitLog\<close> model the files of \<^verbatim>\<open>src/storage\<close> of these names.
    \<^verbatim>\<open>CommitLog_Refines\<close> relates a log to a list of batches, \<^verbatim>\<open>CommitLog_Recovery\<close> treats \<^verbatim>\<open>Open\<close>
    after a crash, \<^verbatim>\<open>CommitLog_Live\<close> progress, \<^verbatim>\<open>LogFrame\<close> that logs in different directories do
    not disturb each other; \<^verbatim>\<open>LogInterface\<close> is the contract of a log as the locale
    \<open>append_log\<close>, with the commit log as its interpretation.
  \<^item> Protocol: \<^verbatim>\<open>ProtocolTypes\<close> (\<^verbatim>\<open>protocol/types.h\<close>), \<^verbatim>\<open>Wire\<close> (locale \<open>wire_item\<close> for repeated
    fields), \<^verbatim>\<open>RequestCodec\<close>, \<^verbatim>\<open>ResponseCodec\<close> and \<^verbatim>\<open>Codec\<close> (\<^verbatim>\<open>protocol/codec.cpp\<close>).
  \<^item> Broker: \<^verbatim>\<open>Names\<close>; \<^verbatim>\<open>TextStream\<close>, \<^verbatim>\<open>TextRoundtrip\<close> and \<^verbatim>\<open>AtomicReplace\<close> (the text files and their
    replacement by a rename); \<^verbatim>\<open>TopicManager\<close>, \<^verbatim>\<open>TopicCreation\<close>, \<^verbatim>\<open>TopicLogs\<close>, \<^verbatim>\<open>TopicRestart\<close>,
    \<^verbatim>\<open>Routing\<close> (\<^verbatim>\<open>broker/topic_manager\<close>); \<^verbatim>\<open>OffsetStore\<close> (\<^verbatim>\<open>broker/offset_store\<close>);
    \<^verbatim>\<open>GroupCoordinator\<close> and \<^verbatim>\<open>GroupInvariant\<close> (\<^verbatim>\<open>broker/group_coordinator\<close>); \<^verbatim>\<open>RetryRecord\<close>,
    \<^verbatim>\<open>RetryScheduler\<close>, \<^verbatim>\<open>RetryVisibility\<close> (\<^verbatim>\<open>broker/retry_scheduler\<close>); \<^verbatim>\<open>BrokerService\<close>
    (\<^verbatim>\<open>broker/broker_service\<close>) with \<^verbatim>\<open>BrokerLogs\<close>, \<^verbatim>\<open>BrokerFacts\<close> and \<^verbatim>\<open>BrokerLive\<close>.
  \<^item> Network: \<^verbatim>\<open>NetBuffer\<close> (\<^verbatim>\<open>net/buffer\<close>, locale \<open>byte_queue\<close>), \<^verbatim>\<open>WorkerPool\<close>, \<^verbatim>\<open>Pollers\<close> (channels,
    epoll and kqueue, both interpretations of the locale \<open>poller\<close>), \<^verbatim>\<open>EventLoop\<close>,
    \<^verbatim>\<open>TcpConnection\<close>, \<^verbatim>\<open>TcpServer\<close>, and \<^verbatim>\<open>ServerRun\<close> and \<^verbatim>\<open>ServerLive\<close>, in which all threads and
    clients take their steps in any order. \<^verbatim>\<open>Wakeups\<close> has what differs between platforms: the choice
    of the poller, and the wakeup by a pipe beside the \<^verbatim>\<open>eventfd\<close> (locale \<open>wakeups\<close>, interpreted for
    both), and the end of a loop.
  \<^item> The executable: \<^verbatim>\<open>BrokerMain\<close> (\<^verbatim>\<open>broker/main.cpp\<close>, with \<^verbatim>\<open>Loop\<close> and \<^verbatim>\<open>Stop\<close> of \<^verbatim>\<open>net/tcp_server.cpp\<close> step by
    step) is the program of main thread, watcher, workers and loops; \<^verbatim>\<open>BrokerControl\<close>,
    \<^verbatim>\<open>BrokerInvariant\<close> and \<^verbatim>\<open>BrokerShutdown\<close> lead to the theorem that a signal ends it.
  \<^item> Client: \<^verbatim>\<open>ClientConnection\<close>, \<^verbatim>\<open>ClientApi\<close> and \<^verbatim>\<open>ClientPoll\<close> (\<^verbatim>\<open>src/client\<close>), \<^verbatim>\<open>CommandLine\<close>
    (\<^verbatim>\<open>tools/logmq_cli.cpp\<close> and the arguments of \<^verbatim>\<open>broker/main.cpp\<close>).
  \<^item> Both sides: \<^verbatim>\<open>EndToEnd\<close>, the client's round trip over the bytes a worker replies.
  \<^item> \<^verbatim>\<open>Examples\<close>, \<^verbatim>\<open>GroupExamples\<close>, \<^verbatim>\<open>BrokerExamples\<close>, \<^verbatim>\<open>ServerExamples\<close>: concrete states at which
    the theorems are applied.

  \<^bold>\<open>What is shown.\<close>
  \<^item> The log (C1 to C5, C7, C9): appending and reading refine a list of batches under every
    fault of the disk; acknowledged records stay; opening after a crash restores exactly
    the complete batches; with a working disk operations succeed; any corrupted byte of a
    record outside its length fields is noticed.
  \<^item> Formats (C6, C10 to C12, C29): decoding inverts encoding for batches, requests,
    responses and retry envelopes, and for streams cut anywhere.
  \<^item> Groups (C13 to C19, C32): in every reachable state the partitions are divided among the
    members exactly, a generation means one assignment, and time-outs are exact; an
    identity can however be handed out twice.
  \<^item> The broker (C20 to C30, C33, C34): end-to-end durability and progress of produce and
    fetch, atomic creation of topics and their recovery, routing, the form of replies,
    committed offsets, retries, dead letters and their timing, the configuration.
  \<^item> The server (C35 to C39): responses in the order of requests under every interleaving, an
    arriving request is answered, the worker pool loses no task and no wakeup, event
    loops run queued functors, output buffers keep every byte.
  \<^item> The executable (C31): from every state that a started broker can reach, a stop request
    leads to the return of \<^verbatim>\<open>main\<close>: its threads cannot run for ever, by a measure that each of their
    steps lowers, and cannot get stuck on a lost wakeup or in a join.
  \<^item> The client (C8, C40): polls deliver unbroken runs of offsets and lose none when they
    fail, requests and responses do not get out of step. \<^verbatim>\<open>CommandLine\<close> shows that the tool
    sends the request its arguments describe and what its exit status means.

  \<^bold>\<open>Not modelled.\<close> Moves, which copy, and destructors that only repeat \<^verbatim>\<open>Close\<close>; the text of
  the two usage messages; tests and benchmarks. In \<^verbatim>\<open>BrokerMain\<close> the thread of a pool loop may end
  once the loop was told to quit, what it does before is that of \<^verbatim>\<open>ServerRun\<close>; the pollers of a
  start have no scripted failures, as the code ignores them (see \<open>unwatched_stuck\<close>).
  Requests that two workers handle at the same time are taken one after the other; a crash is
  modelled as a torn last write, not as writes that reach the disk out of order; memory
  exhaustion and file sizes of $2^{63}$ bytes do not occur.
\<close>

section \<open>The partition log\<close>

text \<open>
  C1. \<^verbatim>\<open>CommitLog::Append\<close> refines the append of one batch to a list of batches, whatever
  the system calls do. From a log that represents a list of batches, every call leaves a
  log that represents a list again: if the call succeeds, the list has grown by exactly
  the new records under the old next offset, which is the offset that is returned; if it
  fails, at whatever point, the list and the next offset are the old ones.
\<close>

theorem append_refines:
  assumes "log_rep st first S" and "in_memory rs"
  shows "\<exists>S'. log_rep (snd (CommitLog_Append rs st)) first S' \<and>
    (case fst (CommitLog_Append rs st) of
       Inl e \<Rightarrow> log_batches S' = log_batches S \<and>
         cl_next_offset (fst (snd (CommitLog_Append rs st))) = cl_next_offset (fst st)
     | Inr a \<Rightarrow> log_batches S' = log_batches S @ [(cl_next_offset (fst st), rs)] \<and>
         cl_next_offset (fst (snd (CommitLog_Append rs st))) =
           cl_next_offset (fst st) + int (length rs) \<and>
         ar_base_offset a = cl_next_offset (fst st))"
proof -
  obtain cl d where st: "st = (cl, d)" by (cases st)
  obtain r cl' d' where run: "CommitLog_Append rs (cl, d) = (r, (cl', d'))"
    by (cases "CommitLog_Append rs (cl, d)") auto
  from CommitLog_Append_refines [OF assms [unfolded st] run] show ?thesis unfolding st run prod.sel by blast
qed

theorem append_refines_witness:
  "\<exists>S'. log_rep (snd (CommitLog_Append [demo_record] (demo_log, demo_disk))) 0 S' \<and>
    (case fst (CommitLog_Append [demo_record] (demo_log, demo_disk)) of
       Inl e \<Rightarrow> log_batches S' = [] | Inr a \<Rightarrow> log_batches S' = [(0, [demo_record])])"
proof -
  have "log_rep (demo_log, demo_disk) 0 [(0, [])]" by (rule log_rep_demo) (simp add: demo_disk_def)
  from append_refines [OF this demo_batch(2)] show ?thesis
    by (auto simp: demo_log_def split: sum.splits)
qed

text \<open>
  C2. \<^verbatim>\<open>CommitLog::Read\<close> of an offset between the first and the next offset returns the
  batch that holds the offset, whatever index entries exist and whatever the system calls
  do; otherwise it reports an I/O error, or an invalid argument because a batch at or
  before the offset is larger than \<^verbatim>\<open>max_bytes\<close>. The log is left as it was.
\<close>

theorem read_refines:
  assumes "log_rep (cl, d) first S" and "first \<le> offset" "offset < cl_next_offset cl"
  shows "(\<exists>d'. snd (CommitLog_Read offset max_bytes (cl, d)) = (cl, d') \<and> log_rep (cl, d') first S) \<and>
    (case fst (CommitLog_Read offset max_bytes (cl, d)) of
       Inl e \<Rightarrow> st_code e = kIoError \<or>
         st_code e = kInvalidArgument \<and> (\<exists>(c, rs) \<in> set (log_batches S).
            c \<le> offset \<and> max_bytes < length (batch_bytes c rs))
     | Inr v \<Rightarrow> \<exists>(c, rs) \<in> set (log_batches S). holds_offset offset (c, rs) \<and> v = mk_batch c rs)"
proof -
  obtain r cl' d' where run: "CommitLog_Read offset max_bytes (cl, d) = (r, (cl', d'))"
    by (cases "CommitLog_Read offset max_bytes (cl, d)") auto
  from CommitLog_Read_refines [OF assms run] show ?thesis by (auto simp: run)
qed

text \<open>The witness reads the log that an open after a crash restored.\<close>

theorem read_refines_witness:
  "\<exists>cl d. log_rep (cl, d) 0 crash_log \<and> cl_next_offset cl = 1 \<and>
     (case fst (CommitLog_Read 0 4096 (cl, d)) of
        Inl e \<Rightarrow> st_code e = kIoError | Inr v \<Rightarrow> v = mk_batch 0 [demo_record])"
proof -
  from CommitLog_Open_recovers [OF _ _ crash_disk_ok(1,2) _ _ crash_disk_ok(3,4)] obtain cl d where
    "log_rep (cl, d) 0 crash_log" "cl_next_offset cl = 1"
    by (auto simp: demo_opts_def crash_log_def kRecordBatchHeaderBytes_def)
  with read_refines [of cl d 0 crash_log 0 4096] show ?thesis
    by (intro exI [of _ cl] exI [of _ d])
      (auto simp: crash_log_def EncodedRecordSize_def kRecordHeaderBytes_def
        kRecordBatchHeaderBytes_def demo_record_def split: sum.splits)
qed

text \<open>
  C3. Durability of the log, for every sequence of operations: after an append returned an
  offset, and after any further appends and reads, successful or not, under any system
  call outcomes, a successful read of an offset the append covered returns exactly the
  batch of that append.
\<close>

theorem append_durable:
  assumes "log_rep st first S" and "in_memory rs"
    and "CommitLog_Append rs st = (Inr a, st1)"
    and "list_all clog.op_fits ops" and "i < length rs"
    and "CommitLog_Read (ar_base_offset a + int i) max_bytes (fold clog.step ops st1) = (Inr v, st2)"
  shows "v = mk_batch (ar_base_offset a) rs"
  using clog.durable [OF _ assms(2-6), of first "log_batches S" "cl_next_offset (fst st)"] assms(1)
  by (auto simp: commit_log_rep_def)

theorem append_durable_witness:
  "\<exists>a st1 v st2. CommitLog_Append [demo_record] (demo_log, ready_disk) = (Inr a, st1) \<and>
     CommitLog_Read 0 4096 st1 = (Inr v, st2) \<and> v = mk_batch 0 [demo_record]"
proof -
  from CommitLog_Append_ok [OF ready_disk_ok(2), unfolded demo_log_fields, OF ready_disk_ok(1)
      demo_batch] obtain a cl1 d1 where
    ap: "CommitLog_Append [demo_record] (demo_log, ready_disk) = (Inr a, (cl1, d1))"
    "disk_ready (cl_options cl1) d1" by (auto simp: demo_log_fields)
  from CommitLog_Append_refines [OF ready_disk_ok(2) demo_batch(2) ap(1)] obtain S1 where
    rep: "log_rep (cl1, d1) 0 S1" "log_batches S1 = [(0, [demo_record])]" "cl_next_offset cl1 = 1"
    "ar_base_offset a = 0" by (auto simp: demo_log_fields)
  then obtain v where rd: "CommitLog_Read 0 4096 (cl1, d1) = (Inr v, (cl1, d1))"
    using CommitLog_Read_ok [OF rep(1), of 0 4096] ap(2)
    by (auto simp: disk_ready_def EncodedRecordSize_def kRecordHeaderBytes_def
        kRecordBatchHeaderBytes_def demo_record_def)
  with append_durable [OF ready_disk_ok(2) demo_batch(2) ap(1), of "[]" 0 4096 v "(cl1, d1)"] ap rep
  show ?thesis by auto
qed

text \<open>
  C4. Progress of the log: when the system calls succeed, an append of records that fit
  the format and the offset range succeeds, also when it has to roll to a new segment,
  and the disk is ready for the next one.
\<close>

theorem append_succeeds:
  assumes "log_rep (cl, d) first S" and "disk_ready (cl_options cl) d"
    and "batch_ok rs" and "in_memory rs" and "int (length rs) \<le> i64_max - cl_next_offset cl"
  shows "\<exists>a cl' d'. CommitLog_Append rs (cl, d) = (Inr a, (cl', d')) \<and> disk_ready (cl_options cl') d'"
  using CommitLog_Append_ok [OF assms] by metis

theorem append_succeeds_witness:
  "\<exists>a cl' d'. CommitLog_Append [demo_record] (demo_log, ready_disk) = (Inr a, (cl', d')) \<and>
     disk_ready (cl_options cl') d'"
  using append_succeeds [OF ready_disk_ok(2), of "[demo_record]"] ready_disk_ok(1) demo_batch
  by (simp add: demo_log_fields)



section \<open>Records, batches and files\<close>

text \<open>
  C6. A batch that \<^verbatim>\<open>MakeRecordBatch\<close> builds is encoded by \<^verbatim>\<open>EncodeRecordBatch\<close> into
  bytes whose header announces their number, and which \<^verbatim>\<open>DecodeRecordBatch\<close> maps back
  to the batch, whatever bytes follow in the file.
\<close>

theorem batch_roundtrip:
  assumes "MakeRecordBatch base rs = Inr b" and "in_memory rs" and "base \<le> i64_max"
  shows "\<exists>bytes. EncodeRecordBatch b = Inr bytes \<and>
    PeekRecordBatchBytes (bytes @ rest) = Inr (word_of_nat (length bytes)) \<and>
    DecodeRecordBatch (bytes @ rest) = Inr b"
proof -
  from MakeRecordBatch_Inr [OF assms(1)] assms(2) have b: "0 \<le> base" "batch_fits rs" "b = mk_batch base rs"
    by (simp_all add: in_memory_def)
  with assms(3) have "is_i64 base" by (simp add: is_i64_def)
  with b show ?thesis
    using EncodeRecordBatch_mk_batch [OF b(1,2)] PeekRecordBatchBytes_batch_bytes [OF b(2)]
      DecodeRecordBatch_batch_bytes [OF b(1) _ b(2)] by simp
qed

theorem batch_roundtrip_witness:
  "\<exists>b bytes. MakeRecordBatch 3 [demo_record] = Inr b \<and> EncodeRecordBatch b = Inr bytes \<and>
    DecodeRecordBatch (bytes @ ''tail'') = Inr b"
proof -
  have "MakeRecordBatch 3 [demo_record] = Inr (mk_batch 3 [demo_record])"
    using demo_batch(1) by (intro MakeRecordBatch_fits) (simp_all add: batch_ok_def)
  with batch_roundtrip [OF this demo_batch(2)] show ?thesis by auto
qed

text \<open>
  C7. A record that decodes no longer decodes after one of its bytes outside the two length
  fields was changed to any other value: the checksum reports it.
\<close>

theorem record_corruption_detected:
  assumes "DecodeRecord data = Inr decoded"
    and "i < 8 \<or> (16 \<le> i \<and> i < dec_bytes_consumed decoded)" and "b \<noteq> data ! i"
  shows "DecodeRecord (data[i := b]) = Inl (Corruption ''record crc mismatch'')"
  using DecodeRecord_flip [OF assms] .

theorem record_corruption_detected_witness:
  "DecodeRecord ((record_bytes demo_record)[20 := CHR ''x'']) =
     Inl (Corruption ''record crc mismatch'')"
proof -
  have fits: "record_fits demo_record" by (simp add: record_fits_def demo_record_def)
  have "record_bytes demo_record ! 20 = CHR ''k''"
    by (simp add: record_bytes_def demo_record_def nth_append)
  with record_corruption_detected [OF DecodeRecord_record_bytes [OF fits, of "[]", simplified append_Nil2],
      of 20 "CHR ''x''"]
  show ?thesis by (simp add: EncodedRecordSize_def kRecordHeaderBytes_def demo_record_def)
qed

text \<open>
  \<^verbatim>\<open>File::PWrite\<close> inside the file, under every pattern of interrupts, short writes and
  failures: it returns, no other file changes, the file holds the old content overwritten
  by some prefix of the data, and by all of it when the call reports success.
\<close>

lemma pwrite_prefix:
  assumes "off \<le> length (d_content d (f_path f))"
  shows "same_except (f_path f) d (snd (File_PWrite f data off d)) \<and>
    (\<exists>k\<le>length data.
       d_content (snd (File_PWrite f data off d)) (f_path f) =
         overwrite (d_content d (f_path f)) off (take k data) \<and>
       (fst (File_PWrite f data off d) = Inr () \<longrightarrow> k = length data))"
  using File_PWrite_spec [OF _ assms, of data "fst (File_PWrite f data off d)"
      "snd (File_PWrite f data off d)"] by auto

text \<open>
  C9. \<^verbatim>\<open>OffsetIndex::FindFloor\<close> on an index whose entries are increasing: it returns the
  entry with the greatest offset that is not above the one asked for, and finds none only
  if all entries are above it. \<^verbatim>\<open>MaybeAppend\<close> keeps the entries increasing, whatever it
  is offered.
\<close>

theorem index_floor:
  assumes "index_ok ix"
  shows "(case FindFloor ix off of
      Inl s \<Rightarrow> \<forall>e \<in> set (ix_entries ix). off < ie_offset e
    | Inr e \<Rightarrow> e \<in> set (ix_entries ix) \<and> ie_offset e \<le> off \<and>
        (\<forall>e' \<in> set (ix_entries ix). ie_offset e' \<le> off \<longrightarrow> ie_offset e' \<le> ie_offset e)) \<and>
    index_ok (snd (MaybeAppend o' p ix))"
  using FindFloor_Inl [OF assms] FindFloor_Inr [OF assms]
    index_ok_MaybeAppend [OF assms, of o' p "fst (MaybeAppend o' p ix)" "snd (MaybeAppend o' p ix)"]
  by (auto split: sum.splits)

theorem index_floor_witness:
  "FindFloor (snd (MaybeAppend 9 300 (snd (MaybeAppend 5 0 (mk_OffsetIndex [''i''] 5 100))))) 8 =
     Inr \<lparr>ie_offset = 5, ie_position = 0\<rparr> \<and>
   index_ok (snd (MaybeAppend 9 300 (snd (MaybeAppend 5 0 (mk_OffsetIndex [''i''] 5 100)))))"
proof -
  have "index_ok (snd (MaybeAppend 5 0 (mk_OffsetIndex [''i''] 5 100)))"
    using index_floor [OF index_ok_mk [of 5 "[''i'']" 100], of 0 5 0] by simp
  from index_floor [OF this, of 0 9 300] show ?thesis
    by (simp add: MaybeAppend_def mk_OffsetIndex_def FindFloor_def upper_bound_def)
qed

section \<open>The protocol\<close>

text \<open>
  C10. Every request that \<^verbatim>\<open>EncodeRequest\<close> accepts is decoded by \<^verbatim>\<open>DecodeRequest\<close> to the
  request itself; only the retry metadata of produced records is not transmitted.
\<close>

theorem request_roundtrip:
  assumes "EncodeRequest request = Inr frame" and "request_typed (rqe_body request)"
  shows "DecodeRequest frame = Inr (wire_request_envelope request)"
  using DecodeRequest_EncodeRequest [OF assms] .

theorem request_roundtrip_witness:
  "\<exists>frame. EncodeRequest demo_fetch = Inr frame \<and> DecodeRequest frame = Inr demo_fetch"
  using request_roundtrip [OF _ demo_requests_encode(3)] demo_requests_encode(1)
  by (auto simp: wire_request_envelope_def wire_request_def demo_fetch_def)

text \<open>
  C11. Every response that \<^verbatim>\<open>EncodeResponse\<close> accepts is decoded by \<^verbatim>\<open>DecodeResponse\<close> to
  the response itself: with its payload if it reports success (records keep their retry
  metadata under protocol version 2), with the empty payload of its api key otherwise.
\<close>

theorem response_roundtrip:
  assumes "EncodeResponse response = Inr frame" and "response_typed (rse_body response)"
  shows "DecodeResponse frame = Inr (wire_response_envelope response)"
  using DecodeResponse_EncodeResponse [OF assms] .

theorem response_roundtrip_witness:
  "\<exists>frame. EncodeResponse demo_response = Inr frame \<and> DecodeResponse frame = Inr demo_response"
  using response_roundtrip [OF _ demo_response_encodes(2)] demo_response_encodes(1)
  by (auto simp: wire_response_envelope_def wire_response_def wire_record_def demo_response_def
      kRetryProtocolVersion_def)

text \<open>
  C12. The stream decoder is insensitive to chunk boundaries: however the concatenation of
  encoded requests is cut into chunks, feeding the chunks to a fresh
  \<^verbatim>\<open>FrameDecoder\<close> yields these requests in order, none twice and none lost, and leaves
  its buffer empty.
\<close>

theorem stream_decoding:
  assumes "list_all2 (\<lambda>q f. EncodeRequest q = Inr f \<and> request_typed (rqe_body q)) requests frames"
    and "concat chunks = concat frames" and "chunks \<noteq> []"
  shows "push_all chunks (mk_FrameDecoder kMaxFrameBytes) =
    (Inr (map wire_request_envelope requests), mk_FrameDecoder kMaxFrameBytes)"
  using push_all_concat [of "mk_FrameDecoder kMaxFrameBytes" chunks] assms(2,3)
    push_loop_frames [OF assms(1), of kMaxFrameBytes "[]"]
  by (simp add: mk_FrameDecoder_def kMaxFrameBytes_def kFrameHeaderBytes_def)

theorem stream_decoding_witness:
  "\<exists>f g. EncodeRequest demo_fetch = Inr f \<and> EncodeRequest demo_leave = Inr g \<and>
     fst (push_all [take 3 (f @ g), drop 3 (f @ g)] (mk_FrameDecoder kMaxFrameBytes)) =
       Inr [demo_fetch, demo_leave]"
proof -
  from demo_requests_encode obtain f g where
    fg: "EncodeRequest demo_fetch = Inr f" "EncodeRequest demo_leave = Inr g" by blast
  have wire: "wire_request_envelope demo_fetch = demo_fetch" "wire_request_envelope demo_leave = demo_leave"
    by (simp_all add: wire_request_envelope_def wire_request_def demo_fetch_def demo_leave_def)
  have "push_all [take 3 (f @ g), drop 3 (f @ g)] (mk_FrameDecoder kMaxFrameBytes) =
      (Inr (map wire_request_envelope [demo_fetch, demo_leave]), mk_FrameDecoder kMaxFrameBytes)"
    by (rule stream_decoding [of _ "[f, g]"]) (use fg demo_requests_encode(3,4) in \<open>simp_all del: take_append drop_append\<close>)
  with fg show ?thesis unfolding list.map wire by (metis fst_conv)
qed

section \<open>Consumer groups\<close>

text \<open>
  C13. In every reachable state of the coordinator, under any interleaving of requests and
  scanner passes, the members of a group together own every partition of the topic, in
  order and each exactly once, and no member owns more than one partition more than
  another. (Up to the last generation of the 32 bit counter, and for at most $2^{31}$
  partitions, beyond which a partition id is negative.)
\<close>

theorem group_coverage:
  assumes "gc_reachable timeout gc" "stdmap_find gid (gc_groups gc) = Some g"
    "gs_generation_id g < i32_max" "gs_members g \<noteq> []"
    "length (gs_members g) \<le> u32_max" "unat (gs_partition_count g) \<le> 2 ^ 31"
  shows "owned g = map int [0..<unat (gs_partition_count g)] \<and>
    (\<forall>(k, a) \<in> set (members_view g).
       length (pa_partition_ids a) = unat (gs_partition_count g) div length (gs_members g) \<or>
       length (pa_partition_ids a) = Suc (unat (gs_partition_count g) div length (gs_members g)))"
proof -
  have g: "group_inv gid g" using gc_reachable_inv [OF assms(1)] assms(2) by (rule gc_invD)
  then have assigned: "group_assigned g" using assms(3) by (simp add: group_inv_def settled_def)
  have "pa_partition_ids a \<in> set (map (member_share (gs_partition_count g) (length (gs_members g)))
      [0..<length (gs_members g)])" if "(k, a) \<in> set (members_view g)" for k a
    unfolding group_assigned_ids [OF assigned, symmetric] using that by force
  then show ?thesis using owned_all [OF g assms(3-6)] assms(5) by (fastforce simp: length_member_share)
qed

theorem group_coverage_witness:
  "owned demo_group2 = [0, 1, 2] \<and> members_view demo_group2 \<noteq> []"
proof -
  have "owned demo_group2 = map int [0..<unat (gs_partition_count demo_group2)]"
    by (rule group_coverage [OF demo_gc2_reachable demo_gc2_find, THEN conjunct1])
      (simp_all add: demo_group2_def)
  then show ?thesis by (simp add: demo_group2_def upt_rec)
qed

text \<open>
  C14. Exclusive consumption: two different members of a group whose \<^verbatim>\<open>SyncGroup\<close> calls succeed
  one after the other are told disjoint sets of partitions.
\<close>

theorem group_exclusive:
  assumes "gc_reachable timeout gc"
    and "SyncGroup now1 r1 gc = (Inr s1, gc1)" and "SyncGroup now2 r2 gc1 = (Inr s2, gc2)"
    and "sgq_group_id r1 = sgq_group_id r2" "sgq_member_id r1 \<noteq> sgq_member_id r2"
    and "stdmap_find (sgq_group_id r1) (gc_groups gc) = Some g"
      "gs_generation_id g < i32_max" "length (gs_members g) \<le> u32_max"
      "unat (gs_partition_count g) \<le> 2 ^ 31"
  shows "set (pa_partition_ids (sgs_assignment s1)) \<inter> set (pa_partition_ids (sgs_assignment s2)) = {}"
proof -
  have inv: "gc_inv gc" using assms(1) by (rule gc_reachable_inv)
  have g: "group_inv (sgq_group_id r1) g" using inv assms(6) by (rule gc_invD)
  from assms(2) obtain g0 m1 where "stdmap_find (sgq_group_id r1) (gc_groups gc) = Some g0"
    "stdmap_find (sgq_member_id r1) (gs_members g0) = Some m1" "sgs_assignment s1 = ms_assignment m1"
    "gc1 = set_group (sgq_group_id r1) (g0\<lparr>gs_members := stdmap_insert (sgq_member_id r1)
       (m1\<lparr>ms_last_heartbeat := now1\<rparr>) (gs_members g0)\<rparr>) gc" by (rule SyncGroup_InrE)
  with assms(6) have
    m1: "stdmap_find (sgq_member_id r1) (gs_members g) = Some m1" "sgs_assignment s1 = ms_assignment m1"
      "gc1 = set_group (sgq_group_id r1) (g\<lparr>gs_members := stdmap_insert (sgq_member_id r1)
         (m1\<lparr>ms_last_heartbeat := now1\<rparr>) (gs_members g)\<rparr>) gc" by simp_all
  from assms(3) obtain g' m2 where
    m2: "stdmap_find (sgq_group_id r2) (gc_groups gc1) = Some g'"
      "stdmap_find (sgq_member_id r2) (gs_members g') = Some m2" "sgs_assignment s2 = ms_assignment m2"
    by (rule SyncGroup_InrE)
  from m2(1) m1(3) inv assms(4) have g': "g' = g\<lparr>gs_members := stdmap_insert (sgq_member_id r1)
      (m1\<lparr>ms_last_heartbeat := now1\<rparr>) (gs_members g)\<rparr>"
    by (simp add: set_group_def gc_inv_def stdm.find_insert)
  have "stdmap_find (sgq_member_id r2) (gs_members g) = Some m2"
    using m2(2) assms(5) g by (simp add: g' group_inv_def stdm.find_insert)
  from owned_disjoint [OF g assms(7-9) m1(1) this assms(5)] m1(2) m2(3) show ?thesis by simp
qed

theorem group_exclusive_witness:
  "\<exists>s1 s2. fst (SyncGroup 2 (demo_sync ''member-1'') demo_gc2) = Inr s1 \<and>
     fst (SyncGroup 3 (demo_sync ''member-2'') (snd (SyncGroup 2 (demo_sync ''member-1'') demo_gc2))) = Inr s2 \<and>
     set (pa_partition_ids (sgs_assignment s1)) \<inter> set (pa_partition_ids (sgs_assignment s2)) = {}"
proof -
  obtain gc1 where one: "SyncGroup 2 (demo_sync ''member-1'') demo_gc2 = (Inr demo_synced1, gc1)"
    using demo_syncs(1) by (metis prod.collapse)
  obtain gc2 where two: "SyncGroup 3 (demo_sync ''member-2'') gc1 = (Inr demo_synced2, gc2)"
    using demo_syncs(2) one by (metis prod.collapse snd_conv)
  have "set (pa_partition_ids (sgs_assignment demo_synced1)) \<inter>
      set (pa_partition_ids (sgs_assignment demo_synced2)) = {}"
    by (rule group_exclusive [OF demo_gc2_reachable one two, of demo_group2])
      (simp_all add: demo_sync_def demo_gc2_find, simp_all add: demo_group2_def)
  with one two show ?thesis by simp
qed

text \<open>
  C15. A generation means one assignment: no step of the coordinator changes the topic or the
  partition count of a group or lowers its generation, and a step that keeps the
  generation keeps the leader, the members and every assignment.
\<close>

theorem generation_fencing:
  assumes "gc_reachable timeout gc" "gc_step gc gc'"
    and "stdmap_find gid (gc_groups gc) = Some g" "stdmap_find gid (gc_groups gc') = Some g'"
  shows "gs_topic g' = gs_topic g \<and> gs_partition_count g' = gs_partition_count g \<and>
    gs_generation_id g \<le> gs_generation_id g' \<and>
    (gs_generation_id g' = gs_generation_id g \<and> gs_generation_id g < i32_max \<longrightarrow>
       members_view g' = members_view g \<and> gs_leader_id g' = gs_leader_id g)"
  using gc_step_good [OF assms(2) gc_reachable_inv [OF assms(1)]] assms(3,4)
  by (simp add: good_step_def gc_evolves_def group_evolves_def)

theorem generation_fencing_witness:
  "\<exists>g'. stdmap_find ''g'' (gc_groups (snd (SyncGroup 2 (demo_sync ''member-1'') demo_gc2))) = Some g' \<and>
     2 \<le> gs_generation_id g'"
proof -
  obtain g' where g': "stdmap_find ''g'' (gc_groups (snd (SyncGroup 2 (demo_sync ''member-1'') demo_gc2))) = Some g'"
    using demo_syncs(3) by blast
  from generation_fencing [OF demo_gc2_reachable gc_step.sync demo_gc2_find g'] g' show ?thesis
    by (auto simp: demo_group2_def)
qed

text \<open>
  C16. A consumer that joins without an identity gets a member id that no current member of the
  group has, the group moves to the next generation, and the consumer is a member of it.
\<close>

theorem join_fresh_member:
  assumes "gc_reachable timeout gc" "jgq_member_id request = []"
    and "fst (JoinGroup now request partition_count gc) = Inr response"
  shows "\<exists>g'. stdmap_find (jgq_group_id request)
           (gc_groups (snd (JoinGroup now request partition_count gc))) = Some g' \<and>
         stdmap_find (jgs_member_id response) (gs_members g') \<noteq> None \<and>
         gs_generation_id g' = jgs_generation_id response \<and> 0 < gs_generation_id g' \<and>
         (case stdmap_find (jgq_group_id request) (gc_groups gc) of
            None \<Rightarrow> gs_generation_id g' = 1
          | Some g \<Rightarrow> stdmap_find (jgs_member_id response) (gs_members g) = None \<and>
              gs_generation_id g' = gs_generation_id g + 1)"
  using JoinGroup_fresh_member [OF gc_reachable_inv [OF assms(1)] assms(2,3)] .

theorem join_fresh_member_witness:
  "\<exists>response. fst (JoinGroup 1 demo_join 3 demo_gc1) = Inr response \<and>
     (\<exists>g'. stdmap_find ''g'' (gc_groups (snd (JoinGroup 1 demo_join 3 demo_gc1))) = Some g' \<and>
        gs_generation_id g' = jgs_generation_id response \<and> 0 < gs_generation_id g')"
proof -
  obtain response where r: "fst (JoinGroup 1 demo_join 3 demo_gc1) = Inr response"
    using demo_second_join by blast
  have "jgq_member_id demo_join = []" by (simp add: demo_join_def)
  from join_fresh_member [OF demo_gc1_reachable this r] r show ?thesis
    by (auto simp: demo_join_def)
qed

text \<open>
  C17. A pass of the timeout scanner removes exactly the members whose last heartbeat is older
  than the session timeout: a group survives if and only if one of its members is alive,
  and then its members are the living ones.
\<close>

theorem expiry_exact:
  fixes now :: int
  assumes "gc_reachable timeout gc" "stdmap_find gid (gc_groups gc) = Some g" "gs_members g \<noteq> []"
  defines "alive \<equiv> filter (\<lambda>(_, m). now - ms_last_heartbeat m \<le> gc_session_timeout gc * 1000000) (gs_members g)"
  shows "case stdmap_find gid (gc_groups (ExpireTimedOutMembers now gc)) of
      None \<Rightarrow> alive = []
    | Some g' \<Rightarrow> alive \<noteq> [] \<and> map fst (gs_members g') = map fst alive"
proof -
  have "stdmap_ok (gc_groups gc)" using gc_reachable_inv [OF assms(1)] by (simp add: gc_inv_def)
  then have "stdmap_find gid (gc_groups (ExpireTimedOutMembers now gc)) =
      expire_group (gc_session_timeout gc) now g"
    using assms(2) by (simp add: ExpireTimedOutMembers_def stdmap_find_filter_map)
  with expire_group_members [OF assms(3), of now "gc_session_timeout gc"] show ?thesis
    by (simp only: alive_def)
qed

theorem expiry_exact_witness:
  "case stdmap_find ''g'' (gc_groups (ExpireTimedOutMembers 10000000001 demo_gc2)) of
      None \<Rightarrow> False | Some g' \<Rightarrow> map fst (gs_members g') = [''member-2'']"
  using expiry_exact [OF demo_gc2_reachable demo_gc2_find, of 10000000001] demo_gc2_timeout
  by (simp add: demo_group2_def split: option.splits)

text \<open>
  C18. \<^verbatim>\<open>Heartbeat\<close> accepts exactly the members of the current generation: a call succeeds if and
  only if the names are well formed, the group and the member exist and the generation is
  the positive current one; a refused call changes nothing.
\<close>

theorem heartbeat_accepts:
  "(snd (Heartbeat now request gc) = gc \<or> (\<exists>response. fst (Heartbeat now request gc) = Inr response)) \<and>
   ((\<exists>response. fst (Heartbeat now request gc) = Inr response) \<longleftrightarrow>
   Status_ok (ValidateGroupId (hbq_group_id request)) \<and>
   Status_ok (ValidateMemberId (hbq_member_id request)) \<and> 0 < hbq_generation_id request \<and>
   (\<exists>g. stdmap_find (hbq_group_id request) (gc_groups gc) = Some g \<and>
        stdmap_find (hbq_member_id request) (gs_members g) \<noteq> None \<and>
        gs_generation_id g = hbq_generation_id request))"
  by (auto simp: Heartbeat_def touch_member_def sbind_def Let_def split: option.splits)


end
